(* ===== verification/Prelude.thy ===== *)
theory Prelude
  imports Complex_Main "HOL-Library.AList"
begin

text \<open>
  Shared vocabulary of the development: Python errors as values, the \<open>decimal.Decimal\<close>
  arithmetic of the money and feature code (28 significant digits, ROUND_HALF_EVEN, the
  default context of the standard library), the rounding modes of \<open>quantize\<close>, aware
  timestamps, ASCII string normalisation and insertion-ordered dictionaries.
\<close>

section \<open>Collections of proof hints\<close>

named_theorems model_defs \<open>definitions a component's proofs unfold together\<close>
named_theorems dec_simps \<open>facts about Decimal rounding\<close>
named_theorems dict_simps \<open>facts about insertion-ordered dictionaries\<close>

section \<open>Exceptions as values\<close>

datatype pyerr =
    ValueError string
  | TypeError string
  | RuntimeError string
  | LookupFailure string
  | AssertionFailure string
  | InvalidOperation
  | Raised string string

type_synonym 'a res = "pyerr + 'a"

definition is_ok :: "'a res \<Rightarrow> bool" where
  "is_ok r = (case r of Inl _ \<Rightarrow> False | Inr _ \<Rightarrow> True)"

definition is_err :: "'a res \<Rightarrow> bool" where
  "is_err r = (case r of Inl _ \<Rightarrow> True | Inr _ \<Rightarrow> False)"

lemma is_ok_simps [simp]: "is_ok (Inr x)" "\<not> is_ok (Inl e)"
  by (simp_all add: is_ok_def)

lemma is_err_simps [simp]: "is_err (Inl e)" "\<not> is_err (Inr x)"
  by (simp_all add: is_err_def)

lemma is_err_iff: "is_err r \<longleftrightarrow> \<not> is_ok r"
  by (cases r) auto

lemma is_ok_iff: "is_ok r \<longleftrightarrow> (\<exists>x. r = Inr x)"
  by (cases r) auto

fun rbind :: "'a res \<Rightarrow> ('a \<Rightarrow> 'b res) \<Rightarrow> 'b res" where
  "rbind (Inl e) f = Inl e"
| "rbind (Inr x) f = f x"

lemma rbind_Inr_iff: "rbind r f = Inr y \<longleftrightarrow> (\<exists>x. r = Inr x \<and> f x = Inr y)"
  by (cases r) auto

lemma rbind_Inl_iff: "rbind r f = Inl e \<longleftrightarrow> r = Inl e \<or> (\<exists>x. r = Inr x \<and> f x = Inl e)"
  by (cases r) auto

text \<open>\<open>require b e\<close> is the guard \<open>if not b: raise e\<close>.\<close>

definition require :: "bool \<Rightarrow> pyerr \<Rightarrow> unit res" where
  "require b e = (if b then Inr () else Inl e)"

lemma require_Inr [simp]: "require b e = Inr u \<longleftrightarrow> b"
  by (simp add: require_def)

lemma rbind_require: "rbind (require b e) f = (if b then f () else Inl e)"
  by (simp add: require_def)

text \<open>
  A sequence of fallible steps returns exactly when every step does: the facts the proofs use
  instead of splitting each \<open>case\<close>.
\<close>

named_theorems res_simps \<open>when a chain of fallible steps returns\<close>

lemma case_res_Inr [res_simps]:
  "(case r of Inl e \<Rightarrow> Inl (g e) | Inr x \<Rightarrow> f x) = Inr y \<longleftrightarrow> (\<exists>x. r = Inr x \<and> f x = Inr y)"
  by (cases r) auto

lemma if_Inl_Inr [res_simps]: "(if b then Inl e else f) = Inr y \<longleftrightarrow> \<not> b \<and> f = Inr y"
  by simp

lemma if_Inr_Inl [res_simps]: "(if b then f else Inl e) = Inr y \<longleftrightarrow> b \<and> f = Inr y"
  by simp

text \<open>A loop that builds a list and stops at the first error.\<close>

fun rmap :: "('a \<Rightarrow> 'b res) \<Rightarrow> 'a list \<Rightarrow> 'b list res" where
  "rmap f [] = Inr []"
| "rmap f (x # xs) =
     (case f x of Inl e \<Rightarrow> Inl e
      | Inr y \<Rightarrow> (case rmap f xs of Inl e \<Rightarrow> Inl e | Inr ys \<Rightarrow> Inr (y # ys)))"

lemma rmap_ok: "(\<And>x. x \<in> set xs \<Longrightarrow> f x = Inr (g x)) \<Longrightarrow> rmap f xs = Inr (map g xs)"
  by (induction xs) auto

lemma distinct_map_fst_zip: "distinct (map f xs) \<Longrightarrow> distinct (map (f \<circ> fst) (zip xs ys))"
  using distinct_take [of "map f xs" "min (length xs) (length ys)"]
  by (simp add: map_fst_zip_take take_map flip: map_map)

section \<open>Decimal arithmetic\<close>

text \<open>
  A finite \<open>Decimal\<close> is its rational value (the code never observes trailing zeros of
  a value except through the canonical string encoding). Results of \<open>/\<close> and \<open>*\<close> are
  rounded by the default context to 28 significant digits, ties to even: \<open>round28\<close>.
\<close>

function ndigits :: "int \<Rightarrow> nat" where
  "ndigits n = (if n < 10 then 1 else Suc (ndigits (n div 10)))"
  by pat_completeness auto
termination
  by (relation "measure nat") auto

declare ndigits.simps [simp del]

definition round_half_even :: "rat \<Rightarrow> int" where
  "round_half_even x =
     (let f = \<lfloor>x\<rfloor>; r = x - of_int f
      in if r < 1 / 2 then f
         else if r > 1 / 2 then f + 1
         else if even f then f else f + 1)"

definition dec_scale :: "rat \<Rightarrow> int" where
  "dec_scale x =
     (let (p, q) = quotient_of \<bar>x\<bar>;
          k = 28 - int (ndigits p) + int (ndigits q)
      in if \<bar>x\<bar> * 10 powi k \<ge> 10 ^ 28 then k - 1 else k)"

definition round28 :: "rat \<Rightarrow> rat" where
  "round28 x =
     (if x = 0 then 0
      else (let k = dec_scale x in of_int (round_half_even (x * 10 powi k)) / 10 powi k))"

definition dec_mul :: "rat \<Rightarrow> rat \<Rightarrow> rat" where
  "dec_mul a b = round28 (a * b)"

definition dec_add :: "rat \<Rightarrow> rat \<Rightarrow> rat" where
  "dec_add a b = round28 (a + b)"

definition dec_sub :: "rat \<Rightarrow> rat \<Rightarrow> rat" where
  "dec_sub a b = round28 (a - b)"

definition dec_div :: "rat \<Rightarrow> rat \<Rightarrow> rat" where
  "dec_div a b = round28 (a / b)"

text \<open>The values the context leaves alone: at most 28 significant digits.\<close>

definition fits28 :: "rat \<Rightarrow> bool" where
  "fits28 y \<longleftrightarrow> (\<exists>c e. y = of_int c * 10 powi e \<and> \<bar>c\<bar> < 10 ^ 28)"

lemma ndigits_bounds:
  "0 < n \<Longrightarrow> 10 ^ (ndigits n - 1) \<le> n \<and> n < 10 ^ ndigits n"
proof (induction n rule: ndigits.induct)
  case (1 n)
  show ?case
  proof (cases "n < 10")
    case True
    with 1 show ?thesis by (simp add: ndigits.simps [of n])
  next
    case False
    let ?m = "n div 10"
    from False have "0 < ?m" by simp
    with 1 False have IH: "10 ^ (ndigits ?m - 1) \<le> ?m" "?m < 10 ^ ndigits ?m" by auto
    have pos: "0 < ndigits ?m" by (simp add: ndigits.simps [of ?m])
    from IH(1) have "10 * 10 ^ (ndigits ?m - 1) \<le> 10 * ?m" by simp
    also have "\<dots> \<le> n" by simp
    finally have "10 ^ ndigits ?m \<le> n"
      using pos by (metis Suc_diff_1 power_Suc)
    moreover have "n < 10 * 10 ^ ndigits ?m" using IH(2) by simp
    ultimately show ?thesis using False by (simp add: ndigits.simps [of n])
  qed
qed

lemma ndigits_pos: "0 < ndigits n"
  by (simp add: ndigits.simps [of n])

lemma pow10_le_of_int: "(10::rat) ^ n \<le> of_int p \<longleftrightarrow> 10 ^ n \<le> p"
  by (metis of_int_le_iff of_int_numeral of_int_power)

lemma pow10_gt_of_int: "of_int p < (10::rat) ^ n \<longleftrightarrow> p < 10 ^ n"
  by (metis of_int_less_iff of_int_numeral of_int_power)

lemma dec_scale_bounds:
  assumes "x \<noteq> 0"
  shows "10 ^ 27 \<le> \<bar>x\<bar> * 10 powi (dec_scale x)" and "\<bar>x\<bar> * 10 powi (dec_scale x) < 10 ^ 28"
proof -
  obtain p q where pq: "quotient_of \<bar>x\<bar> = (p, q)" by force
  have q: "0 < q" using pq by (rule quotient_of_denom_pos)
  have xe: "\<bar>x\<bar> = of_int p / of_int q" using pq by (rule quotient_of_div)
  have p: "0 < p"
  proof -
    have "0 < \<bar>x\<bar>" using assms by simp
    with xe q show ?thesis by (simp add: zero_less_divide_iff)
  qed
  define a where "a = ndigits p"
  define b where "b = ndigits q"
  define k where "k = 28 - int a + int b"
  have pa: "10 ^ (a - 1) \<le> p" "p < 10 ^ a"
    using ndigits_bounds [of p] p by (auto simp: a_def)
  have qb: "10 ^ (b - 1) \<le> q" "q < 10 ^ b"
    using ndigits_bounds [of q] q by (auto simp: b_def)
  have a0: "0 < a" and b0: "0 < b" by (simp_all add: a_def b_def ndigits_pos)
  have P: "(10::rat) ^ (a - 1) \<le> of_int p" "of_int p < (10::rat) ^ a"
    using pa by (simp_all only: pow10_le_of_int pow10_gt_of_int)
  have Q: "(10::rat) ^ (b - 1) \<le> of_int q" "of_int q < (10::rat) ^ b"
    using qb by (simp_all only: pow10_le_of_int pow10_gt_of_int)
  have k_eq: "(10::rat) powi k = 10 ^ 28 * 10 ^ b / 10 ^ a"
  proof -
    have "(10::rat) powi k = 10 powi (int (28 + b) - int a)" by (simp add: k_def algebra_simps)
    also have "\<dots> = 10 powi int (28 + b) / 10 powi int a" by (subst power_int_diff) auto
    also have "\<dots> = 10 ^ (28 + b) / 10 ^ a" by (simp only: power_int_of_nat)
    finally show ?thesis by (simp only: power_add)
  qed
  have q0: "(0::rat) < of_int q" using q by simp
  have lower: "(10::rat) ^ 27 < \<bar>x\<bar> * 10 powi k"
  proof -
    have "(10::rat) ^ 27 * (of_int q * 10 ^ a) < 10 ^ 27 * (10 ^ b * 10 ^ a)"
      using Q(2) by simp
    also have "\<dots> = 10 ^ 28 * 10 ^ b * 10 ^ (a - 1)"
      using a0 by (cases a) (simp_all add: algebra_simps)
    also have "\<dots> \<le> 10 ^ 28 * 10 ^ b * of_int p" using P(1) by simp
    finally show ?thesis using q0 by (simp add: xe k_eq field_simps)
  qed
  have upper: "\<bar>x\<bar> * 10 powi k < 10 ^ 29"
  proof -
    have "10 ^ 28 * (10 ^ b * of_int p) < (10::rat) ^ 28 * (10 ^ b * 10 ^ a)" using P(2) by simp
    also have "\<dots> = 10 ^ 29 * (10 ^ (b - 1) * 10 ^ a)"
      using b0 by (cases b) (simp_all add: algebra_simps)
    also have "\<dots> \<le> 10 ^ 29 * (of_int q * 10 ^ a)" using Q(1) by simp
    finally show ?thesis using q0 by (simp add: xe k_eq field_simps)
  qed
  have ds: "dec_scale x = (if \<bar>x\<bar> * 10 powi k \<ge> 10 ^ 28 then k - 1 else k)"
    by (simp add: dec_scale_def pq a_def b_def k_def)
  have shift: "(10::rat) powi (k - 1) = 10 powi k / 10" by (subst power_int_diff) auto
  show "10 ^ 27 \<le> \<bar>x\<bar> * 10 powi (dec_scale x)"
    using lower by (auto simp: ds shift)
  show "\<bar>x\<bar> * 10 powi (dec_scale x) < 10 ^ 28"
    using upper by (auto simp: ds shift)
qed

lemma round_half_even_ge: "of_int m \<le> x \<Longrightarrow> m \<le> round_half_even x"
  using le_floor_iff [of m x] by (auto simp: round_half_even_def Let_def)

lemma round_half_even_le: "x \<le> of_int m \<Longrightarrow> round_half_even x \<le> m"
proof -
  assume "x \<le> of_int m"
  show ?thesis
  proof (cases "x = of_int m")
    case True
    then show ?thesis by (simp add: round_half_even_def)
  next
    case False
    with \<open>x \<le> of_int m\<close> have "x < of_int m" by simp
    then have "\<lfloor>x\<rfloor> < m" by (simp add: floor_less_iff)
    then show ?thesis by (auto simp: round_half_even_def Let_def)
  qed
qed

lemma round_half_even_close: "\<bar>of_int (round_half_even x) - x\<bar> \<le> 1 / 2"
proof -
  have "of_int \<lfloor>x\<rfloor> \<le> x" "x < of_int \<lfloor>x\<rfloor> + 1" by linarith+
  then show ?thesis by (auto simp: round_half_even_def Let_def)
qed

lemma round28_0 [simp, dec_simps]: "round28 0 = 0"
  by (simp add: round28_def)

lemma fits28_scaled:
  assumes "fits28 y" and "10 ^ 27 \<le> \<bar>y\<bar> * 10 powi k"
  shows "\<exists>m. y * 10 powi k = of_int m"
proof -
  from assms(1) obtain c e where y: "y = of_int c * 10 powi e" and c: "\<bar>c\<bar> < 10 ^ 28"
    unfolding fits28_def by blast
  have s: "y * 10 powi k = of_int c * 10 powi (e + k)"
    by (simp add: y power_int_add mult.assoc)
  show ?thesis
  proof (cases "0 \<le> e + k")
    case True
    then obtain n where "e + k = int n" by (metis nonneg_int_cases)
    then have "y * 10 powi k = of_int (c * 10 ^ n)" by (simp only: s power_int_of_nat) simp
    then show ?thesis by blast
  next
    case False
    have "(10::rat) powi (e + k) \<le> 10 powi (- 1)"
      using False by (intro power_int_increasing) auto
    then have small: "(10::rat) powi (e + k) \<le> 1 / 10" by simp
    have "\<bar>y\<bar> * 10 powi k = \<bar>y * 10 powi k\<bar>" by (simp add: abs_mult)
    also have "\<dots> = of_int \<bar>c\<bar> * 10 powi (e + k)" by (simp add: s abs_mult)
    also have "\<dots> \<le> of_int \<bar>c\<bar> * (1 / 10)"
      using small by (intro mult_left_mono) auto
    also have "\<dots> < 10 ^ 28 * (1 / 10)"
    proof -
      have "(of_int \<bar>c\<bar> :: rat) < of_int (10 ^ 28)" using c by (simp only: of_int_less_iff)
      then show ?thesis by simp
    qed
    finally have "\<bar>y\<bar> * 10 powi k < 10 ^ 27" by simp
    with assms(2) show ?thesis by simp
  qed
qed

lemma round28_pos_ge:
  assumes "fits28 y" and "y \<le> x" and "0 < x"
  shows "y \<le> round28 x"
proof -
  define k where "k = dec_scale x"
  have pk: "(0::rat) < 10 powi k" by simp
  have b: "10 ^ 27 \<le> x * 10 powi k"
    using dec_scale_bounds(1) [of x] assms(3) by (simp add: k_def)
  have r: "round28 x = of_int (round_half_even (x * 10 powi k)) / 10 powi k"
    using assms(3) by (simp add: round28_def k_def Let_def)
  have "y * 10 powi k \<le> of_int (round_half_even (x * 10 powi k))"
  proof (cases "10 ^ 27 \<le> \<bar>y\<bar> * 10 powi k")
    case True
    then obtain m where m: "y * 10 powi k = of_int m" using fits28_scaled assms(1) by blast
    have "of_int m \<le> x * 10 powi k" using assms(2) pk by (simp flip: m)
    then show ?thesis using round_half_even_ge by (simp add: m)
  next
    case False
    have "y * 10 powi k \<le> \<bar>y\<bar> * 10 powi k" using pk by simp
    also have "\<dots> \<le> of_int (10 ^ 27)" using False by simp
    also have "\<dots> \<le> of_int (round_half_even (x * 10 powi k))"
      using b by (simp only: of_int_le_iff, intro round_half_even_ge) simp
    finally show ?thesis .
  qed
  with pk show ?thesis by (simp add: r field_simps)
qed

lemma round28_pos_le:
  assumes "fits28 y" and "x \<le> y" and "0 < x"
  shows "round28 x \<le> y"
proof -
  define k where "k = dec_scale x"
  have pk: "(0::rat) < 10 powi k" by simp
  have b: "10 ^ 27 \<le> x * 10 powi k"
    using dec_scale_bounds(1) [of x] assms(3) by (simp add: k_def)
  have r: "round28 x = of_int (round_half_even (x * 10 powi k)) / 10 powi k"
    using assms(3) by (simp add: round28_def k_def Let_def)
  have xy: "x * 10 powi k \<le> y * 10 powi k" using assms(2) pk by simp
  with b have "10 ^ 27 \<le> y * 10 powi k" by (rule order_trans)
  then have "10 ^ 27 \<le> \<bar>y\<bar> * 10 powi k" using assms by simp
  then obtain m where m: "y * 10 powi k = of_int m" using fits28_scaled assms(1) by blast
  have "of_int (round_half_even (x * 10 powi k)) \<le> y * 10 powi k"
    using xy round_half_even_le by (simp add: m)
  with pk show ?thesis by (simp add: r field_simps)
qed

lemma round28_fits [dec_simps]: "fits28 y \<Longrightarrow> 0 < y \<Longrightarrow> round28 y = y"
  by (intro antisym round28_pos_le round28_pos_ge) auto

lemma round28_exact: "fits28 y \<Longrightarrow> 0 \<le> y \<Longrightarrow> round28 y = y"
  by (cases "y = 0") (auto intro: round28_fits)

lemma fits28_int: "\<bar>c\<bar> < 10 ^ 28 \<Longrightarrow> fits28 (of_int c)"
  unfolding fits28_def by (intro exI [of _ c] exI [of _ 0]) simp

lemma fits28_scale: "\<bar>c\<bar> < 10 ^ 28 \<Longrightarrow> fits28 (of_int c * 10 powi e)"
  unfolding fits28_def by blast

text \<open>
  For evaluation: a non-negative value of at most four decimals is exact, and is left in a small
  form that later steps evaluate quickly.
\<close>

lemma round28_code [code]:
  "round28 x =
     (let m = quotient_of (x * 10000); c = fst m
      in if snd m = 1 \<and> 0 \<le> c \<and> c < 10000000000000000000000000000 then of_int c / 10000
         else if x = 0 then 0
         else (let k = dec_scale x in of_int (round_half_even (x * 10 powi k)) / 10 powi k))"
proof -
  obtain c q where m: "quotient_of (x * 10000) = (c, q)" by fastforce
  have x: "x = of_int c / 10000" if "q = 1"
    using quotient_of_div [OF m] that by simp
  have "round28 x = of_int c / 10000" if "q = 1" "0 \<le> c" "c < 10000000000000000000000000000"
  proof -
    have "fits28 (of_int c * 10 powi (- 4))" using that by (intro fits28_scale) simp
    moreover have "of_int c * 10 powi (- 4) = x" unfolding x [OF that(1)] by (simp add: power_int_minus)
    moreover have "0 \<le> x" unfolding x [OF that(1)] using that(2) by simp
    ultimately have "round28 x = x" by (simp only: round28_exact)
    also have "\<dots> = of_int c / 10000" by (rule x [OF that(1)])
    finally show ?thesis .
  qed
  then show ?thesis by (simp add: m Let_def round28_def)
qed

lemma round28_nonneg: "0 \<le> x \<Longrightarrow> 0 \<le> round28 x"
  using round28_pos_ge [of 0 x] fits28_int [of 0] by (cases "x = 0") auto

lemma round28_pos:
  assumes "0 < x"
  shows "0 < round28 x"
proof -
  define k where "k = dec_scale x"
  have "of_int (10 ^ 27) \<le> x * 10 powi k"
    using dec_scale_bounds(1) [of x] assms by (simp add: k_def)
  then have "10 ^ 27 \<le> round_half_even (x * 10 powi k)" by (rule round_half_even_ge)
  then have "0 < round_half_even (x * 10 powi k)" by simp
  then show ?thesis using assms by (simp add: round28_def k_def Let_def)
qed

lemma round_half_even_mono: "x \<le> y \<Longrightarrow> round_half_even x \<le> round_half_even y"
proof -
  assume xy: "x \<le> y"
  show ?thesis
  proof (cases "\<lfloor>x\<rfloor> = \<lfloor>y\<rfloor>")
    case True
    then show ?thesis using xy by (auto simp: round_half_even_def Let_def)
  next
    case False
    then have f: "\<lfloor>x\<rfloor> + 1 \<le> \<lfloor>y\<rfloor>" using floor_mono [OF xy] by linarith
    have "round_half_even x \<le> \<lfloor>x\<rfloor> + 1" by (simp add: round_half_even_def Let_def)
    also have "\<dots> \<le> round_half_even y" using f by (auto simp: round_half_even_def Let_def)
    finally show ?thesis .
  qed
qed

lemma round28_mono:
  assumes "0 \<le> x" and "x \<le> y"
  shows "round28 x \<le> round28 y"
proof (cases "x = 0")
  case True
  then show ?thesis using assms by (simp add: round28_nonneg)
next
  case False
  then have pos: "0 < x" "0 < y" using assms by auto
  define j where "j = dec_scale x"
  define k where "k = dec_scale y"
  have bx: "10 ^ 27 \<le> x * 10 powi j" "x * 10 powi j < 10 ^ 28"
    using dec_scale_bounds [of x] pos by (simp_all add: j_def)
  have by': "10 ^ 27 \<le> y * 10 powi k" "y * 10 powi k < 10 ^ 28"
    using dec_scale_bounds [of y] pos by (simp_all add: k_def)
  consider "j = k" | "k < j" | "j < k" by linarith
  then show ?thesis
  proof cases
    case 1
    have "x * 10 powi k \<le> y * 10 powi k" using assms by simp
    then have "round_half_even (x * 10 powi k) \<le> round_half_even (y * 10 powi k)"
      by (rule round_half_even_mono)
    then show ?thesis using pos 1
      by (simp add: round28_def Let_def divide_right_mono flip: j_def k_def)
  next
    case 2
    define z where "z = (10::rat) powi (27 - k)"
    have "x * 10 powi j < 10 * (10 ^ 27)" using bx by simp
    also have "\<dots> \<le> 10 * (z * 10 powi k)"
      by (simp add: z_def flip: power_int_add)
    also have "\<dots> = z * 10 powi (k + 1)" by (simp add: power_int_add)
    also have "\<dots> \<le> z * 10 powi j"
      using 2 by (intro mult_left_mono power_int_increasing) (auto simp: z_def)
    finally have xz: "x \<le> z" by simp
    have "z * 10 powi k \<le> y * 10 powi k"
      using by'(1) by (simp add: z_def flip: power_int_add)
    then have zy: "z \<le> y" by simp
    have "fits28 z" using fits28_scale [of 1 "27 - k"] by (simp add: z_def)
    then show ?thesis using round28_pos_le [of z x] round28_pos_ge [of z y] xz zy pos
      by (meson order_trans)
  next
    case 3
    have "10 * (10 ^ 27) \<le> 10 * (x * 10 powi j)" using bx by simp
    also have "\<dots> = x * 10 powi (j + 1)" by (simp add: power_int_add)
    also have "\<dots> \<le> x * 10 powi k"
      using 3 pos by (intro mult_left_mono power_int_increasing) auto
    also have "\<dots> \<le> y * 10 powi k" using assms by simp
    finally show ?thesis using by'(2) by simp
  qed
qed

text \<open>The relative error of one rounding is at most half a unit in the 28th digit.\<close>

lemma round28_error: "\<bar>round28 x - x\<bar> * (2 * 10 ^ 27) \<le> \<bar>x\<bar>"
proof (cases "x = 0")
  case False
  define k where "k = dec_scale x"
  have pk: "(0::rat) < 10 powi k" by simp
  have b: "10 ^ 27 \<le> \<bar>x\<bar> * 10 powi k" using dec_scale_bounds(1) False by (simp add: k_def)
  have r: "round28 x = of_int (round_half_even (x * 10 powi k)) / 10 powi k"
    using False by (simp add: round28_def k_def Let_def)
  have "(round28 x - x) * 10 powi k = of_int (round_half_even (x * 10 powi k)) - x * 10 powi k"
    using pk by (simp add: r field_simps)
  then have "\<bar>(round28 x - x) * 10 powi k\<bar> \<le> 1 / 2"
    using round_half_even_close by (simp only:)
  then have "\<bar>round28 x - x\<bar> * 10 powi k \<le> 1 / 2"
    using pk by (simp only: abs_mult abs_of_pos [OF pk])
  then have "\<bar>round28 x - x\<bar> * 10 powi k * (2 * 10 ^ 27) \<le> 10 ^ 27" by simp
  also note b
  finally have "\<bar>round28 x - x\<bar> * (2 * 10 ^ 27) * 10 powi k \<le> \<bar>x\<bar> * 10 powi k"
    by (simp add: mult_ac)
  then show ?thesis using pk mult_right_le_imp_le by blast
qed simp

section \<open>Rounding modes of \<open>quantize\<close> and \<open>to_integral_value\<close>\<close>

definition trunc_rat :: "rat \<Rightarrow> int" where
  "trunc_rat x = (if 0 \<le> x then \<lfloor>x\<rfloor> else \<lceil>x\<rceil>)"

definition quantize_down :: "rat \<Rightarrow> rat \<Rightarrow> rat" where
  "quantize_down quantum x = of_int (trunc_rat (x / quantum)) * quantum"

definition quantize_half_up :: "rat \<Rightarrow> rat \<Rightarrow> rat" where
  "quantize_half_up quantum x =
     (if 0 \<le> x then of_int \<lfloor>x / quantum + 1 / 2\<rfloor> * quantum
      else - (of_int \<lfloor>- x / quantum + 1 / 2\<rfloor> * quantum))"

text \<open>The remainder of \<open>Decimal.__mod__\<close>: the sign of the dividend.\<close>

definition dec_rem :: "rat \<Rightarrow> rat \<Rightarrow> rat" where
  "dec_rem a b = a - b * of_int (trunc_rat (a / b))"

lemma quantize_down_nonneg: "0 < q \<Longrightarrow> 0 \<le> x \<Longrightarrow> 0 \<le> quantize_down q x"
  by (simp add: quantize_down_def trunc_rat_def)

lemma quantize_down_le:
  assumes "0 < q" and "0 \<le> x"
  shows "quantize_down q x \<le> x"
proof -
  have "of_int \<lfloor>x / q\<rfloor> \<le> x / q" by linarith
  then have "of_int \<lfloor>x / q\<rfloor> * q \<le> x" using assms(1) by (simp only: pos_le_divide_eq)
  then show ?thesis using assms by (simp add: quantize_down_def trunc_rat_def)
qed

lemma quantize_down_gt:
  assumes "0 < q" and "0 \<le> x"
  shows "x < quantize_down q x + q"
proof -
  have "x / q < of_int \<lfloor>x / q\<rfloor> + 1" by linarith
  then have "x < (of_int \<lfloor>x / q\<rfloor> + 1) * q" using assms(1) by (simp add: pos_divide_less_eq)
  then show ?thesis using assms by (simp add: quantize_down_def trunc_rat_def algebra_simps)
qed

lemma quantize_down_mono:
  assumes "0 < q" and "0 \<le> x" and "x \<le> y"
  shows "quantize_down q x \<le> quantize_down q y"
proof -
  have "x / q \<le> y / q" using assms by (simp add: divide_right_mono)
  then have "\<lfloor>x / q\<rfloor> \<le> \<lfloor>y / q\<rfloor>" by (rule floor_mono)
  with assms show ?thesis by (simp add: quantize_down_def trunc_rat_def)
qed

lemma quantize_half_up_nonneg: "0 < q \<Longrightarrow> 0 \<le> x \<Longrightarrow> 0 \<le> quantize_half_up q x"
  by (simp add: quantize_half_up_def)

lemma quantize_half_up_mono:
  assumes "0 < q" and "0 \<le> x" and "x \<le> y"
  shows "quantize_half_up q x \<le> quantize_half_up q y"
proof -
  have "x / q \<le> y / q" using assms by (simp add: divide_right_mono)
  then have "\<lfloor>x / q + 1 / 2\<rfloor> \<le> \<lfloor>y / q + 1 / 2\<rfloor>" by (intro floor_mono) simp
  then show ?thesis using assms by (simp add: quantize_half_up_def)
qed

lemma dec_rem_zero_iff: "0 < b \<Longrightarrow> dec_rem a b = 0 \<longleftrightarrow> (\<exists>m. a = of_int m * b)"
proof
  assume "0 < b" and "dec_rem a b = 0"
  then have "a = of_int (trunc_rat (a / b)) * b" by (simp add: dec_rem_def mult.commute)
  then show "\<exists>m. a = of_int m * b" by blast
next
  assume "0 < b" and "\<exists>m. a = of_int m * b"
  then obtain m where "a = of_int m * b" by blast
  then have "a / b = of_int m" using \<open>0 < b\<close> by simp
  then show "dec_rem a b = 0" using \<open>a = of_int m * b\<close> by (simp add: dec_rem_def trunc_rat_def)
qed

section \<open>Timestamps\<close>

text \<open>
  A \<open>datetime\<close> is its instant in microseconds since the epoch and its UTC offset, which
  is None for a naive value. Aware values compare and subtract by instant; the calendar
  date is read in the value's own offset.
\<close>

record datetime =
  instant :: int
  utcoffset :: "int option"

definition dt_aware :: "datetime \<Rightarrow> bool" where
  "dt_aware t \<longleftrightarrow> utcoffset t \<noteq> None"

definition day_us :: int where
  "day_us = 86400000000"

definition dt_date :: "datetime \<Rightarrow> int" where
  "dt_date t = (instant t + (case utcoffset t of None \<Rightarrow> 0 | Some off \<Rightarrow> off)) div day_us"

definition dt_plus :: "datetime \<Rightarrow> int \<Rightarrow> datetime" where
  "dt_plus t d = t\<lparr>instant := instant t + d\<rparr>"

lemma dt_plus_simps [simp]:
  "instant (dt_plus t d) = instant t + d" "utcoffset (dt_plus t d) = utcoffset t"
  "dt_aware (dt_plus t d) = dt_aware t"
  by (simp_all add: dt_plus_def dt_aware_def)

section \<open>Strings\<close>

text \<open>
  \<open>str.strip\<close>, \<open>str.upper\<close> and \<open>str.isspace\<close> on the ASCII characters (the identifiers
  of the program are ASCII).
\<close>

definition py_space :: "char \<Rightarrow> bool" where
  "py_space c = (let n = (of_char c :: nat) in n = 32 \<or> (9 \<le> n \<and> n \<le> 13) \<or> (28 \<le> n \<and> n \<le> 31))"

definition py_strip :: "string \<Rightarrow> string" where
  "py_strip s = rev (dropWhile py_space (rev (dropWhile py_space s)))"

definition char_upper :: "char \<Rightarrow> char" where
  "char_upper c = (let n = (of_char c :: nat) in if 97 \<le> n \<and> n \<le> 122 then char_of (n - 32) else c)"

definition py_upper :: "string \<Rightarrow> string" where
  "py_upper s = map char_upper s"

definition blank :: "string \<Rightarrow> bool" where
  "blank s \<longleftrightarrow> py_strip s = []"

lemma blank_iff: "blank s \<longleftrightarrow> (\<forall>c \<in> set s. py_space c)"
proof -
  have "dropWhile py_space (rev (dropWhile py_space s)) = [] \<longleftrightarrow>
      (\<forall>c \<in> set (dropWhile py_space s). py_space c)"
    by (simp add: dropWhile_eq_Nil_conv)
  also have "\<dots> \<longleftrightarrow> (\<forall>c \<in> set s. py_space c)"
    by (induction s) auto
  finally show ?thesis by (simp add: blank_def py_strip_def)
qed

lemma py_strip_no_space: "\<not> list_ex py_space v \<Longrightarrow> py_strip v = v"
proof -
  assume a: "\<not> list_ex py_space v"
  have d: "dropWhile py_space v = v" using a by (cases v) auto
  have "dropWhile py_space (rev v) = rev v"
    using a by (cases "rev v") (auto simp: list_ex_iff simp flip: set_rev [of v])
  then show ?thesis by (simp add: py_strip_def d)
qed

text \<open>The same functions on the bits of a character, for evaluation.\<close>

fun space_bits :: "char \<Rightarrow> bool" where
  "space_bits (Char b0 b1 b2 b3 b4 b5 b6 b7) =
     (\<not> b7 \<and> \<not> b6 \<and> (if b5 then \<not> (b4 \<or> b3 \<or> b2 \<or> b1 \<or> b0)
        else b3 \<and> (if b4 then b2 else (b2 \<or> b1 \<or> b0) \<and> \<not> (b2 \<and> b1))))"

fun upper_bits :: "char \<Rightarrow> char" where
  "upper_bits (Char b0 b1 b2 b3 b4 b5 b6 b7) =
     (if \<not> b7 \<and> b6 \<and> b5 \<and> (b0 \<or> b1 \<or> b2 \<or> b3 \<or> b4) \<and> \<not> (b4 \<and> b3 \<and> (b2 \<or> b1 \<and> b0))
      then Char b0 b1 b2 b3 b4 False b6 b7 else Char b0 b1 b2 b3 b4 b5 b6 b7)"

lemma py_space_code [code]: "py_space c = space_bits c"
proof (cases c)
  case (Char b0 b1 b2 b3 b4 b5 b6 b7)
  then show ?thesis
    by (cases b0; cases b1; cases b2; cases b3; cases b4; cases b5; cases b6; cases b7)
      (simp_all add: py_space_def)
qed

lemma char_upper_code [code]: "char_upper c = upper_bits c"
proof (cases c)
  case (Char b0 b1 b2 b3 b4 b5 b6 b7)
  then show ?thesis
    by (cases b0; cases b1; cases b2; cases b3; cases b4; cases b5; cases b6; cases b7)
      (simp_all add: char_upper_def char_of_def bit_0 bit_Suc)
qed

lemma blank_append: "blank (s @ t) \<longleftrightarrow> blank s \<and> blank t"
  by (auto simp: blank_iff)

text \<open>\<open>str(n)\<close> of a non-negative integer, and its inverse.\<close>

function show_nat :: "int \<Rightarrow> string" where
  "show_nat n = (if n < 10 then [char_of (48 + nat n)]
                 else show_nat (n div 10) @ [char_of (48 + nat (n mod 10))])"
  by pat_completeness auto
termination
  by (relation "measure nat") auto

declare show_nat.simps [simp del]

definition read_nat :: "string \<Rightarrow> int" where
  "read_nat s = foldl (\<lambda>a c. 10 * a + (int (of_char c) - 48)) 0 s"

lemma read_digit: "0 \<le> d \<Longrightarrow> d < 10 \<Longrightarrow> int (of_char (char_of (48 + nat d) :: char)) - 48 = d"
  by simp

lemma read_show_nat: "0 \<le> n \<Longrightarrow> read_nat (show_nat n) = n"
proof (induction n rule: show_nat.induct)
  case (1 n)
  show ?case
  proof (cases "n < 10")
    case True
    with 1 show ?thesis by (simp add: show_nat.simps [of n] read_nat_def)
  next
    case False
    with 1 have "read_nat (show_nat (n div 10)) = n div 10" by simp
    with False read_digit [of "n mod 10"] show ?thesis
      by (simp add: show_nat.simps [of n] read_nat_def)
  qed
qed

lemma show_nat_inj: "0 \<le> m \<Longrightarrow> 0 \<le> n \<Longrightarrow> show_nat m = show_nat n \<Longrightarrow> m = n"
  by (metis read_show_nat)

text \<open>
  \<open>for value, field_name in (...): if not value.strip(): raise ValueError\<close>, as most of the
  dataclasses validate their identities: the first blank field is reported.
\<close>

fun require_non_empty :: "(string \<times> string) list \<Rightarrow> unit res" where
  "require_non_empty [] = Inr ()"
| "require_non_empty ((v, field) # rest) =
     (if blank v then Inl (ValueError (field @ '' must not be empty''))
      else require_non_empty rest)"

lemma require_non_empty_Inr [simp]:
  "require_non_empty vs = Inr u \<longleftrightarrow> (\<forall>(v, f) \<in> set vs. \<not> blank v)"
  by (induction vs rule: require_non_empty.induct) auto

text \<open>A run of guards \<open>if not b: raise ValueError(m)\<close>: the first one that fails is reported.\<close>

fun require_all :: "(bool \<times> string) list \<Rightarrow> unit res" where
  "require_all [] = Inr ()"
| "require_all ((b, m) # rest) = (if b then require_all rest else Inl (ValueError m))"

lemma require_all_Inr [simp]: "require_all gs = Inr u \<longleftrightarrow> list_all fst gs"
  by (induction gs rule: require_all.induct) auto

section \<open>Canonical payloads and digests\<close>

text \<open>
  Identities are SHA-256 digests of canonical JSON (\<open>sort_keys\<close>, fixed separators). The
  payload is written out as a value; the composition of \<open>json.dumps\<close> and
  \<open>hashlib.sha256(...).hexdigest()\<close> is a parameter \<open>sha :: json \<Rightarrow> string\<close> of the
  definitions that take a digest. \<open>JDec\<close> is \<open>canonical_decimal_string\<close> of a value,
  \<open>JTime\<close> is \<open>isoformat\<close> of a timestamp and \<open>JDate\<close> that of a date, given by its
  day number.
\<close>

datatype json =
    JStr string
  | JInt int
  | JBool bool
  | JNull
  | JDec rat
  | JDate int
  | JTime datetime
  | JList "json list"
  | JObj "(string \<times> json) list"

lemma json_member_size [termination_simp]:
  "m \<in> set members \<Longrightarrow> size (snd m) < Suc (size_list (size_prod (\<lambda>_. 0) size) members)"
  by (induction members) auto

definition jopt :: "('a \<Rightarrow> json) \<Rightarrow> 'a option \<Rightarrow> json" where
  "jopt f v = (case v of None \<Rightarrow> JNull | Some x \<Rightarrow> f x)"

definition hex_digit :: "char \<Rightarrow> bool" where
  "hex_digit c = (c \<in> set ''0123456789abcdef'')"

definition is_sha256 :: "string \<Rightarrow> bool" where
  "is_sha256 s \<longleftrightarrow> length s = 64 \<and> list_all hex_digit s"

lemma hex_digit_no_space: "hex_digit c \<Longrightarrow> \<not> py_space c"
  by (auto simp: hex_digit_def py_space_def)

lemma is_sha256_not_blank: "is_sha256 s \<Longrightarrow> \<not> blank s"
proof -
  assume s: "is_sha256 s"
  then obtain c cs where c: "s = c # cs" by (cases s) (auto simp: is_sha256_def)
  with s have "hex_digit c" by (simp add: is_sha256_def)
  then have "\<not> py_space c" by (rule hex_digit_no_space)
  with c show ?thesis by (auto simp: blank_iff)
qed

section \<open>Dictionaries\<close>

text \<open>
  A Python dict keeps the position of a key's first insertion: \<open>AList.update\<close> replaces
  in place or appends, and \<open>AList.delete\<close> is \<open>pop(key, None)\<close>.
\<close>

type_synonym ('k, 'v) dict = "('k \<times> 'v) list"

abbreviation dget :: "('k, 'v) dict \<Rightarrow> 'k \<Rightarrow> 'v option" where
  "dget d k \<equiv> map_of d k"

abbreviation dset :: "'k \<Rightarrow> 'v \<Rightarrow> ('k, 'v) dict \<Rightarrow> ('k, 'v) dict" where
  "dset k v d \<equiv> AList.update k v d"

abbreviation dpop :: "'k \<Rightarrow> ('k, 'v) dict \<Rightarrow> ('k, 'v) dict" where
  "dpop k d \<equiv> AList.delete k d"

definition dget_or :: "('k, 'v) dict \<Rightarrow> 'k \<Rightarrow> 'v \<Rightarrow> 'v" where
  "dget_or d k v = (case dget d k of None \<Rightarrow> v | Some x \<Rightarrow> x)"

lemma dget_dset [dict_simps, simp]: "dget (dset k v d) j = (if j = k then Some v else dget d j)"
  by (simp add: update_conv')

lemma dget_dpop [dict_simps, simp]: "dget (dpop k d) j = (if j = k then None else dget d j)"
  by (simp add: delete_conv')

lemma dget_or_dset [dict_simps, simp]:
  "dget_or (dset k v d) j x = (if j = k then v else dget_or d j x)"
  by (simp add: dget_or_def)

lemma dget_or_dpop [dict_simps, simp]:
  "dget_or (dpop k d) j x = (if j = k then x else dget_or d j x)"
  by (simp add: dget_or_def)

lemma distinct_dset [dict_simps]: "distinct (map fst d) \<Longrightarrow> distinct (map fst (dset k v d))"
  by (rule distinct_update)

lemma distinct_dpop [dict_simps]: "distinct (map fst d) \<Longrightarrow> distinct (map fst (dpop k d))"
  by (rule distinct_delete)

end
