(* ===== verification/Execution_Costs.thy ===== *)
theory Execution_Costs
  imports Prelude
begin

text \<open>
  The frozen execution policy of Local Paper fills (\<open>simulation/execution_costs.py\<close>): the
  Taiwan common-stock tick table, rounding of a price to the adverse tick, fixed-bps adverse
  slippage, and the cumulative commission and tax accounting of partial fills.
\<close>

section \<open>Inputs and constants\<close>

text \<open>
  The functions accept any object and parse it with \<open>Decimal(str(value))\<close>: the outcome is
  a finite value, or a failure (unparsable, infinite or NaN).
\<close>

datatype dec_input = Finite rat | NotFinite

datatype execution_side = ES_BUY | ES_SELL

datatype reference_source = BEST_ASK | BEST_BID | SNAPSHOT_COMPATIBILITY

definition COMMISSION_RATE :: rat where "COMMISSION_RATE = 1425 / 1000000"
definition MINIMUM_COMMISSION_TWD :: rat where "MINIMUM_COMMISSION_TWD = 20"
definition SELL_TAX_RATE :: rat where "SELL_TAX_RATE = 3 / 1000"
definition MONEY_QUANTUM :: rat where "MONEY_QUANTUM = 1"

definition FEE_POLICY_VERSION :: string where
  "FEE_POLICY_VERSION = ''tw_stock_standard_v1''"
definition ROUNDING_POLICY_VERSION :: string where
  "ROUNDING_POLICY_VERSION = ''twd_round_down_v1''"
definition SLIPPAGE_POLICY_VERSION :: string where
  "SLIPPAGE_POLICY_VERSION = ''fixed_adverse_bps_v1''"
definition PRICE_TICK_POLICY_VERSION :: string where
  "PRICE_TICK_POLICY_VERSION = ''tw_common_stock_tick_v1''"
definition CALIBRATION_STATUS :: string where
  "CALIBRATION_STATUS = ''ASSUMPTION_NOT_LIVE_CALIBRATED''"

lemmas policy_defs [model_defs] =
  COMMISSION_RATE_def MINIMUM_COMMISSION_TWD_def SELL_TAX_RATE_def MONEY_QUANTUM_def

record slippage_decision =
  sd_side :: execution_side
  sd_reference_price :: rat
  sd_reference_source :: reference_source
  sd_configured_slippage_bps :: rat
  sd_raw_adverse_price :: rat
  sd_adjusted_price :: rat
  sd_limit_price :: rat
  sd_limit_satisfied :: bool
  sd_realized_slippage_bps :: rat
  sd_slippage_policy_version :: string
  sd_price_tick_policy_version :: string
  sd_calibration_status :: string

datatype product_class = COMMON_STOCK | UNSUPPORTED_CLASS | UNKNOWN_CLASS

record instrument_descriptor =
  id_symbol :: string
  id_exchange_raw :: string
  id_security_type_raw :: string
  id_product_category_raw :: string
  id_product_class :: product_class
  id_source_identity :: string

record fill_accounting =
  fa_side :: execution_side
  fa_quantity_shares :: int
  fa_fill_price :: rat
  fa_reference_price :: rat
  fa_reference_source :: reference_source
  fa_configured_slippage_bps :: rat
  fa_realized_slippage_bps :: rat
  fa_slippage_cost :: rat
  fa_gross_amount :: rat
  fa_commission :: rat
  fa_cumulative_order_commission :: rat
  fa_tax :: rat
  fa_cumulative_order_tax :: rat
  fa_net_cash_effect :: rat
  fa_fee_policy_version :: string
  fa_rounding_policy_version :: string
  fa_slippage_policy_version :: string
  fa_price_tick_policy_version :: string
  fa_instrument_descriptor :: instrument_descriptor
  fa_instrument_descriptor_digest :: string

section \<open>Instrument descriptor\<close>

text \<open>The dataclass's \<open>__post_init__\<close>: normalise, reject empty identities.\<close>

definition make_descriptor ::
  "string \<Rightarrow> string \<Rightarrow> string \<Rightarrow> string \<Rightarrow> product_class \<Rightarrow> string \<Rightarrow> instrument_descriptor res" where
  "make_descriptor symbol exchange security category cls source =
     (let s = py_upper (py_strip symbol);
          e = py_upper (py_strip exchange);
          t = py_upper (py_strip security);
          c = py_upper (py_strip category);
          i = py_strip source
      in if s = [] then Inl (ValueError ''instrument descriptor symbol must not be empty'')
         else if e = [] then Inl (ValueError ''instrument descriptor exchange_raw must not be empty'')
         else if t = [] then Inl (ValueError ''instrument descriptor security_type_raw must not be empty'')
         else if c = [] then Inl (ValueError ''instrument descriptor product_category_raw must not be empty'')
         else if i = [] then Inl (ValueError ''instrument descriptor source_identity must not be empty'')
         else Inr \<lparr>id_symbol = s, id_exchange_raw = e, id_security_type_raw = t,
                   id_product_category_raw = c, id_product_class = cls, id_source_identity = i\<rparr>)"

section \<open>The tick table\<close>

definition decimal_of :: "dec_input \<Rightarrow> string \<Rightarrow> rat res" where
  "decimal_of v field =
     (case v of
        NotFinite \<Rightarrow> Inl (ValueError (field @ '' must be a finite decimal''))
      | Finite x \<Rightarrow> Inr x)"

definition positive_decimal :: "dec_input \<Rightarrow> string \<Rightarrow> rat res" where
  "positive_decimal v field =
     rbind (decimal_of v field) (\<lambda>x.
       if x \<le> 0 then Inl (ValueError (field @ '' must be positive'')) else Inr x)"

definition tick_band :: "rat \<Rightarrow> rat" where
  "tick_band x =
     (if x < 10 then 1 / 100
      else if x < 50 then 5 / 100
      else if x < 100 then 1 / 10
      else if x < 500 then 5 / 10
      else if x < 1000 then 1
      else 5)"

definition common_stock_tick_size :: "dec_input \<Rightarrow> rat res" where
  "common_stock_tick_size v = rbind (positive_decimal v ''price'') (\<lambda>x. Inr (tick_band x))"

definition is_valid_common_stock_tick :: "dec_input \<Rightarrow> bool" where
  "is_valid_common_stock_tick v =
     (case positive_decimal v ''price'' of
        Inl _ \<Rightarrow> False
      | Inr x \<Rightarrow> dec_rem x (tick_band x) = 0)"

lemma positive_decimal_Inr: "positive_decimal v f = Inr x \<longleftrightarrow> v = Finite x \<and> 0 < x"
  by (cases v) (auto simp: positive_decimal_def decimal_of_def)

lemma common_stock_tick_size_pos [simp]:
  "0 < x \<Longrightarrow> common_stock_tick_size (Finite x) = Inr (tick_band x)"
  by (simp add: common_stock_tick_size_def positive_decimal_def decimal_of_def)

lemma tick_band_pos [simp]: "0 < tick_band x"
  by (simp add: tick_band_def)

lemma tick_band_nonzero [simp]: "tick_band x \<noteq> 0"
  using tick_band_pos [of x] by linarith

lemma tick_band_values: "tick_band x \<in> {1 / 100, 5 / 100, 1 / 10, 5 / 10, 1, 5}"
  by (simp add: tick_band_def)

lemma valid_tick_iff:
  "is_valid_common_stock_tick (Finite x) \<longleftrightarrow> 0 < x \<and> (\<exists>m. x = of_int m * tick_band x)"
  by (auto simp: is_valid_common_stock_tick_def positive_decimal_def decimal_of_def
      dec_rem_zero_iff)

lemma valid_tickI:
  "0 < x \<Longrightarrow> x = of_int m * tick_band x \<Longrightarrow> is_valid_common_stock_tick (Finite x)"
  by (auto simp: valid_tick_iff)

text \<open>
  The bands: \<open>n\<close> lies between the multiples \<open>l\<close> and \<open>u\<close> of its tick \<open>t\<close>; every multiple
  of \<open>t\<close> in between, and the upper bound itself, is a valid tick price.
\<close>

lemma tick_band_cases:
  assumes "0 < n"
  obtains (band) l u where "0 \<le> l" "u < 10 ^ 4" "of_int l * tick_band n \<le> n"
      "n < of_int u * tick_band n"
      "\<And>m. l \<le> m \<Longrightarrow> 0 < m \<Longrightarrow> m < u \<Longrightarrow> tick_band (of_int m * tick_band n) = tick_band n"
      "is_valid_common_stock_tick (Finite (of_int u * tick_band n))"
      "\<And>x. 0 < x \<Longrightarrow> x < n \<Longrightarrow> tick_band x \<noteq> tick_band n \<Longrightarrow> x < of_int l * tick_band n"
      "\<And>x. n < x \<Longrightarrow> tick_band x \<noteq> tick_band n \<Longrightarrow> of_int u * tick_band n \<le> x"
  | (top) "1000 \<le> n" "tick_band n = 5"
proof -
  have B: thesis if n: "of_int l * t \<le> n" "n < of_int u * t" and t: "tick_band n = t" and l: "0 \<le> l"
      and u: "u < 10 ^ 4"
      and same: "\<And>y. 0 < y \<Longrightarrow> of_int l * t \<le> y \<Longrightarrow> y < of_int u * t \<Longrightarrow> tick_band y = t"
      and v: "is_valid_common_stock_tick (Finite (of_int u * t))" for l u t
  proof (rule band [OF l u])
    have t0: "0 < t" using t tick_band_pos by metis
    show "of_int l * tick_band n \<le> n" "n < of_int u * tick_band n" using n t by auto
    show "tick_band (of_int m * tick_band n) = tick_band n" if "l \<le> m" "0 < m" "m < u" for m
      unfolding t using that t0 by (intro same) auto
    show "is_valid_common_stock_tick (Finite (of_int u * tick_band n))" using v t by simp
    show "x < of_int l * tick_band n" if "0 < x" "x < n" "tick_band x \<noteq> tick_band n" for x
    proof (rule ccontr)
      assume "\<not> x < of_int l * tick_band n"
      then have "tick_band x = t" using n that t by (intro same) auto
      with that t show False by simp
    qed
    show "of_int u * tick_band n \<le> x" if "n < x" "tick_band x \<noteq> tick_band n" for x
    proof (rule ccontr)
      assume "\<not> of_int u * tick_band n \<le> x"
      then have "tick_band x = t" using n that t assms by (intro same) auto
      with that t show False by simp
    qed
  qed
  consider "n < 10" | "10 \<le> n" "n < 50" | "50 \<le> n" "n < 100" | "100 \<le> n" "n < 500"
    | "500 \<le> n" "n < 1000" | "1000 \<le> n" by linarith
  then show thesis
  proof cases
    case 1
    then show ?thesis using assms
      by (intro B [of 0 "1/100" 1000]) (auto simp: tick_band_def intro!: valid_tickI [where m = 200])
  next
    case 2
    then show ?thesis
      by (intro B [of 200 "5/100" 1000]) (auto simp: tick_band_def intro!: valid_tickI [where m = 500])
  next
    case 3
    then show ?thesis
      by (intro B [of 500 "1/10" 1000]) (auto simp: tick_band_def intro!: valid_tickI [where m = 200])
  next
    case 4
    then show ?thesis
      by (intro B [of 200 "5/10" 1000]) (auto simp: tick_band_def intro!: valid_tickI [where m = 500])
  next
    case 5
    then show ?thesis
      by (intro B [of 500 1 1000]) (auto simp: tick_band_def intro!: valid_tickI [where m = 200])
  next
    case 6
    then show ?thesis by (intro top) (auto simp: tick_band_def)
  qed
qed


text \<open>
  A tick count between the bounds that 28 digits can represent gives a valid price: the
  boundaries of the table are multiples of both neighbouring ticks.
\<close>

lemma in_band_valid:
  assumes "0 < n" and "0 < m"
    and lo: "\<And>k. 0 \<le> k \<Longrightarrow> k < 10 ^ 4 \<Longrightarrow> of_int k \<le> n / tick_band n \<Longrightarrow> k \<le> m"
    and up: "\<And>k. 0 \<le> k \<Longrightarrow> k < 10 ^ 4 \<Longrightarrow> n / tick_band n \<le> of_int k \<Longrightarrow> m \<le> k"
  shows "is_valid_common_stock_tick (Finite (of_int m * tick_band n))"
  using assms(1)
proof (cases rule: tick_band_cases)
  case (band l u)
  have t0: "0 < tick_band n" by simp
  have lu: "of_int l \<le> n / tick_band n" "n / tick_band n \<le> of_int u"
    using band(3,4) t0 by (simp_all add: field_simps)
  then have "(of_int l :: rat) \<le> of_int u" by (rule order_trans)
  then have "l \<le> u" by simp
  then have m: "l \<le> m" "m \<le> u" using lo [of l] up [of u] lu band(1,2) by auto
  show ?thesis
  proof (cases "m = u")
    case True
    then show ?thesis using band(6) by simp
  next
    case False
    then have "tick_band (of_int m * tick_band n) = tick_band n" using m assms(2) band(5) by auto
    then show ?thesis using assms(2) t0 by (auto simp: valid_tick_iff)
  qed
next
  case top
  then have "200 \<le> m" using lo [of 200] by simp
  then have "(1000::rat) \<le> of_int m * 5"
    using of_int_le_iff [where ?'a = rat, of 200 m] by simp
  then show ?thesis using top by (auto simp: valid_tick_iff tick_band_def)
qed

lemma dec_div_ge_int:
  "0 < n \<Longrightarrow> 0 < t \<Longrightarrow> 0 \<le> k \<Longrightarrow> k < 10 ^ 28 \<Longrightarrow> of_int k \<le> n / t \<Longrightarrow> of_int k \<le> dec_div n t"
  unfolding dec_div_def by (intro round28_pos_ge fits28_int) auto

lemma dec_div_le_int:
  "0 < n \<Longrightarrow> 0 < t \<Longrightarrow> 0 \<le> k \<Longrightarrow> k < 10 ^ 28 \<Longrightarrow> n / t \<le> of_int k \<Longrightarrow> dec_div n t \<le> of_int k"
  unfolding dec_div_def by (intro round28_pos_le fits28_int) auto

lemma dec_div_pos: "0 < n \<Longrightarrow> 0 < t \<Longrightarrow> 0 < dec_div n t"
  by (simp add: dec_div_def round28_pos)

definition ceiling_candidate :: "rat \<Rightarrow> rat" where
  "ceiling_candidate n = of_int \<lceil>dec_div n (tick_band n)\<rceil> * tick_band n"

definition floor_candidate :: "rat \<Rightarrow> rat" where
  "floor_candidate n = of_int \<lfloor>dec_div n (tick_band n)\<rfloor> * tick_band n"

lemma ceiling_candidate_valid:
  assumes "0 < n"
  shows "is_valid_common_stock_tick (Finite (ceiling_candidate n))"
  unfolding ceiling_candidate_def
proof (rule in_band_valid)
  let ?d = "dec_div n (tick_band n)"
  show "0 < \<lceil>?d\<rceil>" using dec_div_pos assms by simp
  show "k \<le> \<lceil>?d\<rceil>" if "0 \<le> k" "k < 10 ^ 4" "of_int k \<le> n / tick_band n" for k
  proof -
    have "of_int k \<le> ?d" using that assms by (intro dec_div_ge_int) auto
    then show ?thesis by linarith
  qed
  show "\<lceil>?d\<rceil> \<le> k" if "0 \<le> k" "k < 10 ^ 4" "n / tick_band n \<le> of_int k" for k
    using that assms by (simp only: ceiling_le_iff, intro dec_div_le_int) auto
qed fact

lemma floor_candidate_valid:
  assumes "0 < n" and "0 < floor_candidate n"
  shows "is_valid_common_stock_tick (Finite (floor_candidate n))"
  unfolding floor_candidate_def
proof (rule in_band_valid)
  let ?d = "dec_div n (tick_band n)"
  show "0 < \<lfloor>?d\<rfloor>" using assms(2) tick_band_pos [of n]
    by (auto simp: floor_candidate_def zero_less_mult_iff)
  show "k \<le> \<lfloor>?d\<rfloor>" if "0 \<le> k" "k < 10 ^ 4" "of_int k \<le> n / tick_band n" for k
    using that assms(1) by (simp only: le_floor_iff, intro dec_div_ge_int) auto
  show "\<lfloor>?d\<rfloor> \<le> k" if "0 \<le> k" "k < 10 ^ 4" "n / tick_band n \<le> of_int k" for k
  proof -
    have "?d \<le> of_int k" using that assms(1) by (intro dec_div_le_int) auto
    then show ?thesis by linarith
  qed
qed fact

section \<open>Adverse rounding\<close>

text \<open>
  The source recurses when the rounded candidate is not a valid tick of its own band. The
  termination proofs show that this never happens, on any positive price: the candidate is
  always valid.
\<close>

function adverse_tick_ceiling :: "dec_input \<Rightarrow> rat res" where
  "adverse_tick_ceiling v =
     (case positive_decimal v ''price'' of
        Inl e \<Rightarrow> Inl e
      | Inr n \<Rightarrow>
          (let candidate = of_int \<lceil>dec_div n (tick_band n)\<rceil> * tick_band n
           in if \<not> is_valid_common_stock_tick (Finite candidate)
              then (case common_stock_tick_size (Finite candidate) of
                      Inl e \<Rightarrow> Inl e
                    | Inr t \<Rightarrow> adverse_tick_ceiling (Finite (candidate + t)))
              else Inr candidate))"
  by pat_completeness auto
termination
  by (relation "{}")
    (use ceiling_candidate_valid in \<open>auto simp: positive_decimal_Inr ceiling_candidate_def\<close>)

function adverse_tick_floor :: "dec_input \<Rightarrow> rat res" where
  "adverse_tick_floor v =
     (case positive_decimal v ''price'' of
        Inl e \<Rightarrow> Inl e
      | Inr n \<Rightarrow>
          (let candidate = of_int \<lfloor>dec_div n (tick_band n)\<rfloor> * tick_band n
           in if candidate \<le> 0 then Inl (ValueError ''price floor must remain positive'')
              else if \<not> is_valid_common_stock_tick (Finite candidate)
              then (case common_stock_tick_size (Finite candidate) of
                      Inl e \<Rightarrow> Inl e
                    | Inr t \<Rightarrow> adverse_tick_floor (Finite (candidate - t)))
              else Inr candidate))"
  by pat_completeness auto
termination
  by (relation "{}")
    (use floor_candidate_valid in \<open>auto simp: positive_decimal_Inr floor_candidate_def\<close>)

declare adverse_tick_ceiling.simps [simp del] adverse_tick_floor.simps [simp del]

lemma adverse_tick_ceiling_eq:
  "0 < n \<Longrightarrow> adverse_tick_ceiling (Finite n) = Inr (ceiling_candidate n)"
  using ceiling_candidate_valid [of n]
  by (simp add: adverse_tick_ceiling.simps [of "Finite n"] positive_decimal_def decimal_of_def
      ceiling_candidate_def)

lemma adverse_tick_floor_eq:
  "0 < n \<Longrightarrow> adverse_tick_floor (Finite n) =
     (if floor_candidate n \<le> 0 then Inl (ValueError ''price floor must remain positive'')
      else Inr (floor_candidate n))"
  using floor_candidate_valid [of n]
  by (simp add: adverse_tick_floor.simps [of "Finite n"] positive_decimal_def decimal_of_def
      floor_candidate_def)

text \<open>No valid tick price is skipped: a grid price below \<open>n\<close> is below the ceiling too.\<close>

lemma valid_tick_count:
  assumes "is_valid_common_stock_tick (Finite g)" and "g < 10 ^ 12" and "g = of_int m * tick_band g"
  shows "0 < m" and "m \<le> 10 ^ 14"
proof -
  have "0 < of_int m * tick_band g" using assms by (simp add: valid_tick_iff)
  then have "(0::rat) < of_int m" using tick_band_pos by (metis zero_less_mult_pos2)
  then show "0 < m" by simp
  have "(1 / 100 :: rat) \<le> tick_band g" by (simp add: tick_band_def)
  then have "of_int m * (1 / 100) \<le> of_int m * tick_band g"
    using \<open>0 < m\<close> by (intro mult_left_mono) auto
  also have "\<dots> \<le> 10 ^ 12" using assms by simp
  finally have "(of_int m :: rat) \<le> 10 ^ 14" by simp
  then show "m \<le> 10 ^ 14" using of_int_le_iff [where ?'a = rat, of m "10 ^ 14"] by simp
qed

lemma valid_below_ceiling:
  assumes "is_valid_common_stock_tick (Finite g)" and "g \<le> n" and "n < 10 ^ 12"
  shows "g \<le> ceiling_candidate n"
proof -
  from assms(1) obtain m where g: "0 < g" "g = of_int m * tick_band g"
    by (auto simp: valid_tick_iff)
  have n0: "0 < n" using g(1) assms(2) by simp
  let ?t = "tick_band n"
  have up: "of_int k * ?t \<le> ceiling_candidate n"
    if "0 \<le> k" "k < 10 ^ 28" "of_int k * ?t \<le> n" for k
  proof -
    have "of_int k \<le> dec_div n ?t"
      using that n0 by (intro dec_div_ge_int) (auto simp: field_simps)
    then have "of_int k \<le> (of_int \<lceil>dec_div n ?t\<rceil> :: rat)" by linarith
    then show ?thesis by (simp add: ceiling_candidate_def)
  qed
  show ?thesis
  proof (cases "tick_band g = ?t")
    case True
    have "0 < m" "m \<le> 10 ^ 14" using valid_tick_count [OF assms(1) _ g(2)] assms(2,3) by auto
    then show ?thesis using up [of m] g True assms(2) by simp
  next
    case False
    from n0 show ?thesis
    proof (cases rule: tick_band_cases)
      case (band l u)
      have "g < n" using False assms(2) by (cases "g = n") auto
      then have "g < of_int l * ?t" using band(7) g(1) False by simp
      moreover have "l < u" 
        using band(3,4) by (metis mult_less_cancel_right_pos of_int_less_iff order_le_less_trans tick_band_pos)
      ultimately show ?thesis using up [of l] band by simp
    next
      case top
      have "g < 1000" using False top by (auto simp: tick_band_def split: if_splits)
      then show ?thesis using up [of 200] top by simp
    qed
  qed
qed


lemma ceiling_below_trillion:
  assumes "0 < n" and "n \<le> 10 ^ 12"
  shows "ceiling_candidate n \<le> 10 ^ 12"
proof -
  let ?t = "tick_band n"
  obtain k where k: "10 ^ 12 = of_int k * ?t" "0 \<le> k" "k < 10 ^ 28"
  proof -
    consider "?t = 1/100" | "?t = 5/100" | "?t = 1/10" | "?t = 5/10" | "?t = 1" | "?t = 5"
      using tick_band_values [of n] by auto
    then show ?thesis
      by cases (auto intro: that [of "10^14"] that [of "2*10^13"] that [of "10^13"]
          that [of "2*10^12"] that [of "10^12"] that [of "2*10^11"])
  qed
  have "dec_div n ?t \<le> of_int k"
    using k assms by (intro dec_div_le_int) (auto simp: field_simps)
  then have "(of_int \<lceil>dec_div n ?t\<rceil> :: rat) \<le> of_int k" by (simp add: ceiling_le_iff)
  then show ?thesis unfolding ceiling_candidate_def k(1)
    using order_less_imp_le [OF tick_band_pos] by (intro mult_right_mono) auto
qed

lemma ceiling_least:
  assumes "is_valid_common_stock_tick (Finite g)" and "0 < n" and "n \<le> g" and "g < 10 ^ 12"
  shows "ceiling_candidate n \<le> g"
proof -
  from assms(1) obtain m where g: "0 < g" "g = of_int m * tick_band g"
    by (auto simp: valid_tick_iff)
  let ?t = "tick_band n"
  have down: "ceiling_candidate n \<le> of_int k * ?t"
    if "0 \<le> k" "k < 10 ^ 28" "n \<le> of_int k * ?t" for k
  proof -
    have "dec_div n ?t \<le> of_int k"
      using that assms(2) by (intro dec_div_le_int) (auto simp: field_simps)
    then have "(of_int \<lceil>dec_div n ?t\<rceil> :: rat) \<le> of_int k" by (simp add: ceiling_le_iff)
    then show ?thesis unfolding ceiling_candidate_def
      using order_less_imp_le [OF tick_band_pos] by (intro mult_right_mono) auto
  qed
  show ?thesis
  proof (cases "tick_band g = ?t")
    case True
    have m: "0 \<le> m" "m < 10 ^ 28" using valid_tick_count [OF assms(1,4) g(2)] by auto
    then show ?thesis using down [of m] g True assms(3) by simp
  next
    case False
    then have "n < g" using assms(3) by (cases "n = g") auto
    from assms(2) show ?thesis
    proof (cases rule: tick_band_cases)
      case (band l u)
      have "of_int u * ?t \<le> g" using band(8) [OF \<open>n < g\<close> False] .
      moreover have "0 < u" using band(1,3,4) assms(2)
        by (metis mult_le_0_iff not_le of_int_0_less_iff order_less_trans tick_band_pos less_le_not_le)
      ultimately show ?thesis using down [of u] band by simp
    next
      case top
      then show ?thesis using False \<open>n < g\<close> by (auto simp: tick_band_def)
    qed
  qed
qed


lemma floor_le_ceiling: "floor_candidate n \<le> ceiling_candidate n"
proof -
  have "(of_int \<lfloor>dec_div n (tick_band n)\<rfloor> :: rat) \<le> of_int \<lceil>dec_div n (tick_band n)\<rceil>"
    by linarith
  then show ?thesis unfolding floor_candidate_def ceiling_candidate_def
    using order_less_imp_le [OF tick_band_pos] by (intro mult_right_mono) auto
qed

lemma floor_below_valid:
  "is_valid_common_stock_tick (Finite g) \<Longrightarrow> 0 < n \<Longrightarrow> n \<le> g \<Longrightarrow> g < 10 ^ 12 \<Longrightarrow>
     floor_candidate n \<le> g"
  using ceiling_least floor_le_ceiling order_trans by blast

text \<open>
  A price of at most 27 significant digits is divided by its tick without rounding: the quotient
  doubles the digits' value at most.
\<close>

lemma ceiling_covers:
  assumes "0 < n" and "n = of_int c * 10 powi e" and "\<bar>c\<bar> < 10 ^ 27"
  shows "n \<le> ceiling_candidate n"
proof -
  let ?t = "tick_band n"
  obtain j i where j: "1 / ?t = of_int j * 10 powi i" "\<bar>j\<bar> \<le> 2"
  proof -
    consider "?t = 1/100" | "?t = 5/100" | "?t = 1/10" | "?t = 5/10" | "?t = 1" | "?t = 5"
      using tick_band_values [of n] by auto
    then show ?thesis
    proof cases
      case 1 show ?thesis by (rule that [of 1 2]) (simp_all add: 1 del: divide_eq_eq eq_divide_eq)
    next
      case 2 show ?thesis by (rule that [of 2 1]) (simp_all add: 2)
    next
      case 3 show ?thesis by (rule that [of 1 1]) (simp_all add: 3)
    next
      case 4 show ?thesis by (rule that [of 2 0]) (simp_all add: 4)
    next
      case 5 show ?thesis by (rule that [of 1 0]) (simp_all add: 5)
    next
      case 6 show ?thesis by (rule that [of 2 "- 1"]) (simp_all add: 6 power_int_minus)
    qed
  qed
  have "n / ?t = (of_int c * 10 powi e) * (of_int j * 10 powi i)"
    using assms(2) j(1) by (metis times_divide_eq_right mult.right_neutral)
  also have "\<dots> = of_int (c * j) * 10 powi (e + i)" by (simp add: power_int_add algebra_simps)
  finally have q: "n / ?t = of_int (c * j) * 10 powi (e + i)" .
  have "\<bar>c * j\<bar> \<le> 10 ^ 27 * 2" unfolding abs_mult using assms(3) j(2) by (intro mult_mono) auto
  then have "fits28 (n / ?t)" unfolding q by (intro fits28_scale) simp
  then have "dec_div n ?t = n / ?t" unfolding dec_div_def using assms(1) by (intro round28_fits) auto
  then have "n / ?t \<le> of_int \<lceil>dec_div n ?t\<rceil>" by simp
  then show ?thesis using tick_band_pos [of n] by (simp add: ceiling_candidate_def pos_divide_le_eq)
qed

section \<open>Fixed adverse slippage\<close>

definition dec_abs :: "rat \<Rightarrow> rat" where
  "dec_abs x = (if x < 0 then - x else x)"

definition decide_fixed_adverse_slippage ::
  "execution_side \<Rightarrow> dec_input \<Rightarrow> reference_source \<Rightarrow> dec_input \<Rightarrow> dec_input
     \<Rightarrow> slippage_decision res" where
  "decide_fixed_adverse_slippage side reference_price source configured_bps limit_price =
     (case positive_decimal reference_price ''reference_price'' of Inl e \<Rightarrow> Inl e | Inr reference \<Rightarrow>
      case positive_decimal limit_price ''limit_price'' of Inl e \<Rightarrow> Inl e | Inr limit \<Rightarrow>
      case decimal_of configured_bps ''configured_slippage_bps'' of Inl e \<Rightarrow> Inl e | Inr bps \<Rightarrow>
      if bps < 0 \<or> bps > 100
      then Inl (ValueError ''configured_slippage_bps must be between 0 and 100'')
      else if \<not> is_valid_common_stock_tick (Finite reference)
      then Inl (ValueError ''reference_price must be a valid common-stock tick'')
      else if \<not> is_valid_common_stock_tick (Finite limit)
      then Inl (ValueError ''limit_price must be a valid common-stock tick'')
      else
        let rate = dec_div bps 10000;
            finish = (\<lambda>raw adjusted satisfied.
              \<lparr>sd_side = side, sd_reference_price = reference, sd_reference_source = source,
               sd_configured_slippage_bps = bps, sd_raw_adverse_price = raw,
               sd_adjusted_price = adjusted, sd_limit_price = limit,
               sd_limit_satisfied = satisfied,
               sd_realized_slippage_bps =
                 dec_mul (dec_div (dec_abs (dec_sub adjusted reference)) reference) 10000,
               sd_slippage_policy_version = SLIPPAGE_POLICY_VERSION,
               sd_price_tick_policy_version = PRICE_TICK_POLICY_VERSION,
               sd_calibration_status = CALIBRATION_STATUS\<rparr>)
        in (case side of
              ES_BUY \<Rightarrow>
                (let raw = dec_mul reference (dec_add 1 rate)
                 in case (if bps = 0 then Inr reference else adverse_tick_ceiling (Finite raw)) of
                      Inl e \<Rightarrow> Inl e
                    | Inr adjusted \<Rightarrow> Inr (finish raw adjusted (adjusted \<le> limit)))
            | ES_SELL \<Rightarrow>
                (let raw = dec_mul reference (dec_sub 1 rate)
                 in if raw \<le> 0 then Inl (ValueError ''adverse SELL price must remain positive'')
                    else case (if bps = 0 then Inr reference else adverse_tick_floor (Finite raw)) of
                           Inl e \<Rightarrow> Inl e
                         | Inr adjusted \<Rightarrow> Inr (finish raw adjusted (adjusted \<ge> limit)))))"

lemma fits28_cents: "\<bar>m\<bar> < 10 ^ 28 \<Longrightarrow> fits28 (of_int m / 100)"
  using fits28_scale [of m "- 2"] by (simp add: power_int_minus)

lemma valid_tick_cents:
  assumes "is_valid_common_stock_tick (Finite g)"
  shows "\<exists>n. g = of_int n / 100"
proof -
  from assms(1) obtain m where g: "g = of_int m * tick_band g" by (auto simp: valid_tick_iff)
  have "\<exists>j. tick_band g = of_int j / 100"
    using tick_band_values [of g]
    by (auto intro: exI [of _ 1] exI [of _ 5] exI [of _ 10] exI [of _ 50] exI [of _ 100]
        exI [of _ 500])
  then obtain j where "tick_band g = of_int j / 100" by blast
  with g have "g = of_int (m * j) / 100" by simp
  then show ?thesis by blast
qed

lemma valid_tick_fits:
  assumes "is_valid_common_stock_tick (Finite g)" and "g < 10 ^ 12"
  shows "fits28 g"
proof -
  from assms(1) obtain m where g: "g = of_int m * tick_band g" by (auto simp: valid_tick_iff)
  have m: "0 < m" "m \<le> 10 ^ 14" using valid_tick_count [OF assms g] by auto
  have "\<exists>j. 0 \<le> j \<and> j \<le> 500 \<and> tick_band g = of_int j / 100"
    using tick_band_values [of g]
    by (auto intro: exI [of _ 1] exI [of _ 5] exI [of _ 10] exI [of _ 50] exI [of _ 100]
        exI [of _ 500])
  then obtain j where j: "0 \<le> j" "j \<le> 500" "tick_band g = of_int j / 100" by blast
  have "m * j \<le> 10 ^ 14 * 500" using m j by (intro mult_mono) auto
  moreover have "0 \<le> m * j" using m j by simp
  ultimately have "fits28 (of_int (m * j) / 100)" by (intro fits28_cents) simp
  moreover have "g = of_int (m * j) / 100"
    by (subst g) (simp add: j(3))
  ultimately show ?thesis by (simp only:)
qed

lemma buy_rate_bounds:
  assumes "0 \<le> bps" and "bps \<le> 100"
  shows "1 \<le> dec_add 1 (dec_div bps 10000)" and "dec_add 1 (dec_div bps 10000) \<le> 2"
proof -
  have r: "0 \<le> dec_div bps 10000" using assms by (simp add: dec_div_def round28_nonneg)
  have "dec_div bps 10000 \<le> 1"
  proof (cases "bps = 0")
    case False
    then show ?thesis using assms fits28_int [of 1]
      by (auto simp: dec_div_def intro!: round28_pos_le)
  qed (simp add: dec_div_def)
  then show "dec_add 1 (dec_div bps 10000) \<le> 2" using r fits28_int [of 2]
    by (auto simp: dec_add_def intro!: round28_pos_le)
  show "1 \<le> dec_add 1 (dec_div bps 10000)" using r fits28_int [of 1]
    by (auto simp: dec_add_def intro!: round28_pos_ge)
qed

lemma sell_rate_bounds:
  assumes "0 \<le> bps" and "bps \<le> 100"
  shows "0 < dec_sub 1 (dec_div bps 10000)" and "dec_sub 1 (dec_div bps 10000) \<le> 1"
proof -
  have r: "0 \<le> dec_div bps 10000" using assms by (simp add: dec_div_def round28_nonneg)
  have f: "fits28 (1 / 100)" using fits28_cents [of 1] by simp
  have "dec_div bps 10000 \<le> 1 / 100"
  proof (cases "bps = 0")
    case False
    then show ?thesis using assms unfolding dec_div_def by (intro round28_pos_le f) auto
  qed (simp add: dec_div_def)
  then have pos: "0 < 1 - dec_div bps 10000" by linarith
  then show "0 < dec_sub 1 (dec_div bps 10000)" by (simp add: dec_sub_def round28_pos)
  show "dec_sub 1 (dec_div bps 10000) \<le> 1" using r pos fits28_int [of 1]
    by (auto simp: dec_sub_def intro!: round28_pos_le)
qed

text \<open>What a successful decision says of each side.\<close>

lemma slippage_decision_common:
  assumes "decide_fixed_adverse_slippage side r src b l = Inr d"
  shows "sd_side d = side" and "r = Finite (sd_reference_price d)"
    and "b = Finite (sd_configured_slippage_bps d)" and "l = Finite (sd_limit_price d)"
    and "sd_reference_source d = src"
    and "is_valid_common_stock_tick (Finite (sd_reference_price d))"
    and "is_valid_common_stock_tick (Finite (sd_limit_price d))"
    and "0 \<le> sd_configured_slippage_bps d" and "sd_configured_slippage_bps d \<le> 100"
    and "0 < sd_reference_price d"
    and "sd_limit_satisfied d = (if side = ES_BUY then sd_adjusted_price d \<le> sd_limit_price d
           else sd_limit_price d \<le> sd_adjusted_price d)"
  using assms
  by (auto simp: decide_fixed_adverse_slippage_def Let_def positive_decimal_Inr decimal_of_def
      split: sum.splits if_splits execution_side.splits dec_input.splits)

lemma slippage_buy_price:
  assumes "decide_fixed_adverse_slippage ES_BUY r src b l = Inr d"
  shows "sd_adjusted_price d =
    (if sd_configured_slippage_bps d = 0 then sd_reference_price d
     else ceiling_candidate (dec_mul (sd_reference_price d)
            (dec_add 1 (dec_div (sd_configured_slippage_bps d) 10000))))"
proof -
  have "0 < dec_mul x (dec_add 1 (dec_div y 10000))" if "0 < x" "0 \<le> y" "y \<le> 100" for x y
    using that buy_rate_bounds(1) [of y] by (simp add: dec_mul_def round28_pos)
  with assms show ?thesis
    by (auto simp: decide_fixed_adverse_slippage_def Let_def positive_decimal_Inr decimal_of_def
        adverse_tick_ceiling_eq split: sum.splits if_splits dec_input.splits)
qed

lemma slippage_sell_price:
  assumes "decide_fixed_adverse_slippage ES_SELL r src b l = Inr d"
  shows "(sd_configured_slippage_bps d = 0 \<longrightarrow> sd_adjusted_price d = sd_reference_price d) \<and>
    (sd_configured_slippage_bps d \<noteq> 0 \<longrightarrow>
      0 < sd_adjusted_price d \<and>
      sd_adjusted_price d = floor_candidate (dec_mul (sd_reference_price d)
            (dec_sub 1 (dec_div (sd_configured_slippage_bps d) 10000))))"
  using assms
  by (auto simp: decide_fixed_adverse_slippage_def Let_def positive_decimal_Inr decimal_of_def
      adverse_tick_floor_eq split: sum.splits if_splits dec_input.splits)

text \<open>Valid inputs are decided: the BUY side has no error of its own.\<close>

lemma slippage_buy_ok:
  assumes "is_valid_common_stock_tick (Finite r)" and "is_valid_common_stock_tick (Finite l)"
    and "0 \<le> b" and "b \<le> 100"
  obtains d where "decide_fixed_adverse_slippage ES_BUY (Finite r) src (Finite b) (Finite l) = Inr d"
proof -
  have pos: "0 < r" "0 < l" using assms(1,2) by (auto simp: valid_tick_iff)
  have "0 < dec_mul r (dec_add 1 (dec_div b 10000))"
    using pos buy_rate_bounds(1) [OF assms(3,4)] by (simp add: dec_mul_def round28_pos)
  with assms pos have
    "is_ok (decide_fixed_adverse_slippage ES_BUY (Finite r) src (Finite b) (Finite l))"
    by (simp add: decide_fixed_adverse_slippage_def Let_def positive_decimal_def
        decimal_of_def adverse_tick_ceiling_eq)
  then show ?thesis using that by (auto simp: is_ok_iff)
qed

lemma buy_adjusted_valid:
  assumes d: "decide_fixed_adverse_slippage ES_BUY r src b l = Inr d"
  shows "0 < sd_adjusted_price d \<and> is_valid_common_stock_tick (Finite (sd_adjusted_price d))"
proof -
  note c = slippage_decision_common [OF d]
  let ?raw = "dec_mul (sd_reference_price d) (dec_add 1 (dec_div (sd_configured_slippage_bps d) 10000))"
  have "0 < ?raw" unfolding dec_mul_def using c(10) buy_rate_bounds [OF c(8,9)] by (intro round28_pos) auto
  then have "is_valid_common_stock_tick (Finite (sd_adjusted_price d))"
    using slippage_buy_price [OF d] c(6) ceiling_candidate_valid by simp
  then show ?thesis by (simp add: valid_tick_iff)
qed

lemma buy_adjusted:
  assumes d: "decide_fixed_adverse_slippage ES_BUY r src b l = Inr d"
    and small: "sd_reference_price d \<le> 10 ^ 11"
  shows "sd_reference_price d \<le> sd_adjusted_price d
    \<and> is_valid_common_stock_tick (Finite (sd_adjusted_price d))"
proof (cases "sd_configured_slippage_bps d = 0")
  case True
  then show ?thesis using slippage_buy_price [OF d] slippage_decision_common [OF d] by simp
next
  case False
  let ?ref = "sd_reference_price d"
  let ?f = "dec_add 1 (dec_div (sd_configured_slippage_bps d) 10000)"
  note c = slippage_decision_common [OF d]
  note f = buy_rate_bounds [OF c(8,9)]
  have fit: "fits28 ?ref" using valid_tick_fits [OF c(6)] small by simp
  have "?ref * 1 \<le> ?ref * ?f" using c(10) f by (intro mult_left_mono) auto
  then have lo: "?ref \<le> dec_mul ?ref ?f" unfolding dec_mul_def
    using fit c(10) f by (intro round28_pos_ge) auto
  have "?ref * ?f \<le> 10 ^ 11 * 2" using c(10) f small by (intro mult_mono) auto
  then have "dec_mul ?ref ?f \<le> 200000000000" unfolding dec_mul_def
    using fits28_int [of 200000000000] c(10) f by (intro round28_pos_le) auto
  then have "?ref \<le> ceiling_candidate (dec_mul ?ref ?f)"
    using valid_below_ceiling [OF c(6) lo] by simp
  moreover have "is_valid_common_stock_tick (Finite (ceiling_candidate (dec_mul ?ref ?f)))"
    using ceiling_candidate_valid lo c(10) by simp
  ultimately show ?thesis using slippage_buy_price [OF d] False by simp
qed

lemma buy_adjusted_bound:
  assumes d: "decide_fixed_adverse_slippage ES_BUY r src b l = Inr d"
    and small: "sd_reference_price d \<le> 10 ^ 11"
  shows "sd_adjusted_price d \<le> 10 ^ 12"
proof (cases "sd_configured_slippage_bps d = 0")
  case True
  then show ?thesis using slippage_buy_price [OF d] small by simp
next
  case False
  let ?ref = "sd_reference_price d"
  let ?f = "dec_add 1 (dec_div (sd_configured_slippage_bps d) 10000)"
  note c = slippage_decision_common [OF d]
  note f = buy_rate_bounds [OF c(8,9)]
  have pos: "0 < ?ref * ?f" using c(10) f by simp
  have "?ref * ?f \<le> 10 ^ 11 * 2" using c(10) f small by (intro mult_mono) auto
  then have "dec_mul ?ref ?f \<le> 200000000000" unfolding dec_mul_def
    using fits28_int [of 200000000000] pos by (intro round28_pos_le) auto
  moreover have "0 < dec_mul ?ref ?f" unfolding dec_mul_def using pos by (rule round28_pos)
  ultimately have "ceiling_candidate (dec_mul ?ref ?f) \<le> 10 ^ 12" by (intro ceiling_below_trillion) auto
  then show ?thesis using slippage_buy_price [OF d] False by simp
qed

lemma sell_adjusted:
  assumes d: "decide_fixed_adverse_slippage ES_SELL r src b l = Inr d"
    and small: "sd_reference_price d \<le> 10 ^ 11"
  shows "sd_adjusted_price d \<le> sd_reference_price d
    \<and> is_valid_common_stock_tick (Finite (sd_adjusted_price d))"
proof (cases "sd_configured_slippage_bps d = 0")
  case True
  then show ?thesis using slippage_sell_price [OF d] slippage_decision_common [OF d] by simp
next
  case False
  let ?ref = "sd_reference_price d"
  let ?f = "dec_sub 1 (dec_div (sd_configured_slippage_bps d) 10000)"
  note c = slippage_decision_common [OF d]
  note f = sell_rate_bounds [OF c(8,9)]
  have fit: "fits28 ?ref" using valid_tick_fits [OF c(6)] small by simp
  have pos: "0 < dec_mul ?ref ?f" using c(10) f by (simp add: dec_mul_def round28_pos)
  have "?ref * ?f \<le> ?ref * 1" using c(10) f by (intro mult_left_mono) auto
  then have "dec_mul ?ref ?f \<le> ?ref" unfolding dec_mul_def
    using fit c(10) f by (intro round28_pos_le) auto
  then have "floor_candidate (dec_mul ?ref ?f) \<le> ?ref"
    using floor_below_valid [OF c(6) pos] small by simp
  then show ?thesis using slippage_sell_price [OF d] False floor_candidate_valid [OF pos] by auto
qed


section \<open>Fill accounting\<close>

text \<open>
  Every sum, difference and product is rounded to the 28 digits of the context, and \<open>quantize\<close>
  raises where the coefficient of its result has more digits.
\<close>

definition quantize_checked :: "(rat \<Rightarrow> rat \<Rightarrow> rat) \<Rightarrow> rat \<Rightarrow> rat \<Rightarrow> rat res" where
  "quantize_checked rounding quantum x =
     (let r = rounding quantum x
      in if dec_abs (r / quantum) < 10 ^ 28 then Inr r else Inl InvalidOperation)"

definition round_down_twd :: "rat \<Rightarrow> rat res" where
  "round_down_twd x = quantize_checked quantize_down MONEY_QUANTUM x"

definition cumulative_commission_for :: "dec_input \<Rightarrow> rat res" where
  "cumulative_commission_for v =
     (case decimal_of v ''cumulative_order_gross'' of Inl e \<Rightarrow> Inl e | Inr gross \<Rightarrow>
      if gross < 0 then Inl (ValueError ''cumulative_order_gross must not be negative'')
      else if gross = 0 then Inr 0
      else case round_down_twd (dec_mul gross COMMISSION_RATE) of Inl e \<Rightarrow> Inl e
           | Inr c \<Rightarrow> Inr (max MINIMUM_COMMISSION_TWD c))"

definition decide_fill_accounting ::
  "(instrument_descriptor \<Rightarrow> string) \<Rightarrow> slippage_decision \<Rightarrow> int \<Rightarrow> dec_input \<Rightarrow> dec_input \<Rightarrow> dec_input
     \<Rightarrow> instrument_descriptor \<Rightarrow> fill_accounting res" where
  "decide_fill_accounting descriptor_digest slippage quantity gross_before booked_before tax_before
     descriptor =
     (if sd_slippage_policy_version slippage \<noteq> SLIPPAGE_POLICY_VERSION
         \<or> sd_price_tick_policy_version slippage \<noteq> PRICE_TICK_POLICY_VERSION
         \<or> sd_calibration_status slippage \<noteq> CALIBRATION_STATUS
      then Inl (ValueError ''slippage policy identity is invalid'')
      else
      case decide_fixed_adverse_slippage (sd_side slippage) (Finite (sd_reference_price slippage))
             (sd_reference_source slippage) (Finite (sd_configured_slippage_bps slippage))
             (Finite (sd_limit_price slippage)) of Inl e \<Rightarrow> Inl e | Inr canonical \<Rightarrow>
      if canonical \<noteq> slippage then Inl (ValueError ''slippage decision integrity check failed'')
      else if quantity \<le> 0 then Inl (ValueError ''quantity_shares must be a positive integer'')
      else if \<not> sd_limit_satisfied slippage
      then Inl (ValueError ''slippage-adjusted price does not satisfy the limit'')
      else if id_product_class descriptor \<noteq> COMMON_STOCK
      then Inl (ValueError ''UNSUPPORTED_COST_POLICY_SCOPE'')
      else if id_exchange_raw descriptor \<notin> {''TWSE'', ''TPEX'', ''TSE'', ''OTC''}
      then Inl (ValueError ''UNSUPPORTED_COST_POLICY_SCOPE'')
      else
      case decimal_of gross_before ''cumulative_order_gross_before'' of Inl e \<Rightarrow> Inl e
      | Inr previous_gross \<Rightarrow>
      case decimal_of booked_before ''already_booked_commission'' of Inl e \<Rightarrow> Inl e
      | Inr booked_commission \<Rightarrow>
      case decimal_of tax_before ''cumulative_order_tax_before'' of Inl e \<Rightarrow> Inl e
      | Inr previous_tax \<Rightarrow>
      if previous_gross < 0 \<or> booked_commission < 0 \<or> previous_tax < 0
      then Inl (ValueError ''cumulative accounting values must not be negative'')
      else
      let gross = dec_mul (sd_adjusted_price slippage) (of_int quantity);
          cumulative_gross = dec_add previous_gross gross
      in case cumulative_commission_for (Finite cumulative_gross) of Inl e \<Rightarrow> Inl e
      | Inr cumulative_commission \<Rightarrow>
      let commission = dec_sub cumulative_commission booked_commission
      in if commission < 0
         then Inl (ValueError ''already_booked_commission exceeds policy result'')
         else
         case (if sd_side slippage = ES_BUY then Inr 0
               else round_down_twd (dec_mul gross SELL_TAX_RATE)) of Inl e \<Rightarrow> Inl e
         | Inr tax \<Rightarrow>
         let net = (if sd_side slippage = ES_BUY then - dec_add gross commission
                    else dec_sub (dec_sub gross commission) tax)
         in if sd_side slippage = ES_SELL \<and> net < 0
            then Inl (ValueError ''SELL net cash effect must not be negative'')
            else Inr
              \<lparr>fa_side = sd_side slippage, fa_quantity_shares = quantity,
               fa_fill_price = sd_adjusted_price slippage,
               fa_reference_price = sd_reference_price slippage,
               fa_reference_source = sd_reference_source slippage,
               fa_configured_slippage_bps = sd_configured_slippage_bps slippage,
               fa_realized_slippage_bps = sd_realized_slippage_bps slippage,
               fa_slippage_cost =
                 dec_mul (dec_abs (dec_sub (sd_adjusted_price slippage) (sd_reference_price slippage)))
                   (of_int quantity),
               fa_gross_amount = gross, fa_commission = commission,
               fa_cumulative_order_commission = cumulative_commission, fa_tax = tax,
               fa_cumulative_order_tax = dec_add previous_tax tax, fa_net_cash_effect = net,
               fa_fee_policy_version = FEE_POLICY_VERSION,
               fa_rounding_policy_version = ROUNDING_POLICY_VERSION,
               fa_slippage_policy_version = sd_slippage_policy_version slippage,
               fa_price_tick_policy_version = sd_price_tick_policy_version slippage,
               fa_instrument_descriptor = descriptor,
               fa_instrument_descriptor_digest = descriptor_digest descriptor\<rparr>)"

text \<open>The commission of the policy without rounding to the context.\<close>

definition commission_of :: "rat \<Rightarrow> rat" where
  "commission_of gross =
     (if gross = 0 then 0
      else max MINIMUM_COMMISSION_TWD (quantize_down MONEY_QUANTUM (gross * COMMISSION_RATE)))"

lemma commission_of_nonneg: "0 \<le> commission_of gross"
  by (simp add: commission_of_def MINIMUM_COMMISSION_TWD_def le_max_iff_disj)

lemma commission_of_int: "\<exists>j. commission_of gross = of_int j"
proof (cases "gross = 0")
  case True
  then show ?thesis by (intro exI [of _ 0]) (simp add: commission_of_def)
next
  case False
  let ?j = "trunc_rat (gross * COMMISSION_RATE)"
  have "commission_of gross = of_int (max 20 ?j)"
    using False by (simp add: commission_of_def quantize_down_def
        MONEY_QUANTUM_def MINIMUM_COMMISSION_TWD_def max_def)
  then show ?thesis by blast
qed

lemma commission_of_mono: "0 \<le> a \<Longrightarrow> a \<le> b \<Longrightarrow> commission_of a \<le> commission_of b"
proof -
  assume ab: "0 \<le> a" "a \<le> b"
  have "quantize_down MONEY_QUANTUM (a * COMMISSION_RATE) \<le> quantize_down MONEY_QUANTUM (b * COMMISSION_RATE)"
    using ab by (intro quantize_down_mono mult_right_mono) (auto simp: policy_defs)
  then show ?thesis using ab commission_of_nonneg [of b]
    by (auto simp: commission_of_def)
qed

lemma commission_small:
  assumes "0 < gross"
  shows "commission_of gross \<le> max 20 (gross * (1425 / 1000000))"
  using assms quantize_down_le [of 1 "gross * (1425 / 1000000)"]
  by (auto simp: commission_of_def policy_defs)

text \<open>Amounts of whole cents below \<open>10 ^ 22\<close> TWD are computed without rounding.\<close>

lemma round28_cents: "0 \<le> k \<Longrightarrow> k < 10 ^ 28 \<Longrightarrow> round28 (of_int k / 100) = of_int k / 100"
  by (intro round28_exact fits28_cents) auto

lemma cents_rate: "0 \<le> k \<Longrightarrow> k < 10 ^ 24 \<Longrightarrow>
    dec_mul (of_int k / 100) COMMISSION_RATE = of_int k / 100 * COMMISSION_RATE"
proof -
  assume k: "0 \<le> k" "k < 10 ^ 24"
  have e: "of_int k / 100 * COMMISSION_RATE = of_int (k * 1425) * 10 powi (- 8)"
    by (simp add: COMMISSION_RATE_def power_int_minus)
  have "fits28 (of_int (k * 1425) * 10 powi (- 8))" using k by (intro fits28_scale) simp
  then show ?thesis unfolding dec_mul_def e
    by (rule round28_exact) (use k in \<open>simp del: of_int_mult\<close>)
qed

lemma cumulative_commission_cents:
  assumes "0 \<le> k" and "k < 10 ^ 24"
  shows "cumulative_commission_for (Finite (of_int k / 100)) = Inr (commission_of (of_int k / 100))"
proof -
  let ?c = "of_int k / 100 * COMMISSION_RATE"
  have "0 \<le> ?c" using assms(1) by (simp add: COMMISSION_RATE_def)
  then have "0 \<le> quantize_down 1 ?c" "quantize_down 1 ?c \<le> ?c"
    using quantize_down_nonneg [of 1 ?c] quantize_down_le [of 1 ?c] by simp_all
  moreover have "?c < 10 ^ 28"
  proof -
    have "(of_int k :: rat) < of_int (10 ^ 24)" using assms(2) by (simp only: of_int_less_iff)
    then show ?thesis by (simp add: COMMISSION_RATE_def)
  qed
  ultimately have "round_down_twd ?c = Inr (quantize_down MONEY_QUANTUM ?c)"
    by (simp add: round_down_twd_def quantize_checked_def dec_abs_def MONEY_QUANTUM_def Let_def)
  then show ?thesis unfolding cumulative_commission_for_def decimal_of_def dec_input.case sum.case
      cents_rate [OF assms] using assms(1) by (simp add: commission_of_def)
qed

text \<open>The result of an accepted fill, field by field.\<close>

lemma fill_accounting_result:
  assumes "decide_fill_accounting dig s q (Finite g) (Finite c) (Finite t) desc = Inr f"
  shows "fa_side f = sd_side s" and "fa_quantity_shares f = q" and "0 < q"
    and "fa_fill_price f = sd_adjusted_price s"
    and "fa_gross_amount f = dec_mul (sd_adjusted_price s) (of_int q)"
    and "fa_commission f = dec_sub (fa_cumulative_order_commission f) c"
    and "0 \<le> fa_commission f"
    and "fa_cumulative_order_tax f = dec_add t (fa_tax f)"
    and "sd_side s = ES_BUY \<Longrightarrow> fa_tax f = 0"
    and "fa_net_cash_effect f = (if sd_side s = ES_BUY then - dec_add (fa_gross_amount f) (fa_commission f)
           else dec_sub (dec_sub (fa_gross_amount f) (fa_commission f)) (fa_tax f))"
    and "sd_side s = ES_SELL \<Longrightarrow> 0 \<le> fa_net_cash_effect f"
    and "sd_limit_satisfied s" and "id_product_class desc = COMMON_STOCK"
    and "id_exchange_raw desc \<in> {''TWSE'', ''TPEX'', ''TSE'', ''OTC''}"
    and "0 \<le> g" and "0 \<le> c" and "0 \<le> t"
    and "decide_fixed_adverse_slippage (sd_side s) (Finite (sd_reference_price s))
             (sd_reference_source s) (Finite (sd_configured_slippage_bps s))
             (Finite (sd_limit_price s)) = Inr s"
    and "cumulative_commission_for (Finite (dec_add g (fa_gross_amount f))) =
           Inr (fa_cumulative_order_commission f)"
  using assms
  by (auto simp: decide_fill_accounting_def decimal_of_def Let_def split: if_splits sum.splits)


section \<open>Properties\<close>

text \<open>
  C40. Adverse rounding up, for every positive price of at most 27 significant digits below one
  trillion TWD: the function returns, its result is a valid tick price, covers the price, and no
  valid tick price below one trillion lies in between, whatever band of the tick table the price
  is in. (With 28 digits the claim fails: from 5000 TWD on, the quotient by the tick is rounded.)
\<close>

theorem adverse_ceiling_is_least_tick:
  assumes "0 < n" and "n < 10 ^ 12 - 5" and "n = of_int c * 10 powi e" and "\<bar>c\<bar> < 10 ^ 27"
  shows "\<exists>p. adverse_tick_ceiling (Finite n) = Inr p
           \<and> is_valid_common_stock_tick (Finite p) \<and> n \<le> p
           \<and> (\<forall>g < 10 ^ 12. is_valid_common_stock_tick (Finite g) \<longrightarrow> n \<le> g \<longrightarrow> p \<le> g)"
  using assms(1,2) ceiling_covers [OF assms(1,3,4)] ceiling_least [of _ n] ceiling_candidate_valid
  by (intro exI [of _ "ceiling_candidate n"]) (auto simp: adverse_tick_ceiling_eq)

theorem adverse_ceiling_is_least_tick_witness:
  "\<exists>p. adverse_tick_ceiling (Finite (9999123 / 1000000)) = Inr p
       \<and> is_valid_common_stock_tick (Finite p) \<and> 9999123 / 1000000 \<le> p
       \<and> (\<forall>g < 10 ^ 12. is_valid_common_stock_tick (Finite g) \<longrightarrow> 9999123 / 1000000 \<le> g \<longrightarrow> p \<le> g)"
  by (rule adverse_ceiling_is_least_tick [where c = 9999123 and e = "- 6"])
    (auto simp: power_int_minus)

text \<open>The limit on the digits is needed: 28 digits from 5000 TWD on round below the price.\<close>

lemma ceiling_rounds_28_digits:
  "adverse_tick_ceiling (Finite (5000 + 1 / 10 ^ 24)) = Inr 5000"
proof -
  have "dec_div (5000 + 1 / 10 ^ 24) 5 = 1000" by code_simp
  then show ?thesis by (simp add: adverse_tick_ceiling_eq ceiling_candidate_def tick_band_def)
qed

text \<open>
  The caller: a BUY reference below \<open>10 ^ 11\<close> TWD and a slippage of at most eight decimals give a
  raw price of at most 27 digits, so the adjusted price is the least valid tick at or above it.
\<close>

lemma buy_adjusted_is_least_tick:
  assumes d: "decide_fixed_adverse_slippage ES_BUY r src b l = Inr d"
    and small: "sd_reference_price d < 10 ^ 11" and bps: "sd_configured_slippage_bps d = of_int k / 10 ^ 8"
    and "sd_configured_slippage_bps d \<noteq> 0"
    and "is_valid_common_stock_tick (Finite g)" and "g < 10 ^ 12"
    and "sd_reference_price d * (1 + sd_configured_slippage_bps d / 10000) \<le> g"
  shows "sd_reference_price d * (1 + sd_configured_slippage_bps d / 10000) \<le> sd_adjusted_price d
    \<and> sd_adjusted_price d \<le> g"
proof -
  let ?ref = "sd_reference_price d" and ?b = "sd_configured_slippage_bps d"
  note c = slippage_decision_common [OF d]
  obtain m where m: "?ref = of_int m / 100" using valid_tick_cents [OF c(6)] by blast
  have m0: "0 < m" using c(10) m by (simp add: zero_less_divide_iff)
  have m1: "m < 10 ^ 13" using small m of_int_less_iff [where ?'a = rat, of m "10 ^ 13"] by simp
  have k0: "0 \<le> k" using c(8) bps by (simp add: zero_le_divide_iff)
  have k1: "k \<le> 10 ^ 10" using c(9) bps of_int_le_iff [where ?'a = rat, of k "10 ^ 10"] by simp
  have rate: "dec_div ?b 10000 = of_int k * 10 powi (- 12)"
  proof -
    have e: "?b / 10000 = of_int k * 10 powi (- 12)" by (simp add: bps power_int_minus)
    then show ?thesis unfolding dec_div_def e using k0 k1
      by (intro round28_exact fits28_scale) auto
  qed
  have factor: "dec_add 1 (dec_div ?b 10000) = of_int (10 ^ 12 + k) * 10 powi (- 12)"
  proof -
    have e: "1 + of_int k * 10 powi (- 12) = of_int (10 ^ 12 + k) * (10 powi (- 12) :: rat)"
      by (simp add: power_int_minus field_simps)
    show ?thesis unfolding rate dec_add_def e using k0 k1
      by (intro round28_exact fits28_scale) auto
  qed
  let ?n = "of_int (m * (10 ^ 12 + k)) * (10 powi (- 14) :: rat)"
  have "m * (10 ^ 12 + k) \<le> 10 ^ 13 * (2 * 10 ^ 12)" using m0 m1 k0 k1 by (intro mult_mono) auto
  then have n27: "\<bar>m * (10 ^ 12 + k)\<bar> < 10 ^ 27" using m0 k0 by (simp add: abs_mult)
  have exact: "?ref * (1 + ?b / 10000) = ?n" by (simp add: m bps power_int_minus field_simps)
  have n0: "0 < ?n" using m0 k0 by simp
  have prod: "dec_mul ?ref (dec_add 1 (dec_div ?b 10000)) = ?n"
  proof -
    have "?ref * (of_int (10 ^ 12 + k) * 10 powi (- 12)) = ?n"
      by (simp add: m power_int_minus field_simps)
    then show ?thesis unfolding factor dec_mul_def using n27 n0
      by (simp only: round28_exact fits28_scale less_imp_le) (intro round28_exact fits28_scale, auto)
  qed
  have adj: "sd_adjusted_price d = ceiling_candidate ?n"
    using slippage_buy_price [OF d] assms(4) prod by simp
  show ?thesis
    using ceiling_covers [OF n0 refl n27] ceiling_least [OF assms(5) n0 _ assms(6)] assms(7)
    unfolding exact adj by simp
qed

text \<open>
  C26. Fixed-bps slippage is adverse on both sides: whenever a decision is made, the adjusted
  price is a valid tick price that is no better for the order than the reference (at or above
  it for BUY, at or below it for SELL), zero bps keeps the reference, and the limit flag
  compares exactly that adjusted price with the limit. For references up to
  \<open>10 ^ 11\<close> TWD, where the rounding to 28 digits stays within a tick.
\<close>

theorem slippage_is_adverse:
  assumes "decide_fixed_adverse_slippage side (Finite r) src b l = Inr d" and "r \<le> 10 ^ 11"
  shows "is_valid_common_stock_tick (Finite (sd_adjusted_price d))
       \<and> (case side of
            ES_BUY \<Rightarrow> r \<le> sd_adjusted_price d
              \<and> (sd_limit_satisfied d = (sd_adjusted_price d \<le> sd_limit_price d))
          | ES_SELL \<Rightarrow> sd_adjusted_price d \<le> r
              \<and> (sd_limit_satisfied d = (sd_limit_price d \<le> sd_adjusted_price d)))
       \<and> (b = Finite 0 \<longrightarrow> sd_adjusted_price d = r)"
proof -
  note c = slippage_decision_common [OF assms(1)]
  have r: "sd_reference_price d = r" using c(2) by simp
  show ?thesis
  proof (cases side)
    case ES_BUY
    note d = assms(1) [unfolded ES_BUY]
    show ?thesis
      using buy_adjusted [OF d] slippage_buy_price [OF d] c(3,11) r assms(2) by (simp add: ES_BUY)
  next
    case ES_SELL
    note d = assms(1) [unfolded ES_SELL]
    show ?thesis
      using sell_adjusted [OF d] slippage_sell_price [OF d] c(3,11) r assms(2) by (simp add: ES_SELL)
  qed
qed

lemma valid_tick_100: "is_valid_common_stock_tick (Finite 100)"
  by (intro valid_tickI [where m = 200]) (auto simp: tick_band_def)

theorem slippage_is_adverse_witness:
  "\<exists>d. decide_fixed_adverse_slippage ES_BUY (Finite (998 / 10)) BEST_ASK (Finite 25) (Finite 100) = Inr d
       \<and> is_valid_common_stock_tick (Finite (sd_adjusted_price d)) \<and> 998 / 10 \<le> sd_adjusted_price d"
proof -
  have v: "is_valid_common_stock_tick (Finite (998 / 10))"
    by (intro valid_tickI [where m = 998]) (auto simp: tick_band_def)
  obtain d where
    d: "decide_fixed_adverse_slippage ES_BUY (Finite (998 / 10)) BEST_ASK (Finite 25) (Finite 100) = Inr d"
    using slippage_buy_ok [OF v valid_tick_100, of 25] by auto
  show ?thesis using slippage_is_adverse [OF d] d by simp
qed

text \<open>Sums of whole cents and whole TWD, and the commission a further fill adds.\<close>

lemma dec_add_cents_int:
  assumes "0 \<le> n" and "n \<le> 10 ^ 24" and "0 \<le> j" and "j \<le> 10 ^ 22"
  shows "dec_add (of_int n / 100) (of_int j) = of_int n / 100 + of_int j"
proof -
  have e: "of_int n / 100 + of_int j = (of_int (n + 100 * j) / 100 :: rat)" by simp
  show ?thesis unfolding dec_add_def e using assms by (intro round28_cents) auto
qed

lemma commission_of_cents_bound:
  assumes "0 < p" and "p \<le> 10 ^ 24"
  shows "commission_of (of_int p / 100) \<le> of_int (10 ^ 22)"
proof -
  have "commission_of (of_int p / 100) \<le> max 20 (of_int p / 100 * (1425 / 1000000))"
    using assms(1) by (intro commission_small) simp
  moreover have "(of_int p :: rat) \<le> of_int (10 ^ 24)" using assms(2) by (simp only: of_int_le_iff)
  ultimately show ?thesis by (simp add: max_def split: if_splits)
qed

lemma commission_increment:
  assumes "0 \<le> k" and "0 < n" and "k + n \<le> 10 ^ 24"
  obtains j where "commission_of (of_int (k + n) / 100) - commission_of (of_int k / 100) = of_int j"
    and "0 \<le> j" and "j \<le> 10 ^ 22"
    and "dec_sub (commission_of (of_int (k + n) / 100)) (commission_of (of_int k / 100)) = of_int j"
proof -
  let ?a = "commission_of (of_int k / 100)" and ?b = "commission_of (of_int (k + n) / 100)"
  obtain j where j: "?b - ?a = of_int j"
    using commission_of_int [of "of_int k / 100"] commission_of_int [of "of_int (k + n) / 100"]
    by (metis of_int_diff)
  have "?a \<le> ?b" using assms by (intro commission_of_mono) (simp_all add: divide_right_mono)
  then have "(0 :: rat) \<le> of_int j" using j by linarith
  then have j0: "0 \<le> j" by simp
  have "?b \<le> of_int (10 ^ 22)" by (rule commission_of_cents_bound) (use assms in simp_all)
  then have "of_int j \<le> (of_int (10 ^ 22) :: rat)"
    using j commission_of_nonneg [of "of_int k / 100"] by linarith
  then have j1: "j \<le> 10 ^ 22" by (simp only: of_int_le_iff)
  have "dec_sub ?b ?a = of_int j"
    unfolding dec_sub_def j using j0 j1 by (intro round28_exact fits28_int) auto
  with j j0 j1 show ?thesis by (rule that)
qed

lemma buy_fill_accounted:
  assumes "decide_fixed_adverse_slippage ES_BUY r src b l = Inr d" and "sd_limit_satisfied d"
    and "0 < q" and "q \<le> 10 ^ 9" and "id_product_class desc = COMMON_STOCK"
    and "id_exchange_raw desc \<in> {''TWSE'', ''TPEX'', ''TSE'', ''OTC''}"
    and "g = of_int k / 100" and "0 \<le> k" and "k < 10 ^ 23" and "0 \<le> t"
    and "sd_adjusted_price d \<le> 10 ^ 12"
  shows "\<exists>f. decide_fill_accounting dig d q (Finite g) (Finite (commission_of g)) (Finite t) desc = Inr f
     \<and> fa_gross_amount f = sd_adjusted_price d * of_int q
     \<and> fa_commission f = commission_of (g + fa_gross_amount f) - commission_of g
     \<and> 0 \<le> fa_commission f
     \<and> fa_net_cash_effect f = - (fa_gross_amount f + fa_commission f)
     \<and> fa_tax f = 0"
proof -
  note c = slippage_decision_common [OF assms(1)]
  note adj = buy_adjusted_valid [OF assms(1)]
  obtain m where m: "sd_adjusted_price d = of_int m / 100" using adj valid_tick_cents by blast
  have m0: "0 < m" using adj m by (simp add: zero_less_divide_iff)
  have m1: "m \<le> 10 ^ 14" using assms(11) m of_int_le_iff [where ?'a = rat, of m "10 ^ 14"] by simp
  obtain n where n: "n = m * q" by blast
  have n0: "0 < n" "n \<le> 10 ^ 14 * 10 ^ 9"
    unfolding n using m0 assms(3) m1 assms(4) by (simp, intro mult_mono) auto
  have price: "sd_adjusted_price d * of_int q = of_int n / 100" by (simp add: m n)
  have gross: "dec_mul (sd_adjusted_price d) (of_int q) = of_int n / 100"
    unfolding dec_mul_def price using n0 by (intro round28_cents) auto
  obtain p where p: "p = k + n" by blast
  let ?G = "of_int p / 100 :: rat"
  have G: "?G = g + of_int n / 100" by (simp add: assms(7) p add_divide_distrib)
  have total: "dec_add g (of_int n / 100) = ?G"
    unfolding dec_add_def G [symmetric] using n0 p assms(8,9) by (intro round28_cents) auto
  have cc: "cumulative_commission_for (Finite ?G) = Inr (commission_of ?G)"
    using n0 p assms(8,9) by (intro cumulative_commission_cents) auto
  obtain j where j: "commission_of ?G - commission_of g = of_int j" "0 \<le> j" "j \<le> 10 ^ 22"
    and com: "dec_sub (commission_of ?G) (commission_of g) = of_int j"
    using commission_increment [of k n] n0 p assms(7-9) by auto
  have v: "sd_slippage_policy_version d = SLIPPAGE_POLICY_VERSION"
    "sd_price_tick_policy_version d = PRICE_TICK_POLICY_VERSION"
    "sd_calibration_status d = CALIBRATION_STATUS"
    using assms(1) by (auto simp: decide_fixed_adverse_slippage_def Let_def positive_decimal_Inr
        decimal_of_def split: sum.splits if_splits dec_input.splits)
  have again: "decide_fixed_adverse_slippage (sd_side d) (Finite (sd_reference_price d))
      (sd_reference_source d) (Finite (sd_configured_slippage_bps d)) (Finite (sd_limit_price d)) = Inr d"
    using assms(1) c(1-5) by simp
  have g0: "\<not> g < 0" using assms(7,8) by simp
  obtain f where f: "decide_fill_accounting dig d q (Finite g) (Finite (commission_of g)) (Finite t) desc
      = Inr f"
    using assms(2,3,5,6,10) v again cc commission_of_nonneg [of g] c(1) g0 j(2)
    by (simp add: decide_fill_accounting_def decimal_of_def Let_def gross total com)
  note r = fill_accounting_result [OF f]
  have gr: "fa_gross_amount f = of_int n / 100" using r(5) gross by simp
  have cm: "fa_commission f = of_int j" using r(6,19) gr total cc com by simp
  have incr: "fa_commission f = commission_of (g + fa_gross_amount f) - commission_of g"
    using cm j unfolding gr G by simp
  have "dec_add (of_int n / 100) (of_int j) = of_int n / 100 + of_int j"
    using n0 j by (intro dec_add_cents_int) auto
  then have net: "fa_net_cash_effect f = - (fa_gross_amount f + fa_commission f)"
    using r(10) c(1) unfolding gr cm by simp
  show ?thesis
  proof (intro exI conjI)
    show "decide_fill_accounting dig d q (Finite g) (Finite (commission_of g)) (Finite t) desc = Inr f"
      by (rule f)
    show "fa_gross_amount f = sd_adjusted_price d * of_int q" using gr price by simp
  qed (use incr r(7,9) net c(1) in simp_all)
qed

text \<open>
  C27. Booking a BUY. Take a limit-satisfying BUY decision at a reference of at most \<open>10 ^ 11\<close> TWD,
  one to \<open>10 ^ 9\<close> shares, and a descriptor of a common stock on one of the supported exchanges
  (TWSE, TPEX, TSE, OTC). If the order's earlier fills total whole cents below \<open>10 ^ 21\<close> TWD and
  were charged the policy's commission, the fill is booked: its gross is price times shares without
  rounding, its commission the exact increment of the cumulative commission - so the order never
  pays twice for the minimum - its cash effect their sum, and no tax is charged.
\<close>

theorem buy_fill_is_booked:
  assumes "decide_fixed_adverse_slippage ES_BUY r src b l = Inr d" and "sd_limit_satisfied d"
    and "0 < q" and "q \<le> 10 ^ 9" and "id_product_class desc = COMMON_STOCK"
    and "id_exchange_raw desc \<in> {''TWSE'', ''TPEX'', ''TSE'', ''OTC''}"
    and "g = of_int k / 100" and "0 \<le> k" and "k < 10 ^ 23" and "0 \<le> t"
    and "sd_reference_price d \<le> 10 ^ 11"
  shows "\<exists>f. decide_fill_accounting dig d q (Finite g) (Finite (commission_of g)) (Finite t) desc = Inr f
     \<and> fa_gross_amount f = sd_adjusted_price d * of_int q
     \<and> fa_commission f = commission_of (g + fa_gross_amount f) - commission_of g
     \<and> 0 \<le> fa_commission f
     \<and> fa_net_cash_effect f = - (fa_gross_amount f + fa_commission f)
     \<and> fa_tax f = 0"
  by (rule buy_fill_accounted [OF assms(1-10) buy_adjusted_bound [OF assms(1,11)]])

theorem buy_fill_is_booked_witness:
  "\<exists>d f. decide_fixed_adverse_slippage ES_BUY (Finite 100) BEST_ASK (Finite 0) (Finite 100) = Inr d
     \<and> decide_fill_accounting (\<lambda>_. ''digest'') d 1000 (Finite 50000) (Finite (commission_of 50000))
         (Finite 0) \<lparr>id_symbol = ''2330'', id_exchange_raw = ''TSE'', id_security_type_raw = ''STK'',
           id_product_category_raw = ''24'', id_product_class = COMMON_STOCK,
           id_source_identity = ''src''\<rparr> = Inr f
     \<and> 0 \<le> fa_commission f"
proof -
  obtain d where
    d: "decide_fixed_adverse_slippage ES_BUY (Finite 100) BEST_ASK (Finite 0) (Finite 100) = Inr d"
    using slippage_buy_ok [OF valid_tick_100 valid_tick_100, of 0] by auto
  have "sd_reference_price d = 100" "sd_limit_satisfied d"
    using slippage_decision_common [OF d] slippage_buy_price [OF d] by auto
  then show ?thesis
    using buy_fill_is_booked [OF d, of 1000 "\<lparr>id_symbol = ''2330'', id_exchange_raw = ''TSE'',
      id_security_type_raw = ''STK'', id_product_category_raw = ''24'',
      id_product_class = COMMON_STOCK, id_source_identity = ''src''\<rparr>" 50000 5000000 0
      "\<lambda>_. ''digest''"] d
    by auto
qed

end
