(* ===== verification/Trade_Management.thy ===== *)
theory Trade_Management
  imports Prelude
begin

text \<open>
  The immutable trade-management contracts (\<open>trading/trade_management.py\<close>): typed trade
  timestamps, deterministic identities, the decision, order and trade lifecycles, and the exit
  decision, recommendation and leg records with the checks of their \<open>__post_init__\<close>.
\<close>

section \<open>Schema, digests and identities\<close>

definition TRADE_MANAGEMENT_SCHEMA_VERSION :: string where
  "TRADE_MANAGEMENT_SCHEMA_VERSION = ''trade-management-v1''"

definition TRADE_MANAGEMENT_ID_VERSION :: string where
  "TRADE_MANAGEMENT_ID_VERSION = ''trade-management-id-v1''"

definition TRADE_TIMEZONE :: string where
  "TRADE_TIMEZONE = ''Asia/Taipei''"

definition require_schema :: "string \<Rightarrow> unit res" where
  "require_schema v = require (v = TRADE_MANAGEMENT_SCHEMA_VERSION)
     (ValueError (''unsupported trade management schema: '' @ v))"

definition require_sha256 :: "string \<Rightarrow> string \<Rightarrow> unit res" where
  "require_sha256 v field = require (is_sha256 v)
     (ValueError (field @ '' must be a lowercase SHA-256 hex digest''))"

text \<open>\<open>_derive_id\<close>: the digest of the version and the parts, none of them blank.\<close>

definition derive_id :: "(json \<Rightarrow> string) \<Rightarrow> string \<Rightarrow> string list \<Rightarrow> string res" where
  "derive_id sha prefix parts =
     (if list_ex blank parts then Inl (ValueError ''identity part must not be empty'')
      else Inr (prefix @ ''_'' @ sha (JList (JStr TRADE_MANAGEMENT_ID_VERSION # map JStr parts))))"

definition build_trade_id :: "(json \<Rightarrow> string) \<Rightarrow> string \<Rightarrow> string \<Rightarrow> string res" where
  "build_trade_id sha session_id opening_fill_id =
     derive_id sha ''trade_v1'' [session_id, opening_fill_id]"

definition build_exit_decision_id ::
  "(json \<Rightarrow> string) \<Rightarrow> string \<Rightarrow> string \<Rightarrow> string \<Rightarrow> string \<Rightarrow> string \<Rightarrow> string res" where
  "build_exit_decision_id sha session_id trade_id source_event_id policy_version digest =
     (case require_sha256 digest ''evaluation_digest'' of Inl e \<Rightarrow> Inl e | Inr _ \<Rightarrow>
      derive_id sha ''exit_decision_v1''
        [session_id, trade_id, source_event_id, policy_version, digest])"

definition build_exit_recommendation_id ::
  "(json \<Rightarrow> string) \<Rightarrow> string \<Rightarrow> string \<Rightarrow> string \<Rightarrow> string res" where
  "build_exit_recommendation_id sha session_id trade_id policy_version =
     derive_id sha ''exit_recommendation_v1''
       [session_id, trade_id, policy_version, ''liquidation-cycle-1'']"

lemma derive_id_ok: "derive_id sha p parts = Inr i \<longleftrightarrow>
    \<not> list_ex blank parts
    \<and> i = p @ ''_'' @ sha (JList (JStr TRADE_MANAGEMENT_ID_VERSION # map JStr parts))"
  by (auto simp: derive_id_def)

section \<open>Timestamps\<close>

datatype timestamp_role =
    MARKET_EVENT | SIGNAL_ROLE | DECISION_ROLE | ORDER_SUBMITTED | FILL_ROLE | EXIT_DECISION

datatype timestamp_source =
    CANONICAL_MARKET_EVENT | STRATEGY_RUNTIME | SIMULATION_CLOCK | BROKER_EVENT

fun allowed_timestamp_sources :: "timestamp_role \<Rightarrow> timestamp_source list" where
  "allowed_timestamp_sources MARKET_EVENT = [CANONICAL_MARKET_EVENT]"
| "allowed_timestamp_sources SIGNAL_ROLE =
     [CANONICAL_MARKET_EVENT, STRATEGY_RUNTIME, SIMULATION_CLOCK]"
| "allowed_timestamp_sources DECISION_ROLE = [STRATEGY_RUNTIME, SIMULATION_CLOCK]"
| "allowed_timestamp_sources ORDER_SUBMITTED = [STRATEGY_RUNTIME, SIMULATION_CLOCK, BROKER_EVENT]"
| "allowed_timestamp_sources FILL_ROLE = [CANONICAL_MARKET_EVENT, SIMULATION_CLOCK, BROKER_EVENT]"
| "allowed_timestamp_sources EXIT_DECISION = [STRATEGY_RUNTIME, SIMULATION_CLOCK]"

text \<open>\<open>tt_zone\<close> is the IANA key of the value's tzinfo, None where it has none.\<close>

record trade_timestamp =
  tt_role :: timestamp_role
  tt_value :: datetime
  tt_zone :: "string option"
  tt_source :: timestamp_source
  tt_source_identity :: string

definition trade_timestamp_post_init :: "trade_timestamp \<Rightarrow> unit res" where
  "trade_timestamp_post_init t =
     (if \<not> dt_aware (tt_value t) then Inl (ValueError ''timestamp value must be timezone-aware'')
      else if tt_zone t \<noteq> Some TRADE_TIMEZONE
      then Inl (ValueError (''timestamp value must use '' @ TRADE_TIMEZONE))
      else if blank (tt_source_identity t)
      then Inl (ValueError ''source_identity must not be empty'')
      else if \<not> List.member (allowed_timestamp_sources (tt_role t)) (tt_source t)
      then Inl (ValueError ''timestamp source is invalid for role'')
      else Inr ())"

definition tt_instant :: "trade_timestamp \<Rightarrow> int" where
  "tt_instant t = instant (tt_value t)"

section \<open>Lifecycles\<close>

datatype decision_lifecycle =
    SIGNAL_CREATED | THESIS_DRAFTED | THESIS_ACTIVE | EXIT_RECOMMENDATION_ACTIVE
  | DL_COMPLETED | DL_TERMINATED

datatype order_lifecycle =
    OL_CREATED | OL_SUBMITTED | OL_PENDING | OL_PARTIALLY_FILLED | OL_FILLED | OL_CANCELLED
  | OL_REJECTED | OL_EXPIRED | OL_RECOVERY_REQUIRED

datatype trade_lifecycle =
    PENDING_ENTRY | ACTIVE_POSITION | EXIT_IN_PROGRESS | TL_CLOSED | ENTRY_TERMINATED

definition DECISION_LIFECYCLE_TRANSITIONS :: "(decision_lifecycle \<times> decision_lifecycle) list" where
  "DECISION_LIFECYCLE_TRANSITIONS =
     [(SIGNAL_CREATED, THESIS_DRAFTED), (SIGNAL_CREATED, DL_TERMINATED),
      (THESIS_DRAFTED, THESIS_ACTIVE), (THESIS_DRAFTED, DL_TERMINATED),
      (THESIS_ACTIVE, EXIT_RECOMMENDATION_ACTIVE),
      (EXIT_RECOMMENDATION_ACTIVE, DL_COMPLETED)]"

definition ORDER_LIFECYCLE_TRANSITIONS :: "(order_lifecycle \<times> order_lifecycle) list" where
  "ORDER_LIFECYCLE_TRANSITIONS =
     [(OL_CREATED, OL_SUBMITTED), (OL_SUBMITTED, OL_PENDING), (OL_SUBMITTED, OL_PARTIALLY_FILLED),
      (OL_SUBMITTED, OL_FILLED), (OL_SUBMITTED, OL_REJECTED), (OL_SUBMITTED, OL_RECOVERY_REQUIRED),
      (OL_PENDING, OL_PARTIALLY_FILLED), (OL_PENDING, OL_FILLED), (OL_PENDING, OL_CANCELLED),
      (OL_PENDING, OL_REJECTED), (OL_PENDING, OL_EXPIRED), (OL_PENDING, OL_RECOVERY_REQUIRED),
      (OL_PARTIALLY_FILLED, OL_PARTIALLY_FILLED), (OL_PARTIALLY_FILLED, OL_FILLED),
      (OL_PARTIALLY_FILLED, OL_CANCELLED), (OL_PARTIALLY_FILLED, OL_EXPIRED),
      (OL_PARTIALLY_FILLED, OL_RECOVERY_REQUIRED)]"

definition TRADE_LIFECYCLE_TRANSITIONS :: "(trade_lifecycle \<times> trade_lifecycle) list" where
  "TRADE_LIFECYCLE_TRANSITIONS =
     [(PENDING_ENTRY, ACTIVE_POSITION), (PENDING_ENTRY, ENTRY_TERMINATED),
      (ACTIVE_POSITION, EXIT_IN_PROGRESS), (ACTIVE_POSITION, TL_CLOSED),
      (EXIT_IN_PROGRESS, TL_CLOSED)]"

definition ORDER_TERMINAL_STATES :: "order_lifecycle list" where
  "ORDER_TERMINAL_STATES =
     [OL_FILLED, OL_CANCELLED, OL_REJECTED, OL_EXPIRED, OL_RECOVERY_REQUIRED]"

definition DECISION_TERMINAL_STATES :: "decision_lifecycle list" where
  "DECISION_TERMINAL_STATES = [DL_COMPLETED, DL_TERMINATED]"

definition TRADE_TERMINAL_STATES :: "trade_lifecycle list" where
  "TRADE_TERMINAL_STATES = [TL_CLOSED, ENTRY_TERMINATED]"

section \<open>Exit records\<close>

datatype thesis_status = TS_VALID | TS_WARNING | TS_INVALID | TS_INSUFFICIENT_DATA

datatype exit_reason =
    STOP_LOSS | ATR_STOP | END_OF_DAY | THESIS_INVALID | TIME_DECAY | TAKE_PROFIT | RISK_GATE | MANUAL_EXIT

datatype exit_action = HOLD | EXIT

datatype recommendation_status = REC_ACTIVE | RESOLVED_ON_CLOSE

record exit_decision =
  xd_decision_id :: string
  xd_session_id :: string
  xd_trade_id :: string
  xd_thesis_id :: string
  xd_action :: exit_action
  xd_primary_reason :: "exit_reason option"
  xd_triggered_reasons :: "exit_reason list"
  xd_decided_at :: trade_timestamp
  xd_source_event_id :: string
  xd_exit_policy_version :: string
  xd_evaluation_digest :: string
  xd_schema_version :: string

record exit_recommendation =
  xr_recommendation_id :: string
  xr_session_id :: string
  xr_trade_id :: string
  xr_thesis_id :: string
  xr_exit_policy_version :: string
  xr_status :: recommendation_status
  xr_first_trigger_decision_id :: string
  xr_first_trigger_event_id :: string
  xr_latest_decision_id :: string
  xr_latest_evidence_event_id :: string
  xr_primary_reason :: exit_reason
  xr_triggered_reasons :: "exit_reason list"
  xr_created_at :: trade_timestamp
  xr_updated_at :: trade_timestamp
  xr_resolved_at :: "trade_timestamp option"
  xr_closing_fill_id :: "string option"
  xr_schema_version :: string

record exit_leg =
  xl_fill_id :: string
  xl_order_id :: string
  xl_exit_recommendation_id :: "string option"
  xl_reason :: exit_reason
  xl_quantity_shares :: int
  xl_fill_price :: rat
  xl_filled_at :: trade_timestamp

definition exit_decision_post_init :: "(json \<Rightarrow> string) \<Rightarrow> exit_decision \<Rightarrow> unit res" where
  "exit_decision_post_init sha d =
     (case require_schema (xd_schema_version d) of Inl e \<Rightarrow> Inl e | Inr _ \<Rightarrow>
      case require_non_empty
        [(xd_session_id d, ''session_id''), (xd_trade_id d, ''trade_id''),
         (xd_thesis_id d, ''thesis_id''), (xd_source_event_id d, ''source_event_id''),
         (xd_exit_policy_version d, ''exit_policy_version'')] of Inl e \<Rightarrow> Inl e | Inr _ \<Rightarrow>
      case require_sha256 (xd_evaluation_digest d) ''evaluation_digest'' of Inl e \<Rightarrow> Inl e | Inr _ \<Rightarrow>
      case build_exit_decision_id sha (xd_session_id d) (xd_trade_id d) (xd_source_event_id d)
             (xd_exit_policy_version d) (xd_evaluation_digest d) of Inl e \<Rightarrow> Inl e | Inr i \<Rightarrow>
      if xd_decision_id d \<noteq> i
      then Inl (ValueError ''decision_id does not match deterministic identity'')
      else if tt_role (xd_decided_at d) \<noteq> EXIT_DECISION
      then Inl (ValueError ''decided_at must use the EXIT_DECISION role'')
      else if \<not> distinct (xd_triggered_reasons d)
      then Inl (ValueError ''triggered_reasons must not contain duplicates'')
      else (case xd_action d of
              HOLD \<Rightarrow>
                if xd_primary_reason d \<noteq> None \<or> xd_triggered_reasons d \<noteq> []
                then Inl (ValueError ''HOLD decision cannot contain exit reasons'') else Inr ()
            | EXIT \<Rightarrow>
                (case xd_primary_reason d of
                   None \<Rightarrow> Inl (ValueError ''EXIT decision requires a primary triggered reason'')
                 | Some r \<Rightarrow>
                     if List.member (xd_triggered_reasons d) r then Inr ()
                     else Inl (ValueError ''EXIT decision requires a primary triggered reason''))))"

definition exit_recommendation_post_init ::
  "(json \<Rightarrow> string) \<Rightarrow> exit_recommendation \<Rightarrow> unit res" where
  "exit_recommendation_post_init sha r =
     (case require_schema (xr_schema_version r) of Inl e \<Rightarrow> Inl e | Inr _ \<Rightarrow>
      case require_non_empty
        [(xr_session_id r, ''session_id''), (xr_trade_id r, ''trade_id''),
         (xr_thesis_id r, ''thesis_id''), (xr_exit_policy_version r, ''exit_policy_version''),
         (xr_first_trigger_decision_id r, ''first_trigger_decision_id''),
         (xr_first_trigger_event_id r, ''first_trigger_event_id''),
         (xr_latest_decision_id r, ''latest_decision_id''),
         (xr_latest_evidence_event_id r, ''latest_evidence_event_id'')]
        of Inl e \<Rightarrow> Inl e | Inr _ \<Rightarrow>
      case build_exit_recommendation_id sha (xr_session_id r) (xr_trade_id r)
             (xr_exit_policy_version r) of Inl e \<Rightarrow> Inl e | Inr i \<Rightarrow>
      if xr_recommendation_id r \<noteq> i
      then Inl (ValueError ''recommendation_id does not match trade identity'')
      else if \<not> distinct (xr_triggered_reasons r)
      then Inl (ValueError ''triggered_reasons must not contain duplicates'')
      else if \<not> List.member (xr_triggered_reasons r) (xr_primary_reason r)
      then Inl (ValueError ''primary_reason must be included in triggered_reasons'')
      else if tt_role (xr_created_at r) \<noteq> EXIT_DECISION
      then Inl (ValueError ''created_at must use the EXIT_DECISION role'')
      else if tt_role (xr_updated_at r) \<noteq> EXIT_DECISION
      then Inl (ValueError ''updated_at must use the EXIT_DECISION role'')
      else if tt_instant (xr_updated_at r) < tt_instant (xr_created_at r)
      then Inl (ValueError ''updated_at cannot predate created_at'')
      else if xr_status r = REC_ACTIVE
      then (if xr_resolved_at r \<noteq> None \<or> xr_closing_fill_id r \<noteq> None
            then Inl (ValueError ''ACTIVE recommendation cannot have close metadata'') else Inr ())
      else (case (xr_resolved_at r, xr_closing_fill_id r) of
              (Some resolved, Some fill) \<Rightarrow>
                if tt_role resolved \<noteq> FILL_ROLE
                then Inl (ValueError ''resolved_at must use the FILL role'')
                else if blank fill then Inl (ValueError ''closing_fill_id must not be empty'')
                else if tt_instant resolved < tt_instant (xr_updated_at r)
                then Inl (ValueError ''resolved_at cannot predate updated_at'')
                else Inr ()
            | _ \<Rightarrow> Inl (ValueError ''resolved recommendation requires close metadata'')))"

definition exit_leg_post_init :: "exit_leg \<Rightarrow> unit res" where
  "exit_leg_post_init l =
     (case require_non_empty [(xl_fill_id l, ''fill_id''), (xl_order_id l, ''order_id'')]
        of Inl e \<Rightarrow> Inl e | Inr _ \<Rightarrow>
      case (case xl_exit_recommendation_id l of None \<Rightarrow> Inr ()
            | Some i \<Rightarrow> require_non_empty [(i, ''exit_recommendation_id'')]) of Inl e \<Rightarrow> Inl e | Inr _ \<Rightarrow>
      if xl_quantity_shares l \<le> 0 then Inl (ValueError ''quantity_shares must be positive'')
      else if xl_fill_price l \<le> 0 then Inl (ValueError ''fill_price must be positive'')
      else if tt_role (xl_filled_at l) \<noteq> FILL_ROLE
      then Inl (ValueError ''filled_at must use the FILL role'')
      else Inr ())"

lemma exit_decision_ok:
  "exit_decision_post_init sha d = Inr u \<longleftrightarrow>
     xd_schema_version d = TRADE_MANAGEMENT_SCHEMA_VERSION
     \<and> \<not> blank (xd_session_id d) \<and> \<not> blank (xd_trade_id d) \<and> \<not> blank (xd_thesis_id d)
     \<and> \<not> blank (xd_source_event_id d) \<and> \<not> blank (xd_exit_policy_version d)
     \<and> is_sha256 (xd_evaluation_digest d)
     \<and> build_exit_decision_id sha (xd_session_id d) (xd_trade_id d) (xd_source_event_id d)
             (xd_exit_policy_version d) (xd_evaluation_digest d) = Inr (xd_decision_id d)
     \<and> tt_role (xd_decided_at d) = EXIT_DECISION \<and> distinct (xd_triggered_reasons d)
     \<and> (case xd_action d of HOLD \<Rightarrow> xd_primary_reason d = None \<and> xd_triggered_reasons d = []
        | EXIT \<Rightarrow> (\<exists>r. xd_primary_reason d = Some r \<and> r \<in> set (xd_triggered_reasons d)))"
  by (auto simp: exit_decision_post_init_def require_schema_def require_sha256_def require_def
      split: sum.splits if_splits exit_action.splits option.splits)

lemma exit_recommendation_ok:
  "xr_status r = REC_ACTIVE \<Longrightarrow>
   exit_recommendation_post_init sha r = Inr u \<longleftrightarrow>
     xr_schema_version r = TRADE_MANAGEMENT_SCHEMA_VERSION
     \<and> \<not> blank (xr_session_id r) \<and> \<not> blank (xr_trade_id r) \<and> \<not> blank (xr_thesis_id r)
     \<and> \<not> blank (xr_exit_policy_version r) \<and> \<not> blank (xr_first_trigger_decision_id r)
     \<and> \<not> blank (xr_first_trigger_event_id r) \<and> \<not> blank (xr_latest_decision_id r)
     \<and> \<not> blank (xr_latest_evidence_event_id r)
     \<and> build_exit_recommendation_id sha (xr_session_id r) (xr_trade_id r)
             (xr_exit_policy_version r) = Inr (xr_recommendation_id r)
     \<and> distinct (xr_triggered_reasons r) \<and> xr_primary_reason r \<in> set (xr_triggered_reasons r)
     \<and> tt_role (xr_created_at r) = EXIT_DECISION \<and> tt_role (xr_updated_at r) = EXIT_DECISION
     \<and> tt_instant (xr_created_at r) \<le> tt_instant (xr_updated_at r)
     \<and> xr_resolved_at r = None \<and> xr_closing_fill_id r = None"
  by (auto simp: exit_recommendation_post_init_def require_schema_def require_def
      split: sum.splits if_splits)

section \<open>Lifecycle runs\<close>

text \<open>A run of states, each step of which is in the transition table.\<close>

fun lifecycle_run :: "('s \<times> 's) list \<Rightarrow> 's \<Rightarrow> 's list \<Rightarrow> bool" where
  "lifecycle_run tr s [] = True"
| "lifecycle_run tr s (t # ts) \<longleftrightarrow> List.member tr (s, t) \<and> lifecycle_run tr t ts"

lemma order_terminal_stuck:
  "List.member ORDER_TERMINAL_STATES s \<Longrightarrow> \<not> List.member ORDER_LIFECYCLE_TRANSITIONS (s, t)"
  by (cases s) (auto simp: ORDER_TERMINAL_STATES_def ORDER_LIFECYCLE_TRANSITIONS_def)

lemma order_progress:
  "\<not> List.member ORDER_TERMINAL_STATES s \<Longrightarrow>
     \<exists>t. List.member ORDER_LIFECYCLE_TRANSITIONS (s, t)"
  by (cases s) (auto simp: ORDER_TERMINAL_STATES_def ORDER_LIFECYCLE_TRANSITIONS_def)

lemma order_filled_needs_submission:
  "lifecycle_run ORDER_LIFECYCLE_TRANSITIONS s ts \<Longrightarrow> s \<noteq> OL_SUBMITTED \<Longrightarrow> s \<noteq> OL_PENDING \<Longrightarrow>
   s \<noteq> OL_PARTIALLY_FILLED \<Longrightarrow> OL_FILLED \<in> set ts \<Longrightarrow> OL_SUBMITTED \<in> set ts"
  by (cases ts; cases s) (auto simp: ORDER_LIFECYCLE_TRANSITIONS_def)

end
