(* ===== verification/Thesis_Monitor.thy ===== *)
theory Thesis_Monitor
  imports Trade_Management
begin

text \<open>
  Trade theses (\<open>trading/trade_management.py\<close>) and their pure evaluation against one market
  observation (\<open>trading/thesis_monitor.py\<close>): the condition specifications, the thesis and
  market-context records with their validation, and \<open>ThesisMonitor.evaluate\<close>.
\<close>

section \<open>Condition specifications\<close>

text \<open>
  The \<open>comparison\<close> field of every specification is fixed by its validation, so it is a
  constant of the wire form and not a component of the model. Durations are microseconds.
\<close>

datatype price_reference = ENTRY_REFERENCE_PRICE | REF_BREAKOUT_LEVEL

datatype volume_baseline = OPENING_RANGE_MEDIAN | HISTORICAL_SAME_TIME_MEDIAN | FROZEN_PRECOMPUTED

datatype expected_condition =
    NewHighExtension price_reference rat
  | PostEntryVolumeExpansion volume_baseline rat int
  | HoldAboveVwap int

datatype invalid_condition =
    BreakoutLevelLost rat int
  | VwapConfirmationLost int
  | SessionDataBlocked "string list" bool

datatype condition_kind =
    NEW_HIGH_EXTENSION | POST_ENTRY_VOLUME_EXPANSION | HOLD_ABOVE_VWAP
  | BREAKOUT_LEVEL_LOST | VWAP_CONFIRMATION_LOST | SESSION_DATA_BLOCKED

fun expected_kind :: "expected_condition \<Rightarrow> condition_kind" where
  "expected_kind (NewHighExtension _ _) = NEW_HIGH_EXTENSION"
| "expected_kind (PostEntryVolumeExpansion _ _ _) = POST_ENTRY_VOLUME_EXPANSION"
| "expected_kind (HoldAboveVwap _) = HOLD_ABOVE_VWAP"

fun invalid_kind :: "invalid_condition \<Rightarrow> condition_kind" where
  "invalid_kind (BreakoutLevelLost _ _) = BREAKOUT_LEVEL_LOST"
| "invalid_kind (VwapConfirmationLost _) = VWAP_CONFIRMATION_LOST"
| "invalid_kind (SessionDataBlocked _ _) = SESSION_DATA_BLOCKED"

definition is_expected_kind :: "condition_kind \<Rightarrow> bool" where
  "is_expected_kind k = (k \<in> {NEW_HIGH_EXTENSION, POST_ENTRY_VOLUME_EXPANSION, HOLD_ABOVE_VWAP})"

fun expected_condition_post_init :: "expected_condition \<Rightarrow> unit res" where
  "expected_condition_post_init (NewHighExtension _ buffer) =
     require (0 \<le> buffer) (ValueError ''new-high buffer must not be negative'')"
| "expected_condition_post_init (PostEntryVolumeExpansion _ ratio samples) =
     (if ratio \<le> 0 then Inl (ValueError ''volume expansion ratio must be positive'')
      else if samples \<le> 0 then Inl (ValueError ''volume minimum_samples must be positive'')
      else Inr ())"
| "expected_condition_post_init (HoldAboveVwap allowed) =
     require (0 \<le> allowed) (ValueError ''allowed_completed_bars_below must not be negative'')"

fun invalid_condition_post_init :: "invalid_condition \<Rightarrow> unit res" where
  "invalid_condition_post_init (BreakoutLevelLost level bars) =
     (if level \<le> 0 then Inl (ValueError ''breakout_level must be positive'')
      else if bars \<le> 0 then Inl (ValueError ''breakout confirmation must be positive'')
      else Inr ())"
| "invalid_condition_post_init (VwapConfirmationLost bars) =
     require (0 < bars) (ValueError ''VWAP confirmation must be positive'')"
| "invalid_condition_post_init (SessionDataBlocked states _) =
     (if states = [] then Inl (ValueError ''blocked_health_states must not be empty'')
      else if list_ex blank states then Inl (ValueError ''blocked health state must not be empty'')
      else if \<not> distinct states
      then Inl (ValueError ''blocked_health_states must not contain duplicates'')
      else Inr ())"

section \<open>Theses\<close>

record expected_behavior =
  eb_policy_id :: string
  eb_version :: string
  eb_observation_window :: int
  eb_warning_after :: "int option"
  eb_conditions :: "expected_condition list"

definition expected_behavior_post_init :: "expected_behavior \<Rightarrow> unit res" where
  "expected_behavior_post_init p =
     (case require_non_empty [(eb_policy_id p, ''policy_id''),
        (eb_version p, ''expected behavior version'')] of Inl e \<Rightarrow> Inl e | Inr _ \<Rightarrow>
      if eb_observation_window p \<le> 0
      then Inl (ValueError ''observation_window must be positive'')
      else if (case eb_warning_after p of None \<Rightarrow> False
               | Some w \<Rightarrow> \<not> (0 \<le> w \<and> w < eb_observation_window p))
      then Inl (ValueError ''warning_after must be within observation_window'')
      else if eb_conditions p = []
      then Inl (ValueError ''expected behavior conditions must not be empty'')
      else if \<not> distinct (map expected_kind (eb_conditions p))
      then Inl (ValueError ''expected behavior condition kinds must not contain duplicates'')
      else Inr ())"

text \<open>Of an entry evidence item the draft reads its id and the time it was observed.\<close>

record entry_evidence =
  ee_evidence_id :: string
  ee_observed_at :: trade_timestamp

record thesis_draft =
  td_thesis_id :: string
  td_session_id :: string
  td_symbol :: string
  td_strategy_id :: string
  td_strategy_version :: string
  td_thesis_version :: string
  td_decision_id :: string
  td_signal_at :: trade_timestamp
  td_created_at :: trade_timestamp
  td_entry_evidence :: "entry_evidence list"
  td_expected_behavior :: expected_behavior
  td_invalid_conditions :: "invalid_condition list"
  td_schema_version :: string

record trade_thesis =
  th_thesis_id :: string
  th_trade_id :: string
  th_draft :: thesis_draft
  th_opening_order_id :: string
  th_opening_fill_id :: string
  th_entry_reference_price :: rat
  th_filled_at :: trade_timestamp
  th_schema_version :: string

text \<open>\<open>ORB_BREAKOUT\<close> is the only thesis type, \<open>LONG\<close> the only side.\<close>

definition build_thesis_id ::
  "(json \<Rightarrow> string) \<Rightarrow> string \<Rightarrow> string \<Rightarrow> string \<Rightarrow> string res" where
  "build_thesis_id sha session_id decision_id thesis_version =
     derive_id sha ''thesis_v1'' [session_id, decision_id, ''ORB_BREAKOUT'', thesis_version]"

definition thesis_draft_post_init :: "(json \<Rightarrow> string) \<Rightarrow> thesis_draft \<Rightarrow> unit res" where
  "thesis_draft_post_init sha d =
     (case require_schema (td_schema_version d) of Inl e \<Rightarrow> Inl e | Inr _ \<Rightarrow>
      case require_non_empty
        [(td_session_id d, ''session_id''), (td_symbol d, ''symbol''),
         (td_strategy_id d, ''strategy_id''), (td_strategy_version d, ''strategy_version''),
         (td_thesis_version d, ''thesis_version''), (td_decision_id d, ''decision_id'')]
        of Inl e \<Rightarrow> Inl e | Inr _ \<Rightarrow>
      if td_symbol d \<noteq> py_upper (py_strip (td_symbol d))
      then Inl (ValueError ''symbol must be normalized'')
      else
      case build_thesis_id sha (td_session_id d) (td_decision_id d) (td_thesis_version d)
        of Inl e \<Rightarrow> Inl e | Inr i \<Rightarrow>
      if td_thesis_id d \<noteq> i
      then Inl (ValueError ''thesis_id does not match deterministic identity'')
      else if tt_role (td_signal_at d) \<noteq> SIGNAL_ROLE
      then Inl (ValueError ''signal_at must use the SIGNAL role'')
      else if tt_role (td_created_at d) \<noteq> DECISION_ROLE
      then Inl (ValueError ''created_at must use the DECISION role'')
      else if tt_instant (td_created_at d) < tt_instant (td_signal_at d)
      then Inl (ValueError ''created_at cannot predate signal_at'')
      else if td_entry_evidence d = [] then Inl (ValueError ''entry_evidence must not be empty'')
      else if \<not> distinct (map ee_evidence_id (td_entry_evidence d))
      then Inl (ValueError ''entry evidence ids must not contain duplicates'')
      else if list_ex (\<lambda>e. tt_instant (td_created_at d) < tt_instant (ee_observed_at e))
                (td_entry_evidence d)
      then Inl (ValueError ''entry evidence cannot postdate thesis creation'')
      else if eb_version (td_expected_behavior d) \<noteq> td_thesis_version d
      then Inl (ValueError ''expected behavior version must match thesis_version'')
      else if map expected_kind (eb_conditions (td_expected_behavior d)) \<noteq>
                [NEW_HIGH_EXTENSION, POST_ENTRY_VOLUME_EXPANSION, HOLD_ABOVE_VWAP]
      then Inl (ValueError ''ORB_BREAKOUT expected conditions must use canonical order'')
      else if map invalid_kind (td_invalid_conditions d) \<noteq>
                [BREAKOUT_LEVEL_LOST, VWAP_CONFIRMATION_LOST, SESSION_DATA_BLOCKED]
      then Inl (ValueError ''ORB_BREAKOUT invalid conditions must use canonical order'')
      else Inr ())"

definition trade_thesis_post_init :: "(json \<Rightarrow> string) \<Rightarrow> trade_thesis \<Rightarrow> unit res" where
  "trade_thesis_post_init sha t =
     (case require_schema (th_schema_version t) of Inl e \<Rightarrow> Inl e | Inr _ \<Rightarrow>
      if th_thesis_id t \<noteq> td_thesis_id (th_draft t)
      then Inl (ValueError ''thesis_id must match draft'')
      else
      case require_non_empty [(th_opening_order_id t, ''opening_order_id''),
        (th_opening_fill_id t, ''opening_fill_id'')] of Inl e \<Rightarrow> Inl e | Inr _ \<Rightarrow>
      case build_trade_id sha (td_session_id (th_draft t)) (th_opening_fill_id t)
        of Inl e \<Rightarrow> Inl e | Inr i \<Rightarrow>
      if th_trade_id t \<noteq> i
      then Inl (ValueError ''trade_id does not match first opening fill identity'')
      else if th_entry_reference_price t \<le> 0
      then Inl (ValueError ''entry_reference_price must be positive'')
      else if tt_role (th_filled_at t) \<noteq> FILL_ROLE
      then Inl (ValueError ''filled_at must use the FILL role'')
      else if tt_instant (th_filled_at t) < tt_instant (td_signal_at (th_draft t))
      then Inl (ValueError ''filled_at cannot predate signal_at'')
      else Inr ())"

text \<open>\<open>thesis_start_at\<close>: the first exposure fill is the sole clock origin.\<close>

definition thesis_start_at :: "trade_thesis \<Rightarrow> trade_timestamp" where
  "thesis_start_at t = th_filled_at t"

section \<open>Market context and evaluation records\<close>

datatype context_status =
    CTX_READY | CTX_MISSING | CTX_STALE | CTX_OUT_OF_ORDER | CTX_SESSION_MISMATCH

datatype condition_outcome =
    SATISFIED | UNSATISFIED | TRIGGERED | NOT_TRIGGERED | CO_INSUFFICIENT_DATA

datatype thesis_reason =
    ALL_EXPECTED_BEHAVIOR_MET | EXPECTED_BEHAVIOR_PENDING | EXPECTED_BEHAVIOR_WARNING
  | EXPECTED_BEHAVIOR_EXPIRED | TR_BREAKOUT_LEVEL_LOST | TR_VWAP_CONFIRMATION_LOST
  | TR_SESSION_DATA_BLOCKED | MARKET_DATA_MISSING | MARKET_DATA_STALE
  | MARKET_DATA_OUT_OF_ORDER | TR_SESSION_MISMATCH | REQUIRED_INPUT_MISSING
  | OBSERVED_BEFORE_FILL | INVALID_LATCHED

record market_context =
  mc_thesis_id :: string
  mc_trade_id :: string
  mc_session_id :: string
  mc_symbol :: string
  mc_source_event_id :: string
  mc_observed_at :: trade_timestamp
  mc_data_status :: context_status
  mc_health_state :: string
  mc_highest_price_since_entry :: "rat option"
  mc_post_entry_volume_shares :: "int option"
  mc_volume_baseline_shares :: "rat option"
  mc_volume_sample_count :: "int option"
  mc_completed_bar_count :: int
  mc_completed_bars_below_vwap :: "int option"
  mc_consecutive_below_vwap :: "int option"
  mc_consecutive_below_breakout :: "int option"
  mc_prior_status :: "thesis_status option"
  mc_schema_version :: string

text \<open>An \<open>EvidenceValue\<close> carries a typed scalar in canonical notation.\<close>

datatype evidence_scalar = EvNull | EvDecimal rat | EvInteger int | EvText string

record condition_evaluation =
  ce_kind :: condition_kind
  ce_outcome :: condition_outcome
  ce_observed :: "(string \<times> evidence_scalar) list"
  ce_threshold :: "(string \<times> evidence_scalar) list"

record thesis_evaluation =
  te_evaluation_id :: string
  te_thesis_id :: string
  te_trade_id :: string
  te_source_event_id :: string
  te_evaluated_at :: trade_timestamp
  te_status :: thesis_status
  te_reason_codes :: "thesis_reason list"
  te_conditions :: "condition_evaluation list"
  te_input_digest :: string
  te_schema_version :: string

definition opt_neg :: "('a::{ord, zero}) option \<Rightarrow> bool" where
  "opt_neg v = (case v of None \<Rightarrow> False | Some x \<Rightarrow> x < 0)"

definition opt_exceeds :: "int option \<Rightarrow> int \<Rightarrow> bool" where
  "opt_exceeds v n = (case v of None \<Rightarrow> False | Some x \<Rightarrow> x > n)"

definition market_context_post_init :: "market_context \<Rightarrow> unit res" where
  "market_context_post_init m =
     (case require_schema (mc_schema_version m) of Inl e \<Rightarrow> Inl e | Inr _ \<Rightarrow>
      case require_non_empty
        [(mc_thesis_id m, ''thesis_id''), (mc_trade_id m, ''trade_id''),
         (mc_session_id m, ''session_id''), (mc_symbol m, ''symbol''),
         (mc_source_event_id m, ''source_event_id''), (mc_health_state m, ''health_state'')]
        of Inl e \<Rightarrow> Inl e | Inr _ \<Rightarrow>
      if mc_symbol m \<noteq> py_upper (py_strip (mc_symbol m))
      then Inl (ValueError ''symbol must be normalized'')
      else if tt_role (mc_observed_at m) \<noteq> MARKET_EVENT
      then Inl (ValueError ''observed_at must use the MARKET_EVENT role'')
      else if tt_source_identity (mc_observed_at m) \<noteq> mc_source_event_id m
      then Inl (ValueError ''source_event_id must match observed_at source identity'')
      else if opt_neg (mc_highest_price_since_entry m)
      then Inl (ValueError ''highest_price_since_entry must not be negative'')
      else if opt_neg (mc_volume_baseline_shares m)
      then Inl (ValueError ''volume_baseline_shares must not be negative'')
      else if opt_neg (mc_post_entry_volume_shares m)
      then Inl (ValueError ''post_entry_volume_shares must not be negative'')
      else if opt_neg (mc_volume_sample_count m)
      then Inl (ValueError ''volume_sample_count must not be negative'')
      else if mc_completed_bar_count m < 0
      then Inl (ValueError ''completed_bar_count must not be negative'')
      else if opt_neg (mc_completed_bars_below_vwap m)
      then Inl (ValueError ''completed_bars_below_vwap must not be negative'')
      else if opt_neg (mc_consecutive_below_vwap m)
      then Inl (ValueError ''consecutive_completed_bars_below_vwap must not be negative'')
      else if opt_neg (mc_consecutive_below_breakout m)
      then Inl (ValueError ''consecutive_completed_bars_below_breakout must not be negative'')
      else if mc_highest_price_since_entry m = Some 0
      then Inl (ValueError ''highest_price_since_entry must be positive'')
      else if opt_exceeds (mc_completed_bars_below_vwap m) (mc_completed_bar_count m)
      then Inl (ValueError ''completed_bars_below_vwap cannot exceed completed_bar_count'')
      else if opt_exceeds (mc_consecutive_below_vwap m) (mc_completed_bar_count m)
      then Inl (ValueError ''consecutive_completed_bars_below_vwap cannot exceed completed_bar_count'')
      else if opt_exceeds (mc_consecutive_below_breakout m) (mc_completed_bar_count m)
      then Inl (ValueError ''consecutive_completed_bars_below_breakout cannot exceed completed_bar_count'')
      else Inr ())"

definition condition_evaluation_post_init :: "condition_evaluation \<Rightarrow> unit res" where
  "condition_evaluation_post_init c =
     (if \<not> distinct (map fst (ce_observed c))
      then Inl (ValueError ''observed evidence names must be unique'')
      else if \<not> distinct (map fst (ce_threshold c))
      then Inl (ValueError ''threshold evidence names must be unique'')
      else if is_expected_kind (ce_kind c) \<and> ce_outcome c \<in> {TRIGGERED, NOT_TRIGGERED}
      then Inl (ValueError ''expected condition cannot use invalid-condition outcome'')
      else if \<not> is_expected_kind (ce_kind c) \<and> ce_outcome c \<in> {SATISFIED, UNSATISFIED}
      then Inl (ValueError ''invalid condition cannot use expected-condition outcome'')
      else Inr ())"

definition thesis_evaluation_post_init :: "thesis_evaluation \<Rightarrow> unit res" where
  "thesis_evaluation_post_init e =
     (case require_schema (te_schema_version e) of Inl er \<Rightarrow> Inl er | Inr _ \<Rightarrow>
      case require_non_empty
        [(te_evaluation_id e, ''evaluation_id''), (te_thesis_id e, ''thesis_id''),
         (te_trade_id e, ''trade_id''), (te_source_event_id e, ''source_event_id'')]
        of Inl er \<Rightarrow> Inl er | Inr _ \<Rightarrow>
      if \<not> is_sha256 (te_input_digest e)
      then Inl (ValueError ''input_digest must be a lowercase SHA-256 hex digest'')
      else if te_reason_codes e = [] then Inl (ValueError ''reason_codes must not be empty'')
      else if \<not> distinct (te_reason_codes e)
      then Inl (ValueError ''reason_codes must not contain duplicates'')
      else Inr ())"


section \<open>Identity of an evaluation\<close>

definition context_status_name :: "context_status \<Rightarrow> string" where
  "context_status_name s = (case s of CTX_READY \<Rightarrow> ''READY'' | CTX_MISSING \<Rightarrow> ''MISSING''
     | CTX_STALE \<Rightarrow> ''STALE'' | CTX_OUT_OF_ORDER \<Rightarrow> ''OUT_OF_ORDER''
     | CTX_SESSION_MISMATCH \<Rightarrow> ''SESSION_MISMATCH'')"

definition thesis_status_name :: "thesis_status \<Rightarrow> string" where
  "thesis_status_name s = (case s of TS_VALID \<Rightarrow> ''VALID'' | TS_WARNING \<Rightarrow> ''WARNING''
     | TS_INVALID \<Rightarrow> ''INVALID'' | TS_INSUFFICIENT_DATA \<Rightarrow> ''INSUFFICIENT_DATA'')"

definition baseline_name :: "volume_baseline \<Rightarrow> string" where
  "baseline_name b = (case b of OPENING_RANGE_MEDIAN \<Rightarrow> ''OPENING_RANGE_MEDIAN''
     | HISTORICAL_SAME_TIME_MEDIAN \<Rightarrow> ''HISTORICAL_SAME_TIME_MEDIAN''
     | FROZEN_PRECOMPUTED \<Rightarrow> ''FROZEN_PRECOMPUTED'')"

fun expected_spec_wire :: "expected_condition \<Rightarrow> json" where
  "expected_spec_wire (NewHighExtension reference buffer) =
     JObj [(''kind'', JStr ''NEW_HIGH_EXTENSION''),
           (''reference'', JStr (if reference = ENTRY_REFERENCE_PRICE then ''ENTRY_REFERENCE_PRICE''
                                 else ''BREAKOUT_LEVEL'')),
           (''buffer'', JDec buffer), (''comparison'', JStr ''GREATER_THAN'')]"
| "expected_spec_wire (PostEntryVolumeExpansion baseline ratio samples) =
     JObj [(''kind'', JStr ''POST_ENTRY_VOLUME_EXPANSION''),
           (''baseline_kind'', JStr (baseline_name baseline)), (''ratio'', JDec ratio),
           (''minimum_samples'', JInt samples), (''volume_unit'', JStr ''SHARES''),
           (''comparison'', JStr ''GREATER_THAN_OR_EQUAL'')]"
| "expected_spec_wire (HoldAboveVwap allowed) =
     JObj [(''kind'', JStr ''HOLD_ABOVE_VWAP''), (''allowed_completed_bars_below'', JInt allowed),
           (''comparison'', JStr ''GREATER_THAN_OR_EQUAL'')]"

fun invalid_spec_wire :: "invalid_condition \<Rightarrow> json" where
  "invalid_spec_wire (BreakoutLevelLost level bars) =
     JObj [(''kind'', JStr ''BREAKOUT_LEVEL_LOST''), (''breakout_level'', JDec level),
           (''confirmation_completed_bars'', JInt bars), (''comparison'', JStr ''LESS_THAN'')]"
| "invalid_spec_wire (VwapConfirmationLost bars) =
     JObj [(''kind'', JStr ''VWAP_CONFIRMATION_LOST''),
           (''confirmation_completed_bars'', JInt bars), (''comparison'', JStr ''LESS_THAN'')]"
| "invalid_spec_wire (SessionDataBlocked states block) =
     JObj [(''kind'', JStr ''SESSION_DATA_BLOCKED''),
           (''blocked_health_states'', JList (map JStr states)),
           (''block_on_session_mismatch'', JBool block)]"

definition thesis_input_payload :: "trade_thesis \<Rightarrow> market_context \<Rightarrow> json" where
  "thesis_input_payload t m =
     (let d = th_draft t; p = td_expected_behavior d
      in JObj
       [(''version'', JStr ''thesis-monitor-id-v1''),
        (''thesis_id'', JStr (th_thesis_id t)), (''trade_id'', JStr (th_trade_id t)),
        (''thesis_version'', JStr (td_thesis_version d)),
        (''entry_reference_price'', JDec (th_entry_reference_price t)),
        (''filled_at'', JTime (tt_value (th_filled_at t))),
        (''expected_behavior'', JObj
          [(''policy_id'', JStr (eb_policy_id p)), (''version'', JStr (eb_version p)),
           (''observation_window_microseconds'', JInt (eb_observation_window p)),
           (''warning_after_microseconds'', jopt JInt (eb_warning_after p)),
           (''conditions'', JList (map expected_spec_wire (eb_conditions p)))]),
        (''invalid_conditions'', JList (map invalid_spec_wire (td_invalid_conditions d))),
        (''market'', JObj
          [(''thesis_id'', JStr (mc_thesis_id m)), (''trade_id'', JStr (mc_trade_id m)),
           (''session_id'', JStr (mc_session_id m)), (''symbol'', JStr (mc_symbol m)),
           (''source_event_id'', JStr (mc_source_event_id m)),
           (''observed_at'', JTime (tt_value (mc_observed_at m))),
           (''data_status'', JStr (context_status_name (mc_data_status m))),
           (''health_state'', JStr (mc_health_state m)),
           (''highest_price_since_entry'', jopt JDec (mc_highest_price_since_entry m)),
           (''post_entry_volume_shares'', jopt JInt (mc_post_entry_volume_shares m)),
           (''volume_baseline_shares'', jopt JDec (mc_volume_baseline_shares m)),
           (''volume_sample_count'', jopt JInt (mc_volume_sample_count m)),
           (''completed_bar_count'', JInt (mc_completed_bar_count m)),
           (''completed_bars_below_vwap'', jopt JInt (mc_completed_bars_below_vwap m)),
           (''consecutive_completed_bars_below_vwap'', jopt JInt (mc_consecutive_below_vwap m)),
           (''consecutive_completed_bars_below_breakout'',
              jopt JInt (mc_consecutive_below_breakout m)),
           (''prior_status'', jopt (JStr \<circ> thesis_status_name) (mc_prior_status m))])])"

definition thesis_evaluation_id ::
  "(json \<Rightarrow> string) \<Rightarrow> trade_thesis \<Rightarrow> market_context \<Rightarrow> string \<Rightarrow> string" where
  "thesis_evaluation_id sha t m digest =
     ''thesis_evaluation_v1_'' @
     sha (JList (map JStr [''thesis-monitor-id-v1'', th_thesis_id t, th_trade_id t,
                           mc_source_event_id m, digest]))"

section \<open>Conditions\<close>

definition mk_condition ::
  "condition_kind \<Rightarrow> condition_outcome \<Rightarrow> (string \<times> evidence_scalar) list
     \<Rightarrow> (string \<times> evidence_scalar) list \<Rightarrow> condition_evaluation res" where
  "mk_condition kind outcome observed threshold =
     (let c = \<lparr>ce_kind = kind, ce_outcome = outcome, ce_observed = observed,
               ce_threshold = threshold\<rparr>
      in case condition_evaluation_post_init c of Inl e \<Rightarrow> Inl e | Inr _ \<Rightarrow> Inr c)"

definition decimal_value :: "rat option \<Rightarrow> evidence_scalar" where
  "decimal_value v = (case v of None \<Rightarrow> EvNull | Some x \<Rightarrow> EvDecimal x)"

definition integer_value :: "int option \<Rightarrow> evidence_scalar" where
  "integer_value v = (case v of None \<Rightarrow> EvNull | Some x \<Rightarrow> EvInteger x)"

fun evaluate_expected ::
  "trade_thesis \<Rightarrow> rat \<Rightarrow> market_context \<Rightarrow> expected_condition \<Rightarrow> condition_evaluation res" where
  "evaluate_expected t level m (NewHighExtension reference buffer) =
     (let ref = (if reference = ENTRY_REFERENCE_PRICE then th_entry_reference_price t else level);
          threshold = dec_add ref buffer;
          observed = mc_highest_price_since_entry m;
          outcome = (case observed of None \<Rightarrow> CO_INSUFFICIENT_DATA
                     | Some x \<Rightarrow> if x > threshold then SATISFIED else UNSATISFIED)
      in mk_condition NEW_HIGH_EXTENSION outcome
           [(''highest_price_since_entry'', decimal_value observed)]
           [(''required_price'', decimal_value (Some threshold))])"
| "evaluate_expected t level m (PostEntryVolumeExpansion _ ratio samples_needed) =
     (let volume = mc_post_entry_volume_shares m;
          baseline = mc_volume_baseline_shares m;
          samples = mc_volume_sample_count m;
          outcome = (case (volume, baseline, samples) of
                       (Some v, Some b, Some n) \<Rightarrow>
                         if b \<le> 0 then CO_INSUFFICIENT_DATA
                         else if n \<ge> samples_needed \<and> of_int v \<ge> dec_mul b ratio
                         then SATISFIED else UNSATISFIED
                     | _ \<Rightarrow> CO_INSUFFICIENT_DATA)
      in mk_condition POST_ENTRY_VOLUME_EXPANSION outcome
           [(''post_entry_volume_shares'', integer_value volume),
            (''volume_baseline_shares'', decimal_value baseline),
            (''volume_sample_count'', integer_value samples)]
           [(''minimum_volume_ratio'', decimal_value (Some ratio)),
            (''minimum_volume_samples'', integer_value (Some samples_needed))])"
| "evaluate_expected t level m (HoldAboveVwap allowed) =
     (let below = mc_completed_bars_below_vwap m;
          outcome = (case below of None \<Rightarrow> CO_INSUFFICIENT_DATA
                     | Some n \<Rightarrow> if mc_completed_bar_count m = 0 then CO_INSUFFICIENT_DATA
                                 else if n \<le> allowed then SATISFIED else UNSATISFIED)
      in mk_condition HOLD_ABOVE_VWAP outcome
           [(''completed_bars_below_vwap'', integer_value below)]
           [(''allowed_completed_bars_below'', integer_value (Some allowed))])"

definition confirmation_outcome :: "market_context \<Rightarrow> int option \<Rightarrow> int \<Rightarrow> condition_outcome" where
  "confirmation_outcome m count bars =
     (case count of None \<Rightarrow> CO_INSUFFICIENT_DATA
      | Some n \<Rightarrow> if mc_completed_bar_count m = 0 then CO_INSUFFICIENT_DATA
                  else if n \<ge> bars then TRIGGERED else NOT_TRIGGERED)"

definition session_threshold :: "string list \<Rightarrow> (string \<times> evidence_scalar) list" where
  "session_threshold states =
     map (\<lambda>(i, s). (''blocked_health_state_'' @ show_nat i, EvText s))
       (zip [0..int (length states) - 1] states)"

fun evaluate_invalid ::
  "market_context \<Rightarrow> invalid_condition \<Rightarrow> condition_evaluation res" where
  "evaluate_invalid m (BreakoutLevelLost level bars) =
     mk_condition BREAKOUT_LEVEL_LOST
       (confirmation_outcome m (mc_consecutive_below_breakout m) bars)
       [(''consecutive_completed_bars_below_breakout'',
           integer_value (mc_consecutive_below_breakout m))]
       [(''confirmation_completed_bars'', integer_value (Some bars)),
        (''breakout_level'', decimal_value (Some level))]"
| "evaluate_invalid m (VwapConfirmationLost bars) =
     mk_condition VWAP_CONFIRMATION_LOST
       (confirmation_outcome m (mc_consecutive_below_vwap m) bars)
       [(''consecutive_completed_bars_below_vwap'', integer_value (mc_consecutive_below_vwap m))]
       [(''confirmation_completed_bars'', integer_value (Some bars))]"
| "evaluate_invalid m (SessionDataBlocked states _) =
     mk_condition SESSION_DATA_BLOCKED NOT_TRIGGERED
       [(''health_state'', EvText (mc_health_state m))]
       (session_threshold states)"

definition breakout_level_of :: "trade_thesis \<Rightarrow> rat res" where
  "breakout_level_of t =
     (case List.find (\<lambda>c. invalid_kind c = BREAKOUT_LEVEL_LOST) (td_invalid_conditions (th_draft t)) of
        Some (BreakoutLevelLost level _) \<Rightarrow> Inr level
      | _ \<Rightarrow> Inl (ValueError ''ORB thesis requires a breakout-level invalid condition''))"

definition evaluate_conditions ::
  "trade_thesis \<Rightarrow> market_context \<Rightarrow> condition_evaluation list res" where
  "evaluate_conditions t m =
     (case breakout_level_of t of Inl e \<Rightarrow> Inl e | Inr level \<Rightarrow>
      case rmap (evaluate_expected t level m) (eb_conditions (td_expected_behavior (th_draft t)))
        of Inl e \<Rightarrow> Inl e | Inr expected \<Rightarrow>
      case rmap (evaluate_invalid m) (td_invalid_conditions (th_draft t))
        of Inl e \<Rightarrow> Inl e | Inr invalid \<Rightarrow>
      Inr (expected @ invalid))"

section \<open>The monitor\<close>

definition validate_thesis_identity :: "trade_thesis \<Rightarrow> market_context \<Rightarrow> unit res" where
  "validate_thesis_identity t m =
     (if mc_thesis_id m \<noteq> th_thesis_id t
      then Inl (ValueError ''market thesis_id does not match thesis'')
      else if mc_trade_id m \<noteq> th_trade_id t
      then Inl (ValueError ''market trade_id does not match thesis'')
      else if mc_session_id m \<noteq> td_session_id (th_draft t)
      then Inl (ValueError ''market session_id does not match thesis'')
      else if mc_symbol m \<noteq> td_symbol (th_draft t)
      then Inl (ValueError ''market symbol does not match thesis'')
      else Inr ())"

definition thesis_result ::
  "(json \<Rightarrow> string) \<Rightarrow> trade_thesis \<Rightarrow> market_context \<Rightarrow> string \<Rightarrow> thesis_status
     \<Rightarrow> thesis_reason list \<Rightarrow> condition_evaluation list \<Rightarrow> thesis_evaluation res" where
  "thesis_result sha t m digest status reasons conditions =
     (let e = \<lparr>te_evaluation_id = thesis_evaluation_id sha t m digest,
               te_thesis_id = th_thesis_id t, te_trade_id = th_trade_id t,
               te_source_event_id = mc_source_event_id m, te_evaluated_at = mc_observed_at m,
               te_status = status, te_reason_codes = reasons, te_conditions = conditions,
               te_input_digest = digest, te_schema_version = TRADE_MANAGEMENT_SCHEMA_VERSION\<rparr>
      in case thesis_evaluation_post_init e of Inl er \<Rightarrow> Inl er | Inr _ \<Rightarrow> Inr e)"

definition context_reason :: "context_status \<Rightarrow> thesis_reason option" where
  "context_reason s = (case s of CTX_READY \<Rightarrow> None | CTX_MISSING \<Rightarrow> Some MARKET_DATA_MISSING
     | CTX_STALE \<Rightarrow> Some MARKET_DATA_STALE | CTX_OUT_OF_ORDER \<Rightarrow> Some MARKET_DATA_OUT_OF_ORDER
     | CTX_SESSION_MISMATCH \<Rightarrow> Some TR_SESSION_MISMATCH)"

definition session_blocked :: "trade_thesis \<Rightarrow> market_context \<Rightarrow> bool" where
  "session_blocked t m =
     (case List.find (\<lambda>c. invalid_kind c = SESSION_DATA_BLOCKED) (td_invalid_conditions (th_draft t)) of
        Some (SessionDataBlocked states _) \<Rightarrow> List.member states (mc_health_state m)
      | _ \<Rightarrow> False)"

definition triggered_reasons :: "condition_evaluation list \<Rightarrow> thesis_reason list" where
  "triggered_reasons cs =
     List.map_filter (\<lambda>c.
       if ce_outcome c \<noteq> TRIGGERED then None
       else if ce_kind c = BREAKOUT_LEVEL_LOST then Some TR_BREAKOUT_LEVEL_LOST
       else if ce_kind c = VWAP_CONFIRMATION_LOST then Some TR_VWAP_CONFIRMATION_LOST
       else None) cs"

definition timed_verdict :: "trade_thesis \<Rightarrow> market_context \<Rightarrow> thesis_status \<times> thesis_reason" where
  "timed_verdict t m =
     (let elapsed = tt_instant (mc_observed_at m) - tt_instant (thesis_start_at t);
          policy = td_expected_behavior (th_draft t)
      in if elapsed \<ge> eb_observation_window policy then (TS_INVALID, EXPECTED_BEHAVIOR_EXPIRED)
         else if (case eb_warning_after policy of None \<Rightarrow> False | Some w \<Rightarrow> elapsed \<ge> w)
         then (TS_WARNING, EXPECTED_BEHAVIOR_WARNING)
         else (TS_VALID, EXPECTED_BEHAVIOR_PENDING))"

definition thesis_evaluate ::
  "(json \<Rightarrow> string) \<Rightarrow> trade_thesis \<Rightarrow> market_context \<Rightarrow> thesis_evaluation res" where
  "thesis_evaluate sha t m =
     (case validate_thesis_identity t m of Inl e \<Rightarrow> Inl e | Inr _ \<Rightarrow>
      let digest = sha (thesis_input_payload t m);
          result = thesis_result sha t m digest
      in if mc_prior_status m = Some TS_INVALID then result TS_INVALID [INVALID_LATCHED] []
         else if tt_instant (mc_observed_at m) < tt_instant (thesis_start_at t)
         then result TS_INSUFFICIENT_DATA [OBSERVED_BEFORE_FILL] []
         else
         case context_reason (mc_data_status m) of
           Some reason \<Rightarrow> result TS_INSUFFICIENT_DATA [reason] []
         | None \<Rightarrow>
         if session_blocked t m then result TS_INSUFFICIENT_DATA [TR_SESSION_DATA_BLOCKED] []
         else
         case evaluate_conditions t m of Inl e \<Rightarrow> Inl e | Inr conditions \<Rightarrow>
         if list_ex (\<lambda>c. ce_outcome c = CO_INSUFFICIENT_DATA) conditions
         then result TS_INSUFFICIENT_DATA [REQUIRED_INPUT_MISSING] conditions
         else if triggered_reasons conditions \<noteq> []
         then result TS_INVALID (triggered_reasons conditions) conditions
         else if list_all (\<lambda>c. ce_outcome c = SATISFIED)
                   (filter (\<lambda>c. is_expected_kind (ce_kind c)) conditions)
         then result TS_VALID [ALL_EXPECTED_BEHAVIOR_MET] conditions
         else (case timed_verdict t m of (status, reason) \<Rightarrow> result status [reason] conditions))"


section \<open>Shape of a valid thesis\<close>

text \<open>A validated ORB thesis has exactly the six conditions, in the canonical order.\<close>

definition valid_thesis :: "(json \<Rightarrow> string) \<Rightarrow> trade_thesis \<Rightarrow> bool" where
  "valid_thesis sha t \<longleftrightarrow> is_ok (trade_thesis_post_init sha t)
     \<and> is_ok (thesis_draft_post_init sha (th_draft t))
     \<and> is_ok (expected_behavior_post_init (td_expected_behavior (th_draft t)))
     \<and> list_all (\<lambda>c. is_ok (invalid_condition_post_init c)) (td_invalid_conditions (th_draft t))"

lemma map_kind_expected:
  assumes "map expected_kind cs = [NEW_HIGH_EXTENSION, POST_ENTRY_VOLUME_EXPANSION, HOLD_ABOVE_VWAP]"
  obtains r b v ra n a where
    "cs = [NewHighExtension r b, PostEntryVolumeExpansion v ra n, HoldAboveVwap a]"
proof -
  obtain c1 c2 c3 where cs: "cs = [c1, c2, c3]"
    using assms by (auto simp: map_eq_Cons_conv)
  then show thesis using assms by (cases c1; cases c2; cases c3) (auto intro: that)
qed

lemma map_kind_invalid:
  assumes "map invalid_kind cs = [BREAKOUT_LEVEL_LOST, VWAP_CONFIRMATION_LOST, SESSION_DATA_BLOCKED]"
  obtains l n k states b where
    "cs = [BreakoutLevelLost l n, VwapConfirmationLost k, SessionDataBlocked states b]"
proof -
  obtain c1 c2 c3 where cs: "cs = [c1, c2, c3]"
    using assms by (auto simp: map_eq_Cons_conv)
  then show thesis using assms by (cases c1; cases c2; cases c3) (auto intro: that)
qed

lemma draft_shape:
  assumes "is_ok (thesis_draft_post_init sha d)"
  shows "map expected_kind (eb_conditions (td_expected_behavior d)) =
      [NEW_HIGH_EXTENSION, POST_ENTRY_VOLUME_EXPANSION, HOLD_ABOVE_VWAP]"
    and "map invalid_kind (td_invalid_conditions d) =
      [BREAKOUT_LEVEL_LOST, VWAP_CONFIRMATION_LOST, SESSION_DATA_BLOCKED]"
    and "\<not> blank (td_thesis_id d)"
  using assms
  by (auto simp: thesis_draft_post_init_def build_thesis_id_def derive_id_def blank_iff py_space_def
      split: sum.splits if_splits)

lemma session_threshold_names: "distinct (map fst (session_threshold states))"
proof -
  let ?f = "\<lambda>i. ''blocked_health_state_'' @ show_nat i"
  have "distinct (map ?f [0..int (length states) - 1])"
    by (auto simp: distinct_map inj_on_def dest: show_nat_inj)
  then have "distinct (map (?f \<circ> fst) (zip [0..int (length states) - 1] states))"
    by (rule distinct_map_fst_zip)
  moreover have "map fst (session_threshold states) =
      map (?f \<circ> fst) (zip [0..int (length states) - 1] states)"
    by (simp only: session_threshold_def map_map o_def case_prod_beta fst_conv)
  ultimately show ?thesis by (simp only:)
qed

lemma evaluate_expected_ok:
  "\<exists>c. evaluate_expected t l m s = Inr c \<and> ce_kind c = expected_kind s
     \<and> ce_outcome c \<noteq> TRIGGERED \<and> ce_outcome c \<noteq> NOT_TRIGGERED"
  by (cases s) (auto simp: mk_condition_def condition_evaluation_post_init_def Let_def
      is_expected_kind_def split: option.splits prod.splits)

lemma evaluate_invalid_ok:
  "\<exists>c. evaluate_invalid m s = Inr c \<and> ce_kind c = invalid_kind s
     \<and> ce_outcome c \<noteq> SATISFIED \<and> ce_outcome c \<noteq> UNSATISFIED"
proof (cases s)
  case (SessionDataBlocked states b)
  then show ?thesis using session_threshold_names [of states]
    by (simp add: mk_condition_def condition_evaluation_post_init_def Let_def is_expected_kind_def)
qed (auto simp: mk_condition_def condition_evaluation_post_init_def Let_def
      is_expected_kind_def confirmation_outcome_def split: option.splits)

text \<open>The conditions of a valid thesis are always evaluated: three expected, then three invalid.\<close>

lemma evaluate_conditions_ok:
  assumes "valid_thesis sha t"
  obtains c1 c2 c3 d1 d2 d3 where "evaluate_conditions t m = Inr [c1, c2, c3, d1, d2, d3]"
    "ce_kind c1 = NEW_HIGH_EXTENSION" "ce_kind c2 = POST_ENTRY_VOLUME_EXPANSION"
    "ce_kind c3 = HOLD_ABOVE_VWAP" "ce_kind d1 = BREAKOUT_LEVEL_LOST"
    "ce_kind d2 = VWAP_CONFIRMATION_LOST" "ce_kind d3 = SESSION_DATA_BLOCKED"
    "ce_outcome c1 \<noteq> TRIGGERED" "ce_outcome c2 \<noteq> TRIGGERED" "ce_outcome c3 \<noteq> TRIGGERED"
    "ce_outcome d3 = NOT_TRIGGERED"
proof -
  have d: "is_ok (thesis_draft_post_init sha (th_draft t))" using assms by (simp add: valid_thesis_def)
  obtain r b v ra n a where
    e: "eb_conditions (td_expected_behavior (th_draft t)) =
        [NewHighExtension r b, PostEntryVolumeExpansion v ra n, HoldAboveVwap a]"
    using draft_shape(1) [OF d] by (rule map_kind_expected)
  obtain l k j states bl where
    i: "td_invalid_conditions (th_draft t) =
        [BreakoutLevelLost l k, VwapConfirmationLost j, SessionDataBlocked states bl]"
    using draft_shape(2) [OF d] by (rule map_kind_invalid)
  have lev: "breakout_level_of t = Inr l" by (simp add: breakout_level_of_def i)
  obtain c1 where c1: "evaluate_expected t l m (NewHighExtension r b) = Inr c1"
      "ce_kind c1 = NEW_HIGH_EXTENSION" "ce_outcome c1 \<noteq> TRIGGERED"
    using evaluate_expected_ok [of t l m "NewHighExtension r b"] by auto
  obtain c2 where c2: "evaluate_expected t l m (PostEntryVolumeExpansion v ra n) = Inr c2"
      "ce_kind c2 = POST_ENTRY_VOLUME_EXPANSION" "ce_outcome c2 \<noteq> TRIGGERED"
    using evaluate_expected_ok [of t l m "PostEntryVolumeExpansion v ra n"] by auto
  obtain c3 where c3: "evaluate_expected t l m (HoldAboveVwap a) = Inr c3"
      "ce_kind c3 = HOLD_ABOVE_VWAP" "ce_outcome c3 \<noteq> TRIGGERED"
    using evaluate_expected_ok [of t l m "HoldAboveVwap a"] by auto
  obtain d1 where d1: "evaluate_invalid m (BreakoutLevelLost l k) = Inr d1"
      "ce_kind d1 = BREAKOUT_LEVEL_LOST"
    using evaluate_invalid_ok [of m "BreakoutLevelLost l k"] by auto
  obtain d2 where d2: "evaluate_invalid m (VwapConfirmationLost j) = Inr d2"
      "ce_kind d2 = VWAP_CONFIRMATION_LOST"
    using evaluate_invalid_ok [of m "VwapConfirmationLost j"] by auto
  obtain d3 where d3: "evaluate_invalid m (SessionDataBlocked states bl) = Inr d3"
      "ce_kind d3 = SESSION_DATA_BLOCKED"
    using evaluate_invalid_ok [of m "SessionDataBlocked states bl"] by auto
  then have o3: "ce_outcome d3 = NOT_TRIGGERED"
    by (auto simp: mk_condition_def Let_def split: sum.splits)
  have ev: "evaluate_conditions t m = Inr [c1, c2, c3, d1, d2, d3]"
    using c1(1) c2(1) c3(1) d1(1) d2(1) d3(1) by (simp add: evaluate_conditions_def e i lev)
  show thesis
    by (rule that [OF ev c1(2) c2(2) c3(2) d1(2) d2(2) d3(2) c1(3) c2(3) c3(3) o3])
qed

section \<open>Correctness of the monitor\<close>

definition valid_context :: "trade_thesis \<Rightarrow> market_context \<Rightarrow> bool" where
  "valid_context t m \<longleftrightarrow> is_ok (market_context_post_init m) \<and> is_ok (validate_thesis_identity t m)"

lemma valid_context_ids:
  assumes "valid_context t m"
  shows "mc_thesis_id m = th_thesis_id t" "mc_trade_id m = th_trade_id t"
    "\<not> blank (mc_source_event_id m)" "\<not> blank (th_thesis_id t)" "\<not> blank (th_trade_id t)"
  using assms
  by (auto simp: valid_context_def market_context_post_init_def validate_thesis_identity_def
      split: sum.splits if_splits)

lemma thesis_result_ok:
  assumes "valid_context t m" and "is_sha256 digest" and "reasons \<noteq> []" and "distinct reasons"
  shows "\<exists>e. thesis_result sha t m digest status reasons conditions = Inr e
     \<and> te_status e = status \<and> te_reason_codes e = reasons \<and> te_conditions e = conditions
     \<and> te_trade_id e = th_trade_id t \<and> te_thesis_id e = th_thesis_id t
     \<and> te_source_event_id e = mc_source_event_id m \<and> te_evaluated_at e = mc_observed_at m
     \<and> thesis_evaluation_post_init e = Inr ()"
  using assms valid_context_ids [OF assms(1)]
  by (auto simp: thesis_result_def Let_def thesis_evaluation_post_init_def require_schema_def
      thesis_evaluation_id_def blank_iff py_space_def require_def split: sum.splits)

lemma triggered_reasons_distinct:
  "ce_outcome c1 \<noteq> TRIGGERED \<Longrightarrow> ce_outcome c2 \<noteq> TRIGGERED \<Longrightarrow> ce_outcome c3 \<noteq> TRIGGERED \<Longrightarrow>
   ce_kind d1 = BREAKOUT_LEVEL_LOST \<Longrightarrow> ce_kind d2 = VWAP_CONFIRMATION_LOST \<Longrightarrow>
   ce_outcome d3 = NOT_TRIGGERED \<Longrightarrow>
   triggered_reasons [c1, c2, c3, d1, d2, d3] =
     (if ce_outcome d1 = TRIGGERED then [TR_BREAKOUT_LEVEL_LOST] else []) @
     (if ce_outcome d2 = TRIGGERED then [TR_VWAP_CONFIRMATION_LOST] else [])"
  by (simp add: triggered_reasons_def List.map_filter_def)


lemma timed_verdict_invalid:
  "fst (timed_verdict t m) = TS_INVALID \<Longrightarrow> timed_verdict t m = (TS_INVALID, EXPECTED_BEHAVIOR_EXPIRED)
     \<and> eb_observation_window (td_expected_behavior (th_draft t))
         \<le> tt_instant (mc_observed_at m) - tt_instant (thesis_start_at t)"
  by (auto simp: timed_verdict_def Let_def split: if_splits)

lemma thesis_result_fields:
  "thesis_result sha t m digest status reasons conditions = Inr e \<Longrightarrow>
     te_status e = status \<and> te_reason_codes e = reasons \<and> te_conditions e = conditions
     \<and> te_thesis_id e = th_thesis_id t \<and> te_trade_id e = th_trade_id t
     \<and> te_evaluated_at e = mc_observed_at m"
  by (auto simp: thesis_result_def Let_def split: sum.splits)

text \<open>An example thesis and observation, for the witnesses.\<close>

definition example_sha :: "json \<Rightarrow> string" where
  "example_sha _ = replicate 64 (CHR ''0'')"

definition example_time :: "timestamp_role \<Rightarrow> timestamp_source \<Rightarrow> string \<Rightarrow> int \<Rightarrow> trade_timestamp" where
  "example_time role source ident us =
     \<lparr>tt_role = role, tt_value = \<lparr>instant = us, utcoffset = Some 28800000000\<rparr>,
      tt_zone = Some TRADE_TIMEZONE, tt_source = source, tt_source_identity = ident\<rparr>"

definition example_id :: "string \<Rightarrow> string" where
  "example_id prefix = prefix @ ''_'' @ example_sha JNull"

definition example_thesis :: trade_thesis where
  "example_thesis =
     \<lparr>th_thesis_id = example_id ''thesis_v1'', th_trade_id = example_id ''trade_v1'',
      th_draft =
       \<lparr>td_thesis_id = example_id ''thesis_v1'', td_session_id = ''s1'', td_symbol = ''2330'',
        td_strategy_id = ''orb'', td_strategy_version = ''v1'', td_thesis_version = ''t1'',
        td_decision_id = ''d1'', td_signal_at = example_time SIGNAL_ROLE STRATEGY_RUNTIME ''sig'' 0,
        td_created_at = example_time DECISION_ROLE STRATEGY_RUNTIME ''dec'' 1,
        td_entry_evidence =
          [\<lparr>ee_evidence_id = ''e1'', ee_observed_at = example_time SIGNAL_ROLE STRATEGY_RUNTIME ''sig'' 0\<rparr>],
        td_expected_behavior =
          \<lparr>eb_policy_id = ''p1'', eb_version = ''t1'', eb_observation_window = 600000000,
           eb_warning_after = Some 300000000,
           eb_conditions = [NewHighExtension ENTRY_REFERENCE_PRICE 0,
             PostEntryVolumeExpansion OPENING_RANGE_MEDIAN 1 3, HoldAboveVwap 1]\<rparr>,
        td_invalid_conditions = [BreakoutLevelLost 99 1, VwapConfirmationLost 1,
          SessionDataBlocked [''BLOCKED''] True],
        td_schema_version = TRADE_MANAGEMENT_SCHEMA_VERSION\<rparr>,
      th_opening_order_id = ''o1'', th_opening_fill_id = ''f1'', th_entry_reference_price = 100,
      th_filled_at = example_time FILL_ROLE SIMULATION_CLOCK ''f1'' 10,
      th_schema_version = TRADE_MANAGEMENT_SCHEMA_VERSION\<rparr>"

definition example_market :: "int \<Rightarrow> market_context" where
  "example_market us =
     \<lparr>mc_thesis_id = example_id ''thesis_v1'', mc_trade_id = example_id ''trade_v1'',
      mc_session_id = ''s1'', mc_symbol = ''2330'', mc_source_event_id = ''ev1'',
      mc_observed_at = example_time MARKET_EVENT CANONICAL_MARKET_EVENT ''ev1'' us,
      mc_data_status = CTX_READY, mc_health_state = ''HEALTHY'',
      mc_highest_price_since_entry = Some 100, mc_post_entry_volume_shares = Some 5000,
      mc_volume_baseline_shares = None, mc_volume_sample_count = Some 3,
      mc_completed_bar_count = 2, mc_completed_bars_below_vwap = Some 0,
      mc_consecutive_below_vwap = Some 0, mc_consecutive_below_breakout = Some 0,
      mc_prior_status = None, mc_schema_version = TRADE_MANAGEMENT_SCHEMA_VERSION\<rparr>"

lemma example_sha_ok: "is_sha256 (example_sha j)"
  by (simp add: example_sha_def) code_simp

lemma example_thesis_valid: "valid_thesis example_sha example_thesis"
  by code_simp

lemma example_context_valid: "valid_context example_thesis (example_market 700000000)"
  by code_simp

section \<open>Properties\<close>

text \<open>
  C28. The thesis monitor is total on validated inputs: for a thesis and a market context that
  passed their own validation and name each other, \<open>evaluate\<close> returns an evaluation, and that
  evaluation satisfies its own validation (a digest identity, and non-empty, distinct reasons).
\<close>

theorem thesis_monitor_total:
  assumes "valid_thesis sha t" and "valid_context t m" and "\<And>j. is_sha256 (sha j)"
  shows "\<exists>e. thesis_evaluate sha t m = Inr e \<and> thesis_evaluation_post_init e = Inr ()"
proof -
  obtain c1 c2 c3 d1 d2 d3 where c: "evaluate_conditions t m = Inr [c1, c2, c3, d1, d2, d3]"
    "ce_kind d1 = BREAKOUT_LEVEL_LOST" "ce_kind d2 = VWAP_CONFIRMATION_LOST"
    "ce_outcome c1 \<noteq> TRIGGERED" "ce_outcome c2 \<noteq> TRIGGERED" "ce_outcome c3 \<noteq> TRIGGERED"
    "ce_outcome d3 = NOT_TRIGGERED"
    using evaluate_conditions_ok [OF assms(1), where m = m] by metis
  have dist: "distinct (triggered_reasons [c1, c2, c3, d1, d2, d3])"
    using triggered_reasons_distinct [OF c(4,5,6,2,3,7)] by auto
  have R: "\<exists>e. thesis_result sha t m (sha p) st rs cs = Inr e \<and> thesis_evaluation_post_init e = Inr ()"
    if "rs \<noteq> []" "distinct rs" for p st rs cs
    using thesis_result_ok [OF assms(2,3) that] by blast
  have "validate_thesis_identity t m = Inr ()"
    using assms(2) by (auto simp: valid_context_def is_ok_iff)
  then show ?thesis
    using R [OF _ dist] R [of "[_]"] c(1)
    by (simp add: thesis_evaluate_def Let_def split: option.split prod.split)
qed

theorem thesis_monitor_total_witness:
  "\<exists>e. thesis_evaluate example_sha example_thesis (example_market 700000000) = Inr e
     \<and> thesis_evaluation_post_init e = Inr ()"
  by (rule thesis_monitor_total [OF example_thesis_valid example_context_valid example_sha_ok])

text \<open>
  C11. A fresh INVALID verdict rests on complete evidence only: unless the thesis was already
  latched INVALID, the market data was READY, not from before the fill and not in a blocked
  session state, no condition lacked its input, and the reasons are either the confirmed
  invalid conditions or the expiry of the observation window.
\<close>

theorem invalid_rests_on_ready_evidence:
  assumes "thesis_evaluate sha t m = Inr e" and "te_status e = TS_INVALID"
    and "mc_prior_status m \<noteq> Some TS_INVALID"
  shows "mc_data_status m = CTX_READY
    \<and> tt_instant (thesis_start_at t) \<le> tt_instant (mc_observed_at m) \<and> \<not> session_blocked t m
    \<and> list_all (\<lambda>c. ce_outcome c \<noteq> CO_INSUFFICIENT_DATA) (te_conditions e)
    \<and> (te_reason_codes e = triggered_reasons (te_conditions e) \<and> te_reason_codes e \<noteq> []
       \<or> te_reason_codes e = [EXPECTED_BEHAVIOR_EXPIRED]
         \<and> eb_observation_window (td_expected_behavior (th_draft t))
             \<le> tt_instant (mc_observed_at m) - tt_instant (thesis_start_at t))"
proof -
  obtain status reason where v: "timed_verdict t m = (status, reason)" by fastforce
  show ?thesis
    using assms timed_verdict_invalid [of t m] v
    by (auto simp: thesis_evaluate_def Let_def context_reason_def list_all_iff list_ex_iff
        dest!: thesis_result_fields split: sum.splits if_splits option.splits context_status.splits)
qed

theorem invalid_rests_on_ready_evidence_witness:
  "\<exists>e. thesis_evaluate example_sha example_thesis
         ((example_market 700000000)\<lparr>mc_volume_baseline_shares := Some 4000,
            mc_highest_price_since_entry := Some 99\<rparr>) = Inr e
     \<and> te_status e = TS_INVALID \<and> te_reason_codes e = [EXPECTED_BEHAVIOR_EXPIRED]"
proof -
  let ?m = "(example_market 700000000)\<lparr>mc_volume_baseline_shares := Some 4000,
            mc_highest_price_since_entry := Some 99\<rparr>"
  have s: "map_sum id (\<lambda>e. (te_status e, triggered_reasons (te_conditions e)))
      (thesis_evaluate example_sha example_thesis ?m) = Inr (TS_INVALID, [])"
    by code_simp
  then obtain e where e: "thesis_evaluate example_sha example_thesis ?m = Inr e"
      "te_status e = TS_INVALID" "triggered_reasons (te_conditions e) = []"
    by (cases "thesis_evaluate example_sha example_thesis ?m") auto
  have "mc_prior_status ?m \<noteq> Some TS_INVALID" by (simp add: example_market_def)
  from invalid_rests_on_ready_evidence [OF e(1,2) this] e show ?thesis by auto
qed

end
