(* ===== verification/Exit_Recommendation.thy ===== *)
theory Exit_Recommendation
  imports Thesis_Monitor
begin

text \<open>
  The pure mapping from a thesis evaluation to an exit decision and recommendation
  (\<open>trading/exit_recommendation.py\<close>): the engine's input checks, the reason mapping, and the
  creation or update of the single active recommendation of a trade.
\<close>

section \<open>Position context and result\<close>

record exit_position =
  xp_session_id :: string
  xp_trade_id :: string
  xp_thesis_id :: string
  xp_remaining_quantity_shares :: int
  xp_lifecycle_state :: trade_lifecycle
  xp_decided_at :: trade_timestamp
  xp_active_recommendation :: "exit_recommendation option"
  xp_schema_version :: string

record exit_result =
  xs_decision :: exit_decision
  xs_recommendation :: "exit_recommendation option"
  xs_recommendation_changed :: bool

definition SUPPORTED_REASONS :: "exit_reason list" where
  "SUPPORTED_REASONS = [THESIS_INVALID, TIME_DECAY]"

definition exit_position_post_init :: "exit_position \<Rightarrow> unit res" where
  "exit_position_post_init p =
     (case require_schema (xp_schema_version p) of Inl e \<Rightarrow> Inl e | Inr _ \<Rightarrow>
      case require_non_empty [(xp_session_id p, ''session_id''), (xp_trade_id p, ''trade_id''),
        (xp_thesis_id p, ''thesis_id'')] of Inl e \<Rightarrow> Inl e | Inr _ \<Rightarrow>
      if xp_remaining_quantity_shares p \<le> 0
      then Inl (ValueError ''remaining_quantity_shares must be positive'')
      else if xp_lifecycle_state p \<noteq> ACTIVE_POSITION
      then Inl (ValueError ''recommendation requires ACTIVE_POSITION lifecycle state'')
      else if tt_role (xp_decided_at p) \<noteq> EXIT_DECISION
      then Inl (ValueError ''decided_at must use the EXIT_DECISION role'')
      else
      case xp_active_recommendation p of None \<Rightarrow> Inr ()
      | Some r \<Rightarrow>
          if xr_status r \<noteq> REC_ACTIVE
          then Inl (ValueError ''position context requires an ACTIVE recommendation'')
          else if xr_session_id r \<noteq> xp_session_id p
          then Inl (ValueError ''active recommendation session_id does not match position'')
          else if xr_trade_id r \<noteq> xp_trade_id p
          then Inl (ValueError ''active recommendation trade_id does not match position'')
          else if xr_thesis_id r \<noteq> xp_thesis_id p
          then Inl (ValueError ''active recommendation thesis_id does not match position'')
          else if list_ex (\<lambda>x. \<not> List.member SUPPORTED_REASONS x) (xr_triggered_reasons r)
          then Inl (ValueError ''active recommendation contains reasons outside PR-TM-004'')
          else if tt_instant (xp_decided_at p) < tt_instant (xr_updated_at r)
          then Inl (ValueError ''active recommendation cannot postdate decided_at'')
          else Inr ())"

definition exit_result_post_init :: "exit_result \<Rightarrow> unit res" where
  "exit_result_post_init s =
     (case xd_action (xs_decision s) of
        HOLD \<Rightarrow>
          if xs_recommendation s \<noteq> None
          then Inl (ValueError ''HOLD result cannot contain a recommendation'')
          else if xs_recommendation_changed s
          then Inl (ValueError ''HOLD result cannot change a recommendation'')
          else Inr ()
      | EXIT \<Rightarrow>
          (case xs_recommendation s of
             None \<Rightarrow> Inl (ValueError ''EXIT result requires a recommendation'')
           | Some r \<Rightarrow>
               if xr_trade_id r \<noteq> xd_trade_id (xs_decision s)
               then Inl (ValueError ''recommendation trade_id must match decision'')
               else if xr_thesis_id r \<noteq> xd_thesis_id (xs_decision s)
               then Inl (ValueError ''recommendation thesis_id must match decision'')
               else if xs_recommendation_changed s
                     \<and> xr_latest_decision_id r \<noteq> xd_decision_id (xs_decision s)
               then Inl (ValueError ''recommendation must reference the current decision'')
               else Inr ()))"

section \<open>Reasons\<close>

definition reason_name :: "thesis_reason \<Rightarrow> string" where
  "reason_name r = (case r of
       ALL_EXPECTED_BEHAVIOR_MET \<Rightarrow> ''ALL_EXPECTED_BEHAVIOR_MET''
     | EXPECTED_BEHAVIOR_PENDING \<Rightarrow> ''EXPECTED_BEHAVIOR_PENDING''
     | EXPECTED_BEHAVIOR_WARNING \<Rightarrow> ''EXPECTED_BEHAVIOR_WARNING''
     | EXPECTED_BEHAVIOR_EXPIRED \<Rightarrow> ''EXPECTED_BEHAVIOR_EXPIRED''
     | TR_BREAKOUT_LEVEL_LOST \<Rightarrow> ''BREAKOUT_LEVEL_LOST''
     | TR_VWAP_CONFIRMATION_LOST \<Rightarrow> ''VWAP_CONFIRMATION_LOST''
     | TR_SESSION_DATA_BLOCKED \<Rightarrow> ''SESSION_DATA_BLOCKED''
     | MARKET_DATA_MISSING \<Rightarrow> ''MARKET_DATA_MISSING''
     | MARKET_DATA_STALE \<Rightarrow> ''MARKET_DATA_STALE''
     | MARKET_DATA_OUT_OF_ORDER \<Rightarrow> ''MARKET_DATA_OUT_OF_ORDER''
     | TR_SESSION_MISMATCH \<Rightarrow> ''SESSION_MISMATCH''
     | REQUIRED_INPUT_MISSING \<Rightarrow> ''REQUIRED_INPUT_MISSING''
     | OBSERVED_BEFORE_FILL \<Rightarrow> ''OBSERVED_BEFORE_FILL''
     | INVALID_LATCHED \<Rightarrow> ''INVALID_LATCHED'')"

definition source_name :: "timestamp_source \<Rightarrow> string" where
  "source_name s = (case s of CANONICAL_MARKET_EVENT \<Rightarrow> ''CANONICAL_MARKET_EVENT''
     | STRATEGY_RUNTIME \<Rightarrow> ''STRATEGY_RUNTIME'' | SIMULATION_CLOCK \<Rightarrow> ''SIMULATION_CLOCK''
     | BROKER_EVENT \<Rightarrow> ''BROKER_EVENT'')"

text \<open>The lifecycle state of a valid position context is ACTIVE_POSITION.\<close>

definition exit_decision_payload :: "thesis_evaluation \<Rightarrow> exit_position \<Rightarrow> string \<Rightarrow> json" where
  "exit_decision_payload ev p policy =
     JObj [(''engine_version'', JStr ''exit-recommendation-engine-v1''),
           (''exit_policy_version'', JStr policy),
           (''evaluation'', JObj
             [(''evaluation_id'', JStr (te_evaluation_id ev)),
              (''input_digest'', JStr (te_input_digest ev)),
              (''status'', JStr (thesis_status_name (te_status ev))),
              (''reason_codes'', JList (map (JStr \<circ> reason_name) (te_reason_codes ev))),
              (''source_event_id'', JStr (te_source_event_id ev)),
              (''evaluated_at'', JTime (tt_value (te_evaluated_at ev)))]),
           (''position'', JObj
             [(''session_id'', JStr (xp_session_id p)), (''trade_id'', JStr (xp_trade_id p)),
              (''thesis_id'', JStr (xp_thesis_id p)),
              (''remaining_quantity_shares'', JInt (xp_remaining_quantity_shares p)),
              (''lifecycle_state'', JStr ''ACTIVE_POSITION''),
              (''decided_at'', JTime (tt_value (xp_decided_at p))),
              (''decision_time_source'', JStr (source_name (tt_source (xp_decided_at p)))),
              (''decision_time_source_identity'',
                 JStr (tt_source_identity (xp_decided_at p)))])]"

definition mapped_reasons ::
  "thesis_evaluation \<Rightarrow> exit_recommendation option \<Rightarrow> exit_reason list res" where
  "mapped_reasons ev active =
     (if te_status ev \<noteq> TS_INVALID then Inr []
      else if List.member (te_reason_codes ev) INVALID_LATCHED
      then Inr (case active of Some r \<Rightarrow> xr_triggered_reasons r | None \<Rightarrow> [THESIS_INVALID])
      else
      let codes = te_reason_codes ev;
          mapped = (if List.member codes TR_BREAKOUT_LEVEL_LOST
                       \<or> List.member codes TR_VWAP_CONFIRMATION_LOST
                    then [THESIS_INVALID] else [])
                 @ (if List.member codes EXPECTED_BEHAVIOR_EXPIRED then [TIME_DECAY] else [])
      in if mapped = [] then Inl (ValueError ''INVALID ThesisEvaluation has no actionable reason'')
         else Inr (filter (\<lambda>r. List.member mapped r) SUPPORTED_REASONS))"

definition merged_reasons :: "exit_reason list \<Rightarrow> exit_reason list \<Rightarrow> exit_reason list" where
  "merged_reasons current observed =
     filter (\<lambda>r. List.member current r \<or> List.member observed r) SUPPORTED_REASONS"

section \<open>The engine\<close>

definition validate_exit_inputs ::
  "string \<Rightarrow> thesis_evaluation \<Rightarrow> exit_position \<Rightarrow> unit res" where
  "validate_exit_inputs policy ev p =
     (if te_trade_id ev \<noteq> xp_trade_id p
      then Inl (ValueError ''position trade_id does not match evaluation'')
      else if te_thesis_id ev \<noteq> xp_thesis_id p
      then Inl (ValueError ''position thesis_id does not match evaluation'')
      else if tt_instant (xp_decided_at p) < tt_instant (te_evaluated_at ev)
      then Inl (ValueError ''decided_at cannot predate ThesisEvaluation'')
      else (case xp_active_recommendation p of None \<Rightarrow> Inr ()
            | Some r \<Rightarrow>
                if xr_exit_policy_version r \<noteq> policy
                then Inl (ValueError ''active recommendation policy version does not match engine'')
                else Inr ()))"

definition mk_exit_result ::
  "exit_decision \<Rightarrow> exit_recommendation option \<Rightarrow> bool \<Rightarrow> exit_result res" where
  "mk_exit_result d r changed =
     (let s = \<lparr>xs_decision = d, xs_recommendation = r, xs_recommendation_changed = changed\<rparr>
      in case exit_result_post_init s of Inl e \<Rightarrow> Inl e | Inr _ \<Rightarrow> Inr s)"

definition mk_recommendation ::
  "(json \<Rightarrow> string) \<Rightarrow> exit_recommendation \<Rightarrow> exit_recommendation res" where
  "mk_recommendation sha r =
     (case exit_recommendation_post_init sha r of Inl e \<Rightarrow> Inl e | Inr _ \<Rightarrow> Inr r)"

definition next_recommendation ::
  "(json \<Rightarrow> string) \<Rightarrow> string \<Rightarrow> thesis_evaluation \<Rightarrow> exit_position \<Rightarrow> exit_decision
     \<Rightarrow> exit_reason list \<Rightarrow> (exit_recommendation \<times> bool) res" where
  "next_recommendation sha policy ev p d reasons =
     (case xp_active_recommendation p of
        None \<Rightarrow>
          (case build_exit_recommendation_id sha (xp_session_id p) (xp_trade_id p) policy
             of Inl e \<Rightarrow> Inl e | Inr i \<Rightarrow>
           case mk_recommendation sha
             \<lparr>xr_recommendation_id = i, xr_session_id = xp_session_id p,
              xr_trade_id = xp_trade_id p, xr_thesis_id = xp_thesis_id p,
              xr_exit_policy_version = policy, xr_status = REC_ACTIVE,
              xr_first_trigger_decision_id = xd_decision_id d,
              xr_first_trigger_event_id = te_source_event_id ev,
              xr_latest_decision_id = xd_decision_id d,
              xr_latest_evidence_event_id = te_source_event_id ev,
              xr_primary_reason = hd reasons, xr_triggered_reasons = reasons,
              xr_created_at = xp_decided_at p, xr_updated_at = xp_decided_at p,
              xr_resolved_at = None, xr_closing_fill_id = None,
              xr_schema_version = TRADE_MANAGEMENT_SCHEMA_VERSION\<rparr> of Inl e \<Rightarrow> Inl e
           | Inr r \<Rightarrow> Inr (r, True))
      | Some active \<Rightarrow>
          if xr_primary_reason active = hd reasons \<and> xr_triggered_reasons active = reasons
          then Inr (active, False)
          else
          (case mk_recommendation sha
             \<lparr>xr_recommendation_id = xr_recommendation_id active,
              xr_session_id = xr_session_id active, xr_trade_id = xr_trade_id active,
              xr_thesis_id = xr_thesis_id active,
              xr_exit_policy_version = xr_exit_policy_version active,
              xr_status = xr_status active,
              xr_first_trigger_decision_id = xr_first_trigger_decision_id active,
              xr_first_trigger_event_id = xr_first_trigger_event_id active,
              xr_latest_decision_id = xd_decision_id d,
              xr_latest_evidence_event_id = te_source_event_id ev,
              xr_primary_reason = hd reasons, xr_triggered_reasons = reasons,
              xr_created_at = xr_created_at active, xr_updated_at = xp_decided_at p,
              xr_resolved_at = None, xr_closing_fill_id = None,
              xr_schema_version = TRADE_MANAGEMENT_SCHEMA_VERSION\<rparr> of Inl e \<Rightarrow> Inl e
           | Inr r \<Rightarrow> Inr (r, True)))"

text \<open>
  \<open>ExitRecommendationEngine.evaluate\<close>. \<open>hd reasons\<close> is \<open>decision_reasons[0]\<close>: on the EXIT
  branch the list is not empty (\<open>decision_reasons_nonempty\<close> below).
\<close>

definition exit_evaluate ::
  "(json \<Rightarrow> string) \<Rightarrow> string \<Rightarrow> thesis_evaluation \<Rightarrow> exit_position \<Rightarrow> exit_result res" where
  "exit_evaluate sha policy ev p =
     (case validate_exit_inputs policy ev p of Inl e \<Rightarrow> Inl e | Inr _ \<Rightarrow>
      if te_status ev \<noteq> TS_INVALID \<and> xp_active_recommendation p \<noteq> None
      then Inl (ValueError ''active recommendation requires an INVALID ThesisEvaluation'')
      else
      case mapped_reasons ev (xp_active_recommendation p) of Inl e \<Rightarrow> Inl e | Inr observed \<Rightarrow>
      let action = (if observed \<noteq> [] then EXIT else HOLD);
          reasons = (case xp_active_recommendation p of
                       Some r \<Rightarrow> merged_reasons (xr_triggered_reasons r) observed
                     | None \<Rightarrow> observed);
          digest = sha (exit_decision_payload ev p policy)
      in
      case build_exit_decision_id sha (xp_session_id p) (xp_trade_id p) (te_source_event_id ev)
             policy digest of Inl e \<Rightarrow> Inl e | Inr i \<Rightarrow>
      let d = \<lparr>xd_decision_id = i, xd_session_id = xp_session_id p, xd_trade_id = xp_trade_id p,
               xd_thesis_id = xp_thesis_id p, xd_action = action,
               xd_primary_reason = (case reasons of [] \<Rightarrow> None | r # _ \<Rightarrow> Some r),
               xd_triggered_reasons = reasons, xd_decided_at = xp_decided_at p,
               xd_source_event_id = te_source_event_id ev, xd_exit_policy_version = policy,
               xd_evaluation_digest = digest,
               xd_schema_version = TRADE_MANAGEMENT_SCHEMA_VERSION\<rparr>
      in
      case exit_decision_post_init sha d of Inl e \<Rightarrow> Inl e | Inr _ \<Rightarrow>
      if action = HOLD then mk_exit_result d None False
      else
      case next_recommendation sha policy ev p d reasons of Inl e \<Rightarrow> Inl e
      | Inr (r, changed) \<Rightarrow> mk_exit_result d (Some r) changed)"


section \<open>Reason sets\<close>

definition canonical_reasons :: "exit_reason list \<Rightarrow> bool" where
  "canonical_reasons rs \<longleftrightarrow> rs = filter (\<lambda>r. List.member rs r) SUPPORTED_REASONS"

lemma canonical_cases:
  "canonical_reasons rs \<longleftrightarrow>
     rs = [] \<or> rs = [THESIS_INVALID] \<or> rs = [TIME_DECAY] \<or> rs = [THESIS_INVALID, TIME_DECAY]"
proof -
  have "canonical_reasons rs \<longleftrightarrow>
      rs = (if THESIS_INVALID \<in> set rs then [THESIS_INVALID] else [])
         @ (if TIME_DECAY \<in> set rs then [TIME_DECAY] else [])"
    by (simp add: canonical_reasons_def SUPPORTED_REASONS_def)
  then show ?thesis by (auto split: if_splits)
qed

lemma merged_canonical: "canonical_reasons (merged_reasons a b)"
  by (simp add: canonical_cases merged_reasons_def SUPPORTED_REASONS_def)

lemma merged_superset:
  "set a \<subseteq> set SUPPORTED_REASONS \<Longrightarrow> set a \<subseteq> set (merged_reasons a b)"
  by (auto simp: merged_reasons_def)

lemma merged_absorbs:
  "canonical_reasons rs \<Longrightarrow> set obs \<inter> set SUPPORTED_REASONS \<subseteq> set rs \<Longrightarrow> merged_reasons rs obs = rs"
  by (auto simp: canonical_cases merged_reasons_def SUPPORTED_REASONS_def)

lemma mapped_reasons_fresh:
  "mapped_reasons ev None = Inr obs \<Longrightarrow> canonical_reasons obs"
  by (auto simp: mapped_reasons_def Let_def canonical_cases SUPPORTED_REASONS_def split: if_splits)

lemma mapped_reasons_nonempty:
  "mapped_reasons ev active = Inr obs \<Longrightarrow> te_status ev = TS_INVALID \<Longrightarrow>
     (\<And>r. active = Some r \<Longrightarrow> xr_triggered_reasons r \<noteq> []) \<Longrightarrow> obs \<noteq> []"
  by (cases active)
    (auto simp: mapped_reasons_def Let_def SUPPORTED_REASONS_def split: if_splits)

definition actionable :: "thesis_evaluation \<Rightarrow> bool" where
  "actionable ev \<longleftrightarrow> te_status ev = TS_INVALID \<longrightarrow>
     list_ex (\<lambda>r. r \<in> {INVALID_LATCHED, TR_BREAKOUT_LEVEL_LOST, TR_VWAP_CONFIRMATION_LOST,
       EXPECTED_BEHAVIOR_EXPIRED}) (te_reason_codes ev)"

lemma mapped_reasons_ok: "actionable ev \<Longrightarrow> \<exists>obs. mapped_reasons ev active = Inr obs"
  by (auto simp: actionable_def mapped_reasons_def Let_def list_ex_iff)

text \<open>The monitor's INVALID evaluations always carry a reason the engine maps.\<close>

lemma monitor_actionable: "thesis_evaluate sha t m = Inr ev \<Longrightarrow> actionable ev"
proof -
  have T: "set (triggered_reasons cs) \<subseteq> {TR_BREAKOUT_LEVEL_LOST, TR_VWAP_CONFIRMATION_LOST}" for cs
    by (auto simp: triggered_reasons_def List.map_filter_def split: if_splits)
  have "list_ex (\<lambda>r. r \<in> {INVALID_LATCHED, TR_BREAKOUT_LEVEL_LOST, TR_VWAP_CONFIRMATION_LOST,
       EXPECTED_BEHAVIOR_EXPIRED}) (triggered_reasons cs)" if "triggered_reasons cs \<noteq> []" for cs
    using that T [of cs] by (cases "triggered_reasons cs") auto
  moreover assume "thesis_evaluate sha t m = Inr ev"
  ultimately show ?thesis
    using timed_verdict_invalid [of t m]
    by (auto simp: thesis_evaluate_def Let_def actionable_def
        dest!: thesis_result_fields split: sum.splits if_splits option.splits prod.splits)
qed

section \<open>Validity of inputs and results\<close>

definition valid_exit_inputs ::
  "(json \<Rightarrow> string) \<Rightarrow> string \<Rightarrow> thesis_evaluation \<Rightarrow> exit_position \<Rightarrow> bool" where
  "valid_exit_inputs sha policy ev p \<longleftrightarrow> \<not> blank policy
     \<and> is_ok (thesis_evaluation_post_init ev) \<and> is_ok (exit_position_post_init p)
     \<and> (case xp_active_recommendation p of None \<Rightarrow> True
        | Some r \<Rightarrow> is_ok (exit_recommendation_post_init sha r))
     \<and> is_ok (validate_exit_inputs policy ev p)"

lemma position_active:
  assumes "is_ok (exit_position_post_init p)" and "xp_active_recommendation p = Some r"
  shows "xr_status r = REC_ACTIVE" "xr_session_id r = xp_session_id p"
    "xr_trade_id r = xp_trade_id p" "xr_thesis_id r = xp_thesis_id p"
    "set (xr_triggered_reasons r) \<subseteq> set SUPPORTED_REASONS"
    "tt_instant (xr_updated_at r) \<le> tt_instant (xp_decided_at p)"
  using assms by (auto simp: exit_position_post_init_def list_ex_iff split: sum.splits if_splits)

lemma position_ids:
  assumes "is_ok (exit_position_post_init p)"
  shows "\<not> blank (xp_session_id p)" "\<not> blank (xp_trade_id p)" "\<not> blank (xp_thesis_id p)"
    "tt_role (xp_decided_at p) = EXIT_DECISION"
  using assms by (auto simp: exit_position_post_init_def split: sum.splits if_splits)

lemma evaluation_event: "is_ok (thesis_evaluation_post_init ev) \<Longrightarrow> \<not> blank (te_source_event_id ev)"
  by (auto simp: thesis_evaluation_post_init_def split: sum.splits if_splits)

text \<open>What an evaluation that returns has computed.\<close>

lemma exit_evaluate_cases:
  assumes "exit_evaluate sha policy ev p = Inr s"
  obtains observed reasons where
    "validate_exit_inputs policy ev p = Inr ()"
    "te_status ev \<noteq> TS_INVALID \<Longrightarrow> xp_active_recommendation p = None"
    "mapped_reasons ev (xp_active_recommendation p) = Inr observed"
    "reasons = (case xp_active_recommendation p of
                  Some r \<Rightarrow> merged_reasons (xr_triggered_reasons r) observed | None \<Rightarrow> observed)"
    "xd_triggered_reasons (xs_decision s) = reasons"
    "xd_action (xs_decision s) = (if observed = [] then HOLD else EXIT)"
    "exit_decision_post_init sha (xs_decision s) = Inr ()"
    "exit_result_post_init s = Inr ()"
    "observed = [] \<Longrightarrow> xs_recommendation s = None \<and> \<not> xs_recommendation_changed s"
    "observed \<noteq> [] \<Longrightarrow> \<exists>r. xs_recommendation s = Some r
       \<and> next_recommendation sha policy ev p (xs_decision s) reasons
           = Inr (r, xs_recommendation_changed s)"
proof -
  from assms obtain u observed i r0 where h:
    "validate_exit_inputs policy ev p = Inr ()"
    "\<not> (te_status ev \<noteq> TS_INVALID \<and> xp_active_recommendation p \<noteq> None)"
    "mapped_reasons ev (xp_active_recommendation p) = Inr observed"
    by (auto simp: exit_evaluate_def split: sum.splits if_splits)
  show thesis
    using assms h
    by (intro that [OF _ _ h(3) refl])
      (auto simp: exit_evaluate_def Let_def mk_exit_result_def split: sum.splits if_splits prod.splits)
qed

lemma decision_reasons_nonempty:
  assumes "exit_evaluate sha policy ev p = Inr s" and "xd_action (xs_decision s) = EXIT"
  shows "xd_triggered_reasons (xs_decision s) \<noteq> []"
  using assms exit_decision_ok by (elim exit_evaluate_cases) (force split: if_splits)


lemma exit_decision_id_ok:
  assumes "\<And>j. is_sha256 (sha j)" and "\<not> blank s" and "\<not> blank t" and "\<not> blank e" and "\<not> blank po"
  shows "\<exists>i. build_exit_decision_id sha s t e po (sha j) = Inr i \<and> \<not> blank i"
  using assms is_sha256_not_blank [of "sha j"]
  by (auto simp: build_exit_decision_id_def require_sha256_def require_def derive_id_def blank_iff
      py_space_def)

lemma observed_reasons:
  assumes "valid_exit_inputs sha policy ev p"
    and "mapped_reasons ev (xp_active_recommendation p) = Inr observed"
    and "te_status ev \<noteq> TS_INVALID \<Longrightarrow> xp_active_recommendation p = None"
    and "reasons = (case xp_active_recommendation p of
           Some r \<Rightarrow> merged_reasons (xr_triggered_reasons r) observed | None \<Rightarrow> observed)"
  shows "canonical_reasons reasons" and "observed = [] \<longleftrightarrow> te_status ev \<noteq> TS_INVALID"
    and "observed = [] \<longleftrightarrow> reasons = []"
proof -
  show c: "canonical_reasons reasons"
    using assms(2,4) mapped_reasons_fresh merged_canonical by (auto split: option.splits)
  have act: "xr_triggered_reasons r \<noteq> []"
    "set (xr_triggered_reasons r) \<subseteq> set (merged_reasons (xr_triggered_reasons r) observed)"
    if "xp_active_recommendation p = Some r" for r
  proof -
    have p: "is_ok (exit_position_post_init p)" and r: "is_ok (exit_recommendation_post_init sha r)"
      using assms(1) that by (auto simp: valid_exit_inputs_def)
    note a = position_active [OF p that]
    show "xr_triggered_reasons r \<noteq> []"
      using exit_recommendation_ok [OF a(1)] r by (auto simp: is_ok_iff)
    show "set (xr_triggered_reasons r) \<subseteq> set (merged_reasons (xr_triggered_reasons r) observed)"
      using a(5) by (rule merged_superset)
  qed
  show o: "observed = [] \<longleftrightarrow> te_status ev \<noteq> TS_INVALID"
  proof
    assume "observed = []"
    then show "te_status ev \<noteq> TS_INVALID"
      using mapped_reasons_nonempty [OF assms(2)] act(1) by blast
  next
    assume "te_status ev \<noteq> TS_INVALID"
    then show "observed = []" using assms(2) by (simp add: mapped_reasons_def)
  qed
  show "observed = [] \<longleftrightarrow> reasons = []"
  proof (cases "xp_active_recommendation p")
    case None
    then show ?thesis using assms(4) by simp
  next
    case (Some r)
    then have "reasons \<noteq> []" using act [OF Some] assms(4) by auto
    moreover have "observed \<noteq> []" using o assms(3) Some by auto
    ultimately show ?thesis by simp
  qed
qed

lemma next_recommendation_ok:
  assumes v: "valid_exit_inputs sha policy ev p" and sha: "\<And>j. is_sha256 (sha j)"
    and d: "\<not> blank (xd_decision_id d)" and rs: "canonical_reasons reasons" "reasons \<noteq> []"
  shows "\<exists>r c. next_recommendation sha policy ev p d reasons = Inr (r, c)
     \<and> xr_trade_id r = xp_trade_id p \<and> xr_thesis_id r = xp_thesis_id p
     \<and> (c \<longrightarrow> xr_latest_decision_id r = xd_decision_id d)"
proof -
  have p: "is_ok (exit_position_post_init p)" and pol: "\<not> blank policy"
    and ev: "\<not> blank (te_source_event_id ev)"
    using v evaluation_event by (auto simp: valid_exit_inputs_def)
  note ids = position_ids [OF p]
  have dist: "distinct reasons" "hd reasons \<in> set reasons"
    using rs by (auto simp: canonical_cases)
  show ?thesis
  proof (cases "xp_active_recommendation p")
    case None
    have "\<exists>i. build_exit_recommendation_id sha (xp_session_id p) (xp_trade_id p) policy = Inr i"
      using ids pol by (auto simp: build_exit_recommendation_id_def derive_id_def blank_iff py_space_def)
    then obtain i where
      i: "build_exit_recommendation_id sha (xp_session_id p) (xp_trade_id p) policy = Inr i" by blast
    show ?thesis
      using ids pol ev d dist i
      by (auto simp: next_recommendation_def None mk_recommendation_def
          exit_recommendation_post_init_def require_schema_def require_def split: sum.split)
  next
    case (Some r)
    note a = position_active [OF p Some]
    have r: "exit_recommendation_post_init sha r = Inr ()"
      using v Some by (auto simp: valid_exit_inputs_def is_ok_iff)
    note ok = r [unfolded exit_recommendation_ok [OF a(1)]]
    show ?thesis
    proof (cases "xr_primary_reason r = hd reasons \<and> xr_triggered_reasons r = reasons")
      case True
      then show ?thesis using a by (auto simp: next_recommendation_def Some)
    next
      case False
      let ?n = "\<lparr>xr_recommendation_id = xr_recommendation_id r,
              xr_session_id = xr_session_id r, xr_trade_id = xr_trade_id r,
              xr_thesis_id = xr_thesis_id r, xr_exit_policy_version = xr_exit_policy_version r,
              xr_status = xr_status r,
              xr_first_trigger_decision_id = xr_first_trigger_decision_id r,
              xr_first_trigger_event_id = xr_first_trigger_event_id r,
              xr_latest_decision_id = xd_decision_id d,
              xr_latest_evidence_event_id = te_source_event_id ev,
              xr_primary_reason = hd reasons, xr_triggered_reasons = reasons,
              xr_created_at = xr_created_at r, xr_updated_at = xp_decided_at p,
              xr_resolved_at = None, xr_closing_fill_id = None,
              xr_schema_version = TRADE_MANAGEMENT_SCHEMA_VERSION\<rparr>"
      have "exit_recommendation_post_init sha ?n = Inr ()"
        using ok a ids ev d dist by (subst exit_recommendation_ok) auto
      then show ?thesis using False a by (auto simp: next_recommendation_def Some mk_recommendation_def)
    qed
  qed
qed

lemma next_recommendation_fields:
  assumes "next_recommendation sha policy ev p d reasons = Inr (r, c)"
  shows "xr_triggered_reasons r = reasons" and "xr_primary_reason r = hd reasons"
    and "xp_active_recommendation p = None \<Longrightarrow> xr_exit_policy_version r = policy
      \<and> xr_session_id r = xp_session_id p \<and> xr_trade_id r = xp_trade_id p
      \<and> xr_thesis_id r = xp_thesis_id p \<and> xr_status r = REC_ACTIVE"
    and "xp_active_recommendation p = Some a \<Longrightarrow>
      xr_recommendation_id r = xr_recommendation_id a \<and> xr_session_id r = xr_session_id a
      \<and> xr_trade_id r = xr_trade_id a \<and> xr_thesis_id r = xr_thesis_id a
      \<and> xr_exit_policy_version r = xr_exit_policy_version a \<and> xr_status r = xr_status a
      \<and> xr_first_trigger_decision_id r = xr_first_trigger_decision_id a
      \<and> xr_first_trigger_event_id r = xr_first_trigger_event_id a
      \<and> xr_created_at r = xr_created_at a
      \<and> xr_updated_at r = (if c then xp_decided_at p else xr_updated_at a)"
  using assms
  by (auto simp: next_recommendation_def mk_recommendation_def split: option.splits sum.splits if_splits)


text \<open>An example position of the monitor's example thesis.\<close>

definition example_position :: exit_position where
  "example_position =
     \<lparr>xp_session_id = ''s1'', xp_trade_id = example_id ''trade_v1'',
      xp_thesis_id = example_id ''thesis_v1'', xp_remaining_quantity_shares = 1000,
      xp_lifecycle_state = ACTIVE_POSITION,
      xp_decided_at = example_time EXIT_DECISION STRATEGY_RUNTIME ''clock'' 700000001,
      xp_active_recommendation = None, xp_schema_version = TRADE_MANAGEMENT_SCHEMA_VERSION\<rparr>"

definition example_expired :: market_context where
  "example_expired = (example_market 700000000)\<lparr>mc_volume_baseline_shares := Some 4000,
     mc_highest_price_since_entry := Some 99\<rparr>"

definition example_evaluation :: thesis_evaluation where
  "example_evaluation =
     (case thesis_evaluate example_sha example_thesis example_expired of
        Inr e \<Rightarrow> e | Inl _ \<Rightarrow> undefined)"

lemma example_evaluation: "thesis_evaluate example_sha example_thesis example_expired = Inr example_evaluation"
proof -
  have "is_ok (thesis_evaluate example_sha example_thesis example_expired)" by code_simp
  then show ?thesis by (auto simp: example_evaluation_def is_ok_iff)
qed

lemma example_exit_inputs:
  "valid_exit_inputs example_sha ''exit-v1'' example_evaluation example_position"
proof -
  have "(case thesis_evaluate example_sha example_thesis example_expired of
      Inr e \<Rightarrow> valid_exit_inputs example_sha ''exit-v1'' e example_position | Inl _ \<Rightarrow> False)"
    by code_simp
  then show ?thesis by (simp add: example_evaluation)
qed

section \<open>Properties\<close>

text \<open>
  C20. The exit pipeline is total and sound: an evaluation produced by the thesis monitor,
  mapped by the exit engine for a validated position (with no recommendation to contradict),
  always returns; the decision passes its own validation, it is EXIT exactly when the thesis
  is INVALID, and an EXIT carries a recommendation for the same trade and thesis.
\<close>

theorem exit_pipeline_total:
  assumes "thesis_evaluate sha t m = Inr ev" and "\<And>j. is_sha256 (sha j)"
    and "valid_exit_inputs sha policy ev p"
    and "te_status ev \<noteq> TS_INVALID \<longrightarrow> xp_active_recommendation p = None"
  shows "\<exists>s. exit_evaluate sha policy ev p = Inr s
     \<and> exit_decision_post_init sha (xs_decision s) = Inr ()
     \<and> (xd_action (xs_decision s) = EXIT \<longleftrightarrow> te_status ev = TS_INVALID)
     \<and> (xd_action (xs_decision s) = EXIT \<longleftrightarrow> xs_recommendation s \<noteq> None)"
proof -
  note v = assms(3)
  have val: "validate_exit_inputs policy ev p = Inr ()" and pol: "\<not> blank policy"
    and p: "is_ok (exit_position_post_init p)" and e: "\<not> blank (te_source_event_id ev)"
    using v evaluation_event by (auto simp: valid_exit_inputs_def is_ok_iff)
  note ids = position_ids [OF p]
  obtain observed where o: "mapped_reasons ev (xp_active_recommendation p) = Inr observed"
    using mapped_reasons_ok [OF monitor_actionable [OF assms(1)]] by blast
  define reasons where "reasons = (case xp_active_recommendation p of
     Some r \<Rightarrow> merged_reasons (xr_triggered_reasons r) observed | None \<Rightarrow> observed)"
  have r: "canonical_reasons reasons" "observed = [] \<longleftrightarrow> te_status ev \<noteq> TS_INVALID"
    "observed = [] \<longleftrightarrow> reasons = []"
    using observed_reasons [OF v o _ reasons_def] assms(4) by auto
  let ?dig = "sha (exit_decision_payload ev p policy)"
  obtain i where i: "build_exit_decision_id sha (xp_session_id p) (xp_trade_id p)
      (te_source_event_id ev) policy ?dig = Inr i" "\<not> blank i"
    using exit_decision_id_ok [of sha, OF assms(2) ids(1,2) e pol, of "exit_decision_payload ev p policy"]
    by blast
  define d where "d = \<lparr>xd_decision_id = i, xd_session_id = xp_session_id p,
     xd_trade_id = xp_trade_id p, xd_thesis_id = xp_thesis_id p,
     xd_action = (if observed \<noteq> [] then EXIT else HOLD),
     xd_primary_reason = (case reasons of [] \<Rightarrow> None | r # _ \<Rightarrow> Some r),
     xd_triggered_reasons = reasons, xd_decided_at = xp_decided_at p,
     xd_source_event_id = te_source_event_id ev, xd_exit_policy_version = policy,
     xd_evaluation_digest = ?dig, xd_schema_version = TRADE_MANAGEMENT_SCHEMA_VERSION\<rparr>"
  have dok: "exit_decision_post_init sha d = Inr ()"
    using ids pol e i r(1,3) assms(2)
    by (subst exit_decision_ok) (auto simp: d_def canonical_cases)
  have eq: "exit_evaluate sha policy ev p =
      (if observed = [] then mk_exit_result d None False
       else case next_recommendation sha policy ev p d reasons of Inl e \<Rightarrow> Inl e
            | Inr (r, c) \<Rightarrow> mk_exit_result d (Some r) c)"
  proof (cases "te_status ev = TS_INVALID")
    case True
    then show ?thesis using val o i dok
      unfolding d_def reasons_def
      by (cases "observed = []") (auto simp: exit_evaluate_def Let_def split: sum.split)
  next
    case False
    then have "xp_active_recommendation p = None" using assms(4) by blast
    then show ?thesis using val o i dok
      unfolding d_def reasons_def
      by (cases "observed = []") (auto simp: exit_evaluate_def Let_def split: sum.split)
  qed
  show ?thesis
  proof (cases "observed = []")
    case True
    then show ?thesis using eq dok r(2)
      by (simp add: mk_exit_result_def exit_result_post_init_def d_def)
  next
    case False
    have "\<not> blank (xd_decision_id d)" using i by (simp add: d_def)
    then obtain rec c where n: "next_recommendation sha policy ev p d reasons = Inr (rec, c)"
      "xr_trade_id rec = xp_trade_id p" "xr_thesis_id rec = xp_thesis_id p"
      "c \<longrightarrow> xr_latest_decision_id rec = xd_decision_id d"
      using next_recommendation_ok [OF v assms(2) _ r(1)] False r(3) by metis
    have "xd_action d = EXIT" "xd_trade_id d = xp_trade_id p" "xd_thesis_id d = xp_thesis_id p"
      using False by (simp_all add: d_def)
    then show ?thesis using eq dok r(2) n False
      by (simp add: mk_exit_result_def exit_result_post_init_def)
  qed
qed

theorem exit_pipeline_total_witness:
  "\<exists>s. exit_evaluate example_sha ''exit-v1'' example_evaluation example_position = Inr s
     \<and> (xd_action (xs_decision s) = EXIT \<longleftrightarrow> te_status example_evaluation = TS_INVALID)"
  using exit_pipeline_total [OF example_evaluation example_sha_ok example_exit_inputs]
  by (auto simp: example_position_def)

text \<open>
  C22. The active recommendation of a trade only grows: whatever the new evidence, an EXIT
  result keeps the recommendation's identity, first trigger, creation time and policy, keeps
  every reason already triggered, and never moves its update time back.
\<close>

theorem recommendation_only_grows:
  assumes "exit_evaluate sha policy ev p = Inr s" and "valid_exit_inputs sha policy ev p"
    and "xp_active_recommendation p = Some a"
  shows "\<exists>r. xs_recommendation s = Some r
     \<and> xr_recommendation_id r = xr_recommendation_id a \<and> xr_status r = REC_ACTIVE
     \<and> xr_exit_policy_version r = policy
     \<and> xr_first_trigger_decision_id r = xr_first_trigger_decision_id a
     \<and> xr_first_trigger_event_id r = xr_first_trigger_event_id a
     \<and> xr_created_at r = xr_created_at a
     \<and> set (xr_triggered_reasons a) \<subseteq> set (xr_triggered_reasons r)
     \<and> tt_instant (xr_updated_at a) \<le> tt_instant (xr_updated_at r)"
  using assms(1)
proof (cases rule: exit_evaluate_cases)
  case (1 observed reasons)
  have p: "is_ok (exit_position_post_init p)" using assms(2) by (simp add: valid_exit_inputs_def)
  note a = position_active [OF p assms(3)]
  have "observed \<noteq> []" using observed_reasons(2) [OF assms(2) 1(3) 1(2) 1(4)] 1(2) assms(3) by auto
  then obtain r where r: "xs_recommendation s = Some r"
    "next_recommendation sha policy ev p (xs_decision s) reasons
       = Inr (r, xs_recommendation_changed s)" using 1(10) by blast
  have pol: "xr_exit_policy_version a = policy"
    using 1(1) assms(3) by (auto simp: validate_exit_inputs_def split: if_splits)
  have "set (xr_triggered_reasons a) \<subseteq> set reasons"
    using 1(4) assms(3) merged_superset [OF a(5)] by simp
  then show ?thesis
    using next_recommendation_fields(1,2) [OF r(2)] next_recommendation_fields(4) [OF r(2) assms(3)]
      a(1,6) pol r(1) by auto
qed

lemma evaluation_repeats:
  assumes "exit_evaluate sha policy ev p = Inr s" and "valid_exit_inputs sha policy ev p"
    and "xs_recommendation s = Some r"
  shows "exit_evaluate sha policy ev (p\<lparr>xp_active_recommendation := Some r\<rparr>)
     = Inr (s\<lparr>xs_recommendation_changed := False\<rparr>)"
  using assms(1)
proof (cases rule: exit_evaluate_cases)
  case (1 observed reasons)
  let ?p = "p\<lparr>xp_active_recommendation := Some r\<rparr>"
  have obs: "observed \<noteq> []" using 1(9) assms(3) by auto
  then have n: "next_recommendation sha policy ev p (xs_decision s) reasons
       = Inr (r, xs_recommendation_changed s)" using 1(10) assms(3) by auto
  note f = next_recommendation_fields [OF n]
  note o = observed_reasons [OF assms(2) 1(3) 1(2) 1(4)]
  have inv: "te_status ev = TS_INVALID" using o(2) obs by blast
  have pol: "xr_exit_policy_version r = policy"
    using f(3,4) 1(1) by (cases "xp_active_recommendation p")
      (auto simp: validate_exit_inputs_def split: if_splits)
  have val: "validate_exit_inputs policy ev ?p = Inr ()"
    using 1(1) pol by (auto simp: validate_exit_inputs_def split: if_splits option.splits)
  obtain obs' where obs': "mapped_reasons ev (Some r) = Inr obs'" "obs' \<noteq> []"
    "merged_reasons reasons obs' = reasons"
  proof (cases "List.member (te_reason_codes ev) INVALID_LATCHED")
    case True
    then have "mapped_reasons ev (Some r) = Inr reasons" using inv f(1) by (simp add: mapped_reasons_def)
    then show ?thesis using that o(1,3) obs merged_absorbs [OF o(1), of reasons] by auto
  next
    case False
    then have "mapped_reasons ev (Some r) = Inr observed"
      using 1(3) inv by (simp add: mapped_reasons_def Let_def split: if_splits)
    moreover have "merged_reasons reasons observed = reasons"
      using 1(4) by (intro merged_absorbs o(1)) (auto simp: merged_reasons_def split: option.splits)
    ultimately show ?thesis using that obs by auto
  qed
  have pay: "exit_decision_payload ev ?p policy = exit_decision_payload ev p policy"
    by (simp add: exit_decision_payload_def)
  have nx: "next_recommendation sha policy ev ?p (xs_decision s) reasons = Inr (r, False)"
    using f(1,2) by (simp add: next_recommendation_def)
  have ok: "exit_result_post_init (s\<lparr>xs_recommendation_changed := False\<rparr>) = Inr ()"
    using 1(8) by (auto simp: exit_result_post_init_def split: exit_action.splits option.splits if_splits)
  have act: "xd_action (xs_decision s) = EXIT" using 1(6) obs by simp
  from assms(1) 1(1,3) 1(4) [symmetric] obs inv obtain i where
    dec: "xs_decision s = \<lparr>xd_decision_id = i, xd_session_id = xp_session_id p,
      xd_trade_id = xp_trade_id p, xd_thesis_id = xp_thesis_id p, xd_action = EXIT,
      xd_primary_reason = (case reasons of [] \<Rightarrow> None | r # _ \<Rightarrow> Some r),
      xd_triggered_reasons = reasons, xd_decided_at = xp_decided_at p,
      xd_source_event_id = te_source_event_id ev, xd_exit_policy_version = policy,
      xd_evaluation_digest = sha (exit_decision_payload ev p policy),
      xd_schema_version = TRADE_MANAGEMENT_SCHEMA_VERSION\<rparr>"
    and i: "build_exit_decision_id sha (xp_session_id p) (xp_trade_id p) (te_source_event_id ev)
             policy (sha (exit_decision_payload ev p policy)) = Inr i"
    by (auto simp: exit_evaluate_def Let_def mk_exit_result_def split: sum.splits if_splits prod.splits)
  show ?thesis
    using val inv obs' f(1) i 1(7) nx ok assms(3) act
    by (simp add: exit_evaluate_def Let_def pay mk_exit_result_def flip: dec)
      (cases s, simp)
qed

text \<open>
  C30. Evaluating the same evidence again with the recommendation just produced changes
  nothing: the same decision, the same recommendation, and the changed flag off.
\<close>

theorem exit_evaluation_idempotent:
  assumes "exit_evaluate sha policy ev p = Inr s" and "valid_exit_inputs sha policy ev p"
    and "xs_recommendation s = Some r"
  shows "exit_evaluate sha policy ev (p\<lparr>xp_active_recommendation := Some r\<rparr>)
     = Inr (s\<lparr>xs_recommendation_changed := False\<rparr>)"
  by (rule evaluation_repeats [OF assms])

section \<open>A recommendation to extend\<close>

text \<open>The recommendation the example evaluation produces, carried by the next position.\<close>

definition example_exit_result :: exit_result where
  "example_exit_result =
     (case exit_evaluate example_sha ''exit-v1'' example_evaluation example_position of
        Inr s \<Rightarrow> s | Inl _ \<Rightarrow> undefined)"

definition example_next_position :: exit_position where
  "example_next_position = example_position
     \<lparr>xp_active_recommendation := xs_recommendation example_exit_result\<rparr>"

lemma example_exit_result:
  "exit_evaluate example_sha ''exit-v1'' example_evaluation example_position
     = Inr example_exit_result"
  "\<exists>r. xs_recommendation example_exit_result = Some r"
proof -
  have "(case thesis_evaluate example_sha example_thesis example_expired of
      Inr e \<Rightarrow> (case exit_evaluate example_sha ''exit-v1'' e example_position of
         Inr s \<Rightarrow> xs_recommendation s \<noteq> None | Inl _ \<Rightarrow> False) | Inl _ \<Rightarrow> False)"
    by code_simp
  then show "exit_evaluate example_sha ''exit-v1'' example_evaluation example_position
     = Inr example_exit_result" "\<exists>r. xs_recommendation example_exit_result = Some r"
    by (auto simp: example_evaluation example_exit_result_def split: sum.splits)
qed

lemma example_next_inputs:
  "valid_exit_inputs example_sha ''exit-v1'' example_evaluation example_next_position"
proof -
  have "(case thesis_evaluate example_sha example_thesis example_expired of
      Inr e \<Rightarrow> (case exit_evaluate example_sha ''exit-v1'' e example_position of
         Inr s \<Rightarrow> valid_exit_inputs example_sha ''exit-v1'' e (example_position
             \<lparr>xp_active_recommendation := xs_recommendation s\<rparr>)
       | Inl _ \<Rightarrow> False) | Inl _ \<Rightarrow> False)"
    by code_simp
  then show ?thesis
    by (simp add: example_evaluation example_exit_result(1) example_next_position_def)
qed

theorem recommendation_only_grows_witness:
  "\<exists>s r a. exit_evaluate example_sha ''exit-v1'' example_evaluation example_next_position = Inr s
     \<and> xp_active_recommendation example_next_position = Some a
     \<and> xs_recommendation s = Some r
     \<and> set (xr_triggered_reasons a) \<subseteq> set (xr_triggered_reasons r)"
proof -
  obtain a where a: "xs_recommendation example_exit_result = Some a"
    using example_exit_result(2) by blast
  have "is_ok (exit_evaluate example_sha ''exit-v1'' example_evaluation example_next_position)"
    using evaluation_repeats [OF example_exit_result(1) example_exit_inputs a]
    by (simp add: example_next_position_def a)
  then obtain s where
    s: "exit_evaluate example_sha ''exit-v1'' example_evaluation example_next_position = Inr s"
    by (auto simp: is_ok_iff)
  have "xp_active_recommendation example_next_position = Some a"
    by (simp add: example_next_position_def a)
  then show ?thesis
    using recommendation_only_grows [OF s example_next_inputs] s by blast
qed

theorem exit_evaluation_idempotent_witness:
  "\<exists>r. xs_recommendation example_exit_result = Some r
     \<and> exit_evaluate example_sha ''exit-v1'' example_evaluation
         (example_position\<lparr>xp_active_recommendation := Some r\<rparr>)
       = Inr (example_exit_result\<lparr>xs_recommendation_changed := False\<rparr>)"
  using example_exit_result(2)
    exit_evaluation_idempotent [OF example_exit_result(1) example_exit_inputs] by blast

end
