(* ===== verification/Calendar.thy ===== *)
theory Calendar
  imports Prelude
begin

text \<open>
  The text of dates and times as the standard library prints them: the proleptic Gregorian
  calendar of \<open>datetime\<close>, \<open>isoformat\<close>, zero-padded numbers. They occur in identifiers and
  reasons of the program.
\<close>

section \<open>Numbers\<close>

text \<open>\<open>f"{n:0wd}"\<close> and \<open>str(n)\<close>.\<close>

definition show_padded :: "nat \<Rightarrow> int \<Rightarrow> string" where
  "show_padded w n = (let s = show_nat n in replicate (w - length s) CHR ''0'' @ s)"

definition show_int :: "int \<Rightarrow> string" where
  "show_int n = (if n < 0 then CHR ''-'' # show_nat (- n) else show_nat n)"

lemma read_nat_zero: "read_nat (CHR ''0'' # s) = read_nat s"
  by (simp add: read_nat_def)

lemma read_nat_zeros: "read_nat (replicate k CHR ''0'' @ s) = read_nat s"
  by (induction k) (simp_all add: read_nat_zero)

lemma read_show_padded: "0 \<le> n \<Longrightarrow> read_nat (show_padded w n) = n"
  by (simp add: show_padded_def Let_def read_nat_zeros read_show_nat)

lemma show_padded_inj: "0 \<le> m \<Longrightarrow> 0 \<le> n \<Longrightarrow> show_padded w m = show_padded w n \<Longrightarrow> m = n"
  by (metis read_show_padded)

lemma show_nat_not_Nil [simp]: "show_nat n \<noteq> []"
  by (simp add: show_nat.simps [of n])

lemma show_nat_digits: "0 \<le> n \<Longrightarrow> c \<in> set (show_nat n) \<Longrightarrow> hex_digit c"
proof (induction n rule: show_nat.induct)
  case (1 n)
  have digit: "hex_digit (char_of (48 + nat d))" if "0 \<le> d" "d < 10" for d
  proof -
    have "d \<in> {0, 1, 2, 3, 4, 5, 6, 7, 8, 9}" using that by (simp, presburger)
    then show ?thesis by (elim insertE) (simp_all add: hex_digit_def char_of_def bit_0)
  qed
  show ?case
  proof (cases "n < 10")
    case True
    with 1 digit [of n] show ?thesis by (simp add: show_nat.simps [of n])
  next
    case False
    with 1 digit [of "n mod 10"] show ?thesis by (auto simp: show_nat.simps [of n])
  qed
qed

lemma show_padded_not_blank: "0 \<le> n \<Longrightarrow> \<not> blank (show_padded w n)"
proof -
  assume n: "0 \<le> n"
  obtain c cs where c: "show_nat n = c # cs" by (cases "show_nat n") auto
  have "\<not> py_space c" using show_nat_digits [OF n, of c] c by (simp add: hex_digit_no_space)
  then show ?thesis by (auto simp: show_padded_def Let_def blank_iff c)
qed

section \<open>Dates and times\<close>

text \<open>Day number (days since 1970-01-01) to year, month and day.\<close>

definition civil :: "int \<Rightarrow> int \<times> int \<times> int" where
  "civil day =
     (let z = day + 719468;
          era = z div 146097;
          doe = z mod 146097;
          yoe = (doe - doe div 1460 + doe div 36524 - doe div 146096) div 365;
          doy = doe - (365 * yoe + yoe div 4 - yoe div 100);
          mp = (5 * doy + 2) div 153;
          d = doy - (153 * mp + 2) div 5 + 1;
          m = (if mp < 10 then mp + 3 else mp - 9)
      in (yoe + 400 * era + (if m \<le> 2 then 1 else 0), m, d))"

lemma civil_examples:
  "civil 0 = (1970, 1, 1)" "civil 11016 = (2000, 2, 29)" "civil 20453 = (2025, 12, 31)"
  by code_simp+

definition date_iso :: "int \<Rightarrow> string" where
  "date_iso day =
     (case civil day of (y, m, d) \<Rightarrow>
        show_padded 4 y @ ''-'' @ show_padded 2 m @ ''-'' @ show_padded 2 d)"

text \<open>\<open>f"{date:%Y%m%d}"\<close>.\<close>

definition date_compact :: "int \<Rightarrow> string" where
  "date_compact day =
     (case civil day of (y, m, d) \<Rightarrow> show_padded 4 y @ show_padded 2 m @ show_padded 2 d)"

text \<open>
  \<open>date.fromisoformat\<close>: \<open>YYYY-MM-DD\<close>, \<open>YYYYMMDD\<close> and the ISO week forms, for years 1 to 9999.
\<close>

definition days_from_civil :: "int \<Rightarrow> int \<Rightarrow> int \<Rightarrow> int" where
  "days_from_civil y m d =
     (let y' = (if m \<le> 2 then y - 1 else y);
          era = y' div 400;
          yoe = y' mod 400;
          doy = (153 * (if m > 2 then m - 3 else m + 9) + 2) div 5 + d - 1
      in era * 146097 + yoe * 365 + yoe div 4 - yoe div 100 + doy - 719468)"

definition number_at :: "string \<Rightarrow> nat \<Rightarrow> nat \<Rightarrow> int option" where
  "number_at s i n =
     (let t = take n (drop i s)
      in if length t = n \<and> list_all (List.member ''0123456789'') t then Some (read_nat t) else None)"

definition civil_day :: "int option \<Rightarrow> int option \<Rightarrow> int option \<Rightarrow> int option" where
  "civil_day y m d = (case (y, m, d) of
       (Some y, Some m, Some d) \<Rightarrow>
         let day = days_from_civil y m d
         in if 1 \<le> y \<and> 1 \<le> m \<and> m \<le> 12 \<and> civil day = (y, m, d) then Some day else None
     | _ \<Rightarrow> None)"

definition week_day :: "int option \<Rightarrow> int option \<Rightarrow> int option \<Rightarrow> int option" where
  "week_day y w d = (case (y, w, d) of
       (Some y, Some w, Some d) \<Rightarrow>
         let jan1 = days_from_civil y 1 1; first = (jan1 + 3) mod 7;
             leap = (civil (jan1 + 59) = (y, 2, 29));
             monday = jan1 - first + (if first > 3 then 7 else 0);
             day = monday + (w - 1) * 7 + (d - 1)
         in if 1 \<le> y \<and> 1 \<le> w \<and> (w \<le> 52 \<or> (w = 53 \<and> (first = 3 \<or> (first = 2 \<and> leap))))
               \<and> 1 \<le> d \<and> d \<le> 7 \<and> - 719162 \<le> day \<and> day \<le> 2932896
            then Some day else None
     | _ \<Rightarrow> None)"

definition parse_date :: "string \<Rightarrow> int option" where
  "parse_date s =
     (let n = length s; y = number_at s 0 4; dash = (\<lambda>i. i < n \<and> s ! i = CHR ''-'');
          week = (\<lambda>i. i < n \<and> s ! i = CHR ''W'')
      in if n = 10 \<and> dash 4 \<and> week 5 \<and> dash 8 then week_day y (number_at s 6 2) (number_at s 9 1)
         else if n = 10 \<and> dash 4 \<and> dash 7 then civil_day y (number_at s 5 2) (number_at s 8 2)
         else if n = 8 \<and> dash 4 \<and> week 5 then week_day y (number_at s 6 2) (Some 1)
         else if n = 8 \<and> week 4 then week_day y (number_at s 5 2) (number_at s 7 1)
         else if n = 8 then civil_day y (number_at s 4 2) (number_at s 6 2)
         else if n = 7 \<and> week 4 then week_day y (number_at s 5 2) (Some 1)
         else None)"

lemma parse_date_examples:
  "parse_date ''2025-12-31'' = Some 20453" "parse_date ''20000229'' = Some 11016"
  "parse_date ''2025-02-29'' = None" "parse_date ''2026-W01-1'' = Some 20451"
  "parse_date ''2025-W53-1'' = None" "parse_date ''1970W01'' = Some (- 3)"
  by code_simp+

definition clock_text :: "int \<Rightarrow> string" where
  "clock_text us =
     (let s = us div 1000000
      in show_padded 2 (s div 3600) @ '':'' @ show_padded 2 (s div 60 mod 60) @ '':''
         @ show_padded 2 (s mod 60)
         @ (if us mod 1000000 = 0 then [] else ''.'' @ show_padded 6 (us mod 1000000)))"

definition offset_text :: "int option \<Rightarrow> string" where
  "offset_text off =
     (case off of None \<Rightarrow> []
      | Some o_us \<Rightarrow>
          let a = \<bar>o_us\<bar>; s = a div 1000000
          in (if o_us < 0 then ''-'' else ''+'')
             @ show_padded 2 (s div 3600) @ '':'' @ show_padded 2 (s div 60 mod 60)
             @ (if a mod 60000000 = 0 then []
                else '':'' @ show_padded 2 (s mod 60)
                  @ (if a mod 1000000 = 0 then [] else ''.'' @ show_padded 6 (a mod 1000000))))"

definition local_us :: "datetime \<Rightarrow> int" where
  "local_us t = instant t + (case utcoffset t of None \<Rightarrow> 0 | Some off \<Rightarrow> off)"

definition isoformat :: "datetime \<Rightarrow> string" where
  "isoformat t =
     date_iso (dt_date t) @ ''T'' @ clock_text (local_us t mod day_us) @ offset_text (utcoffset t)"

text \<open>\<open>t.timetz().replace(tzinfo=None)\<close>: the wall-clock time of day in microseconds.\<close>

definition wall_clock :: "datetime \<Rightarrow> int" where
  "wall_clock t = local_us t mod day_us"

lemma isoformat_example:
  "isoformat \<lparr>instant = 1751346000000000, utcoffset = Some 28800000000\<rparr>
   = ''2025-07-01T13:00:00+08:00''"
  by code_simp

end
