(* ===== verification/Canonical_Values.thy ===== *)
theory Canonical_Values
  imports Calendar
begin

text \<open>
  Scalars at the JSON boundary (\<open>trading/canonical_values.py\<close>) and the Python conversions the
  decoders apply to payload values: \<open>str\<close>, \<open>int\<close>, \<open>Decimal\<close> and their failures. Inside a stored
  payload \<open>JDec\<close>, \<open>JDate\<close> and \<open>JTime\<close> stand for the text the writer encoded the value as.
\<close>

section \<open>Decimals and their text\<close>

text \<open>A \<open>Decimal\<close> that was read: finite, infinite (negative or not), or not a number.\<close>

datatype py_decimal = Fin rat | Infinite bool | NotANumber

definition is_digit :: "char \<Rightarrow> bool" where
  "is_digit c = List.member ''0123456789'' c"

text \<open>The number of decimal places of a value with this denominator.\<close>

function dec_places :: "nat \<Rightarrow> nat" where
  "dec_places q =
     (if q \<le> 1 then 0
      else if q mod 10 = 0 then Suc (dec_places (q div 10))
      else if q mod 2 = 0 then Suc (dec_places (q div 2))
      else if q mod 5 = 0 then Suc (dec_places (q div 5))
      else 0)"
  by pat_completeness auto

termination
  by (relation "measure id") auto

declare dec_places.simps [simp del]

text \<open>\<open>canonical_decimal_string\<close>: no exponent, no insignificant zeros, no negative zero.\<close>

definition canonical_decimal_string :: "rat \<Rightarrow> string" where
  "canonical_decimal_string d =
     (let k = dec_places (nat (snd (quotient_of d)));
          n = \<lfloor>\<bar>d\<bar> * 10 ^ k\<rfloor>
      in (if d < 0 then ''-'' else []) @ show_nat (n div 10 ^ k)
         @ (if k = 0 then [] else ''.'' @ show_padded k (n mod 10 ^ k)))"

text \<open>The grammar of \<open>Decimal(text)\<close>; None is \<open>InvalidOperation\<close>.\<close>

definition split_sign :: "string \<Rightarrow> bool \<times> string" where
  "split_sign s = (case s of [] \<Rightarrow> (False, [])
     | c # cs \<Rightarrow> if c = CHR ''-'' then (True, cs) else if c = CHR ''+'' then (False, cs) else (False, s))"

definition parse_exponent :: "string \<Rightarrow> int option" where
  "parse_exponent s = (case split_sign s of (neg, ds) \<Rightarrow>
     if ds \<noteq> [] \<and> list_all is_digit ds then Some (if neg then - read_nat ds else read_nat ds) else None)"

definition parse_number :: "string \<Rightarrow> rat option" where
  "parse_number s =
     (let ip = takeWhile is_digit s; r = dropWhile is_digit s;
          dot = (r \<noteq> [] \<and> hd r = CHR ''.'');
          fp = (if dot then takeWhile is_digit (tl r) else []);
          r2 = (if dot then dropWhile is_digit (tl r) else r)
      in if ip @ fp = [] then None
         else case (case r2 of [] \<Rightarrow> Some 0
                    | c # e \<Rightarrow> if c = CHR ''E'' then parse_exponent e else None) of
                None \<Rightarrow> None
              | Some x \<Rightarrow> Some (of_int (read_nat (ip @ fp)) * 10 powi (x - int (length fp))))"

definition parse_decimal :: "string \<Rightarrow> py_decimal option" where
  "parse_decimal s =
     (let t = filter (\<lambda>c. c \<noteq> CHR ''_'') (py_strip s)
      in case split_sign t of (neg, u) \<Rightarrow>
        let w = py_upper u
        in if w = ''INF'' \<or> w = ''INFINITY'' then Some (Infinite neg)
           else if (take 3 w = ''NAN'' \<and> list_all is_digit (drop 3 w))
                 \<or> (take 4 w = ''SNAN'' \<and> list_all is_digit (drop 4 w)) then Some NotANumber
           else map_option (\<lambda>x. Fin (if neg then - x else x)) (parse_number w))"

lemma canonical_examples:
  "canonical_decimal_string (1005 / 10) = ''100.5''" "canonical_decimal_string (- 7 / 100) = ''-0.07''"
  "canonical_decimal_string 600000 = ''600000''" "canonical_decimal_string 0 = ''0''"
  "parse_decimal '' 1_0.50'' = Some (Fin (21 / 2))" "parse_decimal ''-2E+3'' = Some (Fin (- 2000))"
  "parse_decimal ''.5e-1'' = Some (Fin (1 / 20))" "parse_decimal ''NaN'' = Some NotANumber"
  "parse_decimal ''-inf'' = Some (Infinite True)" "parse_decimal ''1.2.3'' = None"
  by code_simp+

section \<open>Python conversions of JSON values\<close>

text \<open>The string a payload value is, if it is one (\<open>isinstance(value, str)\<close>).\<close>

definition text_of :: "json \<Rightarrow> string option" where
  "text_of v = (case v of JStr s \<Rightarrow> Some s | JDec d \<Rightarrow> Some (canonical_decimal_string d)
     | JDate d \<Rightarrow> Some (date_iso d) | JTime t \<Rightarrow> Some (isoformat t) | _ \<Rightarrow> None)"

text \<open>\<open>repr\<close> of a string (ASCII): the quote it does not contain, and escapes.\<close>

definition escape_char :: "char \<Rightarrow> char \<Rightarrow> string" where
  "escape_char q c =
     (let n = (of_char c :: nat); hex = (\<lambda>i. ''0123456789abcdef'' ! i)
      in if c = q \<or> c = CHR 0x5C then [CHR 0x5C, c]
         else if n = 10 then [CHR 0x5C, CHR ''n''] else if n = 13 then [CHR 0x5C, CHR ''r'']
         else if n = 9 then [CHR 0x5C, CHR ''t'']
         else if n < 32 \<or> n = 127 then [CHR 0x5C, CHR ''x'', hex (n div 16), hex (n mod 16)]
         else [c])"

definition string_repr :: "string \<Rightarrow> string" where
  "string_repr s =
     (let q = (if List.member s (CHR 0x27) \<and> \<not> List.member s (CHR 0x22) then CHR 0x22 else CHR 0x27)
      in [q] @ concat (map (escape_char q) s) @ [q])"

definition join_comma :: "string list \<Rightarrow> string" where
  "join_comma xs = concat (map (\<lambda>(i, x). if i = 0 then x else '', '' @ x) (zip [0..<length xs] xs))"

text \<open>\<open>repr\<close> of a frozen payload value: objects are mapping proxies, arrays are tuples.\<close>

function py_repr :: "json \<Rightarrow> string" where
  "py_repr (JObj ms) = ''mappingproxy({''
     @ join_comma (map (\<lambda>m. string_repr (fst m) @ '': '' @ py_repr (snd m)) ms) @ ''})''"
| "py_repr (JList vs) = ''('' @ join_comma (map py_repr vs) @ (if length vs = 1 then '',)'' else '')'')"
| "py_repr (JStr s) = string_repr s"
| "py_repr (JInt i) = show_int i"
| "py_repr (JBool b) = (if b then ''True'' else ''False'')"
| "py_repr JNull = ''None''"
| "py_repr (JDec d) = string_repr (canonical_decimal_string d)"
| "py_repr (JDate d) = string_repr (date_iso d)"
| "py_repr (JTime t) = string_repr (isoformat t)"
  by pat_completeness auto

termination
  by (relation "measure size") (auto simp: json_member_size size_list_estimation' less_Suc_eq_le)

definition py_str :: "json \<Rightarrow> string" where
  "py_str v = (case text_of v of Some s \<Rightarrow> s | None \<Rightarrow> py_repr v)"

text \<open>\<open>Decimal(str(value))\<close>.\<close>

definition json_decimal :: "json \<Rightarrow> py_decimal res" where
  "json_decimal v =
     (case v of JDec d \<Rightarrow> Inr (Fin d) | JInt i \<Rightarrow> Inr (Fin (of_int i))
      | _ \<Rightarrow> (case parse_decimal (py_str v) of None \<Rightarrow> Inl InvalidOperation | Some x \<Rightarrow> Inr x))"

text \<open>\<open>int(text)\<close> in base ten and sixteen: single underscores may separate digits.\<close>

fun underscored :: "(char \<Rightarrow> bool) \<Rightarrow> string \<Rightarrow> bool" where
  "underscored dig [] = False"
| "underscored dig [c] = dig c"
| "underscored dig (c # c' # cs) =
     (dig c \<and> (if c' = CHR ''_'' then underscored dig cs else underscored dig (c' # cs)))"

definition parse_int :: "string \<Rightarrow> int res" where
  "parse_int s = (case split_sign (py_strip s) of (neg, ds) \<Rightarrow>
     if underscored is_digit ds
     then let n = read_nat (filter is_digit ds) in Inr (if neg then - n else n)
     else Inl (ValueError ''invalid literal for int()''))"

definition hex_text :: "string \<Rightarrow> bool" where
  "hex_text s = (case split_sign s of (neg, ds) \<Rightarrow>
     let prefixed = (take 2 ds = ''0x''); body = (if prefixed then drop 2 ds else ds)
     in underscored hex_digit
          (if prefixed \<and> body \<noteq> [] \<and> hd body = CHR ''_'' then tl body else body))"

definition json_int :: "json \<Rightarrow> int res" where
  "json_int v =
     (case v of JInt i \<Rightarrow> Inr i | JBool b \<Rightarrow> Inr (if b then 1 else 0)
      | _ \<Rightarrow> (case text_of v of Some s \<Rightarrow> parse_int s
             | None \<Rightarrow> Inl (TypeError ''int() argument must be a string or a number'')))"

text \<open>\<open>payload[field]\<close> and the truth of \<open>payload.get(field)\<close>.\<close>

definition jfield :: "(string \<times> json) list \<Rightarrow> string \<Rightarrow> json res" where
  "jfield payload k = (case map_of payload k of None \<Rightarrow> Inl (LookupFailure k) | Some v \<Rightarrow> Inr v)"

definition jfield_or :: "(string \<times> json) list \<Rightarrow> string \<Rightarrow> json \<Rightarrow> json" where
  "jfield_or payload k v = (case map_of payload k of None \<Rightarrow> v | Some x \<Rightarrow> x)"

definition truthy :: "json \<Rightarrow> bool" where
  "truthy v = (case v of JStr s \<Rightarrow> s \<noteq> [] | JInt i \<Rightarrow> i \<noteq> 0 | JBool b \<Rightarrow> b | JNull \<Rightarrow> False
     | JList vs \<Rightarrow> vs \<noteq> [] | JObj ms \<Rightarrow> ms \<noteq> [] | _ \<Rightarrow> True)"

lemma jfield_Inr [simp]: "jfield p k = Inr v \<longleftrightarrow> map_of p k = Some v"
  by (simp add: jfield_def split: option.splits)

definition py_lower :: "string \<Rightarrow> string" where
  "py_lower s = map (\<lambda>c. let n = (of_char c :: nat)
     in if 65 \<le> n \<and> n \<le> 90 then char_of (n + 32) else c) s"

fun lower_bits :: "char \<Rightarrow> char" where
  "lower_bits (Char b0 b1 b2 b3 b4 b5 b6 b7) =
     (if \<not> b7 \<and> b6 \<and> \<not> b5 \<and> (b0 \<or> b1 \<or> b2 \<or> b3 \<or> b4) \<and> \<not> (b4 \<and> b3 \<and> (b2 \<or> b1 \<and> b0))
      then Char b0 b1 b2 b3 b4 True b6 b7 else Char b0 b1 b2 b3 b4 b5 b6 b7)"

lemma lower_bits_eq: "lower_bits c = (let n = (of_char c :: nat)
     in if 65 \<le> n \<and> n \<le> 90 then char_of (n + 32) else c)"
proof (cases c)
  case (Char b0 b1 b2 b3 b4 b5 b6 b7)
  then show ?thesis
    by (cases b0; cases b1; cases b2; cases b3; cases b4; cases b5; cases b6; cases b7)
      (simp_all add: char_of_def bit_0 bit_Suc)
qed
lemma py_lower_code [code]: "py_lower s = map lower_bits s"
  by (simp add: py_lower_def lower_bits_eq)

section \<open>Strict JSON fields\<close>

definition require_json_fields ::
  "(string \<times> json) list \<Rightarrow> string list \<Rightarrow> string list \<Rightarrow> string \<Rightarrow> unit res" where
  "require_json_fields payload required allowed name =
     (if list_all (\<lambda>k. map_of payload k \<noteq> None) required
         \<and> list_all (\<lambda>m. List.member allowed (fst m)) payload
      then Inr () else Inl (ValueError (name @ '' fields mismatch'')))"

definition require_json_string :: "json \<Rightarrow> string \<Rightarrow> string res" where
  "require_json_string v name =
     (case text_of v of None \<Rightarrow> Inl (ValueError (name @ '' must be a string''))
      | Some s \<Rightarrow> if s = [] then Inl (ValueError (name @ '' must not be empty'')) else Inr s)"

definition require_optional_json_string :: "json \<Rightarrow> string \<Rightarrow> string option res" where
  "require_optional_json_string v name =
     (if v = JNull then Inr None
      else case require_json_string v name of Inl e \<Rightarrow> Inl e | Inr s \<Rightarrow> Inr (Some s))"

definition require_json_integer :: "json \<Rightarrow> string \<Rightarrow> int res" where
  "require_json_integer v name =
     (case v of JInt i \<Rightarrow> Inr i | _ \<Rightarrow> Inl (ValueError (name @ '' must be an integer'')))"

definition require_canonical_decimal_string :: "json \<Rightarrow> string \<Rightarrow> bool \<Rightarrow> bool \<Rightarrow> rat res" where
  "require_canonical_decimal_string v name positive non_negative =
     (case require_json_string v name of Inl e \<Rightarrow> Inl e
      | Inr raw \<Rightarrow>
        (case parse_decimal raw of
           None \<Rightarrow> Inl (ValueError (name @ '' must be a decimal string''))
         | Some (Fin d) \<Rightarrow>
             if canonical_decimal_string d \<noteq> raw
             then Inl (ValueError (name @ '' must use canonical decimal notation''))
             else if positive \<and> d \<le> 0 then Inl (ValueError (name @ '' must be positive''))
             else if non_negative \<and> d < 0 then Inl (ValueError (name @ '' must not be negative''))
             else Inr d
         | Some _ \<Rightarrow> Inl (ValueError (name @ '' must be a finite decimal string''))))"

section \<open>Reading back canonical decimals\<close>

text \<open>The values a \<open>Decimal\<close> can have.\<close>

definition is_decimal :: "rat \<Rightarrow> bool" where
  "is_decimal d \<longleftrightarrow> (\<exists>m k. d = of_int m / 10 ^ k)"

lemma coprime_5: "q mod 5 \<noteq> 0 \<Longrightarrow> coprime q (5 :: nat)"
proof -
  assume q: "q mod 5 \<noteq> 0"
  have five: "g = 1 \<or> g = 5" if "g dvd 5" for g :: nat
  proof -
    have "g \<le> 5" using that by (rule dvd_imp_le) simp
    then have "g \<in> {0, 1, 2, 3, 4, 5}" by auto
    then show ?thesis using that by auto
  qed
  have "gcd q 5 \<noteq> 5" using q by (metis dvd_imp_mod_0 gcd_dvd1)
  then have "gcd q 5 = 1" using five [of "gcd q 5"] by simp
  then show ?thesis by (simp add: coprime_iff_gcd_eq_1)
qed

lemma dec_places_dvd: "0 < q \<Longrightarrow> q dvd 10 ^ k \<Longrightarrow> q dvd 10 ^ dec_places q"
proof (induction q arbitrary: k rule: dec_places.induct)
  case (1 q)
  have shrink: "q dvd 10 ^ dec_places q"
    if "1 < q" "p \<in> {2, 5, 10}" "q mod p = 0" "q div p dvd 10 ^ dec_places (q div p)"
      "dec_places q = Suc (dec_places (q div p))" for p :: nat
  proof -
    have "q = p * (q div p)" using that(3) by auto
    moreover have "p dvd 10" using that(2) by auto
    ultimately have "q dvd 10 * 10 ^ dec_places (q div p)" using that(4) by (metis mult_dvd_mono)
    then show ?thesis using that(5) by simp
  qed
  have less: "0 < q div p" "q div p dvd 10 ^ k" if "1 < q" "p \<in> {2, 5, 10}" "q mod p = 0" for p :: nat
  proof -
    have q: "q = p * (q div p)" using that(3) by auto
    show "0 < q div p" using that q by (metis gr0I mult_0_right not_one_less_zero)
    show "q div p dvd 10 ^ k" using 1(5) q by (metis dvd_mult_right)
  qed
  show ?case
  proof (cases "q \<le> 1")
    case True
    then show ?thesis using 1(4) by (cases q) auto
  next
    case big: False
    note step = dec_places.simps [of q]
    consider "q mod 10 = 0" | "q mod 10 \<noteq> 0" "q mod 2 = 0" | "q mod 10 \<noteq> 0" "q mod 2 \<noteq> 0" "q mod 5 = 0"
      | "q mod 10 \<noteq> 0" "q mod 2 \<noteq> 0" "q mod 5 \<noteq> 0" by blast
    then show ?thesis
    proof cases
      case a: 1
      show ?thesis
        by (rule shrink [of 10]) (use big a 1(1) [OF big a] less [of 10] step in auto)
    next
      case a: 2
      show ?thesis
        by (rule shrink [of 2]) (use big a 1(2) [OF big a] less [of 2] step in auto)
    next
      case a: 3
      show ?thesis
        by (rule shrink [of 5]) (use big a 1(3) [OF big a] less [of 5] step in auto)
    next
      case a: 4
      have "coprime q 2" using a(2) by (simp add: even_iff_mod_2_eq_zero)
      moreover have "coprime q 5" using a(3) by (simp add: coprime_5)
      ultimately have "coprime q (2 * 5)" by (rule coprime_mult_right_iff [THEN iffD2, OF conjI])
      then have "coprime q (10 ^ k)" by simp
      then have "q = 1" using 1(5) by (metis coprime_absorb_left nat_dvd_1_iff_1)
      then show ?thesis using big by simp
    qed
  qed
qed

lemma decimal_scaled:
  assumes "is_decimal d" and "k = dec_places (nat (snd (quotient_of d)))"
  shows "of_int \<lfloor>\<bar>d\<bar> * 10 ^ k\<rfloor> = \<bar>d\<bar> * 10 ^ k"
proof -
  obtain m j where d: "d = of_int m / 10 ^ j" using assms(1) by (auto simp: is_decimal_def)
  obtain a q where aq: "quotient_of d = (a, q)" by fastforce
  have q: "0 < q" "coprime a q" "d = of_int a / of_int q"
    using quotient_of_denom_pos [OF aq] quotient_of_coprime [OF aq] quotient_of_div [OF aq] by auto
  have "of_int (a * 10 ^ j) = (of_int (m * q) :: rat)"
    using d q(1,3) by (simp add: field_simps)
  then have "a * 10 ^ j = m * q" by (simp only: of_int_eq_iff)
  then have "q dvd a * 10 ^ j" by simp
  then have "q dvd 10 ^ j" using q(2) by (simp add: coprime_dvd_mult_right_iff coprime_commute)
  then have "nat q dvd 10 ^ j" using q(1) by (simp add: nat_dvd_iff)
  then have "nat q dvd 10 ^ k" using dec_places_dvd [of "nat q" j] q(1) assms(2) aq by simp
  then have "q dvd 10 ^ k" using q(1) by (simp add: nat_dvd_iff)
  then obtain c where c: "10 ^ k = q * c" by auto
  have "(10 :: rat) ^ k = of_int q * of_int c" using arg_cong [OF c, of "of_int :: int \<Rightarrow> rat"] by simp
  moreover have "\<bar>d\<bar> = of_int \<bar>a\<bar> / of_int q" using q(1,3) by (simp add: abs_divide)
  ultimately have "\<bar>d\<bar> * 10 ^ k = of_int (\<bar>a\<bar> * c)" using q(1) by simp
  then show ?thesis by simp
qed

lemma is_digit_iff: "is_digit c \<longleftrightarrow> c \<in> set ''0123456789''"
  by (simp add: is_digit_def)

lemma digit_of: "0 \<le> n \<Longrightarrow> n < 10 \<Longrightarrow> is_digit (char_of (48 + nat n))"
proof -
  assume n: "0 \<le> n" "n < 10"
  then have "n \<in> {0, 1, 2, 3, 4, 5, 6, 7, 8, 9}" by (simp, presburger)
  then show ?thesis by (elim insertE) (simp_all add: is_digit_iff char_of_def bit_0)
qed

lemma show_nat_is_digits: "0 \<le> n \<Longrightarrow> list_all is_digit (show_nat n)"
proof (induction n rule: show_nat.induct)
  case (1 n)
  then show ?case
    using digit_of [of n] digit_of [of "n mod 10"]
    by (cases "n < 10") (simp_all add: show_nat.simps [of n])
qed

lemma show_nat_length: "0 \<le> n \<Longrightarrow> n < 10 ^ k \<Longrightarrow> 0 < k \<Longrightarrow> length (show_nat n) \<le> k"
proof (induction n arbitrary: k rule: show_nat.induct)
  case (1 n)
  show ?case
  proof (cases "n < 10")
    case True
    then show ?thesis using 1(4) by (simp add: show_nat.simps [of n])
  next
    case False
    obtain j where j: "k = Suc j" using 1(4) by (cases k) auto
    have "0 < j" using False 1(3) j by (cases j) auto
    moreover have "n div 10 < 10 ^ j" using 1(3) j by (simp add: div_less_iff_less_mult)
    ultimately have "length (show_nat (n div 10)) \<le> j" using 1(1) [OF False] 1(2) by simp
    then show ?thesis using False j by (simp add: show_nat.simps [of n])
  qed
qed

lemma show_padded_is_digits: "0 \<le> n \<Longrightarrow> list_all is_digit (show_padded k n)"
proof -
  assume n: "0 \<le> n"
  have "is_digit CHR ''0''" by (simp add: is_digit_iff)
  then have "list_all is_digit (replicate m CHR ''0'')" for m by (induction m) simp_all
  then show ?thesis using show_nat_is_digits [OF n] by (simp add: show_padded_def Let_def)
qed

lemma show_padded_length: "0 \<le> n \<Longrightarrow> n < 10 ^ k \<Longrightarrow> 0 < k \<Longrightarrow> length (show_padded k n) = k"
  using show_nat_length [of n k] by (simp add: show_padded_def Let_def)

lemma read_nat_append: "read_nat (s @ t) = read_nat s * 10 ^ length t + read_nat t"
proof (induction t rule: rev_induct)
  case (snoc c t)
  then show ?case unfolding append_assoc [symmetric]
    by (simp add: read_nat_def algebra_simps del: append_assoc)
qed (simp add: read_nat_def)

lemma takeWhile_digits:
  "list_all is_digit s \<Longrightarrow> t = [] \<or> \<not> is_digit (hd t) \<Longrightarrow>
     takeWhile is_digit (s @ t) = s \<and> dropWhile is_digit (s @ t) = t"
  by (induction s) (cases t; auto)+

text \<open>A plain decimal text reads as the number it denotes.\<close>

lemma parse_number_plain:
  assumes "list_all is_digit ip" and "ip \<noteq> []" and "list_all is_digit fp"
  shows "parse_number (ip @ (if fp = [] then [] else CHR ''.'' # fp))
     = Some (of_int (read_nat (ip @ fp)) / 10 ^ length fp)"
proof -
  have ip: "takeWhile is_digit (ip @ (if fp = [] then [] else CHR ''.'' # fp)) = ip
      \<and> dropWhile is_digit (ip @ (if fp = [] then [] else CHR ''.'' # fp))
        = (if fp = [] then [] else CHR ''.'' # fp)"
    by (rule takeWhile_digits [OF assms(1)]) (auto simp: is_digit_iff)
  have fp: "takeWhile is_digit fp = fp" "dropWhile is_digit fp = []"
    using takeWhile_digits [OF assms(3), of "[]"] by auto
  show ?thesis
    using assms(2) by (simp add: parse_number_def Let_def ip fp power_int_minus divide_inverse)
qed

lemma digit_facts:
  assumes "is_digit c \<or> c = CHR ''.''"
  shows "\<not> py_space c" and "c \<noteq> CHR ''_''" and "c \<noteq> CHR ''-''" and "c \<noteq> CHR ''+''"
    and "char_upper c = c" and "c \<noteq> CHR ''I''" and "c \<noteq> CHR ''N''" and "c \<noteq> CHR ''S''"
proof -
  have "list_all (\<lambda>c. \<not> py_space c \<and> c \<noteq> CHR ''_'' \<and> c \<noteq> CHR ''-'' \<and> c \<noteq> CHR ''+''
      \<and> char_upper c = c \<and> c \<noteq> CHR ''I'' \<and> c \<noteq> CHR ''N'' \<and> c \<noteq> CHR ''S'') ''0123456789.''"
    by code_simp
  moreover have "c \<in> set ''0123456789.''" using assms by (auto simp: is_digit_iff)
  ultimately have "\<not> py_space c \<and> c \<noteq> CHR ''_'' \<and> c \<noteq> CHR ''-'' \<and> c \<noteq> CHR ''+''
      \<and> char_upper c = c \<and> c \<noteq> CHR ''I'' \<and> c \<noteq> CHR ''N'' \<and> c \<noteq> CHR ''S''"
    unfolding list_all_iff by (rule bspec)
  then show "\<not> py_space c" "c \<noteq> CHR ''_''" "c \<noteq> CHR ''-''" "c \<noteq> CHR ''+''"
    "char_upper c = c" "c \<noteq> CHR ''I''" "c \<noteq> CHR ''N''" "c \<noteq> CHR ''S''" by simp_all
qed

lemma parse_decimal_plain:
  assumes "list_all (\<lambda>c. is_digit c \<or> c = CHR ''.'') s" and "s \<noteq> []"
  shows "parse_decimal ((if neg then ''-'' else []) @ s)
    = map_option (\<lambda>x. Fin (if neg then - x else x)) (parse_number s)"
proof -
  let ?t = "(if neg then ''-'' else []) @ s"
  have all: "\<And>c. c \<in> set s \<Longrightarrow> is_digit c \<or> c = CHR ''.''" using assms(1) by (simp add: list_all_iff)
  have "\<not> py_space CHR ''-''" by code_simp
  then have "\<not> list_ex py_space ?t" using digit_facts(1) [OF all] by (auto simp: list_ex_iff)
  then have 1: "py_strip ?t = ?t" by (rule py_strip_no_space)
  have 2: "filter (\<lambda>c. c \<noteq> CHR ''_'') ?t = ?t" using digit_facts(2) [OF all] by (simp add: filter_id_conv)
  obtain c cs where c: "s = c # cs" using assms(2) by (cases s) auto
  have 3: "split_sign ?t = (neg, s)"
    using digit_facts(3,4) [OF all, of c] c by (auto simp: split_sign_def)
  have 4: "py_upper s = s" using digit_facts(5) [OF all] by (simp add: py_upper_def map_idI)
  have "s \<noteq> ''INF''" "s \<noteq> ''INFINITY''" "take 3 s \<noteq> ''NAN''" "take 4 s \<noteq> ''SNAN''"
    using digit_facts(6-8) [OF all, of c] c by auto
  then show ?thesis unfolding parse_decimal_def 1 2 3 Let_def prod.case 4 by simp
qed

lemma parse_canonical:
  assumes "is_decimal d"
  shows "parse_decimal (canonical_decimal_string d) = Some (Fin d)"
proof -
  define k where "k = dec_places (nat (snd (quotient_of d)))"
  define n where "n = \<lfloor>\<bar>d\<bar> * 10 ^ k\<rfloor>"
  define fp where "fp = (if k = 0 then [] else show_padded k (n mod 10 ^ k))"
  define ip where "ip = show_nat (n div 10 ^ k)"
  have n: "of_int n = \<bar>d\<bar> * 10 ^ k" "0 \<le> n"
    using decimal_scaled [OF assms k_def] by (auto simp: n_def)
  have ip: "list_all is_digit ip" "ip \<noteq> []" "read_nat ip = n div 10 ^ k"
    using n(2) by (simp_all add: ip_def show_nat_is_digits pos_imp_zdiv_nonneg_iff read_show_nat)
  have fp: "list_all is_digit fp" "length fp = k" "read_nat fp = n mod 10 ^ k"
    by (auto simp: fp_def show_padded_is_digits show_padded_length read_show_padded) (simp add: read_nat_def)
  let ?s = "ip @ (if fp = [] then [] else CHR ''.'' # fp)"
  have form: "canonical_decimal_string d = (if d < 0 then ''-'' else []) @ ?s"
    using fp(2) by (auto simp: canonical_decimal_string_def Let_def k_def [symmetric] n_def [symmetric]
        ip_def fp_def)
  have "list_all (\<lambda>c. is_digit c \<or> c = CHR ''.'') ?s" using ip(1) fp(1) by (auto simp: list_all_iff)
  from parse_decimal_plain [OF this, of "d < 0"] ip(2)
  have "parse_decimal (canonical_decimal_string d)
      = map_option (\<lambda>x. Fin (if d < 0 then - x else x)) (parse_number ?s)"
    unfolding form by simp
  moreover have "read_nat (ip @ fp) = n" by (simp only: read_nat_append ip(3) fp(2,3) div_mult_mod_eq)
  moreover from this have "parse_number ?s = Some (of_int n / 10 ^ k)"
    using parse_number_plain [OF ip(1,2) fp(1)] fp(2) by simp
  ultimately show ?thesis using n(1) by (auto split: if_splits)
qed

end
