(* ===== verification/Exposure.thy ===== *)
theory Exposure
  imports Canonical_Values "HOL-Library.List_Lexorder" "HOL-Library.Char_ord"
begin

text \<open>
  Ownership and holding-horizon identities (\<open>trading/exposure.py\<close>): the account scope, the
  policy family, the exposure a position belongs to, and the deterministic identities of exit
  chains and semantic actions. The digest of a canonical payload is the parameter \<open>sha\<close>.
\<close>

definition ACCOUNT_SCOPE_IDENTITY_VERSION :: string where
  "ACCOUNT_SCOPE_IDENTITY_VERSION = ''account-scope-identity-v1''"
definition POLICY_FAMILY_IDENTITY_VERSION :: string where
  "POLICY_FAMILY_IDENTITY_VERSION = ''policy-family-identity-v1''"
definition EXPOSURE_IDENTITY_VERSION :: string where
  "EXPOSURE_IDENTITY_VERSION = ''exposure-identity-v1''"
definition LEGACY_EXPOSURE_POLICY_VERSION :: string where
  "LEGACY_EXPOSURE_POLICY_VERSION = ''legacy-exposure-import-v1''"
definition SEMANTIC_ACTION_IDENTITY_VERSION :: string where
  "SEMANTIC_ACTION_IDENTITY_VERSION = ''no-overnight-action-v1''"
definition MANAGED_ORIGINS :: "string list" where
  "MANAGED_ORIGINS = [''MANUAL_WEB'', ''STRATEGY_AUTOMATED'']"

datatype holding_horizon = INTRADAY | SWING | LONG_TERM | UNCLASSIFIED_LEGACY
datatype position_action = OPEN_LONG | CLOSE_LONG
datatype execution_reason_category = CATEGORY_STRATEGY | CATEGORY_OPERATIONAL_RISK

primrec holding_horizon_value :: "holding_horizon \<Rightarrow> string" where
  "holding_horizon_value INTRADAY = ''INTRADAY''"
| "holding_horizon_value SWING = ''SWING''"
| "holding_horizon_value LONG_TERM = ''LONG_TERM''"
| "holding_horizon_value UNCLASSIFIED_LEGACY = ''UNCLASSIFIED_LEGACY''"

primrec position_action_value :: "position_action \<Rightarrow> string" where
  "position_action_value OPEN_LONG = ''OPEN_LONG''"
| "position_action_value CLOSE_LONG = ''CLOSE_LONG''"

primrec reason_category_value :: "execution_reason_category \<Rightarrow> string" where
  "reason_category_value CATEGORY_STRATEGY = ''STRATEGY''"
| "reason_category_value CATEGORY_OPERATIONAL_RISK = ''OPERATIONAL_RISK''"

section \<open>Field checks\<close>

text \<open>\<open>_require_identity\<close>: not empty, and no whitespace anywhere.\<close>

definition require_identity :: "string \<Rightarrow> string \<Rightarrow> string res" where
  "require_identity v field =
     (if v = [] then Inl (ValueError (field @ '' must not be empty''))
      else if v \<noteq> py_strip v \<or> list_ex py_space v
      then Inl (ValueError (field @ '' must be normalized without whitespace''))
      else Inr v)"

definition require_digest :: "string \<Rightarrow> string \<Rightarrow> string res" where
  "require_digest v field =
     (if is_sha256 v then Inr v
      else Inl (ValueError (field @ '' must be a lowercase SHA-256 digest'')))"

fun require_identities :: "(string \<times> string) list \<Rightarrow> unit res" where
  "require_identities [] = Inr ()"
| "require_identities ((v, field) # rest) =
     (case require_identity v field of Inl e \<Rightarrow> Inl e | Inr _ \<Rightarrow> require_identities rest)"

definition normalized :: "string \<Rightarrow> bool" where
  "normalized v \<longleftrightarrow> v \<noteq> [] \<and> \<not> list_ex py_space v"

lemma require_identity_Inr [simp]: "require_identity v field = Inr w \<longleftrightarrow> w = v \<and> normalized v"
  using py_strip_no_space [of v]
  by (cases "list_ex py_space v") (auto simp: require_identity_def normalized_def)

lemma require_identity_ok: "normalized v \<Longrightarrow> require_identity v field = Inr v"
  by simp

lemma require_digest_Inr [simp]: "require_digest v field = Inr w \<longleftrightarrow> w = v \<and> is_sha256 v"
  by (auto simp: require_digest_def)

lemma require_digest_ok: "is_sha256 v \<Longrightarrow> require_digest v field = Inr v"
  by simp

lemma require_identities_Inr [simp]:
  "require_identities vs = Inr u \<longleftrightarrow> (\<forall>(v, f) \<in> set vs. normalized v)"
proof (induction vs rule: require_identities.induct)
  case (2 v field rest)
  then show ?case by (auto simp: res_simps)
qed simp

lemma normalized_not_blank: "normalized v \<Longrightarrow> \<not> blank v"
  using py_strip_no_space [of v] by (auto simp: normalized_def blank_def)

section \<open>Identity records\<close>

record account_scope_identity =
  as_account_scope_id :: string
  as_execution_mode :: string
  as_ledger_id :: string
  as_identity_schema_version :: string

definition account_scope_post_init :: "account_scope_identity \<Rightarrow> unit res" where
  "account_scope_post_init a =
     (case require_identities [(as_account_scope_id a, ''account_scope_id''),
         (as_execution_mode a, ''execution_mode''), (as_ledger_id a, ''ledger_id''),
         (as_identity_schema_version a, ''identity_schema_version'')] of Inl e \<Rightarrow> Inl e
      | Inr _ \<Rightarrow>
        if as_identity_schema_version a \<noteq> ACCOUNT_SCOPE_IDENTITY_VERSION
        then Inl (ValueError ''unsupported account scope identity schema'') else Inr ())"

definition account_scope_payload :: "account_scope_identity \<Rightarrow> json" where
  "account_scope_payload a = JObj
     [(''account_scope_id'', JStr (as_account_scope_id a)),
      (''execution_mode'', JStr (as_execution_mode a)),
      (''ledger_id'', JStr (as_ledger_id a)),
      (''identity_schema_version'', JStr (as_identity_schema_version a))]"

record policy_family_identity =
  pf_policy_family_id :: string
  pf_account_scope_id :: string
  pf_policy_kind :: string
  pf_identity_schema_version :: string

definition policy_family_post_init :: "policy_family_identity \<Rightarrow> unit res" where
  "policy_family_post_init p =
     (case require_identities [(pf_policy_family_id p, ''policy_family_id''),
         (pf_account_scope_id p, ''account_scope_id''), (pf_policy_kind p, ''policy_kind''),
         (pf_identity_schema_version p, ''identity_schema_version'')] of Inl e \<Rightarrow> Inl e
      | Inr _ \<Rightarrow>
        if pf_policy_kind p \<noteq> ''NO_OVERNIGHT''
        then Inl (ValueError ''policy_kind must be NO_OVERNIGHT'')
        else if pf_identity_schema_version p \<noteq> POLICY_FAMILY_IDENTITY_VERSION
        then Inl (ValueError ''unsupported policy family identity schema'') else Inr ())"

definition policy_family_payload :: "policy_family_identity \<Rightarrow> json" where
  "policy_family_payload p = JObj
     [(''policy_family_id'', JStr (pf_policy_family_id p)),
      (''account_scope_id'', JStr (pf_account_scope_id p)),
      (''policy_kind'', JStr (pf_policy_kind p)),
      (''identity_schema_version'', JStr (pf_identity_schema_version p))]"

record exposure_identity =
  ei_exposure_id :: string
  ei_account_scope_id :: string
  ei_policy_family_id :: string
  ei_owner_origin :: string
  ei_owner_id :: string
  ei_holding_horizon :: holding_horizon
  ei_entry_session_date :: "int option"
  ei_entry_policy_version :: string
  ei_entry_policy_digest :: string
  ei_identity_schema_version :: string

definition exposure_post_init :: "exposure_identity \<Rightarrow> unit res" where
  "exposure_post_init x =
     (case require_identities [(ei_exposure_id x, ''exposure_id''),
         (ei_account_scope_id x, ''account_scope_id''),
         (ei_policy_family_id x, ''policy_family_id''), (ei_owner_origin x, ''owner_origin''),
         (ei_owner_id x, ''owner_id''), (ei_entry_policy_version x, ''entry_policy_version''),
         (ei_identity_schema_version x, ''identity_schema_version'')] of Inl e \<Rightarrow> Inl e
      | Inr _ \<Rightarrow>
        if \<not> List.member MANAGED_ORIGINS (ei_owner_origin x)
        then Inl (ValueError ''owner_origin is unsupported'')
        else if ei_entry_session_date x = None \<and> ei_holding_horizon x \<noteq> UNCLASSIFIED_LEGACY
        then Inl (ValueError ''classified exposure requires entry_session_date'')
        else
        case require_digest (ei_entry_policy_digest x) ''entry_policy_digest'' of Inl e \<Rightarrow> Inl e
        | Inr _ \<Rightarrow>
          if ei_identity_schema_version x \<noteq> EXPOSURE_IDENTITY_VERSION
          then Inl (ValueError ''unsupported exposure identity schema'') else Inr ())"

definition no_overnight_managed :: "exposure_identity \<Rightarrow> bool" where
  "no_overnight_managed x \<longleftrightarrow>
     ei_holding_horizon x = INTRADAY \<and> List.member MANAGED_ORIGINS (ei_owner_origin x)"

definition exposure_payload :: "exposure_identity \<Rightarrow> json" where
  "exposure_payload x = JObj
     [(''exposure_id'', JStr (ei_exposure_id x)),
      (''account_scope_id'', JStr (ei_account_scope_id x)),
      (''policy_family_id'', JStr (ei_policy_family_id x)),
      (''owner_origin'', JStr (ei_owner_origin x)),
      (''owner_id'', JStr (ei_owner_id x)),
      (''holding_horizon'', JStr (holding_horizon_value (ei_holding_horizon x))),
      (''entry_session_date'', jopt JDate (ei_entry_session_date x)),
      (''entry_policy_version'', JStr (ei_entry_policy_version x)),
      (''entry_policy_digest'', JStr (ei_entry_policy_digest x)),
      (''identity_schema_version'', JStr (ei_identity_schema_version x))]"

definition mk_exposure :: "exposure_identity \<Rightarrow> exposure_identity res" where
  "mk_exposure x = (case exposure_post_init x of Inl e \<Rightarrow> Inl e | Inr _ \<Rightarrow> Inr x)"

text \<open>
  \<open>from_payload\<close>: exactly the known fields, strings where strings are due, then the constructor.
\<close>

definition EXPOSURE_FIELDS :: "string list" where
  "EXPOSURE_FIELDS = [''exposure_id'', ''account_scope_id'', ''policy_family_id'', ''owner_origin'',
     ''owner_id'', ''holding_horizon'', ''entry_session_date'', ''entry_policy_version'',
     ''entry_policy_digest'', ''identity_schema_version'']"

fun enum_of :: "('e \<Rightarrow> string) \<Rightarrow> 'e list \<Rightarrow> string \<Rightarrow> 'e res" where
  "enum_of value [] s = Inl (ValueError ''not a member of the enumeration'')"
| "enum_of value (x # xs) s = (if value x = s then Inr x else enum_of value xs s)"

definition HORIZONS :: "holding_horizon list" where
  "HORIZONS = [INTRADAY, SWING, LONG_TERM, UNCLASSIFIED_LEGACY]"

text \<open>\<open>date.fromisoformat(raw) if raw is not None else None\<close>.\<close>

definition optional_date :: "json \<Rightarrow> int option res" where
  "optional_date v = (case v of JNull \<Rightarrow> Inr None | JDate d \<Rightarrow> Inr (Some d)
     | _ \<Rightarrow> (case text_of v of None \<Rightarrow> Inl (ValueError ''entry_session_date has invalid type'')
            | Some s \<Rightarrow> (case parse_date s of None \<Rightarrow> Inl (ValueError ''Invalid isoformat string'')
                       | Some d \<Rightarrow> Inr (Some d))))"

definition text_at :: "(string \<times> json) list \<Rightarrow> string \<Rightarrow> string option" where
  "text_at ms k = (case map_of ms k of None \<Rightarrow> None | Some v \<Rightarrow> text_of v)"

definition exposure_from_payload :: "(string \<times> json) list \<Rightarrow> exposure_identity res" where
  "exposure_from_payload ms =
     (if \<not> list_all (\<lambda>m. List.member EXPOSURE_FIELDS (fst m)) ms
      then Inl (ValueError ''unknown exposure identity fields'')
      else if \<not> list_all (\<lambda>k. map_of ms k \<noteq> None) EXPOSURE_FIELDS
      then Inl (ValueError ''missing exposure identity fields'')
      else if \<not> list_all (\<lambda>k. k = ''entry_session_date'' \<or> text_at ms k \<noteq> None) EXPOSURE_FIELDS
      then Inl (ValueError ''exposure identity string field has invalid type'')
      else
      case optional_date (the (map_of ms ''entry_session_date'')) of Inl e \<Rightarrow> Inl e | Inr date \<Rightarrow>
      case enum_of holding_horizon_value HORIZONS (the (text_at ms ''holding_horizon'')) of
        Inl e \<Rightarrow> Inl e
      | Inr horizon \<Rightarrow>
        mk_exposure \<lparr>ei_exposure_id = the (text_at ms ''exposure_id''),
          ei_account_scope_id = the (text_at ms ''account_scope_id''),
          ei_policy_family_id = the (text_at ms ''policy_family_id''),
          ei_owner_origin = the (text_at ms ''owner_origin''),
          ei_owner_id = the (text_at ms ''owner_id''), ei_holding_horizon = horizon,
          ei_entry_session_date = date,
          ei_entry_policy_version = the (text_at ms ''entry_policy_version''),
          ei_entry_policy_digest = the (text_at ms ''entry_policy_digest''),
          ei_identity_schema_version = the (text_at ms ''identity_schema_version'')\<rparr>)"

definition exposure_fields :: "exposure_identity \<Rightarrow> (string \<times> json) list" where
  "exposure_fields x = (case exposure_payload x of JObj ms \<Rightarrow> ms | _ \<Rightarrow> [])"

lemma optional_date_jopt [simp]: "optional_date (jopt JDate d) = Inr d"
  by (simp add: optional_date_def jopt_def split: option.splits)

lemma horizon_of_value [simp]: "enum_of holding_horizon_value HORIZONS (holding_horizon_value h) = Inr h"
  by (cases h) (simp_all add: HORIZONS_def)

lemma exposure_payload_roundtrip:
  assumes "exposure_post_init x = Inr ()"
  shows "exposure_from_payload (exposure_fields x) = Inr x"
  using assms
  by (cases x) (simp add: exposure_from_payload_def exposure_fields_def exposure_payload_def EXPOSURE_FIELDS_def
      text_at_def text_of_def mk_exposure_def)

section \<open>Builders\<close>

definition build_exposure_identity ::
  "(json \<Rightarrow> string) \<Rightarrow> string \<Rightarrow> string \<Rightarrow> string \<Rightarrow> string \<Rightarrow> holding_horizon \<Rightarrow> int \<Rightarrow> string
     \<Rightarrow> string \<Rightarrow> string \<Rightarrow> exposure_identity res" where
  "build_exposure_identity sha account family origin owner horizon date version digest entry =
     (case require_identity account ''account_scope_id'' of Inl e \<Rightarrow> Inl e | Inr _ \<Rightarrow>
      case require_identity family ''policy_family_id'' of Inl e \<Rightarrow> Inl e | Inr _ \<Rightarrow>
      case require_identity origin ''owner_origin'' of Inl e \<Rightarrow> Inl e | Inr _ \<Rightarrow>
      case require_identity owner ''owner_id'' of Inl e \<Rightarrow> Inl e | Inr _ \<Rightarrow>
      case require_identity version ''entry_policy_version'' of Inl e \<Rightarrow> Inl e | Inr _ \<Rightarrow>
      case require_digest digest ''entry_policy_digest'' of Inl e \<Rightarrow> Inl e | Inr _ \<Rightarrow>
      case require_identity entry ''entry_identity'' of Inl e \<Rightarrow> Inl e | Inr _ \<Rightarrow>
      let payload = JObj
        [(''identity_version'', JStr EXPOSURE_IDENTITY_VERSION),
         (''account_scope_id'', JStr account), (''policy_family_id'', JStr family),
         (''owner_origin'', JStr origin), (''owner_id'', JStr owner),
         (''holding_horizon'', JStr (holding_horizon_value horizon)),
         (''entry_session_date'', JDate date), (''entry_policy_version'', JStr version),
         (''entry_policy_digest'', JStr digest), (''entry_identity'', JStr entry)]
      in mk_exposure
        \<lparr>ei_exposure_id = ''exposure_v1_'' @ sha payload, ei_account_scope_id = account,
         ei_policy_family_id = family, ei_owner_origin = origin, ei_owner_id = owner,
         ei_holding_horizon = horizon, ei_entry_session_date = Some date,
         ei_entry_policy_version = version, ei_entry_policy_digest = digest,
         ei_identity_schema_version = EXPOSURE_IDENTITY_VERSION\<rparr>)"

definition build_legacy_exposure_identity ::
  "(json \<Rightarrow> string) \<Rightarrow> string \<Rightarrow> string \<Rightarrow> string \<Rightarrow> string \<Rightarrow> string \<Rightarrow> string
     \<Rightarrow> exposure_identity res" where
  "build_legacy_exposure_identity sha account family session symbol origin owner =
     (case require_identity account ''account_scope_id'' of Inl e \<Rightarrow> Inl e | Inr _ \<Rightarrow>
      case require_identity family ''policy_family_id'' of Inl e \<Rightarrow> Inl e | Inr _ \<Rightarrow>
      case require_identity session ''source_session_id'' of Inl e \<Rightarrow> Inl e | Inr _ \<Rightarrow>
      case require_identity symbol ''symbol'' of Inl e \<Rightarrow> Inl e | Inr _ \<Rightarrow>
      case require_identity origin ''owner_origin'' of Inl e \<Rightarrow> Inl e | Inr _ \<Rightarrow>
      case require_identity owner ''owner_id'' of Inl e \<Rightarrow> Inl e | Inr _ \<Rightarrow>
      let fields =
        [(''identity_version'', JStr ''legacy-exposure-v1''),
         (''account_scope_id'', JStr account), (''policy_family_id'', JStr family),
         (''source_session_id'', JStr session), (''symbol'', JStr symbol),
         (''owner_origin'', JStr origin), (''owner_id'', JStr owner)];
          digest = sha (JObj ((''policy_version'', JStr LEGACY_EXPOSURE_POLICY_VERSION) # fields))
      in mk_exposure
        \<lparr>ei_exposure_id = ''legacy_exposure_v1_'' @ sha (JObj fields),
         ei_account_scope_id = account, ei_policy_family_id = family, ei_owner_origin = origin,
         ei_owner_id = owner, ei_holding_horizon = UNCLASSIFIED_LEGACY,
         ei_entry_session_date = None,
         ei_entry_policy_version = LEGACY_EXPOSURE_POLICY_VERSION,
         ei_entry_policy_digest = digest,
         ei_identity_schema_version = EXPOSURE_IDENTITY_VERSION\<rparr>)"

definition build_exit_chain_id ::
  "(json \<Rightarrow> string) \<Rightarrow> string \<Rightarrow> string \<Rightarrow> int \<Rightarrow> string \<Rightarrow> string res" where
  "build_exit_chain_id sha account family date exposure =
     (case require_identity account ''account_scope_id'' of Inl e \<Rightarrow> Inl e | Inr _ \<Rightarrow>
      case require_identity family ''policy_family_id'' of Inl e \<Rightarrow> Inl e | Inr _ \<Rightarrow>
      case require_identity exposure ''exposure_id'' of Inl e \<Rightarrow> Inl e | Inr _ \<Rightarrow>
      Inr (''no_overnight_exit_chain_v1_'' @ sha (JObj
        [(''identity_version'', JStr ''no-overnight-exit-chain-v1''),
         (''account_scope_id'', JStr account), (''policy_family_id'', JStr family),
         (''session_date'', JDate date), (''exposure_id'', JStr exposure),
         (''position_action'', JStr (position_action_value CLOSE_LONG))])))"

text \<open>The dict display evaluates its entries in order: the chain before the target order.\<close>

definition build_semantic_action_key ::
  "(json \<Rightarrow> string) \<Rightarrow> string \<Rightarrow> string \<Rightarrow> int \<Rightarrow> string \<Rightarrow> string \<Rightarrow> int \<Rightarrow> string option
     \<Rightarrow> string res" where
  "build_semantic_action_key sha account family date exposure action attempt target =
     (if attempt \<le> 0 then Inl (ValueError ''attempt must be positive'')
      else
      case require_identity action ''action'' of Inl e \<Rightarrow> Inl e | Inr _ \<Rightarrow>
      if action \<noteq> py_upper action then Inl (ValueError ''action must be normalized'')
      else
      case require_identity account ''account_scope_id'' of Inl e \<Rightarrow> Inl e | Inr _ \<Rightarrow>
      case require_identity family ''policy_family_id'' of Inl e \<Rightarrow> Inl e | Inr _ \<Rightarrow>
      case require_identity exposure ''exposure_id'' of Inl e \<Rightarrow> Inl e | Inr _ \<Rightarrow>
      case build_exit_chain_id sha account family date exposure of Inl e \<Rightarrow> Inl e | Inr chain \<Rightarrow>
      case (case target of None \<Rightarrow> Inr JNull
            | Some t \<Rightarrow> (case require_identity t ''target_order_id'' of Inl e \<Rightarrow> Inl e
                         | Inr v \<Rightarrow> Inr (JStr v))) of Inl e \<Rightarrow> Inl e | Inr target_json \<Rightarrow>
      Inr (''no_overnight_action_v1_'' @ sha (JObj
        [(''identity_version'', JStr SEMANTIC_ACTION_IDENTITY_VERSION),
         (''account_scope_id'', JStr account), (''policy_family_id'', JStr family),
         (''session_date'', JDate date), (''exposure_id'', JStr exposure),
         (''exit_chain_id'', JStr chain), (''action'', JStr action), (''attempt'', JInt attempt),
         (''target_order_id'', target_json)])))"

section \<open>What the builders promise\<close>

lemma exposure_post_init_Inr:
  "exposure_post_init x = Inr u \<longleftrightarrow>
     normalized (ei_exposure_id x) \<and> normalized (ei_account_scope_id x)
     \<and> normalized (ei_policy_family_id x) \<and> normalized (ei_owner_origin x)
     \<and> normalized (ei_owner_id x) \<and> normalized (ei_entry_policy_version x)
     \<and> normalized (ei_identity_schema_version x)
     \<and> List.member MANAGED_ORIGINS (ei_owner_origin x)
     \<and> (ei_entry_session_date x = None \<longrightarrow> ei_holding_horizon x = UNCLASSIFIED_LEGACY)
     \<and> is_sha256 (ei_entry_policy_digest x)
     \<and> ei_identity_schema_version x = EXPOSURE_IDENTITY_VERSION"
  by (auto simp: exposure_post_init_def res_simps)

lemma sha256_no_space: "is_sha256 s \<Longrightarrow> c \<in> set s \<Longrightarrow> \<not> py_space c"
  using hex_digit_no_space [of c] by (auto simp: is_sha256_def list_all_iff)

lemma normalized_digest_id:
  "is_sha256 s \<Longrightarrow> p \<noteq> [] \<Longrightarrow> \<not> list_ex py_space p \<Longrightarrow> normalized (p @ s)"
  using sha256_no_space [of s] by (auto simp: normalized_def list_ex_iff)

lemma build_exposure_identity_Inr:
  assumes "build_exposure_identity sha a f og ow h d v dg en = Inr x"
  shows "exposure_post_init x = Inr ()" and "ei_owner_origin x = og" and "ei_owner_id x = ow"
    and "ei_holding_horizon x = h" and "ei_entry_session_date x = Some d"
  using assms
  by (auto simp: build_exposure_identity_def mk_exposure_def Let_def res_simps)

lemma build_exposure_identity_ok:
  assumes "\<And>j. is_sha256 (sha j)" and "normalized a" and "normalized f" and "normalized ow"
    and "normalized v" and "is_sha256 dg" and "normalized en" and "List.member MANAGED_ORIGINS og"
  shows "\<exists>x. build_exposure_identity sha a f og ow h d v dg en = Inr x"
proof -
  have og: "normalized og"
    using assms(8) by (auto simp: MANAGED_ORIGINS_def normalized_def py_space_def)
  let ?x = "\<lambda>p. \<lparr>ei_exposure_id = ''exposure_v1_'' @ sha p, ei_account_scope_id = a,
         ei_policy_family_id = f, ei_owner_origin = og, ei_owner_id = ow,
         ei_holding_horizon = h, ei_entry_session_date = Some d,
         ei_entry_policy_version = v, ei_entry_policy_digest = dg,
         ei_identity_schema_version = EXPOSURE_IDENTITY_VERSION\<rparr>"
  have "normalized (''exposure_v1_'' @ sha p)" for p
    by (rule normalized_digest_id [OF assms(1)]) (auto simp: py_space_def)
  moreover have "normalized EXPOSURE_IDENTITY_VERSION"
    by (simp add: EXPOSURE_IDENTITY_VERSION_def normalized_def py_space_def)
  ultimately have "exposure_post_init (?x p) = Inr ()" for p
    using assms og by (simp add: exposure_post_init_Inr)
  then show ?thesis using assms og
    by (simp add: build_exposure_identity_def mk_exposure_def Let_def require_identity_ok
        require_digest_ok)
qed

text \<open>
  The identities are functions of their arguments through one digest: with a digest that is
  injective on the payloads compared, two semantic action keys are equal only for the same
  action, attempt, exposure, session and target.
\<close>

lemma semantic_action_key_inj:
  assumes "build_semantic_action_key sha a f d x ac n t = Inr k"
    and "build_semantic_action_key sha a' f' d' x' ac' n' t' = Inr k"
    and "\<And>i j. sha i = sha j \<Longrightarrow> i = j"
  shows "a = a' \<and> f = f' \<and> d = d' \<and> x = x' \<and> ac = ac' \<and> n = n' \<and> t = t'"
  using assms
  by (auto simp: build_semantic_action_key_def res_simps jopt_def split: option.splits
      dest!: assms(3))

end
