(* ===== verification/Risk_Gate.thy ===== *)
theory Risk_Gate
  imports Exposure Trade_Management Execution_Costs
begin

text \<open>
  The hard risk gate of local-paper commands (\<open>trading/risk.py\<close>): order commands, policies and
  snapshots with their validation, \<open>RiskGate.evaluate\<close>, and the eligibility of an active exit
  recommendation. Decimals are finite; their sums and products are rounded to 28 digits as the
  default context does, and \<open>quantize\<close> fails where the result needs more digits.
\<close>

section \<open>Enumerations\<close>

definition RISK_GATE_VERSION :: string where
  "RISK_GATE_VERSION = ''risk-gate-v1''"
definition EXIT_ELIGIBILITY_ID_VERSION :: string where
  "EXIT_ELIGIBILITY_ID_VERSION = ''exit-eligibility-id-v1''"
definition COMMISSION_ROUNDING_HALF_UP_CENTS :: string where
  "COMMISSION_ROUNDING_HALF_UP_CENTS = ''ROUND_HALF_UP_0.01_TWD''"
definition COMMISSION_ROUNDING_TWD_DOWN :: string where
  "COMMISSION_ROUNDING_TWD_DOWN = ''twd_round_down_v1''"

datatype command_origin = MANUAL_WEB | STRATEGY_AUTOMATED
datatype command_side = BUY | SELL
datatype risk_decision_status = APPROVED | REJECTED | BLOCKED
datatype eligibility_status = EL_ELIGIBLE | EL_BLOCKED | EL_INELIGIBLE

datatype risk_reason =
    STRATEGY_ORIGIN_DISABLED | DATA_HEALTH_UNHEALTHY | MARKET_CLOSED | INSTRUMENT_NOT_TRADABLE
  | INVALID_PRICE | INVALID_QUANTITY | ORDER_NOTIONAL_LIMIT | INSUFFICIENT_CASH
  | POSITION_NOTIONAL_LIMIT | INSUFFICIENT_POSITION | PENDING_ORDER_DUPLICATE | DAILY_LOSS_LIMIT
  | DAILY_BUY_NOTIONAL_LIMIT | BOOK_UNAVAILABLE | BOOK_STALE

primrec origin_value :: "command_origin \<Rightarrow> string" where
  "origin_value MANUAL_WEB = ''MANUAL_WEB''"
| "origin_value STRATEGY_AUTOMATED = ''STRATEGY_AUTOMATED''"

primrec side_value :: "command_side \<Rightarrow> string" where
  "side_value BUY = ''BUY''"
| "side_value SELL = ''SELL''"

primrec risk_reason_value :: "risk_reason \<Rightarrow> string" where
  "risk_reason_value STRATEGY_ORIGIN_DISABLED = ''STRATEGY_ORIGIN_DISABLED''"
| "risk_reason_value DATA_HEALTH_UNHEALTHY = ''DATA_HEALTH_UNHEALTHY''"
| "risk_reason_value MARKET_CLOSED = ''MARKET_CLOSED''"
| "risk_reason_value INSTRUMENT_NOT_TRADABLE = ''INSTRUMENT_NOT_TRADABLE''"
| "risk_reason_value INVALID_PRICE = ''INVALID_PRICE''"
| "risk_reason_value INVALID_QUANTITY = ''INVALID_QUANTITY''"
| "risk_reason_value ORDER_NOTIONAL_LIMIT = ''ORDER_NOTIONAL_LIMIT''"
| "risk_reason_value INSUFFICIENT_CASH = ''INSUFFICIENT_CASH''"
| "risk_reason_value POSITION_NOTIONAL_LIMIT = ''POSITION_NOTIONAL_LIMIT''"
| "risk_reason_value INSUFFICIENT_POSITION = ''INSUFFICIENT_POSITION''"
| "risk_reason_value PENDING_ORDER_DUPLICATE = ''PENDING_ORDER_DUPLICATE''"
| "risk_reason_value DAILY_LOSS_LIMIT = ''DAILY_LOSS_LIMIT''"
| "risk_reason_value DAILY_BUY_NOTIONAL_LIMIT = ''DAILY_BUY_NOTIONAL_LIMIT''"
| "risk_reason_value BOOK_UNAVAILABLE = ''BOOK_UNAVAILABLE''"
| "risk_reason_value BOOK_STALE = ''BOOK_STALE''"

lemma risk_reason_value_inj [simp]: "risk_reason_value a = risk_reason_value b \<longleftrightarrow> a = b"
  by (cases a; cases b) simp_all

text \<open>The gate sorts reasons by their string value: the order of the type.\<close>

instantiation risk_reason :: linorder
begin

definition less_eq_risk_reason :: "risk_reason \<Rightarrow> risk_reason \<Rightarrow> bool" where
  "less_eq_risk_reason a b \<longleftrightarrow> risk_reason_value a \<le> risk_reason_value b"

definition less_risk_reason :: "risk_reason \<Rightarrow> risk_reason \<Rightarrow> bool" where
  "less_risk_reason a b \<longleftrightarrow> risk_reason_value a < risk_reason_value b"

instance
  by standard (auto simp: less_eq_risk_reason_def less_risk_reason_def order_less_le)

end

primrec exit_reason_value :: "exit_reason \<Rightarrow> string" where
  "exit_reason_value STOP_LOSS = ''STOP_LOSS''"
| "exit_reason_value ATR_STOP = ''ATR_STOP''"
| "exit_reason_value END_OF_DAY = ''END_OF_DAY''"
| "exit_reason_value THESIS_INVALID = ''THESIS_INVALID''"
| "exit_reason_value TIME_DECAY = ''TIME_DECAY''"
| "exit_reason_value TAKE_PROFIT = ''TAKE_PROFIT''"
| "exit_reason_value RISK_GATE = ''RISK_GATE''"
| "exit_reason_value MANUAL_EXIT = ''MANUAL''"

primrec recommendation_status_value :: "recommendation_status \<Rightarrow> string" where
  "recommendation_status_value REC_ACTIVE = ''ACTIVE''"
| "recommendation_status_value RESOLVED_ON_CLOSE = ''RESOLVED_ON_CLOSE''"

section \<open>Order commands\<close>

record order_command =
  oc_command_id :: string
  oc_session_id :: string
  oc_origin :: command_origin
  oc_symbol :: string
  oc_side :: command_side
  oc_quantity_shares :: int
  oc_limit_price :: rat
  oc_idempotency_key :: string
  oc_requested_at :: datetime
  oc_strategy_id :: "string option"
  oc_strategy_version :: "string option"
  oc_attempt :: int
  oc_predecessor_order_id :: "string option"
  oc_exposure :: "exposure_identity option"
  oc_position_action :: "position_action option"
  oc_target_exposure_id :: "string option"
  oc_execution_reason_category :: "execution_reason_category option"
  oc_execution_reason_code :: "string option"

text \<open>\<open>not (value or "").strip()\<close> of an optional string.\<close>

definition opt_blank :: "string option \<Rightarrow> bool" where
  "opt_blank v = (case v of None \<Rightarrow> True | Some s \<Rightarrow> blank s)"

definition order_command_identity_check :: "order_command \<Rightarrow> unit res" where
  "order_command_identity_check c =
     (case require_non_empty [(oc_command_id c, ''command_id''), (oc_session_id c, ''session_id''),
         (oc_symbol c, ''symbol''), (oc_idempotency_key c, ''idempotency_key'')]
        of Inl e \<Rightarrow> Inl e | Inr _ \<Rightarrow>
      if oc_symbol c \<noteq> py_upper (py_strip (oc_symbol c))
      then Inl (ValueError ''symbol must be normalized'')
      else if \<not> dt_aware (oc_requested_at c)
      then Inl (ValueError ''requested_at must be timezone-aware'')
      else if oc_origin c = STRATEGY_AUTOMATED \<and> opt_blank (oc_strategy_id c)
      then Inl (ValueError ''automated strategy command requires strategy_id'')
      else if oc_origin c = STRATEGY_AUTOMATED \<and> opt_blank (oc_strategy_version c)
      then Inl (ValueError ''automated strategy command requires strategy_version'')
      else if oc_origin c \<noteq> STRATEGY_AUTOMATED
              \<and> (oc_strategy_id c \<noteq> None \<or> oc_strategy_version c \<noteq> None)
      then Inl (ValueError ''manual command must not carry strategy identity'')
      else if oc_attempt c \<le> 0 then Inl (ValueError ''attempt must be positive'')
      else if (oc_attempt c = 1) \<noteq> (oc_predecessor_order_id c = None)
      then Inl (ValueError ''predecessor_order_id must match retry attempt'')
      else Inr ())"

definition order_command_exposure_check :: "order_command \<Rightarrow> unit res" where
  "order_command_exposure_check c =
     (case oc_exposure c of
        None \<Rightarrow>
          if oc_position_action c \<noteq> None \<or> oc_target_exposure_id c \<noteq> None
             \<or> oc_execution_reason_category c \<noteq> None \<or> oc_execution_reason_code c \<noteq> None
          then Inl (ValueError ''v1 command must not carry partial exposure identity'')
          else Inr ()
      | Some x \<Rightarrow>
          if ei_owner_origin x \<noteq> origin_value (oc_origin c)
          then Inl (ValueError ''exposure owner_origin must match command origin'')
          else if oc_origin c = STRATEGY_AUTOMATED \<and> Some (ei_owner_id x) \<noteq> oc_strategy_id c
          then Inl (ValueError ''strategy exposure owner_id must match strategy_id'')
          else if oc_position_action c = None
          then Inl (ValueError ''v2 command requires position_action'')
          else if oc_execution_reason_category c = None
          then Inl (ValueError ''v2 command requires execution_reason_category'')
          else if opt_blank (oc_execution_reason_code c)
          then Inl (ValueError ''v2 command requires execution_reason_code'')
          else if oc_execution_reason_code c
                  \<noteq> map_option (\<lambda>s. py_upper (py_strip s)) (oc_execution_reason_code c)
          then Inl (ValueError ''execution_reason_code must be normalized'')
          else (case oc_side c of
                  BUY \<Rightarrow>
                    if oc_position_action c \<noteq> Some OPEN_LONG
                    then Inl (ValueError ''BUY requires OPEN_LONG'')
                    else if oc_target_exposure_id c \<noteq> None
                    then Inl (ValueError ''OPEN_LONG must not carry target_exposure_id'')
                    else Inr ()
                | SELL \<Rightarrow>
                    if oc_position_action c \<noteq> Some CLOSE_LONG
                    then Inl (ValueError ''SELL requires CLOSE_LONG'')
                    else if oc_target_exposure_id c \<noteq> Some (ei_exposure_id x)
                    then Inl (ValueError ''target_exposure_id must match exposure identity'')
                    else Inr ()))"

definition order_command_post_init :: "order_command \<Rightarrow> unit res" where
  "order_command_post_init c =
     (case order_command_identity_check c of Inl e \<Rightarrow> Inl e | Inr _ \<Rightarrow>
      order_command_exposure_check c)"

definition order_command_schema_version :: "order_command \<Rightarrow> string" where
  "order_command_schema_version c =
     (if oc_exposure c \<noteq> None then ''order-command-v2'' else ''order-command-v1'')"

section \<open>Policy and snapshot\<close>

record risk_policy =
  rp_version :: string
  rp_allow_strategy_origin :: bool
  rp_max_order_notional :: rat
  rp_max_position_notional :: rat
  rp_max_daily_loss :: rat
  rp_max_daily_buy_notional :: "rat option"
  rp_commission_rate :: rat
  rp_minimum_commission :: rat
  rp_commission_rounding_policy :: string
  rp_require_fresh_book :: bool
  rp_max_book_age_seconds :: int
  rp_fresh_book_sides :: "command_side set"

definition risk_policy_post_init :: "risk_policy \<Rightarrow> unit res" where
  "risk_policy_post_init p =
     (if blank (rp_version p) then Inl (ValueError ''risk policy version must not be empty'')
      else if rp_max_order_notional p \<le> 0
      then Inl (ValueError ''max_order_notional must be positive'')
      else if rp_max_position_notional p \<le> 0
      then Inl (ValueError ''max_position_notional must be positive'')
      else if rp_max_daily_loss p \<le> 0 then Inl (ValueError ''max_daily_loss must be positive'')
      else if (case rp_max_daily_buy_notional p of None \<Rightarrow> False | Some m \<Rightarrow> m \<le> 0)
      then Inl (ValueError ''max_daily_buy_notional must be positive'')
      else if \<not> (0 \<le> rp_commission_rate p \<and> rp_commission_rate p \<le> 1 / 100)
      then Inl (ValueError ''commission_rate must be between 0 and 0.01'')
      else if rp_minimum_commission p < 0
      then Inl (ValueError ''minimum_commission must not be negative'')
      else if rp_commission_rounding_policy p
              \<notin> {COMMISSION_ROUNDING_HALF_UP_CENTS, COMMISSION_ROUNDING_TWD_DOWN}
      then Inl (ValueError ''unsupported commission_rounding_policy'')
      else if rp_max_book_age_seconds p < 0
      then Inl (ValueError ''max_book_age_seconds must not be negative'')
      else Inr ())"

definition risk_policy_payload :: "risk_policy \<Rightarrow> json" where
  "risk_policy_payload p = JObj
     ([(''version'', JStr (rp_version p)),
       (''allow_strategy_origin'', JBool (rp_allow_strategy_origin p)),
       (''max_order_notional'', JDec (rp_max_order_notional p)),
       (''max_position_notional'', JDec (rp_max_position_notional p)),
       (''max_daily_loss'', JDec (rp_max_daily_loss p)),
       (''require_fresh_book'', JBool (rp_require_fresh_book p)),
       (''max_book_age_seconds'', JInt (rp_max_book_age_seconds p)),
       (''fresh_book_sides'', JList
          (map (JStr \<circ> side_value) (filter (\<lambda>s. s \<in> rp_fresh_book_sides p) [BUY, SELL])))]
      @ (case rp_max_daily_buy_notional p of None \<Rightarrow> []
         | Some m \<Rightarrow> [(''max_daily_buy_notional'', JDec m)])
      @ (if rp_commission_rate p \<noteq> 0 \<or> rp_minimum_commission p \<noteq> 0
         then [(''commission_rate'', JDec (rp_commission_rate p)),
               (''minimum_commission'', JDec (rp_minimum_commission p))]
              @ (if rp_commission_rounding_policy p \<noteq> COMMISSION_ROUNDING_HALF_UP_CENTS
                 then [(''commission_rounding_policy'', JStr (rp_commission_rounding_policy p))]
                 else [])
         else []))"

definition policy_digest :: "(json \<Rightarrow> string) \<Rightarrow> risk_policy \<Rightarrow> string" where
  "policy_digest sha p = sha (risk_policy_payload p)"

record risk_snapshot =
  rs_data_health_state :: string
  rs_market_open :: bool
  rs_instrument_tradable :: bool
  rs_available_cash :: rat
  rs_current_position_shares :: int
  rs_pending_buy_shares :: int
  rs_pending_sell_shares :: int
  rs_daily_realized_pnl :: rat
  rs_daily_filled_buy_notional :: rat
  rs_pending_buy_notional :: rat
  rs_same_side_pending_order :: bool
  rs_book_age_seconds :: "int option"
  rs_daily_loss :: "rat option"

definition risk_snapshot_post_init :: "risk_snapshot \<Rightarrow> unit res" where
  "risk_snapshot_post_init s =
     (if min (min (rs_current_position_shares s) (rs_pending_buy_shares s))
            (rs_pending_sell_shares s) < 0
      then Inl (ValueError ''position and pending quantities must not be negative'')
      else if (case rs_daily_loss s of None \<Rightarrow> False | Some l \<Rightarrow> l < 0)
      then Inl (ValueError ''daily_loss must not be negative'')
      else if min (rs_daily_filled_buy_notional s) (rs_pending_buy_notional s) < 0
      then Inl (ValueError ''daily BUY notional values must not be negative'')
      else Inr ())"

record risk_decision =
  rd_status :: risk_decision_status
  rd_reasons :: "risk_reason list"
  rd_approved_quantity_shares :: int
  rd_policy_version :: string
  rd_evaluated_at :: datetime

section \<open>The gate\<close>

definition gate_commission :: "risk_policy \<Rightarrow> rat \<Rightarrow> rat res" where
  "gate_commission p notional =
     (let down = (rp_commission_rounding_policy p = COMMISSION_ROUNDING_TWD_DOWN);
          quantum = (if down then 1 else 1 / 100);
          rounding = (if down then quantize_down else quantize_half_up)
      in case quantize_checked rounding quantum (dec_mul notional (rp_commission_rate p))
           of Inl e \<Rightarrow> Inl e
         | Inr c \<Rightarrow> Inr (max (rp_minimum_commission p) c))"

definition effective_daily_loss :: "risk_snapshot \<Rightarrow> rat" where
  "effective_daily_loss s =
     (case rs_daily_loss s of Some l \<Rightarrow> l | None \<Rightarrow> max 0 (- rs_daily_realized_pnl s))"

definition book_reasons :: "risk_policy \<Rightarrow> risk_snapshot \<Rightarrow> command_side \<Rightarrow> risk_reason list" where
  "book_reasons p s side =
     (if rp_require_fresh_book p \<and> side \<in> rp_fresh_book_sides p
      then (case rs_book_age_seconds s of
              None \<Rightarrow> [BOOK_UNAVAILABLE]
            | Some a \<Rightarrow> if a > rp_max_book_age_seconds p then [BOOK_STALE] else [])
      else [])"

definition market_reasons :: "risk_snapshot \<Rightarrow> risk_reason list" where
  "market_reasons s =
     (if rs_data_health_state s \<noteq> ''HEALTHY'' then [DATA_HEALTH_UNHEALTHY] else [])
     @ (if \<not> rs_market_open s then [MARKET_CLOSED] else [])
     @ (if \<not> rs_instrument_tradable s then [INSTRUMENT_NOT_TRADABLE] else [])"

definition gate_blocked :: "risk_policy \<Rightarrow> order_command \<Rightarrow> risk_snapshot \<Rightarrow> risk_reason list" where
  "gate_blocked p c s =
     (if oc_side c = BUY \<and> oc_origin c = STRATEGY_AUTOMATED \<and> \<not> rp_allow_strategy_origin p
      then [STRATEGY_ORIGIN_DISABLED] else [])
     @ market_reasons s
     @ (if oc_side c = BUY \<and> effective_daily_loss s \<ge> rp_max_daily_loss p
        then [DAILY_LOSS_LIMIT] else [])
     @ (if rs_same_side_pending_order s then [PENDING_ORDER_DUPLICATE] else [])
     @ book_reasons p s (oc_side c)"

definition gate_rejected ::
  "risk_policy \<Rightarrow> order_command \<Rightarrow> risk_snapshot \<Rightarrow> risk_reason list res" where
  "gate_rejected p c s =
     (let quantity = oc_quantity_shares c;
          price = oc_limit_price c;
          basic = (if quantity \<le> 0 then [INVALID_QUANTITY] else [])
                  @ (if price \<le> 0 then [INVALID_PRICE] else []);
          notional = dec_mul (of_int quantity) price
      in if oc_side c = BUY
         then (case gate_commission p notional of Inl e \<Rightarrow> Inl e | Inr commission \<Rightarrow>
           Inr (basic
             @ (case rp_max_daily_buy_notional p of
                  None \<Rightarrow> []
                | Some m \<Rightarrow>
                    if dec_add (dec_add (rs_daily_filled_buy_notional s)
                          (rs_pending_buy_notional s)) notional > m
                    then [DAILY_BUY_NOTIONAL_LIMIT] else [])
             @ (if notional > rp_max_order_notional p then [ORDER_NOTIONAL_LIMIT] else [])
             @ (if dec_add notional commission > rs_available_cash s
                then [INSUFFICIENT_CASH] else [])
             @ (if dec_mul (of_int (rs_current_position_shares s + rs_pending_buy_shares s
                      + quantity)) price > rp_max_position_notional p
                then [POSITION_NOTIONAL_LIMIT] else [])))
         else Inr (basic
           @ (if quantity > rs_current_position_shares s - rs_pending_sell_shares s
              then [INSUFFICIENT_POSITION] else [])))"

definition gate_decision ::
  "risk_policy \<Rightarrow> risk_decision_status \<Rightarrow> risk_reason list \<Rightarrow> datetime \<Rightarrow> int \<Rightarrow> risk_decision" where
  "gate_decision p status reasons now quantity =
     \<lparr>rd_status = status, rd_reasons = sort reasons, rd_approved_quantity_shares = quantity,
      rd_policy_version = rp_version p, rd_evaluated_at = now\<rparr>"

definition gate_evaluate ::
  "risk_policy \<Rightarrow> order_command \<Rightarrow> risk_snapshot \<Rightarrow> datetime \<Rightarrow> risk_decision res" where
  "gate_evaluate p c s now =
     (if \<not> dt_aware now then Inl (ValueError ''evaluated_at must be timezone-aware'')
      else
      let blocked = gate_blocked p c s
      in case gate_rejected p c s of Inl e \<Rightarrow> Inl e | Inr rejected \<Rightarrow>
         if blocked \<noteq> [] then Inr (gate_decision p BLOCKED blocked now 0)
         else if rejected \<noteq> [] then Inr (gate_decision p REJECTED rejected now 0)
         else Inr (gate_decision p APPROVED [] now (oc_quantity_shares c)))"

section \<open>Exit eligibility\<close>

record eligibility_context =
  ec_snapshot_id :: string
  ec_session_id :: string
  ec_trade_id :: string
  ec_thesis_id :: string
  ec_snapshot :: risk_snapshot
  ec_evaluated_at :: datetime

definition eligibility_context_post_init :: "eligibility_context \<Rightarrow> unit res" where
  "eligibility_context_post_init x =
     (case require_non_empty [(ec_snapshot_id x, ''snapshot_id''), (ec_session_id x, ''session_id''),
         (ec_trade_id x, ''trade_id''), (ec_thesis_id x, ''thesis_id'')] of Inl e \<Rightarrow> Inl e
      | Inr _ \<Rightarrow> if \<not> dt_aware (ec_evaluated_at x)
                then Inl (ValueError ''evaluated_at must be timezone-aware'') else Inr ())"

record execution_eligibility =
  el_eligibility_id :: string
  el_recommendation_id :: string
  el_session_id :: string
  el_trade_id :: string
  el_thesis_id :: string
  el_status :: eligibility_status
  el_reasons :: "risk_reason list"
  el_eligible_quantity_shares :: int
  el_gate_version :: string
  el_policy_version :: string
  el_evaluated_at :: datetime
  el_input_digest :: string

definition eligibility_post_init :: "execution_eligibility \<Rightarrow> unit res" where
  "eligibility_post_init x =
     (case require_non_empty [(el_eligibility_id x, ''eligibility_id''),
         (el_recommendation_id x, ''recommendation_id''), (el_session_id x, ''session_id''),
         (el_trade_id x, ''trade_id''), (el_thesis_id x, ''thesis_id''),
         (el_gate_version x, ''gate_version''), (el_policy_version x, ''policy_version'')]
        of Inl e \<Rightarrow> Inl e | Inr _ \<Rightarrow>
      if \<not> is_sha256 (el_input_digest x)
      then Inl (ValueError ''input_digest must be a lowercase SHA-256 hex digest'')
      else if \<not> distinct (el_reasons x)
      then Inl (ValueError ''reasons must not contain duplicates'')
      else if \<not> dt_aware (el_evaluated_at x)
      then Inl (ValueError ''evaluated_at must be timezone-aware'')
      else if el_status x = EL_ELIGIBLE
      then (if el_reasons x \<noteq> [] \<or> el_eligible_quantity_shares x \<le> 0
            then Inl (ValueError ''ELIGIBLE requires positive quantity and no reasons'')
            else Inr ())
      else if el_eligible_quantity_shares x \<noteq> 0 \<or> el_reasons x = []
      then Inl (ValueError
        ''non-eligible status requires zero quantity and at least one reason'')
      else Inr ())"

definition eligibility_input_payload ::
  "exit_recommendation \<Rightarrow> eligibility_context \<Rightarrow> risk_policy \<Rightarrow> json" where
  "eligibility_input_payload r x p =
     (let s = ec_snapshot x
      in JObj
        [(''identity_version'', JStr EXIT_ELIGIBILITY_ID_VERSION),
         (''gate_version'', JStr RISK_GATE_VERSION),
         (''recommendation'', JObj
           [(''recommendation_id'', JStr (xr_recommendation_id r)),
            (''session_id'', JStr (xr_session_id r)), (''trade_id'', JStr (xr_trade_id r)),
            (''thesis_id'', JStr (xr_thesis_id r)),
            (''exit_policy_version'', JStr (xr_exit_policy_version r)),
            (''status'', JStr (recommendation_status_value (xr_status r))),
            (''primary_reason'', JStr (exit_reason_value (xr_primary_reason r))),
            (''triggered_reasons'',
               JList (map (JStr \<circ> exit_reason_value) (xr_triggered_reasons r))),
            (''updated_at'', JTime (tt_value (xr_updated_at r)))]),
         (''context'', JObj
           [(''snapshot_id'', JStr (ec_snapshot_id x)), (''session_id'', JStr (ec_session_id x)),
            (''trade_id'', JStr (ec_trade_id x)), (''thesis_id'', JStr (ec_thesis_id x)),
            (''evaluated_at'', JTime (ec_evaluated_at x)),
            (''snapshot'', JObj
              [(''data_health_state'', JStr (rs_data_health_state s)),
               (''market_open'', JBool (rs_market_open s)),
               (''instrument_tradable'', JBool (rs_instrument_tradable s)),
               (''available_cash'', JDec (rs_available_cash s)),
               (''current_position_shares'', JInt (rs_current_position_shares s)),
               (''pending_buy_shares'', JInt (rs_pending_buy_shares s)),
               (''pending_sell_shares'', JInt (rs_pending_sell_shares s)),
               (''daily_realized_pnl'', JDec (rs_daily_realized_pnl s)),
               (''daily_loss'', jopt JDec (rs_daily_loss s)),
               (''same_side_pending_order'', JBool (rs_same_side_pending_order s)),
               (''book_age_seconds'', jopt JInt (rs_book_age_seconds s))])]),
         (''policy'', risk_policy_payload p)])"

definition eligibility_id ::
  "(json \<Rightarrow> string) \<Rightarrow> exit_recommendation \<Rightarrow> eligibility_context \<Rightarrow> string \<Rightarrow> string" where
  "eligibility_id sha r x digest = ''exit_eligibility_v1_'' @ sha (JList
     [JStr EXIT_ELIGIBILITY_ID_VERSION, JStr (xr_recommendation_id r), JStr (ec_snapshot_id x),
      JStr digest])"

definition mk_eligibility :: "execution_eligibility \<Rightarrow> execution_eligibility res" where
  "mk_eligibility x = (case eligibility_post_init x of Inl e \<Rightarrow> Inl e | Inr _ \<Rightarrow> Inr x)"

definition exit_blocked :: "risk_policy \<Rightarrow> risk_snapshot \<Rightarrow> risk_reason list" where
  "exit_blocked p s =
     market_reasons s
     @ (if rs_same_side_pending_order s then [PENDING_ORDER_DUPLICATE] else [])
     @ book_reasons p s SELL"

definition gate_evaluate_exit ::
  "(json \<Rightarrow> string) \<Rightarrow> risk_policy \<Rightarrow> exit_recommendation \<Rightarrow> eligibility_context
     \<Rightarrow> execution_eligibility res" where
  "gate_evaluate_exit sha p r x =
     (if xr_status r \<noteq> REC_ACTIVE
      then Inl (ValueError ''exit eligibility requires an ACTIVE recommendation'')
      else if ec_session_id x \<noteq> xr_session_id r
      then Inl (ValueError ''context session_id does not match recommendation'')
      else if ec_trade_id x \<noteq> xr_trade_id r
      then Inl (ValueError ''context trade_id does not match recommendation'')
      else if ec_thesis_id x \<noteq> xr_thesis_id r
      then Inl (ValueError ''context thesis_id does not match recommendation'')
      else if instant (ec_evaluated_at x) < tt_instant (xr_updated_at r)
      then Inl (ValueError ''eligibility evaluated_at cannot predate recommendation'')
      else
      let s = ec_snapshot x;
          blocked = exit_blocked p s;
          available = rs_current_position_shares s - rs_pending_sell_shares s;
          digest = sha (eligibility_input_payload r x p);
          result = (\<lambda>status reasons quantity.
            \<lparr>el_eligibility_id = eligibility_id sha r x digest,
             el_recommendation_id = xr_recommendation_id r, el_session_id = xr_session_id r,
             el_trade_id = xr_trade_id r, el_thesis_id = xr_thesis_id r, el_status = status,
             el_reasons = reasons, el_eligible_quantity_shares = quantity,
             el_gate_version = RISK_GATE_VERSION, el_policy_version = rp_version p,
             el_evaluated_at = ec_evaluated_at x, el_input_digest = digest\<rparr>)
      in if blocked \<noteq> [] then mk_eligibility (result EL_BLOCKED (sort blocked) 0)
         else if available \<le> 0
         then mk_eligibility (result EL_INELIGIBLE [INSUFFICIENT_POSITION] 0)
         else mk_eligibility (result EL_ELIGIBLE [] available))"

section \<open>Properties of the gate\<close>

lemma gate_evaluate_cases:
  "gate_evaluate p c s now = Inr d \<longleftrightarrow>
     dt_aware now \<and> (\<exists>rejected. gate_rejected p c s = Inr rejected \<and>
       d = (if gate_blocked p c s \<noteq> [] then gate_decision p BLOCKED (gate_blocked p c s) now 0
            else if rejected \<noteq> [] then gate_decision p REJECTED rejected now 0
            else gate_decision p APPROVED [] now (oc_quantity_shares c)))"
proof (cases "gate_rejected p c s")
  case (Inr rejected)
  show ?thesis unfolding Inr
    by (cases "gate_blocked p c s = []"; cases "rejected = []")
      (auto simp: gate_evaluate_def Let_def Inr)
qed (simp add: gate_evaluate_def)

lemma approved_iff:
  assumes "gate_evaluate p c s now = Inr d"
  shows "rd_status d = APPROVED \<longleftrightarrow> gate_blocked p c s = [] \<and> gate_rejected p c s = Inr []"
    and "rd_approved_quantity_shares d
      = (if rd_status d = APPROVED then oc_quantity_shares c else 0)"
    and "rd_status d = APPROVED \<longleftrightarrow> rd_reasons d = []"
proof -
  obtain rejected where r: "gate_rejected p c s = Inr rejected"
    and d: "d = (if gate_blocked p c s \<noteq> [] then gate_decision p BLOCKED (gate_blocked p c s) now 0
            else if rejected \<noteq> [] then gate_decision p REJECTED rejected now 0
            else gate_decision p APPROVED [] now (oc_quantity_shares c))"
    using assms gate_evaluate_cases by blast
  have sort_Nil: "sort xs = [] \<longleftrightarrow> xs = []" for xs :: "risk_reason list"
    by (metis length_sort length_0_conv)
  show "rd_status d = APPROVED \<longleftrightarrow> gate_blocked p c s = [] \<and> gate_rejected p c s = Inr []"
    using r by (simp add: d gate_decision_def)
  show "rd_approved_quantity_shares d = (if rd_status d = APPROVED then oc_quantity_shares c else 0)"
    by (simp add: d gate_decision_def)
  show "rd_status d = APPROVED \<longleftrightarrow> rd_reasons d = []"
    by (simp add: d gate_decision_def sort_Nil)
qed

lemma sell_rejected:
  "oc_side c = SELL \<Longrightarrow> \<exists>r. gate_rejected p c s = Inr r \<and>
     (r = [] \<longleftrightarrow> 0 < oc_quantity_shares c \<and> 0 < oc_limit_price c
        \<and> oc_quantity_shares c \<le> rs_current_position_shares s - rs_pending_sell_shares s)"
  by (auto simp: gate_rejected_def Let_def not_le not_less)

lemma sell_blocked: "oc_side c = SELL \<Longrightarrow> gate_blocked p c s = exit_blocked p s"
  by (simp add: gate_blocked_def exit_blocked_def)

lemma exit_blocked_distinct: "distinct (exit_blocked p s)"
  by (auto simp: exit_blocked_def market_reasons_def book_reasons_def split: option.splits)


text \<open>
  What a BUY needs, read off the gate: no blocking reason, and every limit respected.
\<close>

lemma buy_rejected_Nil:
  assumes "oc_side c = BUY"
  shows "gate_rejected p c s = Inr [] \<longleftrightarrow>
    0 < oc_quantity_shares c \<and> 0 < oc_limit_price c
    \<and> (case rp_max_daily_buy_notional p of None \<Rightarrow> True
       | Some m \<Rightarrow> dec_add (dec_add (rs_daily_filled_buy_notional s) (rs_pending_buy_notional s))
            (dec_mul (of_int (oc_quantity_shares c)) (oc_limit_price c)) \<le> m)
    \<and> dec_mul (of_int (oc_quantity_shares c)) (oc_limit_price c) \<le> rp_max_order_notional p
    \<and> (\<exists>k. gate_commission p (dec_mul (of_int (oc_quantity_shares c)) (oc_limit_price c)) = Inr k
         \<and> dec_add (dec_mul (of_int (oc_quantity_shares c)) (oc_limit_price c)) k
             \<le> rs_available_cash s)
    \<and> dec_mul (of_int (rs_current_position_shares s + rs_pending_buy_shares s
         + oc_quantity_shares c)) (oc_limit_price c) \<le> rp_max_position_notional p"
proof (cases "gate_commission p (dec_mul (of_int (oc_quantity_shares c)) (oc_limit_price c))")
  case (Inl e)
  then show ?thesis using assms by (simp add: gate_rejected_def Let_def)
next
  case (Inr k)
  have "Inr xs = Inr [] \<longleftrightarrow> xs = []" for xs :: "risk_reason list" by simp
  then show ?thesis using assms
    by (cases "rp_max_daily_buy_notional p") (auto simp: gate_rejected_def Let_def Inr not_less)
qed

lemma quantize_checked_mono:
  assumes "\<And>a b. 0 \<le> a \<Longrightarrow> a \<le> b \<Longrightarrow> f q a \<le> f q b" and "\<And>a. 0 \<le> a \<Longrightarrow> 0 \<le> f q a"
    and "0 < q" and "0 \<le> x" and "x \<le> y" and "quantize_checked f q y = Inr v"
  shows "\<exists>u. quantize_checked f q x = Inr u \<and> u \<le> v \<and> 0 \<le> u"
proof -
  have m: "f q x \<le> f q y" "0 \<le> f q x" using assms by auto
  then have "dec_abs (f q x / q) \<le> dec_abs (f q y / q)"
    using assms(3) by (simp add: dec_abs_def divide_right_mono divide_less_0_iff)
  then show ?thesis using assms(6) m
    by (auto simp: quantize_checked_def Let_def split: if_splits)
qed

lemma gate_commission_mono:
  assumes "0 \<le> rp_commission_rate p" and "0 \<le> a" and "a \<le> b" and "gate_commission p b = Inr v"
  shows "\<exists>u. gate_commission p a = Inr u \<and> u \<le> v"
proof -
  define f where "f = (if rp_commission_rounding_policy p = COMMISSION_ROUNDING_TWD_DOWN
    then quantize_down else quantize_half_up)"
  define q :: rat where "q = (if rp_commission_rounding_policy p = COMMISSION_ROUNDING_TWD_DOWN
    then 1 else 1 / 100)"
  have eq: "gate_commission p n =
      (case quantize_checked f q (dec_mul n (rp_commission_rate p)) of Inl e \<Rightarrow> Inl e
       | Inr c \<Rightarrow> Inr (max (rp_minimum_commission p) c))" for n
    by (simp add: gate_commission_def Let_def f_def q_def)
  have q: "0 < q" by (simp add: q_def)
  have m: "f q x \<le> f q y" if "0 \<le> x" "x \<le> y" for x y
    using that q by (simp add: f_def quantize_down_mono quantize_half_up_mono)
  have n: "0 \<le> f q x" if "0 \<le> x" for x
    using that q by (simp add: f_def quantize_down_nonneg quantize_half_up_nonneg)
  have xy: "0 \<le> dec_mul a (rp_commission_rate p)"
    "dec_mul a (rp_commission_rate p) \<le> dec_mul b (rp_commission_rate p)"
    using assms(1-3) by (auto simp: dec_mul_def intro!: round28_nonneg round28_mono mult_right_mono)
  obtain w where w: "quantize_checked f q (dec_mul b (rp_commission_rate p)) = Inr w"
    "v = max (rp_minimum_commission p) w"
    using assms(4) by (auto simp: eq res_simps)
  obtain u where "quantize_checked f q (dec_mul a (rp_commission_rate p)) = Inr u" "u \<le> w"
    using quantize_checked_mono [OF m n q xy w(1)] by blast
  then show ?thesis by (auto simp: eq w(2))
qed

text \<open>A snapshot with at least as much room: more cash, less exposure, no worse market.\<close>

definition no_worse_snapshot :: "risk_snapshot \<Rightarrow> risk_snapshot \<Rightarrow> bool" where
  "no_worse_snapshot s t \<longleftrightarrow>
     rs_data_health_state t = rs_data_health_state s \<and> (rs_market_open s \<longrightarrow> rs_market_open t)
     \<and> (rs_instrument_tradable s \<longrightarrow> rs_instrument_tradable t)
     \<and> (rs_same_side_pending_order t \<longrightarrow> rs_same_side_pending_order s)
     \<and> rs_available_cash s \<le> rs_available_cash t
     \<and> rs_current_position_shares t + rs_pending_buy_shares t
         \<le> rs_current_position_shares s + rs_pending_buy_shares s
     \<and> rs_daily_filled_buy_notional t \<le> rs_daily_filled_buy_notional s
     \<and> rs_pending_buy_notional t \<le> rs_pending_buy_notional s
     \<and> effective_daily_loss t \<le> effective_daily_loss s
     \<and> (case rs_book_age_seconds s of None \<Rightarrow> True
        | Some a \<Rightarrow> (\<exists>b. rs_book_age_seconds t = Some b \<and> b \<le> a))"

lemma unblocked_no_worse:
  assumes "gate_blocked p c s = []" and "no_worse_snapshot s t"
    and "oc_side e = oc_side c" and "oc_origin e = oc_origin c"
  shows "gate_blocked p e t = []"
  using assms
  by (auto simp: gate_blocked_def market_reasons_def book_reasons_def no_worse_snapshot_def
      split: if_splits option.splits)

text \<open>
  C6. Approval of a BUY is monotone: an approved order stays approved when its quantity or its
  price shrinks and the snapshot leaves no less room (more cash, less exposure, a fresher book,
  a smaller loss), whatever the commission rounding. A split or a repriced order is never
  refused where the whole was accepted.
\<close>

theorem buy_approval_monotone:
  assumes "gate_evaluate p c s now = Inr d" and "rd_status d = APPROVED" and "oc_side c = BUY"
    and "is_ok (risk_policy_post_init p)" and "is_ok (risk_snapshot_post_init t)"
    and "no_worse_snapshot s t"
    and "0 < q" and "q \<le> oc_quantity_shares c" and "0 < price" and "price \<le> oc_limit_price c"
  shows "\<exists>d'. gate_evaluate p (c\<lparr>oc_quantity_shares := q, oc_limit_price := price\<rparr>) t now = Inr d'
     \<and> rd_status d' = APPROVED \<and> rd_approved_quantity_shares d' = q"
proof -
  let ?e = "c\<lparr>oc_quantity_shares := q, oc_limit_price := price\<rparr>"
  let ?n = "dec_mul (of_int (oc_quantity_shares c)) (oc_limit_price c)"
  let ?m = "dec_mul (of_int q) price"
  have ok: "gate_blocked p c s = []" "gate_rejected p c s = Inr []" "dt_aware now"
    using approved_iff(1) [OF assms(1)] assms(1,2) by (auto simp: gate_evaluate_cases)
  note r = ok(2) [unfolded buy_rejected_Nil [OF assms(3)]]
  have le: "0 \<le> ?m" "?m \<le> ?n"
    using assms(7-10) by (auto simp: dec_mul_def intro!: round28_nonneg round28_mono mult_mono)
  have rate: "0 \<le> rp_commission_rate p"
    using assms(4) by (auto simp: risk_policy_post_init_def is_ok_iff split: if_splits)
  have t: "0 \<le> rs_current_position_shares t" "0 \<le> rs_pending_buy_shares t"
    "0 \<le> rs_daily_filled_buy_notional t" "0 \<le> rs_pending_buy_notional t"
    using assms(5) by (auto simp: risk_snapshot_post_init_def is_ok_iff split: if_splits)
  obtain k where k: "gate_commission p ?n = Inr k" "dec_add ?n k \<le> rs_available_cash s"
    using r by blast
  obtain j where j: "gate_commission p ?m = Inr j" "j \<le> k"
    using gate_commission_mono [OF rate le k(1)] by blast
  have j0: "0 \<le> j"
    using j(1) assms(4)
    by (auto simp: gate_commission_def risk_policy_post_init_def is_ok_iff Let_def res_simps
        le_max_iff_disj)
  have cash: "dec_add ?m j \<le> rs_available_cash t"
  proof -
    have "dec_add ?m j \<le> dec_add ?n k"
      unfolding dec_add_def using le j j0 by (intro round28_mono) auto
    then show ?thesis using k(2) assms(6) by (simp add: no_worse_snapshot_def)
  qed
  have position: "dec_mul (of_int (rs_current_position_shares t + rs_pending_buy_shares t + q)) price
      \<le> rp_max_position_notional p"
  proof -
    have "dec_mul (of_int (rs_current_position_shares t + rs_pending_buy_shares t + q)) price
      \<le> dec_mul (of_int (rs_current_position_shares s + rs_pending_buy_shares s
          + oc_quantity_shares c)) (oc_limit_price c)"
      unfolding dec_mul_def using t assms(6-10)
      by (intro round28_mono mult_mono) (auto simp: no_worse_snapshot_def simp flip: of_int_add)
    then show ?thesis using r by linarith
  qed
  have daily: "dec_add (dec_add (rs_daily_filled_buy_notional t) (rs_pending_buy_notional t)) ?m
      \<le> dec_add (dec_add (rs_daily_filled_buy_notional s) (rs_pending_buy_notional s)) ?n"
    unfolding dec_add_def using t le assms(6)
    by (intro round28_mono add_mono add_nonneg_nonneg round28_nonneg)
      (auto simp: no_worse_snapshot_def)
  have "gate_rejected p ?e t = Inr []"
    using r daily position cash j(1) le assms(3,7,9)
    by (subst buy_rejected_Nil) (auto split: option.splits)
  moreover have "gate_blocked p ?e t = []"
    using unblocked_no_worse [OF ok(1) assms(6)] by simp
  ultimately show ?thesis using ok(3) by (simp add: gate_evaluate_cases gate_decision_def)
qed


section \<open>An example policy and command\<close>

definition example_policy :: risk_policy where
  "example_policy =
     \<lparr>rp_version = ''risk-v1'', rp_allow_strategy_origin = True, rp_max_order_notional = 500000,
      rp_max_position_notional = 1000000, rp_max_daily_loss = 20000,
      rp_max_daily_buy_notional = Some 800000, rp_commission_rate = COMMISSION_RATE,
      rp_minimum_commission = 20, rp_commission_rounding_policy = COMMISSION_ROUNDING_TWD_DOWN,
      rp_require_fresh_book = True, rp_max_book_age_seconds = 15,
      rp_fresh_book_sides = {BUY, SELL}\<rparr>"

definition example_now :: datetime where
  "example_now = \<lparr>instant = 1700000000000000, utcoffset = Some 28800000000\<rparr>"

definition example_command :: "command_side \<Rightarrow> int \<Rightarrow> order_command" where
  "example_command side quantity =
     \<lparr>oc_command_id = ''c1'', oc_session_id = ''s1'', oc_origin = MANUAL_WEB,
      oc_symbol = ''2330'', oc_side = side, oc_quantity_shares = quantity,
      oc_limit_price = 100, oc_idempotency_key = ''k1'', oc_requested_at = example_now,
      oc_strategy_id = None, oc_strategy_version = None, oc_attempt = 1,
      oc_predecessor_order_id = None, oc_exposure = None, oc_position_action = None,
      oc_target_exposure_id = None, oc_execution_reason_category = None,
      oc_execution_reason_code = None\<rparr>"

definition example_snapshot :: "rat \<Rightarrow> int \<Rightarrow> risk_snapshot" where
  "example_snapshot cash position =
     \<lparr>rs_data_health_state = ''HEALTHY'', rs_market_open = True, rs_instrument_tradable = True,
      rs_available_cash = cash, rs_current_position_shares = position,
      rs_pending_buy_shares = 0, rs_pending_sell_shares = 0, rs_daily_realized_pnl = - 100,
      rs_daily_filled_buy_notional = 0, rs_pending_buy_notional = 0,
      rs_same_side_pending_order = False, rs_book_age_seconds = Some 3, rs_daily_loss = None\<rparr>"

lemmas gate_example_defs = example_policy_def example_now_def example_command_def
  example_snapshot_def

definition example_buy_decision :: risk_decision where
  "example_buy_decision = \<lparr>rd_status = APPROVED, rd_reasons = [],
     rd_approved_quantity_shares = 2000, rd_policy_version = ''risk-v1'',
     rd_evaluated_at = example_now\<rparr>"

lemma example_buy_approved:
  "gate_evaluate example_policy (example_command BUY 2000) (example_snapshot 200285 0) example_now
     = Inr example_buy_decision"
proof -
  have "fits28 200000" "fits28 285" "fits28 200285"
    using fits28_int [of 200000] fits28_int [of 285] fits28_int [of 200285] by simp_all
  then have "dec_mul 2000 100 = 200000" "dec_mul 200000 (57 / 40000) = 285"
    "dec_add 200000 285 = 200285" "dec_add 0 200000 = 200000" "dec_add 0 0 = 0"
    by (simp_all add: dec_mul_def dec_add_def round28_fits)
  then show ?thesis
    by (simp add: gate_evaluate_def gate_blocked_def gate_rejected_def gate_commission_def
        quantize_checked_def quantize_down_def trunc_rat_def dec_abs_def market_reasons_def
        book_reasons_def effective_daily_loss_def gate_decision_def gate_example_defs dt_aware_def
        example_buy_decision_def COMMISSION_RATE_def Let_def)
qed

lemma example_policy_valid: "is_ok (risk_policy_post_init example_policy)"
  by code_simp

theorem buy_approval_monotone_witness:
  "\<exists>d'. gate_evaluate example_policy
       ((example_command BUY 2000)\<lparr>oc_quantity_shares := 700, oc_limit_price := 995 / 10\<rparr>)
       (example_snapshot 300000 0) example_now = Inr d'
     \<and> rd_status d' = APPROVED \<and> rd_approved_quantity_shares d' = 700"
proof (rule buy_approval_monotone [OF example_buy_approved])
  show "is_ok (risk_policy_post_init example_policy)" by (rule example_policy_valid)
qed (simp_all add: example_buy_decision_def example_snapshot_def example_command_def
      no_worse_snapshot_def effective_daily_loss_def risk_snapshot_post_init_def)

section \<open>Approved orders can be settled\<close>

lemma cents_products:
  assumes "price = of_int m / 100" and "0 \<le> m" and "m < 10 ^ 14" and "0 \<le> q" and "q < 10 ^ 9"
  shows "dec_mul (of_int q) price = of_int q * price"
    and "dec_mul (of_int q * price) COMMISSION_RATE = of_int q * price * COMMISSION_RATE"
proof -
  have n: "0 \<le> q * m" "q * m < 10 ^ 23"
  proof -
    show "0 \<le> q * m" using assms by simp
    have "q * m \<le> 10 ^ 9 * m" using assms by (intro mult_right_mono) auto
    also have "\<dots> < 10 ^ 9 * 10 ^ 14" using assms by simp
    finally show "q * m < 10 ^ 23" by simp
  qed
  have g: "of_int q * price = of_int (q * m) / 100" by (simp add: assms(1))
  have "fits28 (of_int (q * m) / 100)" using n by (intro fits28_cents) simp
  then show "dec_mul (of_int q) price = of_int q * price"
    unfolding dec_mul_def g by (rule round28_exact) (use n(1) in \<open>simp del: of_int_mult\<close>)
  have r: "of_int q * price * COMMISSION_RATE = of_int (q * m * 1425) * 10 powi (- 8)"
    by (simp add: g COMMISSION_RATE_def power_int_minus)
  have "\<bar>z * 1425\<bar> < 10 ^ 28" if "0 \<le> z" "z < 10 ^ 23" for z :: int using that by simp
  from this [OF n] have "\<bar>q * m * 1425\<bar> < 10 ^ 28" .
  then have "fits28 (of_int (q * m * 1425) * 10 powi (- 8))" by (rule fits28_scale)
  then show "dec_mul (of_int q * price) COMMISSION_RATE = of_int q * price * COMMISSION_RATE"
    unfolding dec_mul_def r by (rule round28_exact) (use n(1) in \<open>simp del: of_int_mult\<close>)
qed

lemma cash_need_exact:
  assumes "l = of_int m / 100" and "0 < m" and "m < 10 ^ 14" and "0 < q" and "q < 10 ^ 9"
  shows "dec_add (of_int q * l) (commission_of (of_int q * l)) = of_int q * l + commission_of (of_int q * l)"
proof -
  obtain n where n: "n = q * m" by blast
  have n0: "0 < n" using n assms(2,4) by simp
  have n1: "n \<le> 10 ^ 9 * 10 ^ 14" unfolding n using assms(2-5) by (intro mult_mono) auto
  have N: "of_int q * l = of_int n / 100" by (simp add: n assms(1))
  obtain j where j: "commission_of (of_int n / 100) = of_int j" "0 \<le> j"
    using commission_of_int [of "of_int n / 100"] commission_of_nonneg [of "of_int n / 100"] by auto
  have "of_int j \<le> (of_int (10 ^ 22) :: rat)"
    unfolding j(1) [symmetric] by (rule commission_of_cents_bound) (use n0 n1 in simp_all)
  then have "j \<le> 10 ^ 22" by (simp only: of_int_le_iff)
  then show ?thesis unfolding N j(1) using n0 n1 j(2) by (intro dec_add_cents_int) auto
qed

text \<open>
  C1. The gate and the fill accounting agree on cost: with the fee schedule of the accounting
  in its policy, an approved BUY can always be paid. Any first fill of the order, of at most
  the approved shares and at any slippage-adjusted price within the limit, costs (gross plus
  commission) no more than the cash the gate saw; for orders below \<open>10 ^ 9\<close> shares and limits below
  \<open>10 ^ 12\<close> TWD, where the 28 digits of the context suffice.
\<close>

theorem approved_buy_settles:
  assumes "gate_evaluate p c s now = Inr d" and "rd_status d = APPROVED" and "oc_side c = BUY"
    and "rp_commission_rate p = COMMISSION_RATE"
    and "rp_minimum_commission p = MINIMUM_COMMISSION_TWD"
    and "rp_commission_rounding_policy p = COMMISSION_ROUNDING_TWD_DOWN"
    and "decide_fixed_adverse_slippage ES_BUY r src b (Finite (oc_limit_price c)) = Inr sd"
    and "decide_fill_accounting dig sd q (Finite 0) (Finite 0) (Finite 0) desc = Inr f"
    and "q \<le> rd_approved_quantity_shares d" and "0 \<le> sd_adjusted_price sd"
    and "oc_quantity_shares c < 10 ^ 9" and "oc_limit_price c < 10 ^ 12"
  shows "- fa_net_cash_effect f \<le> rs_available_cash s"
proof -
  let ?q = "oc_quantity_shares c" and ?l = "oc_limit_price c"
  have ok: "gate_blocked p c s = []" "gate_rejected p c s = Inr []"
    using approved_iff(1) [OF assms(1)] assms(2) by auto
  note req = ok(2) [unfolded buy_rejected_Nil [OF assms(3)]]
  note sl = slippage_decision_common [OF assms(7)]
  note fa = fill_accounting_result [OF assms(8)]
  obtain m where m: "?l = of_int m / 100" using valid_tick_cents sl(4,7) by fastforce
  have q: "0 < ?q" "0 < ?l" "q \<le> ?q" using req assms(2,9) approved_iff(2) [OF assms(1)] by auto
  have m0: "0 < m" using q(2) m by (simp add: zero_less_divide_iff)
  have m1: "m < 10 ^ 14"
  proof -
    have "(of_int m :: rat) < of_int (10 ^ 14)" using assms(12) m by simp
    then show ?thesis by (simp only: of_int_less_iff)
  qed
  let ?N = "of_int ?q * ?l"
  have N: "dec_mul (of_int ?q) ?l = ?N" "dec_mul ?N COMMISSION_RATE = ?N * COMMISSION_RATE"
    using cents_products [OF m _ m1] m0 q assms(11) by auto
  have Npos: "0 < ?N" using q by simp
  have com: "gate_commission p ?N = Inr k \<Longrightarrow> k = commission_of ?N" for k
    using N Npos assms(4-6)
    by (auto simp: gate_commission_def quantize_checked_def commission_of_def
        MONEY_QUANTUM_def Let_def split: if_splits)
  obtain k where k: "gate_commission p ?N = Inr k" "dec_add ?N k \<le> rs_available_cash s"
    using req N(1) by auto
  have k': "k = commission_of ?N" by (rule com [OF k(1)])
  have exact: "dec_add ?N k = ?N + k"
    unfolding k' by (rule cash_need_exact [OF m m0 m1 q(1) assms(11)])
  let ?g = "fa_gross_amount f"
  have adj: "sd_adjusted_price sd \<le> ?l" using fa(12) sl(4,11) by simp
  have cost: "?g = sd_adjusted_price sd * of_int q \<and> fa_commission f = commission_of ?g
      \<and> fa_net_cash_effect f = - (?g + fa_commission f)"
    using buy_fill_accounted [OF assms(7) fa(12,3) _ fa(13,14), of 0 0 0 dig] assms(8,11,12) q(3) adj
    by (auto simp: commission_of_def [of 0])
  have "?g \<le> ?N"
    unfolding cost [THEN conjunct1] using adj q(2,3) fa(3) by (simp add: mult.commute mult_mono)
  moreover have "0 \<le> ?g" unfolding cost [THEN conjunct1] using assms(10) fa(3) by simp
  ultimately have "- fa_net_cash_effect f \<le> ?N + k"
    using commission_of_mono [of ?g ?N] cost by (simp add: k')
  then show ?thesis using k(2) exact by simp
qed

theorem approved_buy_settles_witness:
  "\<exists>sd f. decide_fixed_adverse_slippage ES_BUY (Finite (998 / 10)) BEST_ASK (Finite 0) (Finite 100) = Inr sd
     \<and> decide_fill_accounting (\<lambda>_. ''digest'') sd 2000 (Finite 0) (Finite 0) (Finite 0)
         \<lparr>id_symbol = ''2330'', id_exchange_raw = ''TSE'', id_security_type_raw = ''STK'',
           id_product_category_raw = ''24'', id_product_class = COMMON_STOCK,
           id_source_identity = ''src''\<rparr> = Inr f
     \<and> - fa_net_cash_effect f \<le> 200285"
proof -
  have v: "is_valid_common_stock_tick (Finite (998 / 10))"
    by (intro valid_tickI [where m = 998]) (auto simp: tick_band_def)
  obtain sd where
    sd: "decide_fixed_adverse_slippage ES_BUY (Finite (998 / 10)) BEST_ASK (Finite 0) (Finite 100) = Inr sd"
    using slippage_buy_ok [OF v valid_tick_100, of 0] by auto
  have a: "sd_adjusted_price sd = 998 / 10" "sd_limit_satisfied sd" "sd_reference_price sd = 998 / 10"
    using slippage_decision_common [OF sd] slippage_buy_price [OF sd] by auto
  let ?desc = "\<lparr>id_symbol = ''2330'', id_exchange_raw = ''TSE'', id_security_type_raw = ''STK'',
     id_product_category_raw = ''24'', id_product_class = COMMON_STOCK, id_source_identity = ''src''\<rparr>"
  obtain f where
    f: "decide_fill_accounting (\<lambda>_. ''digest'') sd 2000 (Finite 0) (Finite 0) (Finite 0) ?desc = Inr f"
    using buy_fill_accounted [OF sd a(2), of 2000 ?desc 0 0 0 "\<lambda>_. ''digest''"] a(1)
    by (auto simp: commission_of_def)
  have "- fa_net_cash_effect f \<le> rs_available_cash (example_snapshot 200285 0)"
    by (rule approved_buy_settles [OF example_buy_approved _ _ _ _ _ _ f])
      (use sd a in \<open>simp_all add: example_buy_decision_def example_command_def example_policy_def
         MINIMUM_COMMISSION_TWD_def\<close>)
  with sd f show ?thesis by (auto simp: example_snapshot_def)
qed

section \<open>Exit eligibility\<close>

lemma eligibility_result:
  assumes "gate_evaluate_exit sha p r x = Inr el"
  shows "el_status el = (if exit_blocked p (ec_snapshot x) \<noteq> [] then EL_BLOCKED
      else if rs_current_position_shares (ec_snapshot x) - rs_pending_sell_shares (ec_snapshot x) \<le> 0
      then EL_INELIGIBLE else EL_ELIGIBLE)"
    and "el_reasons el = (if exit_blocked p (ec_snapshot x) \<noteq> []
      then sort (exit_blocked p (ec_snapshot x))
      else if rs_current_position_shares (ec_snapshot x) - rs_pending_sell_shares (ec_snapshot x) \<le> 0
      then [INSUFFICIENT_POSITION] else [])"
    and "el_eligible_quantity_shares el = (if el_status el = EL_ELIGIBLE
      then rs_current_position_shares (ec_snapshot x) - rs_pending_sell_shares (ec_snapshot x) else 0)"
  using assms
  by (auto simp: gate_evaluate_exit_def mk_eligibility_def Let_def split: sum.splits if_splits)

text \<open>
  C15. The two entry points of the gate agree: at one snapshot, a SELL command at a positive
  price is approved exactly when the exit recommendation is ELIGIBLE and the command asks for
  at most the eligible shares, and it is blocked, for the same reasons, exactly when the
  recommendation is BLOCKED. No approved SELL exceeds the unreserved position.
\<close>

theorem sell_gate_agrees_with_exit_eligibility:
  assumes "gate_evaluate_exit sha p r x = Inr el" and "oc_side c = SELL" and "0 < oc_limit_price c"
    and "dt_aware now"
  shows "\<exists>d. gate_evaluate p c (ec_snapshot x) now = Inr d
     \<and> (rd_status d = APPROVED \<longleftrightarrow> el_status el = EL_ELIGIBLE \<and> 0 < oc_quantity_shares c
          \<and> oc_quantity_shares c \<le> el_eligible_quantity_shares el)
     \<and> (rd_status d = BLOCKED \<longleftrightarrow> el_status el = EL_BLOCKED)
     \<and> (rd_status d = BLOCKED \<longrightarrow> rd_reasons d = el_reasons el)
     \<and> (rd_status d = APPROVED \<longrightarrow> rd_approved_quantity_shares d
          \<le> rs_current_position_shares (ec_snapshot x) - rs_pending_sell_shares (ec_snapshot x))"
proof -
  note b = sell_blocked [OF assms(2), of p "ec_snapshot x"]
  obtain rej where rej: "gate_rejected p c (ec_snapshot x) = Inr rej"
    "rej = [] \<longleftrightarrow> 0 < oc_quantity_shares c \<and> oc_quantity_shares c
        \<le> rs_current_position_shares (ec_snapshot x) - rs_pending_sell_shares (ec_snapshot x)"
    using sell_rejected [OF assms(2), of p "ec_snapshot x"] assms(3) by auto
  show ?thesis
    using rej assms(4)
    by (auto simp: gate_evaluate_cases gate_decision_def b eligibility_result [OF assms(1)])
qed

text \<open>
  C33. Evaluating the exit of a valid active recommendation in a matching context always
  returns, and what it returns passes its own validation: a known gate version, distinct
  reasons in the order of their names, and shares exactly when it is ELIGIBLE.
\<close>

theorem exit_eligibility_total:
  assumes "\<And>j. is_sha256 (sha j)" and "exit_recommendation_post_init sha r = Inr ()"
    and "eligibility_context_post_init x = Inr ()" and "is_ok (risk_policy_post_init p)"
    and "xr_status r = REC_ACTIVE" and "ec_session_id x = xr_session_id r"
    and "ec_trade_id x = xr_trade_id r" and "ec_thesis_id x = xr_thesis_id r"
    and "tt_instant (xr_updated_at r) \<le> instant (ec_evaluated_at x)"
  shows "\<exists>el. gate_evaluate_exit sha p r x = Inr el \<and> eligibility_post_init el = Inr ()
     \<and> sorted (el_reasons el) \<and> distinct (el_reasons el)
     \<and> (el_status el = EL_ELIGIBLE \<longleftrightarrow> 0 < el_eligible_quantity_shares el)"
proof -
  note rec = assms(2) [unfolded exit_recommendation_ok [OF assms(5)]]
  have ctx: "\<not> blank (ec_snapshot_id x)" "dt_aware (ec_evaluated_at x)"
    using assms(3) by (auto simp: eligibility_context_post_init_def res_simps)
  have ver: "\<not> blank (rp_version p)" "\<not> blank RISK_GATE_VERSION"
    using assms(4) by (auto simp: risk_policy_post_init_def is_ok_iff res_simps blank_iff
        RISK_GATE_VERSION_def py_space_def)
  have pre: "\<not> blank ''exit_eligibility_v1_''" "\<not> blank ''exit_recommendation_v1''"
    by (simp_all add: blank_iff py_space_def)
  have ids: "\<not> blank (eligibility_id sha r x dg)" for dg
    unfolding eligibility_id_def blank_append using pre by blast
  obtain i where "xr_recommendation_id r = ''exit_recommendation_v1'' @ i"
    using rec by (auto simp: build_exit_recommendation_id_def derive_id_ok)
  then have rid: "\<not> blank (xr_recommendation_id r)"
    using pre by (simp only: blank_append) simp
  have post: "eligibility_post_init el = Inr ()"
    if "el_eligibility_id el = eligibility_id sha r x dg" "el_recommendation_id el = xr_recommendation_id r"
      "el_session_id el = xr_session_id r" "el_trade_id el = xr_trade_id r"
      "el_thesis_id el = xr_thesis_id r" "el_gate_version el = RISK_GATE_VERSION"
      "el_policy_version el = rp_version p" "is_sha256 (el_input_digest el)"
      "distinct (el_reasons el)" "el_evaluated_at el = ec_evaluated_at x"
      "if el_status el = EL_ELIGIBLE then el_reasons el = [] \<and> 0 < el_eligible_quantity_shares el
       else el_eligible_quantity_shares el = 0 \<and> el_reasons el \<noteq> []" for el dg
    using that rec ctx ver ids rid by (auto simp: eligibility_post_init_def res_simps split: if_splits)
  have sort_Nil: "sort xs = [] \<longleftrightarrow> xs = []" for xs :: "risk_reason list"
    by (metis length_sort length_0_conv)
  have "\<exists>el. gate_evaluate_exit sha p r x = Inr el \<and> eligibility_post_init el = Inr ()"
    using assms(1,5-9) exit_blocked_distinct [of p "ec_snapshot x"]
    by (auto simp: gate_evaluate_exit_def mk_eligibility_def Let_def post sort_Nil)
  then obtain el where el: "gate_evaluate_exit sha p r x = Inr el" "eligibility_post_init el = Inr ()"
    by blast
  then show ?thesis using eligibility_result [OF el(1)] exit_blocked_distinct [of p "ec_snapshot x"]
    by (intro exI [of _ el]) auto
qed


definition gate_sha :: "json \<Rightarrow> string" where
  "gate_sha j = replicate 64 (CHR ''a'')"

lemma gate_sha: "is_sha256 (gate_sha j)"
  by (simp add: gate_sha_def is_sha256_def list_all_iff hex_digit_def)

definition example_stamp :: trade_timestamp where
  "example_stamp = \<lparr>tt_role = EXIT_DECISION, tt_value = example_now,
     tt_zone = Some TRADE_TIMEZONE, tt_source = STRATEGY_RUNTIME, tt_source_identity = ''clock''\<rparr>"

definition example_active_recommendation :: exit_recommendation where
  "example_active_recommendation =
     \<lparr>xr_recommendation_id = ''exit_recommendation_v1_'' @ replicate 64 (CHR ''a''),
      xr_session_id = ''s1'', xr_trade_id = ''t1'', xr_thesis_id = ''h1'',
      xr_exit_policy_version = ''exit-v1'', xr_status = REC_ACTIVE,
      xr_first_trigger_decision_id = ''d1'', xr_first_trigger_event_id = ''e1'',
      xr_latest_decision_id = ''d1'', xr_latest_evidence_event_id = ''e1'',
      xr_primary_reason = TIME_DECAY, xr_triggered_reasons = [TIME_DECAY],
      xr_created_at = example_stamp, xr_updated_at = example_stamp, xr_resolved_at = None,
      xr_closing_fill_id = None, xr_schema_version = TRADE_MANAGEMENT_SCHEMA_VERSION\<rparr>"

definition example_exit_context :: "int \<Rightarrow> eligibility_context" where
  "example_exit_context position =
     \<lparr>ec_snapshot_id = ''n1'', ec_session_id = ''s1'', ec_trade_id = ''t1'', ec_thesis_id = ''h1'',
      ec_snapshot = example_snapshot 0 position, ec_evaluated_at = example_now\<rparr>"

lemma example_exit_valid:
  "exit_recommendation_post_init gate_sha example_active_recommendation = Inr ()"
  "eligibility_context_post_init (example_exit_context 2000) = Inr ()"
  by code_simp+

theorem exit_eligibility_total_witness:
  "\<exists>el. gate_evaluate_exit gate_sha example_policy example_active_recommendation
       (example_exit_context 2000) = Inr el
     \<and> eligibility_post_init el = Inr () \<and> distinct (el_reasons el)"
proof -
  have "xr_status example_active_recommendation = REC_ACTIVE"
    "ec_session_id (example_exit_context 2000) = xr_session_id example_active_recommendation"
    "ec_trade_id (example_exit_context 2000) = xr_trade_id example_active_recommendation"
    "ec_thesis_id (example_exit_context 2000) = xr_thesis_id example_active_recommendation"
    "tt_instant (xr_updated_at example_active_recommendation)
       \<le> instant (ec_evaluated_at (example_exit_context 2000))"
    by (simp_all add: example_active_recommendation_def example_exit_context_def example_stamp_def
        tt_instant_def)
  from exit_eligibility_total [OF gate_sha example_exit_valid example_policy_valid this]
  show ?thesis by blast
qed

lemma example_exit_eligible:
  "\<exists>el. gate_evaluate_exit gate_sha example_policy example_active_recommendation
       (example_exit_context 2000) = Inr el
     \<and> el_status el = EL_ELIGIBLE \<and> el_eligible_quantity_shares el = 2000"
proof -
  have "(case gate_evaluate_exit gate_sha example_policy example_active_recommendation
       (example_exit_context 2000) of Inl _ \<Rightarrow> False
     | Inr el \<Rightarrow> el_status el = EL_ELIGIBLE \<and> el_eligible_quantity_shares el = 2000)"
    by code_simp
  then show ?thesis by (auto split: sum.splits)
qed

theorem sell_gate_agrees_with_exit_eligibility_witness:
  "\<exists>d. gate_evaluate example_policy (example_command SELL 2000) (example_snapshot 0 2000) example_now
       = Inr d \<and> rd_status d = APPROVED"
proof -
  obtain el where el: "gate_evaluate_exit gate_sha example_policy example_active_recommendation
       (example_exit_context 2000) = Inr el"
    "el_status el = EL_ELIGIBLE" "el_eligible_quantity_shares el = 2000"
    using example_exit_eligible by blast
  have c: "oc_side (example_command SELL 2000) = SELL" "0 < oc_limit_price (example_command SELL 2000)"
    "dt_aware example_now" "oc_quantity_shares (example_command SELL 2000) = 2000"
    by (simp_all add: example_command_def example_now_def dt_aware_def)
  show ?thesis
    using sell_gate_agrees_with_exit_eligibility [OF el(1) c(1-3)] el(2,3) c(4)
    by (auto simp: example_exit_context_def)
qed

end
