(* ===== verification/Journal.thy ===== *)
theory Journal
  imports Prelude "HOL-Library.List_Lexorder" "HOL-Library.Char_ord" "HOL-Library.Sublist"
begin

text \<open>
  The append-only journal (\<open>trading/journal.py\<close>): sessions, records and checkpoints with their
  validation, the in-memory repository, and the contract every repository offers its clients
  (the locale \<open>journal_repository\<close>), which the in-memory repository satisfies. Each operation
  runs under the repository's lock and is one step of the model.
\<close>

definition JOURNAL_SCHEMA_VERSION :: string where
  "JOURNAL_SCHEMA_VERSION = ''journal-v1''"

definition journal_conflict :: "string \<Rightarrow> pyerr" where
  "journal_conflict m = Raised ''JournalConflictError'' m"

section \<open>Canonical JSON\<close>

text \<open>
  \<open>json.dumps(..., sort_keys=True)\<close> orders the members of every object by key; what is left
  of a payload after encoding and decoding is this sorted value.
\<close>

function canonical_json :: "json \<Rightarrow> json" where
  "canonical_json (JObj members) =
     JObj (sort_key fst (map (\<lambda>m. (fst m, canonical_json (snd m))) members))"
| "canonical_json (JList items) = JList (map canonical_json items)"
| "canonical_json (JStr s) = JStr s"
| "canonical_json (JInt i) = JInt i"
| "canonical_json (JBool b) = JBool b"
| "canonical_json JNull = JNull"
| "canonical_json (JDec d) = JDec d"
| "canonical_json (JDate d) = JDate d"
| "canonical_json (JTime t) = JTime t"
  by pat_completeness auto

termination
  by (relation "measure size") (auto simp: json_member_size size_list_estimation' less_Suc_eq_le)

definition canonical_members :: "(string \<times> json) list \<Rightarrow> (string \<times> json) list" where
  "canonical_members ms = sort_key fst (map (\<lambda>m. (fst m, canonical_json (snd m))) ms)"

section \<open>Sessions, records, checkpoints\<close>

record journal_session =
  js_session_id :: string
  js_started_at :: datetime
  js_mode :: string
  js_metadata :: "(string \<times> json) list"
  js_schema_version :: string

definition journal_session_post_init :: "journal_session \<Rightarrow> unit res" where
  "journal_session_post_init s =
     (case require_non_empty [(js_session_id s, ''session_id''), (js_mode s, ''mode''),
         (js_schema_version s, ''schema_version'')] of Inl e \<Rightarrow> Inl e
      | Inr _ \<Rightarrow> if \<not> dt_aware (js_started_at s)
                then Inl (ValueError ''started_at must be timezone-aware'') else Inr ())"

text \<open>Dataclass equality: aware times compare by instant, mappings by content.\<close>

definition session_same :: "journal_session \<Rightarrow> journal_session \<Rightarrow> bool" where
  "session_same s t \<longleftrightarrow>
     js_session_id s = js_session_id t \<and> instant (js_started_at s) = instant (js_started_at t)
     \<and> js_mode s = js_mode t
     \<and> canonical_members (js_metadata s) = canonical_members (js_metadata t)
     \<and> js_schema_version s = js_schema_version t"

record journal_record =
  jr_record_id :: string
  jr_session_id :: string
  jr_kind :: string
  jr_occurred_at :: datetime
  jr_payload :: "(string \<times> json) list"
  jr_idempotency_scope :: "string option"
  jr_idempotency_key :: "string option"
  jr_schema_version :: string

definition opt_string :: "string option \<Rightarrow> string" where
  "opt_string v = (case v of None \<Rightarrow> [] | Some s \<Rightarrow> s)"

text \<open>\<open>JournalRecord.__post_init__\<close>: check, then freeze the payload in canonical form.\<close>

definition mk_journal_record :: "journal_record \<Rightarrow> journal_record res" where
  "mk_journal_record r =
     (case require_non_empty [(jr_record_id r, ''record_id''), (jr_session_id r, ''session_id''),
         (jr_kind r, ''kind''), (jr_schema_version r, ''schema_version'')] of Inl e \<Rightarrow> Inl e
      | Inr _ \<Rightarrow>
        if \<not> dt_aware (jr_occurred_at r)
        then Inl (ValueError ''occurred_at must be timezone-aware'')
        else if (jr_idempotency_scope r = None) \<noteq> (jr_idempotency_key r = None)
        then Inl (ValueError ''idempotency_scope and idempotency_key must be set together'')
        else
        case (if jr_idempotency_scope r \<noteq> None
              then require_non_empty
                [(opt_string (jr_idempotency_scope r), ''idempotency_scope''),
                 (opt_string (jr_idempotency_key r), ''idempotency_key'')]
              else Inr ()) of Inl e \<Rightarrow> Inl e
        | Inr _ \<Rightarrow> Inr (r\<lparr>jr_payload := canonical_members (jr_payload r)\<rparr>))"

definition jr_fingerprint :: "(json \<Rightarrow> string) \<Rightarrow> journal_record \<Rightarrow> string" where
  "jr_fingerprint sha r = sha (canonical_json (JObj
     [(''record_id'', JStr (jr_record_id r)), (''session_id'', JStr (jr_session_id r)),
      (''kind'', JStr (jr_kind r)), (''occurred_at'', JTime (jr_occurred_at r)),
      (''payload'', JObj (jr_payload r)),
      (''idempotency_scope'', jopt JStr (jr_idempotency_scope r)),
      (''idempotency_key'', jopt JStr (jr_idempotency_key r)),
      (''schema_version'', JStr (jr_schema_version r))]))"

record append_result =
  ja_record :: journal_record
  ja_sequence :: int
  ja_idempotent :: bool

record projection_checkpoint =
  pc_session_id :: string
  pc_projection_name :: string
  pc_journal_sequence :: int
  pc_digest :: string
  pc_schema_version :: string

definition checkpoint_post_init :: "projection_checkpoint \<Rightarrow> unit res" where
  "checkpoint_post_init c =
     (case require_non_empty [(pc_session_id c, ''session_id''),
         (pc_projection_name c, ''projection_name''), (pc_digest c, ''digest''),
         (pc_schema_version c, ''schema_version'')] of Inl e \<Rightarrow> Inl e
      | Inr _ \<Rightarrow> if pc_journal_sequence c < 0
                then Inl (ValueError ''journal_sequence must be non-negative'') else Inr ())"

section \<open>The in-memory repository\<close>

record memory_journal =
  mj_sessions :: "(string, journal_session) dict"
  mj_records :: "append_result list"
  mj_by_id :: "(string \<times> string, append_result) dict"
  mj_by_idempotency :: "(string \<times> string, append_result) dict"
  mj_checkpoints :: "(string \<times> string, projection_checkpoint) dict"

definition empty_journal :: memory_journal where
  "empty_journal = \<lparr>mj_sessions = [], mj_records = [], mj_by_id = [], mj_by_idempotency = [],
     mj_checkpoints = []\<rparr>"

text \<open>An operation returns its result or its exception, and the repository it leaves.\<close>

definition mem_start_session :: "memory_journal \<Rightarrow> journal_session \<Rightarrow> unit res \<times> memory_journal" where
  "mem_start_session j s =
     (case dget (mj_sessions j) (js_session_id s) of
        None \<Rightarrow> (Inr (), j\<lparr>mj_sessions := dset (js_session_id s) s (mj_sessions j)\<rparr>)
      | Some old \<Rightarrow>
          if \<not> session_same old s
          then (Inl (journal_conflict ''session metadata conflicts with existing session''), j)
          else (Inr (), j))"

definition mem_session :: "memory_journal \<Rightarrow> string \<Rightarrow> journal_session option" where
  "mem_session j sid = dget (mj_sessions j) sid"

definition mem_sessions :: "memory_journal \<Rightarrow> string \<Rightarrow> journal_session list res" where
  "mem_sessions j pre =
     (if blank pre then Inl (ValueError ''session_id_prefix must not be empty'')
      else Inr (map (\<lambda>sid. the (dget (mj_sessions j) sid))
        (filter (prefix pre) (sort (map fst (mj_sessions j))))))"

definition matching_retry ::
  "(json \<Rightarrow> string) \<Rightarrow> append_result \<Rightarrow> journal_record \<Rightarrow> append_result res" where
  "matching_retry sha old r =
     (if jr_fingerprint sha (ja_record old) \<noteq> jr_fingerprint sha r
      then Inl (journal_conflict ''Journal identity conflicts with existing record'')
      else Inr \<lparr>ja_record = ja_record old, ja_sequence = ja_sequence old, ja_idempotent = True\<rparr>)"

definition idempotency_of :: "journal_record \<Rightarrow> (string \<times> string) option" where
  "idempotency_of r =
     map_option (\<lambda>scope. (scope, opt_string (jr_idempotency_key r))) (jr_idempotency_scope r)"

definition record_key :: "journal_record \<Rightarrow> string \<times> string" where
  "record_key r = (jr_session_id r, jr_record_id r)"

text \<open>The record a retry finds: by identity first, then by idempotency key.\<close>

definition existing_record :: "memory_journal \<Rightarrow> journal_record \<Rightarrow> append_result option" where
  "existing_record j r =
     (case dget (mj_by_id j) (record_key r) of
        Some x \<Rightarrow> Some x
      | None \<Rightarrow> (case idempotency_of r of None \<Rightarrow> None | Some i \<Rightarrow> dget (mj_by_idempotency j) i))"

definition mem_append ::
  "(json \<Rightarrow> string) \<Rightarrow> memory_journal \<Rightarrow> journal_record \<Rightarrow> append_result res \<times> memory_journal" where
  "mem_append sha j r =
     (if dget (mj_sessions j) (jr_session_id r) = None
      then (Inl (journal_conflict ''Journal session must be started before append''), j)
      else
      case existing_record j r of
        Some x \<Rightarrow> (matching_retry sha x r, j)
      | None \<Rightarrow>
          let x = \<lparr>ja_record = r, ja_sequence = int (length (mj_records j)) + 1,
                   ja_idempotent = False\<rparr>
          in (Inr x,
              j\<lparr>mj_records := mj_records j @ [x],
                mj_by_id := dset (record_key r) x (mj_by_id j),
                mj_by_idempotency :=
                  (case idempotency_of r of
                     None \<Rightarrow> mj_by_idempotency j
                   | Some i \<Rightarrow> dset i x (mj_by_idempotency j))\<rparr>))"

definition require_monotonic_before_cutoff ::
  "datetime \<Rightarrow> datetime \<Rightarrow> datetime option \<Rightarrow> unit res" where
  "require_monotonic_before_cutoff v cutoff previous =
     (if \<not> dt_aware v
      then Inl (ValueError ''authoritative Journal time must be timezone-aware'')
      else if (case previous of None \<Rightarrow> False | Some p \<Rightarrow> instant v < instant p)
      then Inl (Raised ''JournalClockRegressionError'' ''authoritative Journal time moved backwards'')
      else if instant v > instant cutoff
      then Inl (Raised ''JournalCutoffExceededError''
        ''atomic Journal mutation exceeded its durable cutoff'')
      else Inr ())"

text \<open>
  The atomic step reads its clock three times (\<open>now1\<close>, \<open>now2\<close>, \<open>now3\<close>; the record's own time
  where the caller passes none). Any exception restores the repository.
\<close>

definition mem_start_and_append_before ::
  "(json \<Rightarrow> string) \<Rightarrow> memory_journal \<Rightarrow> journal_session \<Rightarrow> journal_record \<Rightarrow> datetime
     \<Rightarrow> datetime \<Rightarrow> datetime \<Rightarrow> datetime \<Rightarrow> append_result res \<times> memory_journal" where
  "mem_start_and_append_before sha j s r cutoff now1 now2 now3 =
     (if js_session_id s \<noteq> jr_session_id r
      then (Inl (ValueError ''atomic Journal session and record identity differ''), j)
      else if \<not> dt_aware cutoff
      then (Inl (ValueError ''latest_allowed_at must be timezone-aware''), j)
      else
      case require_monotonic_before_cutoff now1 cutoff None of Inl e \<Rightarrow> (Inl e, j) | Inr _ \<Rightarrow>
      if mem_session j (js_session_id s) \<noteq> None \<and> existing_record j r = None
      then (Inl (journal_conflict ''atomic Journal session exists without its open record''), j)
      else
      let stored_at = (case mem_session j (js_session_id s) of
                         Some old \<Rightarrow> js_started_at old | None \<Rightarrow> now1)
      in case mem_start_session j (s\<lparr>js_started_at := stored_at\<rparr>) of
        (Inl e, _) \<Rightarrow> (Inl e, j)
      | (Inr _, j1) \<Rightarrow>
        (case require_monotonic_before_cutoff now2 cutoff (Some now1) of
           Inl e \<Rightarrow> (Inl e, j)
         | Inr _ \<Rightarrow>
           (case mem_append sha j1 (r\<lparr>jr_occurred_at := stored_at\<rparr>) of
              (Inl e, _) \<Rightarrow> (Inl e, j)
            | (Inr x, j2) \<Rightarrow>
              (case require_monotonic_before_cutoff now3 cutoff (Some now2) of
                 Inl e \<Rightarrow> (Inl e, j)
               | Inr _ \<Rightarrow> (Inr x, j2)))))"

definition mem_records :: "memory_journal \<Rightarrow> string \<Rightarrow> int \<Rightarrow> append_result list res" where
  "mem_records j sid after =
     (if after < 0 then Inl (ValueError ''after_sequence must be non-negative'')
      else Inr (filter (\<lambda>x. jr_session_id (ja_record x) = sid \<and> ja_sequence x > after)
        (mj_records j)))"

definition mem_save_checkpoint ::
  "memory_journal \<Rightarrow> projection_checkpoint \<Rightarrow> unit res \<times> memory_journal" where
  "mem_save_checkpoint j c =
     (let key = (pc_session_id c, pc_projection_name c)
      in case dget (mj_checkpoints j) key of
           None \<Rightarrow> (Inr (), j\<lparr>mj_checkpoints := dset key c (mj_checkpoints j)\<rparr>)
         | Some old \<Rightarrow>
             if pc_journal_sequence c > pc_journal_sequence old
             then (Inr (), j\<lparr>mj_checkpoints := dset key c (mj_checkpoints j)\<rparr>)
             else if c \<noteq> old
             then (Inl (journal_conflict ''projection checkpoint cannot move backward''), j)
             else (Inr (), j))"

definition mem_latest_checkpoint ::
  "memory_journal \<Rightarrow> string \<Rightarrow> string \<Rightarrow> projection_checkpoint option" where
  "mem_latest_checkpoint j sid name = dget (mj_checkpoints j) (sid, name)"

section \<open>The contract of a repository\<close>

text \<open>The operations a client calls; any of them may raise.\<close>

record 'j journal_ops =
  jo_session :: "'j \<Rightarrow> string \<Rightarrow> journal_session option res"
  jo_start :: "'j \<Rightarrow> journal_session \<Rightarrow> unit res \<times> 'j"
  jo_append :: "'j \<Rightarrow> journal_record \<Rightarrow> append_result res \<times> 'j"
  jo_records :: "'j \<Rightarrow> string \<Rightarrow> append_result list res"

text \<open>
  What a repository promises, over the view of each session's records and the started
  sessions: reads return the view, a fresh record is appended at the end under a larger
  sequence number, and a retry with the same content returns the stored record.
\<close>

locale journal_repository =
  fixes ops :: "'j journal_ops"
    and fp :: "journal_record \<Rightarrow> string"
    and inv :: "'j \<Rightarrow> bool"
    and view :: "'j \<Rightarrow> string \<Rightarrow> append_result list"
    and started :: "'j \<Rightarrow> string \<Rightarrow> journal_session option"
  assumes session_returns: "inv j \<Longrightarrow> jo_session ops j sid = Inr (started j sid)"
    and records_return: "inv j \<Longrightarrow> jo_records ops j sid = Inr (view j sid)"
    and start_fresh: "inv j \<Longrightarrow> started j (js_session_id s) = None \<Longrightarrow>
      \<exists>j'. jo_start ops j s = (Inr (), j') \<and> inv j'
        \<and> started j' = (started j)(js_session_id s := Some s) \<and> view j' = view j"
    and start_again: "inv j \<Longrightarrow> started j (js_session_id s) = Some old \<Longrightarrow> session_same old s \<Longrightarrow>
      jo_start ops j s = (Inr (), j)"
    and append_fresh: "inv j \<Longrightarrow> started j (jr_session_id r) \<noteq> None \<Longrightarrow>
      (\<forall>x \<in> set (view j (jr_session_id r)). jr_record_id (ja_record x) \<noteq> jr_record_id r) \<Longrightarrow>
      (\<forall>sid. \<forall>x \<in> set (view j sid). \<forall>i. idempotency_of r = Some i \<longrightarrow>
         idempotency_of (ja_record x) \<noteq> Some i) \<Longrightarrow>
      \<exists>n j'. jo_append ops j r
          = (Inr \<lparr>ja_record = r, ja_sequence = n, ja_idempotent = False\<rparr>, j')
        \<and> inv j' \<and> started j' = started j
        \<and> view j' = (view j)(jr_session_id r := view j (jr_session_id r)
            @ [\<lparr>ja_record = r, ja_sequence = n, ja_idempotent = False\<rparr>])"
    and append_retry: "inv j \<Longrightarrow> started j (jr_session_id r) \<noteq> None \<Longrightarrow>
      x \<in> set (view j (jr_session_id r)) \<Longrightarrow> jr_record_id (ja_record x) = jr_record_id r \<Longrightarrow>
      fp (ja_record x) = fp r \<Longrightarrow>
      jo_append ops j r = (Inr \<lparr>ja_record = ja_record x, ja_sequence = ja_sequence x,
        ja_idempotent = True\<rparr>, j)"
    and increasing: "inv j \<Longrightarrow> sorted_wrt (<) (0 # map ja_sequence (view j sid))"
begin

lemma append_then_retry:
  assumes "inv j" and "started j (jr_session_id r) \<noteq> None"
    and "\<forall>x \<in> set (view j (jr_session_id r)). jr_record_id (ja_record x) \<noteq> jr_record_id r"
    and "\<forall>sid. \<forall>x \<in> set (view j sid). \<forall>i. idempotency_of r = Some i \<longrightarrow>
      idempotency_of (ja_record x) \<noteq> Some i"
  shows "\<exists>n j'. jo_append ops j r
        = (Inr \<lparr>ja_record = r, ja_sequence = n, ja_idempotent = False\<rparr>, j')
     \<and> jo_append ops j' r = (Inr \<lparr>ja_record = r, ja_sequence = n, ja_idempotent = True\<rparr>, j')
     \<and> (\<forall>x \<in> set (view j (jr_session_id r)). ja_sequence x < n)"
proof -
  obtain n j' where a: "jo_append ops j r
      = (Inr \<lparr>ja_record = r, ja_sequence = n, ja_idempotent = False\<rparr>, j')"
    "inv j'" "started j' = started j"
    "view j' = (view j)(jr_session_id r := view j (jr_session_id r)
       @ [\<lparr>ja_record = r, ja_sequence = n, ja_idempotent = False\<rparr>])"
    using append_fresh [OF assms] by blast
  let ?x = "\<lparr>ja_record = r, ja_sequence = n, ja_idempotent = False\<rparr>"
  have "jo_append ops j' r = (Inr \<lparr>ja_record = r, ja_sequence = n, ja_idempotent = True\<rparr>, j')"
    using append_retry [OF a(2), of r ?x] a(3,4) assms(2) by simp
  moreover have "\<forall>x \<in> set (view j (jr_session_id r)). ja_sequence x < n"
    using increasing [OF a(2), of "jr_session_id r"] a(4) by (simp add: sorted_wrt_append)
  ultimately show ?thesis using a(1) by blast
qed

lemma start_idempotent:
  assumes "inv j" and "started j (js_session_id s) = None"
  shows "\<exists>j'. jo_start ops j s = (Inr (), j') \<and> jo_start ops j' s = (Inr (), j')"
proof -
  obtain j' where j: "jo_start ops j s = (Inr (), j')" "inv j'"
    "started j' = (started j)(js_session_id s := Some s)"
    using start_fresh [OF assms] by blast
  have "jo_start ops j' s = (Inr (), j')"
    by (rule start_again [OF j(2), of s s]) (simp_all add: j(3) session_same_def)
  with j(1) show ?thesis by blast
qed

end

section \<open>The in-memory repository keeps the contract\<close>

definition mem_ops :: "(json \<Rightarrow> string) \<Rightarrow> memory_journal journal_ops" where
  "mem_ops sha = \<lparr>jo_session = (\<lambda>j sid. Inr (mem_session j sid)), jo_start = mem_start_session,
     jo_append = mem_append sha, jo_records = (\<lambda>j sid. mem_records j sid 0)\<rparr>"

definition mem_view :: "memory_journal \<Rightarrow> string \<Rightarrow> append_result list" where
  "mem_view j sid = filter (\<lambda>x. jr_session_id (ja_record x) = sid) (mj_records j)"

definition mem_inv :: "memory_journal \<Rightarrow> bool" where
  "mem_inv j \<longleftrightarrow>
     map ja_sequence (mj_records j) = map int [1..<Suc (length (mj_records j))]
     \<and> (\<forall>x \<in> set (mj_records j). \<not> ja_idempotent x
         \<and> dget (mj_sessions j) (jr_session_id (ja_record x)) \<noteq> None)
     \<and> (\<forall>k x. dget (mj_by_id j) k = Some x \<longleftrightarrow>
           x \<in> set (mj_records j) \<and> record_key (ja_record x) = k)
     \<and> (\<forall>k x. dget (mj_by_idempotency j) k = Some x \<longleftrightarrow>
           x \<in> set (mj_records j) \<and> idempotency_of (ja_record x) = Some k)"

lemma mem_inv_empty: "mem_inv empty_journal"
  by (simp add: mem_inv_def empty_journal_def)

lemma mem_inv_index:
  assumes "mem_inv j"
  shows "dget (mj_by_id j) k = Some x \<longleftrightarrow> x \<in> set (mj_records j) \<and> record_key (ja_record x) = k"
    and "dget (mj_by_idempotency j) k = Some x
      \<longleftrightarrow> x \<in> set (mj_records j) \<and> idempotency_of (ja_record x) = Some k"
  using assms unfolding mem_inv_def by blast+

lemma existing_record_None:
  assumes "mem_inv j"
  shows "existing_record j r = None \<longleftrightarrow>
    (\<forall>x \<in> set (mj_records j). record_key (ja_record x) \<noteq> record_key r
       \<and> (\<forall>i. idempotency_of r = Some i \<longrightarrow> idempotency_of (ja_record x) \<noteq> Some i))"
proof -
  have a: "dget (mj_by_id j) k = None \<longleftrightarrow> (\<forall>x \<in> set (mj_records j). record_key (ja_record x) \<noteq> k)"
    and b: "dget (mj_by_idempotency j) k' = None
      \<longleftrightarrow> (\<forall>x \<in> set (mj_records j). idempotency_of (ja_record x) \<noteq> Some k')" for k k'
    using assms unfolding mem_inv_def by (metis not_None_eq)+
  show ?thesis
    using a [of "record_key r"] b
    by (cases "idempotency_of r") (auto simp: existing_record_def split: option.splits)
qed

lemma existing_record_Some:
  assumes "mem_inv j" and "x \<in> set (mj_records j)" and "record_key (ja_record x) = record_key r"
  shows "existing_record j r = Some x"
  using mem_inv_index(1) [OF assms(1), of "record_key r" x] assms(2,3)
  by (simp add: existing_record_def)

lemma mem_append_fresh:
  assumes "mem_inv j" and "dget (mj_sessions j) (jr_session_id r) \<noteq> None"
    and "existing_record j r = None"
  defines "x \<equiv> \<lparr>ja_record = r, ja_sequence = int (length (mj_records j)) + 1, ja_idempotent = False\<rparr>"
  shows "\<exists>j'. mem_append sha j r = (Inr x, j') \<and> mem_inv j' \<and> mj_sessions j' = mj_sessions j
    \<and> mj_records j' = mj_records j @ [x]"
proof -
  let ?j = "snd (mem_append sha j r)"
  note none = assms(3) [unfolded existing_record_None [OF assms(1)]]
  have app: "mem_append sha j r = (Inr x, ?j)"
    using assms(2,3) by (auto simp: mem_append_def Let_def x_def)
  have eq: "mj_records ?j = mj_records j @ [x]"
    "mj_sessions ?j = mj_sessions j" "mj_by_id ?j = dset (record_key r) x (mj_by_id j)"
    "mj_by_idempotency ?j = (case idempotency_of r of None \<Rightarrow> mj_by_idempotency j
       | Some i \<Rightarrow> dset i x (mj_by_idempotency j))"
    using assms(2,3) by (auto simp: mem_append_def Let_def x_def split: option.split)
  have x: "ja_record x = r" "\<not> ja_idempotent x" "ja_sequence x = int (Suc (length (mj_records j)))"
    by (simp_all add: x_def)
  have "mem_inv ?j"
    unfolding mem_inv_def eq
  proof (intro conjI allI ballI)
    show "map ja_sequence (mj_records j @ [x]) = map int [1..<Suc (length (mj_records j @ [x]))]"
      using assms(1) x(3) by (simp add: mem_inv_def)
  next
    fix y assume "y \<in> set (mj_records j @ [x])"
    then show "\<not> ja_idempotent y" "dget (mj_sessions j) (jr_session_id (ja_record y)) \<noteq> None"
      using assms(1,2) x by (auto simp: mem_inv_def)
  next
    fix k y
    show "dget (dset (record_key r) x (mj_by_id j)) k = Some y \<longleftrightarrow>
        y \<in> set (mj_records j @ [x]) \<and> record_key (ja_record y) = k"
      using none x(1) mem_inv_index(1) [OF assms(1), of k y] by auto
  next
    fix k y
    show "dget (case idempotency_of r of None \<Rightarrow> mj_by_idempotency j
        | Some i \<Rightarrow> dset i x (mj_by_idempotency j)) k = Some y \<longleftrightarrow>
        y \<in> set (mj_records j @ [x]) \<and> idempotency_of (ja_record y) = Some k"
      using none x(1) mem_inv_index(2) [OF assms(1), of k y] by (cases "idempotency_of r") auto
  qed
  then show ?thesis using app eq(1,2) by blast
qed

lemma mem_start_inv:
  "mem_inv j \<Longrightarrow> mem_inv (snd (mem_start_session j s))
     \<and> mj_records (snd (mem_start_session j s)) = mj_records j"
  by (auto simp: mem_inv_def mem_start_session_def split: option.splits)

lemma mem_append_inv: "mem_inv j \<Longrightarrow> mem_inv (snd (mem_append sha j r))"
proof (cases "dget (mj_sessions j) (jr_session_id r) \<noteq> None \<and> existing_record j r = None")
  case True
  then show "mem_inv j \<Longrightarrow> mem_inv (snd (mem_append sha j r))"
    using mem_append_fresh [of j r sha] by auto
qed (auto simp: mem_append_def split: option.splits)

lemma mem_sequence_pos: "mem_inv j \<Longrightarrow> x \<in> set (mj_records j) \<Longrightarrow> 0 < ja_sequence x"
proof -
  assume "mem_inv j" "x \<in> set (mj_records j)"
  then have "ja_sequence x \<in> set (map int [1..<Suc (length (mj_records j))])"
    unfolding mem_inv_def by (metis image_eqI list.set_map)
  then show ?thesis by auto
qed

lemma mem_records_view: "mem_inv j \<Longrightarrow> mem_records j sid 0 = Inr (mem_view j sid)"
  using mem_sequence_pos [of j] by (auto simp: mem_records_def mem_view_def intro: filter_cong)

lemma mem_increasing: "mem_inv j \<Longrightarrow> sorted_wrt (<) (0 # map ja_sequence (mem_view j sid))"
proof -
  assume j: "mem_inv j"
  have "sorted_wrt (<) (map ja_sequence (mj_records j))"
    using j by (simp add: mem_inv_def sorted_wrt_map sorted_wrt_upt del: upt_Suc)
  then have "sorted_wrt (<) (map ja_sequence (mem_view j sid))"
    by (simp add: mem_view_def sorted_wrt_map sorted_wrt_filter)
  then show ?thesis using mem_sequence_pos [OF j] by (auto simp: mem_view_def)
qed

interpretation mem: journal_repository "mem_ops sha" "jr_fingerprint sha" mem_inv mem_view mem_session
proof
  fix j sid
  assume j: "mem_inv j"
  show "jo_session (mem_ops sha) j sid = Inr (mem_session j sid)" by (simp add: mem_ops_def)
  show "jo_records (mem_ops sha) j sid = Inr (mem_view j sid)"
    using mem_records_view [OF j] by (simp add: mem_ops_def)
  show "sorted_wrt (<) (0 # map ja_sequence (mem_view j sid))" by (rule mem_increasing [OF j])
next
  fix j and s :: journal_session
  assume j: "mem_inv j" and n: "mem_session j (js_session_id s) = None"
  then show "\<exists>j'. jo_start (mem_ops sha) j s = (Inr (), j') \<and> mem_inv j'
      \<and> mem_session j' = (mem_session j)(js_session_id s := Some s) \<and> mem_view j' = mem_view j"
    using mem_start_inv [OF j, of s]
    by (auto simp: mem_ops_def mem_start_session_def mem_session_def mem_view_def)
next
  fix j and s old :: journal_session
  assume "mem_inv j" and "mem_session j (js_session_id s) = Some old" and "session_same old s"
  then show "jo_start (mem_ops sha) j s = (Inr (), j)"
    by (simp add: mem_ops_def mem_start_session_def mem_session_def)
next
  fix j and r :: journal_record
  assume j: "mem_inv j" and s: "mem_session j (jr_session_id r) \<noteq> None"
    and f: "\<forall>x \<in> set (mem_view j (jr_session_id r)). jr_record_id (ja_record x) \<noteq> jr_record_id r"
    and i: "\<forall>sid. \<forall>x \<in> set (mem_view j sid). \<forall>i. idempotency_of r = Some i \<longrightarrow>
      idempotency_of (ja_record x) \<noteq> Some i"
  have "existing_record j r = None"
    using f i unfolding existing_record_None [OF j] by (auto simp: mem_view_def record_key_def)
  then show "\<exists>n j'. jo_append (mem_ops sha) j r
        = (Inr \<lparr>ja_record = r, ja_sequence = n, ja_idempotent = False\<rparr>, j')
      \<and> mem_inv j' \<and> mem_session j' = mem_session j
      \<and> mem_view j' = (mem_view j)(jr_session_id r := mem_view j (jr_session_id r)
          @ [\<lparr>ja_record = r, ja_sequence = n, ja_idempotent = False\<rparr>])"
    using mem_append_fresh [OF j, of r sha] s
    by (fastforce simp: mem_ops_def mem_session_def mem_view_def)
next
  fix j and r :: journal_record and x
  assume j: "mem_inv j" and s: "mem_session j (jr_session_id r) \<noteq> None"
    and x: "x \<in> set (mem_view j (jr_session_id r))" "jr_record_id (ja_record x) = jr_record_id r"
      "jr_fingerprint sha (ja_record x) = jr_fingerprint sha r"
  have "existing_record j r = Some x"
    using x by (intro existing_record_Some [OF j]) (auto simp: mem_view_def record_key_def)
  then show "jo_append (mem_ops sha) j r = (Inr \<lparr>ja_record = ja_record x,
      ja_sequence = ja_sequence x, ja_idempotent = True\<rparr>, j)"
    using s x(3) by (simp add: mem_ops_def mem_append_def mem_session_def matching_retry_def)
qed

section \<open>Histories of the in-memory repository\<close>

datatype journal_command =
    StartSession journal_session
  | Append journal_record
  | AtomicOpen journal_session journal_record datetime datetime datetime datetime
  | SaveCheckpoint projection_checkpoint

text \<open>The repository after a command, whether it returned or raised.\<close>

fun journal_exec :: "(json \<Rightarrow> string) \<Rightarrow> memory_journal \<Rightarrow> journal_command \<Rightarrow> memory_journal" where
  "journal_exec sha j (StartSession s) = snd (mem_start_session j s)"
| "journal_exec sha j (Append r) = snd (mem_append sha j r)"
| "journal_exec sha j (AtomicOpen s r cutoff t1 t2 t3) =
     snd (mem_start_and_append_before sha j s r cutoff t1 t2 t3)"
| "journal_exec sha j (SaveCheckpoint c) = snd (mem_save_checkpoint j c)"

definition checkpoint_of :: "memory_journal \<Rightarrow> string \<times> string \<Rightarrow> int" where
  "checkpoint_of j key = (case dget (mj_checkpoints j) key of None \<Rightarrow> - 1
     | Some c \<Rightarrow> max (- 1) (pc_journal_sequence c))"

text \<open>A repository extends another: records and sessions stay, checkpoints move forward.\<close>

definition journal_extends :: "memory_journal \<Rightarrow> memory_journal \<Rightarrow> bool" where
  "journal_extends j k \<longleftrightarrow> prefix (mj_records j) (mj_records k)
     \<and> (\<forall>sid s. mem_session j sid = Some s \<longrightarrow> mem_session k sid = Some s)
     \<and> (\<forall>key. checkpoint_of j key \<le> checkpoint_of k key)"

lemma extends_refl [simp]: "journal_extends j j"
  by (simp add: journal_extends_def)

lemma extends_trans: "journal_extends j k \<Longrightarrow> journal_extends k l \<Longrightarrow> journal_extends j l"
  unfolding journal_extends_def using prefix_order.trans order_trans by blast

lemma start_extends: "journal_extends j (snd (mem_start_session j s))"
  by (auto simp: journal_extends_def mem_start_session_def mem_session_def checkpoint_of_def
      split: option.splits)

lemma append_extends: "journal_extends j (snd (mem_append sha j r))"
  by (auto simp: journal_extends_def mem_append_def mem_session_def checkpoint_of_def Let_def
      split: option.splits)

text \<open>What the atomic step does when it returns.\<close>

lemma atomic_open_Inr:
  assumes "mem_start_and_append_before sha j s r cutoff t1 t2 t3 = (Inr x, j')"
  obtains stored j1 where
    "mem_start_session j (s\<lparr>js_started_at := stored\<rparr>) = (Inr (), j1)"
    and "mem_append sha j1 (r\<lparr>jr_occurred_at := stored\<rparr>) = (Inr x, j')"
    and "js_session_id s = jr_session_id r"
    and "stored = (case mem_session j (js_session_id s) of Some old \<Rightarrow> js_started_at old | None \<Rightarrow> t1)"
    and "mem_session j (js_session_id s) = None \<or> existing_record j r \<noteq> None"
    and "instant t1 \<le> instant t2" and "instant t2 \<le> instant t3" and "instant t3 \<le> instant cutoff"
  using assms
  by (auto simp: mem_start_and_append_before_def require_monotonic_before_cutoff_def Let_def
      split: if_splits sum.splits prod.splits option.splits)

lemma atomic_open_Inl:
  "mem_start_and_append_before sha j s r cutoff t1 t2 t3 = (Inl e, j') \<Longrightarrow> j' = j"
  by (auto simp: mem_start_and_append_before_def Let_def split: if_splits sum.splits prod.splits)

lemma exec_step:
  assumes "mem_inv j"
  shows "mem_inv (journal_exec sha j c) \<and> journal_extends j (journal_exec sha j c)"
proof (cases c)
  case (StartSession s)
  then show ?thesis using mem_start_inv [OF assms] start_extends by simp
next
  case (Append r)
  then show ?thesis using mem_append_inv [OF assms] append_extends by simp
next
  case (AtomicOpen s r cutoff t1 t2 t3)
  obtain res j' where run: "mem_start_and_append_before sha j s r cutoff t1 t2 t3 = (res, j')"
    by force
  show ?thesis
  proof (cases res)
    case (Inl e)
    then show ?thesis using AtomicOpen run atomic_open_Inl assms by fastforce
  next
    case (Inr x)
    with run obtain stored j1 where
      1: "mem_start_session j (s\<lparr>js_started_at := stored\<rparr>) = (Inr (), j1)" and
      2: "mem_append sha j1 (r\<lparr>jr_occurred_at := stored\<rparr>) = (Inr x, j')"
      using atomic_open_Inr by metis
    have "mem_inv j1" "journal_extends j j1"
      using mem_start_inv [OF assms] start_extends 1 by (metis snd_conv)+
    moreover from this have "mem_inv j'" "journal_extends j1 j'"
      using mem_append_inv append_extends 2 by (metis snd_conv)+
    ultimately show ?thesis using AtomicOpen run extends_trans by auto
  qed
next
  case (SaveCheckpoint k)
  then show ?thesis using assms
    by (auto simp: mem_save_checkpoint_def Let_def mem_inv_def journal_extends_def mem_session_def
        checkpoint_of_def split: option.splits)
qed

text \<open>
  C17. The journal is append-only: after any history of commands, failing ones included, every
  record is still there at its sequence number (1, 2, 3, ... in append order), no started
  session has changed, no checkpoint has moved back, and the two indexes hold exactly the
  records.
\<close>

theorem journal_history_is_append_only:
  "mem_inv (foldl (journal_exec sha) empty_journal (before @ after))
   \<and> journal_extends (foldl (journal_exec sha) empty_journal before)
        (foldl (journal_exec sha) empty_journal (before @ after))"
proof -
  have run: "mem_inv j \<Longrightarrow> mem_inv (foldl (journal_exec sha) j cs)
      \<and> journal_extends j (foldl (journal_exec sha) j cs)" for j cs
  proof (induction cs arbitrary: j)
    case (Cons c cs)
    then show ?case using exec_step [OF Cons.prems, of sha c] extends_trans by fastforce
  qed simp
  show ?thesis using run [OF mem_inv_empty, of before] run by simp
qed

text \<open>
  C35. Appending is idempotent: a record that is new to its started session and to the
  idempotency index is stored under a sequence number above those of the session, and
  appending it again returns the same stored record, flagged as a retry, and changes nothing.
\<close>

theorem journal_append_retry:
  assumes "mem_inv j" and "mem_session j (jr_session_id r) \<noteq> None" and "existing_record j r = None"
  shows "\<exists>n j'. mem_append sha j r
        = (Inr \<lparr>ja_record = r, ja_sequence = n, ja_idempotent = False\<rparr>, j')
     \<and> mem_append sha j' r = (Inr \<lparr>ja_record = r, ja_sequence = n, ja_idempotent = True\<rparr>, j')
     \<and> (\<forall>x \<in> set (mem_view j (jr_session_id r)). ja_sequence x < n)"
proof -
  note none = assms(3) [unfolded existing_record_None [OF assms(1)]]
  have "\<forall>x \<in> set (mem_view j (jr_session_id r)). jr_record_id (ja_record x) \<noteq> jr_record_id r"
    and "\<forall>sid. \<forall>x \<in> set (mem_view j sid). \<forall>i. idempotency_of r = Some i \<longrightarrow>
      idempotency_of (ja_record x) \<noteq> Some i"
    using none by (auto simp: mem_view_def record_key_def)
  from mem.append_then_retry [OF assms(1,2) this, of sha]
  show ?thesis by (simp add: mem_ops_def)
qed

text \<open>
  C36. Opening a session with its first record is all or nothing: an exception, a clock that
  runs backwards or a passed cutoff leaves the repository as it was; a return for a new
  session means that session and record carry the same time, which is not after the cutoff,
  and that the record is the session's only one.
\<close>

theorem atomic_open_all_or_nothing:
  assumes "mem_inv j" and "mem_start_and_append_before sha j s r cutoff t1 t2 t3 = (result, j')"
  shows "case result of
      Inl e \<Rightarrow> j' = j
    | Inr x \<Rightarrow> mem_session j (js_session_id s) = None \<longrightarrow> existing_record j r = None \<longrightarrow>
        ja_record x = r\<lparr>jr_occurred_at := t1\<rparr> \<and> mem_view j' (jr_session_id r) = [x]
        \<and> mem_session j' (js_session_id s) = Some (s\<lparr>js_started_at := t1\<rparr>)
        \<and> instant t1 \<le> instant cutoff"
proof (cases result)
  case (Inl e)
  then show ?thesis using assms(2) atomic_open_Inl by simp
next
  case (Inr x)
  have "mem_session j (js_session_id s) = None \<Longrightarrow> existing_record j r = None \<Longrightarrow>
        ja_record x = r\<lparr>jr_occurred_at := t1\<rparr> \<and> mem_view j' (jr_session_id r) = [x]
        \<and> mem_session j' (js_session_id s) = Some (s\<lparr>js_started_at := t1\<rparr>)
        \<and> instant t1 \<le> instant cutoff"
  proof -
    assume new: "mem_session j (js_session_id s) = None" and fresh: "existing_record j r = None"
    obtain j1 where
      1: "mem_start_session j (s\<lparr>js_started_at := t1\<rparr>) = (Inr (), j1)" and
      2: "mem_append sha j1 (r\<lparr>jr_occurred_at := t1\<rparr>) = (Inr x, j')" and
      ids: "js_session_id s = jr_session_id r" and
      t: "instant t1 \<le> instant t2" "instant t2 \<le> instant t3" "instant t3 \<le> instant cutoff"
      using atomic_open_Inr [OF assms(2) [unfolded Inr]] new by (metis option.simps(4))
    have j1: "j1 = j\<lparr>mj_sessions := dset (js_session_id s) (s\<lparr>js_started_at := t1\<rparr>) (mj_sessions j)\<rparr>"
      using 1 new by (simp add: mem_start_session_def mem_session_def)
    have "idempotency_of (r\<lparr>jr_occurred_at := t1\<rparr>) = idempotency_of r"
      by (simp add: idempotency_of_def)
    then have "existing_record j1 (r\<lparr>jr_occurred_at := t1\<rparr>) = None"
      using fresh by (auto simp: existing_record_def j1 record_key_def split: option.splits)
    then have x: "ja_record x = r\<lparr>jr_occurred_at := t1\<rparr>" "mj_records j' = mj_records j @ [x]"
      "mj_sessions j' = mj_sessions j1"
      using 2 ids by (auto simp: mem_append_def Let_def j1)
    have "\<forall>y \<in> set (mj_records j). jr_session_id (ja_record y) \<noteq> jr_session_id r"
      using assms(1) new ids by (auto simp: mem_inv_def mem_session_def)
    then have "mem_view j' (jr_session_id r) = [x]"
      using x by (simp add: mem_view_def filter_empty_conv)
    then show ?thesis using x t by (simp add: mem_session_def j1)
  qed
  then show ?thesis using Inr by simp
qed

section \<open>An example history\<close>

definition example_time_at :: "int \<Rightarrow> datetime" where
  "example_time_at t = \<lparr>instant = t, utcoffset = Some 0\<rparr>"

definition example_session :: journal_session where
  "example_session = \<lparr>js_session_id = ''s1'', js_started_at = example_time_at 1, js_mode = ''m'',
     js_metadata = [], js_schema_version = JOURNAL_SCHEMA_VERSION\<rparr>"

definition example_record :: journal_record where
  "example_record = \<lparr>jr_record_id = ''r1'', jr_session_id = ''s1'', jr_kind = ''k'',
     jr_occurred_at = example_time_at 2, jr_payload = [], jr_idempotency_scope = Some ''c'',
     jr_idempotency_key = Some ''i'', jr_schema_version = JOURNAL_SCHEMA_VERSION\<rparr>"

lemmas journal_example_defs = example_time_at_def example_session_def example_record_def

definition example_journal :: memory_journal where
  "example_journal = snd (mem_start_session empty_journal example_session)"

lemma example_journal:
  "mem_inv example_journal" "mem_session example_journal ''s1'' = Some example_session"
  "existing_record example_journal example_record = None"
  using mem_start_inv [OF mem_inv_empty, of example_session]
  by (simp_all add: example_journal_def mem_start_session_def empty_journal_def mem_session_def
      existing_record_def idempotency_of_def example_session_def example_record_def)

theorem journal_append_retry_witness:
  "\<exists>n j'. mem_append (\<lambda>_. []) example_journal example_record
        = (Inr \<lparr>ja_record = example_record, ja_sequence = n, ja_idempotent = False\<rparr>, j')
     \<and> mem_append (\<lambda>_. []) j' example_record
        = (Inr \<lparr>ja_record = example_record, ja_sequence = n, ja_idempotent = True\<rparr>, j')"
  using journal_append_retry [OF example_journal(1) _ example_journal(3), of "\<lambda>_. []"]
    example_journal(2) by (auto simp: example_record_def)

theorem atomic_open_all_or_nothing_witness:
  "\<exists>x j'. mem_start_and_append_before (\<lambda>_. []) empty_journal example_session example_record
       (example_time_at 9) (example_time_at 3) (example_time_at 4) (example_time_at 5) = (Inr x, j')
     \<and> mem_view j' ''s1'' = [x]"
proof -
  obtain result j' where
    run: "mem_start_and_append_before (\<lambda>_. []) empty_journal example_session example_record
       (example_time_at 9) (example_time_at 3) (example_time_at 4) (example_time_at 5) = (result, j')"
    by force
  have "is_ok (fst (mem_start_and_append_before (\<lambda>_. []) empty_journal example_session example_record
       (example_time_at 9) (example_time_at 3) (example_time_at 4) (example_time_at 5)))"
    by code_simp
  then obtain x where x: "result = Inr x" using run by (auto simp: is_ok_iff)
  show ?thesis
    using atomic_open_all_or_nothing [OF mem_inv_empty run] run x
    by (auto simp: mem_session_def empty_journal_def existing_record_def idempotency_of_def
        example_record_def)
qed

end
