(* ===== verification/Kill_Switch.thy ===== *)
theory Kill_Switch
  imports Journal
begin

text \<open>
  The durable kill switch of Local Paper: the control session, its records and their strict
  replay (\<open>trading/kill_switch.py\<close>), and the journal-first service
  (\<open>simulation/kill_switch.py\<close>) over any journal repository. The service's lock makes each
  operation one step. Texts and revisions carry their Python types; a mapping from operation
  to receipt is a dictionary.
\<close>

section \<open>Constants and errors\<close>

definition KILL_SWITCH_CONTRACT_VERSION :: string where
  "KILL_SWITCH_CONTRACT_VERSION = ''local-paper-kill-switch-control-v1''"
definition KILL_SWITCH_CONTROL_SESSION_ID :: string where
  "KILL_SWITCH_CONTROL_SESSION_ID = ''local-paper-global-control-v1''"
definition KILL_SWITCH_CONTROL_MODE :: string where
  "KILL_SWITCH_CONTROL_MODE = ''LOCAL_PAPER_CONTROL''"
definition KILL_SWITCH_IDEMPOTENCY_SCOPE :: string where
  "KILL_SWITCH_IDEMPOTENCY_SCOPE = ''local-paper-kill-switch-control-v1''"
definition KILL_SWITCH_ENGAGED_KIND :: string where
  "KILL_SWITCH_ENGAGED_KIND = ''local_paper_kill_switch_engaged.v1''"
definition KILL_SWITCH_RESET_KIND :: string where
  "KILL_SWITCH_RESET_KIND = ''local_paper_kill_switch_reset.v1''"
definition KILL_SWITCH_EXECUTION_BOUNDARY :: string where
  "KILL_SWITCH_EXECUTION_BOUNDARY = ''LOCAL_ONLY''"
definition KILL_SWITCH_CONTROL_METADATA :: "(string \<times> json) list" where
  "KILL_SWITCH_CONTROL_METADATA =
     [(''contract_version'', JStr KILL_SWITCH_CONTRACT_VERSION),
      (''control_scope'', JStr ''GLOBAL_AUTOMATED_LOCAL_PAPER''),
      (''execution_boundary'', JStr KILL_SWITCH_EXECUTION_BOUNDARY),
      (''restart_policy'', JStr ''STRICT_EVENT_REPLAY''),
      (''writer_model'', JStr ''SINGLE_PROCESS'')]"
definition PAYLOAD_FIELDS :: "string list" where
  "PAYLOAD_FIELDS = [''action'', ''actor_id'', ''contract_version'', ''execution_boundary'',
     ''operation_id'', ''prior_revision'', ''reason'', ''resulting_state'', ''revision'']"

abbreviation ks_contract_error :: "string \<Rightarrow> pyerr" where
  "ks_contract_error m \<equiv> Raised ''KillSwitchContractError'' m"
abbreviation ks_replay_error :: "string \<Rightarrow> pyerr" where
  "ks_replay_error m \<equiv> Raised ''KillSwitchReplayError'' m"
abbreviation ks_operation_conflict :: "string \<Rightarrow> pyerr" where
  "ks_operation_conflict m \<equiv> Raised ''KillSwitchOperationConflict'' m"
abbreviation ks_unavailable :: "string \<Rightarrow> pyerr" where
  "ks_unavailable m \<equiv> Raised ''KillSwitchPersistenceUnavailable'' m"
abbreviation ks_state_conflict :: "string \<Rightarrow> pyerr" where
  "ks_state_conflict m \<equiv> Raised ''KillSwitchStateConflict'' m"
abbreviation ks_admission_blocked :: "string \<Rightarrow> pyerr" where
  "ks_admission_blocked m \<equiv> Raised ''KillSwitchAdmissionBlocked'' m"

datatype ks_action = ENGAGE | RESET
datatype ks_control_state = KS_DISENGAGED | KS_ENGAGED | KS_RECOVERY_REQUIRED

primrec ks_action_value :: "ks_action \<Rightarrow> string" where
  "ks_action_value ENGAGE = ''ENGAGE''"
| "ks_action_value RESET = ''RESET''"

primrec ks_state_value :: "ks_control_state \<Rightarrow> string" where
  "ks_state_value KS_DISENGAGED = ''DISENGAGED''"
| "ks_state_value KS_ENGAGED = ''ENGAGED''"
| "ks_state_value KS_RECOVERY_REQUIRED = ''RECOVERY_REQUIRED''"

definition ks_action_of :: "string \<Rightarrow> ks_action option" where
  "ks_action_of s = (if s = ''ENGAGE'' then Some ENGAGE else if s = ''RESET'' then Some RESET
     else None)"

definition ks_state_of :: "string \<Rightarrow> ks_control_state option" where
  "ks_state_of s = (if s = ''DISENGAGED'' then Some KS_DISENGAGED
     else if s = ''ENGAGED'' then Some KS_ENGAGED
     else if s = ''RECOVERY_REQUIRED'' then Some KS_RECOVERY_REQUIRED else None)"

primrec ks_kind :: "ks_action \<Rightarrow> string" where
  "ks_kind ENGAGE = KILL_SWITCH_ENGAGED_KIND"
| "ks_kind RESET = KILL_SWITCH_RESET_KIND"

primrec ks_result_state :: "ks_action \<Rightarrow> ks_control_state" where
  "ks_result_state ENGAGE = KS_ENGAGED"
| "ks_result_state RESET = KS_DISENGAGED"

section \<open>Receipts and projections\<close>

record ks_receipt =
  kr_action :: ks_action
  kr_operation_id :: string
  kr_actor_id :: string
  kr_reason :: string
  kr_prior_revision :: int
  kr_revision :: int
  kr_resulting_state :: ks_control_state
  kr_occurred_at :: datetime
  kr_journal_sequence :: int

record ks_projection =
  kp_control_state :: ks_control_state
  kp_revision :: int
  kp_reason :: "string option"
  kp_engaged_at :: "datetime option"
  kp_last_transition_at :: "datetime option"
  kp_last_actor_id :: "string option"
  kp_last_operation_id :: "string option"
  kp_last_journal_sequence :: int
  kp_operation_receipts :: "(string, ks_receipt) dict"

definition kp_engaged :: "ks_projection \<Rightarrow> bool" where
  "kp_engaged p \<longleftrightarrow> kp_control_state p = KS_ENGAGED"

definition kp_admission_blocked :: "ks_projection \<Rightarrow> bool" where
  "kp_admission_blocked p \<longleftrightarrow> kp_control_state p \<noteq> KS_DISENGAGED"

definition kill_switch_control_session :: "datetime \<Rightarrow> journal_session" where
  "kill_switch_control_session started =
     \<lparr>js_session_id = KILL_SWITCH_CONTROL_SESSION_ID, js_started_at = started,
      js_mode = KILL_SWITCH_CONTROL_MODE, js_metadata = KILL_SWITCH_CONTROL_METADATA,
      js_schema_version = JOURNAL_SCHEMA_VERSION\<rparr>"

definition validate_kill_switch_control_session :: "journal_session \<Rightarrow> unit res" where
  "validate_kill_switch_control_session s =
     (if js_session_id s \<noteq> KILL_SWITCH_CONTROL_SESSION_ID
      then Inl (ks_replay_error ''kill switch control session id is invalid'')
      else if js_schema_version s \<noteq> JOURNAL_SCHEMA_VERSION
      then Inl (ks_replay_error ''kill switch control session schema version is invalid'')
      else if js_mode s \<noteq> KILL_SWITCH_CONTROL_MODE
      then Inl (ks_replay_error ''kill switch control session mode is invalid'')
      else if canonical_members (js_metadata s) \<noteq> canonical_members KILL_SWITCH_CONTROL_METADATA
      then Inl (ks_replay_error ''kill switch control session metadata conflicts'')
      else Inr ())"

section \<open>Control records\<close>

definition normalized_text :: "string \<Rightarrow> string \<Rightarrow> nat \<Rightarrow> string res" where
  "normalized_text v field max_length =
     (let n = py_strip v
      in if n = [] then Inl (ks_contract_error (field @ '' must not be empty''))
         else if length n > max_length then Inl (ks_contract_error (field @ '' is too long''))
         else Inr n)"

definition ks_payload ::
  "ks_action \<Rightarrow> string \<Rightarrow> string \<Rightarrow> string \<Rightarrow> int \<Rightarrow> (string \<times> json) list" where
  "ks_payload action operation actor reason prior =
     [(''action'', JStr (ks_action_value action)),
      (''actor_id'', JStr actor),
      (''contract_version'', JStr KILL_SWITCH_CONTRACT_VERSION),
      (''execution_boundary'', JStr KILL_SWITCH_EXECUTION_BOUNDARY),
      (''operation_id'', JStr operation),
      (''prior_revision'', JInt prior),
      (''reason'', JStr reason),
      (''resulting_state'', JStr (ks_state_value (ks_result_state action))),
      (''revision'', JInt (prior + 1))]"

definition ks_record_id :: "string \<Rightarrow> string" where
  "ks_record_id operation = ''local-paper-kill-switch:'' @ operation"

definition kill_switch_record ::
  "ks_action \<Rightarrow> string \<Rightarrow> string \<Rightarrow> string \<Rightarrow> int \<Rightarrow> datetime \<Rightarrow> journal_record res" where
  "kill_switch_record action operation actor reason prior occurred =
     (case normalized_text operation ''operation_id'' 96 of Inl e \<Rightarrow> Inl e | Inr o' \<Rightarrow>
      case normalized_text actor ''actor_id'' 128 of Inl e \<Rightarrow> Inl e | Inr a' \<Rightarrow>
      case normalized_text reason ''reason'' 500 of Inl e \<Rightarrow> Inl e | Inr r' \<Rightarrow>
      if prior < 0
      then Inl (ks_contract_error ''prior_revision must be a non-negative integer'')
      else mk_journal_record
        \<lparr>jr_record_id = ks_record_id o', jr_session_id = KILL_SWITCH_CONTROL_SESSION_ID,
         jr_kind = ks_kind action, jr_occurred_at = occurred,
         jr_payload = ks_payload action o' a' r' prior,
         jr_idempotency_scope = Some KILL_SWITCH_IDEMPOTENCY_SCOPE,
         jr_idempotency_key = Some o', jr_schema_version = JOURNAL_SCHEMA_VERSION\<rparr>)"

section \<open>Strict replay\<close>

definition payload_text :: "(string \<times> json) list \<Rightarrow> string \<Rightarrow> nat \<Rightarrow> string res" where
  "payload_text payload field max_length =
     (let bad = Inl (ks_replay_error (''kill switch '' @ field @ '' is invalid''))
      in case map_of payload field of
           Some (JStr v) \<Rightarrow>
             (case normalized_text v field max_length of
                Inl _ \<Rightarrow> bad
              | Inr n \<Rightarrow> if v \<noteq> n then bad else Inr n)
         | _ \<Rightarrow> bad)"

definition payload_revision :: "(string \<times> json) list \<Rightarrow> string \<Rightarrow> int res" where
  "payload_revision payload field =
     (let bad = Inl (ks_replay_error (''kill switch '' @ field @ '' is invalid''))
      in case map_of payload field of
           Some (JInt i) \<Rightarrow> if i < 0 then bad else Inr i
         | _ \<Rightarrow> bad)"

text \<open>\<open>str(payload.get(field, ""))\<close>, where only a string can be the value of an enum.\<close>

definition payload_str :: "(string \<times> json) list \<Rightarrow> string \<Rightarrow> string" where
  "payload_str payload field = (case map_of payload field of Some (JStr v) \<Rightarrow> v | _ \<Rightarrow> [])"

definition initial_ks_projection :: ks_projection where
  "initial_ks_projection =
     \<lparr>kp_control_state = KS_DISENGAGED, kp_revision = 0, kp_reason = None, kp_engaged_at = None,
      kp_last_transition_at = None, kp_last_actor_id = None, kp_last_operation_id = None,
      kp_last_journal_sequence = 0, kp_operation_receipts = []\<rparr>"

text \<open>The checks of the envelope, then of the transition, then the new projection.\<close>

definition replay_envelope :: "ks_projection \<Rightarrow> append_result \<Rightarrow> unit res" where
  "replay_envelope p x =
     (let r = ja_record x; payload = jr_payload r
      in if ja_sequence x \<le> kp_last_journal_sequence p
         then Inl (ks_replay_error ''kill switch Journal sequence must be strictly increasing'')
         else if jr_session_id r \<noteq> KILL_SWITCH_CONTROL_SESSION_ID
         then Inl (ks_replay_error ''kill switch event belongs to another session'')
         else if jr_schema_version r \<noteq> JOURNAL_SCHEMA_VERSION
         then Inl (ks_replay_error ''kill switch event schema version is invalid'')
         else if jr_kind r \<notin> {KILL_SWITCH_ENGAGED_KIND, KILL_SWITCH_RESET_KIND}
         then Inl (ks_replay_error (''unknown kill switch control event: '' @ jr_kind r))
         else if set (map fst payload) \<noteq> set PAYLOAD_FIELDS
         then Inl (ks_replay_error ''kill switch event payload fields are invalid'')
         else if map_of payload ''contract_version'' \<noteq> Some (JStr KILL_SWITCH_CONTRACT_VERSION)
         then Inl (ks_replay_error ''kill switch event contract version is invalid'')
         else if map_of payload ''execution_boundary'' \<noteq> Some (JStr KILL_SWITCH_EXECUTION_BOUNDARY)
         then Inl (ks_replay_error ''kill switch event authority boundary is invalid'')
         else Inr ())"

definition replay_event :: "ks_projection \<Rightarrow> append_result \<Rightarrow> ks_projection res" where
  "replay_event p x =
     (let r = ja_record x; payload = jr_payload r
      in case replay_envelope p x of Inl e \<Rightarrow> Inl e | Inr _ \<Rightarrow>
      case (ks_action_of (payload_str payload ''action''),
            ks_state_of (payload_str payload ''resulting_state'')) of
        (Some action, Some state) \<Rightarrow>
          if jr_kind r \<noteq> ks_kind action \<or> state \<noteq> ks_result_state action
          then Inl (ks_replay_error ''kill switch event action does not match kind'')
          else
          (case payload_text payload ''operation_id'' 96 of Inl e \<Rightarrow> Inl e | Inr operation \<Rightarrow>
           case payload_text payload ''actor_id'' 128 of Inl e \<Rightarrow> Inl e | Inr actor \<Rightarrow>
           case payload_text payload ''reason'' 500 of Inl e \<Rightarrow> Inl e | Inr reason \<Rightarrow>
           case payload_revision payload ''prior_revision'' of Inl e \<Rightarrow> Inl e | Inr prior \<Rightarrow>
           case payload_revision payload ''revision'' of Inl e \<Rightarrow> Inl e | Inr revision \<Rightarrow>
           if prior \<noteq> kp_revision p \<or> revision \<noteq> prior + 1
           then Inl (ks_replay_error ''kill switch revision is not contiguous'')
           else if action = RESET \<and> kp_control_state p \<noteq> KS_ENGAGED
           then Inl (ks_replay_error ''kill switch reset has no engaged state'')
           else if jr_record_id r \<noteq> ks_record_id operation
           then Inl (ks_replay_error ''kill switch record id is invalid'')
           else if jr_idempotency_scope r \<noteq> Some KILL_SWITCH_IDEMPOTENCY_SCOPE
                   \<or> jr_idempotency_key r \<noteq> Some operation
           then Inl (ks_replay_error ''kill switch idempotency identity is invalid'')
           else if dget (kp_operation_receipts p) operation \<noteq> None
           then Inl (ks_replay_error ''kill switch operation id was journaled twice'')
           else
           let receipt = \<lparr>kr_action = action, kr_operation_id = operation, kr_actor_id = actor,
                 kr_reason = reason, kr_prior_revision = prior, kr_revision = revision,
                 kr_resulting_state = state, kr_occurred_at = jr_occurred_at r,
                 kr_journal_sequence = ja_sequence x\<rparr>
           in Inr \<lparr>kp_control_state = state, kp_revision = revision,
                kp_reason = (if action = ENGAGE then Some reason else None),
                kp_engaged_at = (if action = ENGAGE then Some (jr_occurred_at r) else None),
                kp_last_transition_at = Some (jr_occurred_at r), kp_last_actor_id = Some actor,
                kp_last_operation_id = Some operation,
                kp_last_journal_sequence = ja_sequence x,
                kp_operation_receipts = dset operation receipt (kp_operation_receipts p)\<rparr>)
      | _ \<Rightarrow> Inl (ks_replay_error ''kill switch event state is invalid''))"

fun replay_events :: "ks_projection \<Rightarrow> append_result list \<Rightarrow> ks_projection res" where
  "replay_events p [] = Inr p"
| "replay_events p (x # xs) =
     (case replay_event p x of Inl e \<Rightarrow> Inl e | Inr q \<Rightarrow> replay_events q xs)"

definition replay_kill_switch ::
  "journal_session \<Rightarrow> append_result list \<Rightarrow> ks_projection res" where
  "replay_kill_switch s xs =
     (case validate_kill_switch_control_session s of Inl e \<Rightarrow> Inl e
      | Inr _ \<Rightarrow> replay_events initial_ks_projection xs)"

definition matching_operation_receipt ::
  "ks_projection \<Rightarrow> ks_action \<Rightarrow> string \<Rightarrow> string \<Rightarrow> string \<Rightarrow> int option
     \<Rightarrow> ks_receipt option res" where
  "matching_operation_receipt p action operation actor reason expected_revision =
     (case normalized_text operation ''operation_id'' 96 of Inl e \<Rightarrow> Inl e | Inr o' \<Rightarrow>
      case dget (kp_operation_receipts p) o' of None \<Rightarrow> Inr None | Some receipt \<Rightarrow>
      case normalized_text actor ''actor_id'' 128 of Inl e \<Rightarrow> Inl e | Inr a' \<Rightarrow>
      case normalized_text reason ''reason'' 500 of Inl e \<Rightarrow> Inl e | Inr r' \<Rightarrow>
      let expected = (if action = RESET then Some (kr_prior_revision receipt) else None)
      in if kr_action receipt \<noteq> action \<or> kr_actor_id receipt \<noteq> a' \<or> kr_reason receipt \<noteq> r'
            \<or> expected_revision \<noteq> expected
         then Inl (ks_operation_conflict
           ''kill switch operation id conflicts with existing request'')
         else Inr (Some receipt))"

section \<open>The service\<close>

datatype ks_durability = POSTGRESQL | EPHEMERAL_MEMORY

text \<open>\<open>type(error).__name__\<close>\<close>

primrec exception_name :: "pyerr \<Rightarrow> string" where
  "exception_name (ValueError m) = ''ValueError''"
| "exception_name (TypeError m) = ''TypeError''"
| "exception_name (RuntimeError m) = ''RuntimeError''"
| "exception_name (LookupFailure m) = ''KeyError''"
| "exception_name (AssertionFailure m) = ''AssertionError''"
| "exception_name InvalidOperation = ''InvalidOperation''"
| "exception_name (Raised c m) = c"

definition recovery_error_text :: "pyerr \<Rightarrow> string" where
  "recovery_error_text e = exception_name e @ '': kill switch Journal recovery failed''"

record ks_service =
  kss_durability :: ks_durability
  kss_session :: "journal_session option"
  kss_projection :: "ks_projection option"
  kss_recovered :: bool
  kss_recovery_error :: "string option"

record ks_status =
  kst_control_state :: ks_control_state
  kst_engaged :: bool
  kst_revision :: "int option"
  kst_reason :: "string option"
  kst_engaged_at :: "datetime option"
  kst_last_transition_at :: "datetime option"
  kst_last_actor_id :: "string option"
  kst_last_operation_id :: "string option"
  kst_durability :: ks_durability
  kst_restart_safe :: bool
  kst_recovered :: bool
  kst_recovery_error :: "string option"

record ks_transition =
  ktr_status :: ks_status
  ktr_receipt :: ks_receipt
  ktr_idempotent :: bool

definition ks_recover ::
  "'j journal_ops \<Rightarrow> 'j \<Rightarrow> datetime \<Rightarrow> ks_durability \<Rightarrow> ks_service \<times> 'j" where
  "ks_recover ops j now durability =
     (let failed = (\<lambda>session e j'.
        (\<lparr>kss_durability = durability, kss_session = session, kss_projection = None,
          kss_recovered = False, kss_recovery_error = Some (recovery_error_text e)\<rparr>, j'))
      in case jo_session ops j KILL_SWITCH_CONTROL_SESSION_ID of
           Inl e \<Rightarrow> failed None e j
         | Inr found \<Rightarrow>
           let session = (case found of None \<Rightarrow> kill_switch_control_session now | Some s \<Rightarrow> s)
           in case (case found of None \<Rightarrow> journal_session_post_init session | Some _ \<Rightarrow> Inr ())
                of Inl e \<Rightarrow> failed None e j
            | Inr _ \<Rightarrow>
              (case jo_start ops j session of
                 (Inl e, j') \<Rightarrow> failed (Some session) e j'
               | (Inr _, j') \<Rightarrow>
                 (case jo_records ops j' KILL_SWITCH_CONTROL_SESSION_ID of
                    Inl e \<Rightarrow> failed (Some session) e j'
                  | Inr xs \<Rightarrow>
                    (case replay_kill_switch session xs of
                       Inl e \<Rightarrow> failed (Some session) e j'
                     | Inr p \<Rightarrow>
                       (\<lparr>kss_durability = durability, kss_session = Some session,
                         kss_projection = Some p, kss_recovered = (found \<noteq> None),
                         kss_recovery_error = None\<rparr>, j')))))"

definition kss_control_state :: "ks_service \<Rightarrow> ks_control_state" where
  "kss_control_state s =
     (case kss_projection s of None \<Rightarrow> KS_RECOVERY_REQUIRED | Some p \<Rightarrow> kp_control_state p)"

definition kss_engaged :: "ks_service \<Rightarrow> bool" where
  "kss_engaged s \<longleftrightarrow>
     (case kss_projection s of None \<Rightarrow> True | Some p \<Rightarrow> kp_admission_blocked p)"

definition kss_status :: "ks_service \<Rightarrow> ks_status" where
  "kss_status s =
     (let p = kss_projection s
      in \<lparr>kst_control_state = kss_control_state s,
          kst_engaged = (kss_control_state s \<noteq> KS_DISENGAGED),
          kst_revision = map_option kp_revision p,
          kst_reason = Option.bind p kp_reason, kst_engaged_at = Option.bind p kp_engaged_at,
          kst_last_transition_at = Option.bind p kp_last_transition_at,
          kst_last_actor_id = Option.bind p kp_last_actor_id,
          kst_last_operation_id = Option.bind p kp_last_operation_id,
          kst_durability = kss_durability s,
          kst_restart_safe = (kss_durability s = POSTGRESQL),
          kst_recovered = kss_recovered s, kst_recovery_error = kss_recovery_error s\<rparr>)"

definition enter_recovery_required :: "ks_service \<Rightarrow> pyerr \<Rightarrow> ks_service" where
  "enter_recovery_required s e =
     s\<lparr>kss_projection := None, kss_recovered := False,
       kss_recovery_error := Some (recovery_error_text e)\<rparr>"

definition require_projection :: "ks_service \<Rightarrow> ks_projection res" where
  "require_projection s = (case kss_projection s of
     None \<Rightarrow> Inl (ks_unavailable ''kill switch recovery is required'') | Some p \<Rightarrow> Inr p)"

definition transition_result :: "ks_service \<Rightarrow> ks_receipt \<Rightarrow> bool \<Rightarrow> ks_transition" where
  "transition_result s receipt idempotent =
     \<lparr>ktr_status = kss_status s, ktr_receipt = receipt, ktr_idempotent = idempotent\<rparr>"

definition replay_current :: "'j journal_ops \<Rightarrow> 'j \<Rightarrow> ks_service \<Rightarrow> ks_projection res" where
  "replay_current ops j s =
     (case kss_session s of
        None \<Rightarrow> Inl (RuntimeError ''kill switch control session is unavailable'')
      | Some session \<Rightarrow>
          (case jo_records ops j KILL_SWITCH_CONTROL_SESSION_ID of Inl e \<Rightarrow> Inl e
           | Inr xs \<Rightarrow> replay_kill_switch session xs))"

definition resolve_append_conflict ::
  "'j journal_ops \<Rightarrow> 'j \<Rightarrow> ks_service \<Rightarrow> ks_action \<Rightarrow> string \<Rightarrow> string \<Rightarrow> string \<Rightarrow> int option
     \<Rightarrow> ks_transition res \<times> ks_service" where
  "resolve_append_conflict ops j s action operation actor reason expected =
     (let unresolved = (\<lambda>s' e.
        (Inl (ks_unavailable ''kill switch Journal conflict could not be resolved''),
         enter_recovery_required s' e))
      in case replay_current ops j s of Inl e \<Rightarrow> unresolved s e
         | Inr p \<Rightarrow>
           let s1 = s\<lparr>kss_projection := Some p, kss_recovery_error := None\<rparr>
           in case matching_operation_receipt p action operation actor reason expected of
                Inl e \<Rightarrow> (if exception_name e = ''KillSwitchOperationConflict'' then (Inl e, s1)
                          else unresolved s1 e)
              | Inr None \<Rightarrow>
                  unresolved s1 (RuntimeError ''conflicting kill switch record is absent'')
              | Inr (Some receipt) \<Rightarrow> (Inr (transition_result s1 receipt True), s1))"

definition append_transition ::
  "'j journal_ops \<Rightarrow> 'j \<Rightarrow> ks_service \<Rightarrow> datetime \<Rightarrow> ks_action \<Rightarrow> string \<Rightarrow> string \<Rightarrow> string \<Rightarrow> int
     \<Rightarrow> ks_transition res \<times> ks_service \<times> 'j" where
  "append_transition ops j s now action operation actor reason prior =
     (case kill_switch_record action operation actor reason prior now of
        Inl e \<Rightarrow> (Inl e, s, j)
      | Inr r \<Rightarrow>
        (case jo_append ops j r of
           (Inl e, j') \<Rightarrow>
             if exception_name e = ''JournalConflictError''
             then (case resolve_append_conflict ops j' s action operation actor reason
                     (if action = RESET then Some prior else None) of
                     (result, s') \<Rightarrow> (result, s', j'))
             else (Inl (ks_unavailable ''kill switch Journal append failed''),
                   enter_recovery_required s e, j')
         | (Inr appended, j') \<Rightarrow>
             let unverified = (\<lambda>e.
               (Inl (ks_unavailable ''kill switch transition could not be verified''),
                enter_recovery_required s e, j'))
             in (case replay_current ops j' s of Inl e \<Rightarrow> unverified e
                 | Inr p \<Rightarrow>
                   (case dget (kp_operation_receipts p) (py_strip operation) of
                      None \<Rightarrow> unverified (LookupFailure (py_strip operation))
                    | Some receipt \<Rightarrow>
                      let s' = s\<lparr>kss_projection := Some p, kss_recovery_error := None\<rparr>
                      in (Inr (transition_result s' receipt (ja_idempotent appended)), s', j')))))"

definition ks_engage ::
  "'j journal_ops \<Rightarrow> 'j \<Rightarrow> ks_service \<Rightarrow> datetime \<Rightarrow> string \<Rightarrow> string \<Rightarrow> string
     \<Rightarrow> ks_transition res \<times> ks_service \<times> 'j" where
  "ks_engage ops j s now actor operation reason =
     (case require_projection s of Inl e \<Rightarrow> (Inl e, s, j) | Inr p \<Rightarrow>
      case matching_operation_receipt p ENGAGE operation actor reason None of
        Inl e \<Rightarrow> (Inl e, s, j)
      | Inr (Some receipt) \<Rightarrow> (Inr (transition_result s receipt True), s, j)
      | Inr None \<Rightarrow> append_transition ops j s now ENGAGE operation actor reason (kp_revision p))"

definition ks_reset ::
  "'j journal_ops \<Rightarrow> 'j \<Rightarrow> ks_service \<Rightarrow> datetime \<Rightarrow> string \<Rightarrow> string \<Rightarrow> string \<Rightarrow> int
     \<Rightarrow> ks_transition res \<times> ks_service \<times> 'j" where
  "ks_reset ops j s now actor operation reason expected =
     (if expected < 0
      then (Inl (ks_contract_error ''expected_revision must be a non-negative integer''), s, j)
      else
      case require_projection s of Inl e \<Rightarrow> (Inl e, s, j) | Inr p \<Rightarrow>
      case matching_operation_receipt p RESET operation actor reason (Some expected) of
        Inl e \<Rightarrow> (Inl e, s, j)
      | Inr (Some receipt) \<Rightarrow> (Inr (transition_result s receipt True), s, j)
      | Inr None \<Rightarrow>
          if kp_control_state p \<noteq> KS_ENGAGED
          then (Inl (ks_state_conflict ''kill switch is not engaged''), s, j)
          else if expected \<noteq> kp_revision p
          then (Inl (ks_state_conflict ''kill switch reset revision is stale''), s, j)
          else append_transition ops j s now RESET operation actor reason (kp_revision p))"

definition assert_admission_allowed :: "ks_service \<Rightarrow> unit res" where
  "assert_admission_allowed s =
     (case require_projection s of Inl e \<Rightarrow> Inl e
      | Inr p \<Rightarrow> if kp_control_state p = KS_ENGAGED
                then Inl (ks_admission_blocked ''Local Paper kill switch is engaged'')
                else Inr ())"

definition admit_automated_intent :: "ks_service \<Rightarrow> (unit \<Rightarrow> 'a res) \<Rightarrow> 'a res" where
  "admit_automated_intent s operation =
     (case assert_admission_allowed s of Inl e \<Rightarrow> Inl e | Inr _ \<Rightarrow> operation ())"

section \<open>Replay\<close>

definition clean_text :: "string \<Rightarrow> nat \<Rightarrow> bool" where
  "clean_text v n \<longleftrightarrow> v \<noteq> [] \<and> py_strip v = v \<and> length v \<le> n"

lemma normalized_text_clean: "clean_text v n \<Longrightarrow> normalized_text v f n = Inr v"
  by (simp add: clean_text_def normalized_text_def Let_def)

lemma dropWhile_idem: "dropWhile P (dropWhile P xs) = dropWhile P xs"
  by (induction xs) auto

lemma py_strip_idem [simp]: "py_strip (py_strip v) = py_strip v"
proof -
  define u where "u = dropWhile py_space v"
  define w where "w = rev (dropWhile py_space (rev u))"
  have suffix: "w = take (length w) u"
    unfolding w_def by (metis append_eq_conv_conj rev_append rev_rev_ident takeWhile_dropWhile_id)
  have "dropWhile py_space w = w"
  proof (cases w)
    case (Cons c cs)
    then obtain us where "u = c # us" using suffix by (cases u) auto
    then have "\<not> py_space c" unfolding u_def by (metis hd_dropWhile list.distinct(1) list.sel(1))
    then show ?thesis using Cons by simp
  qed simp
  then show ?thesis
    by (simp add: py_strip_def dropWhile_idem flip: u_def w_def)
      (simp add: w_def dropWhile_idem)
qed

lemma normalized_text_Inr:
  "normalized_text v f n = Inr w \<Longrightarrow> w = py_strip v \<and> clean_text w n"
  by (auto simp: normalized_text_def clean_text_def Let_def split: if_splits)


lemma canonical_payload: "canonical_members (ks_payload a o' ac r p) = ks_payload a o' ac r p"
proof -
  have "sorted (map fst (ks_payload a o' ac r p))"
  proof -
    have "map fst (ks_payload a o' ac r p) = PAYLOAD_FIELDS"
      by (simp add: ks_payload_def PAYLOAD_FIELDS_def)
    moreover have "sorted PAYLOAD_FIELDS" by code_simp
    ultimately show ?thesis by simp
  qed
  moreover have "map (\<lambda>m. (fst m, canonical_json (snd m))) (ks_payload a o' ac r p)
      = ks_payload a o' ac r p" by (simp add: ks_payload_def)
  ultimately show ?thesis by (simp add: canonical_members_def sort_key_id_if_sorted)
qed

text \<open>The record a transition appends, for texts that survive normalisation.\<close>

definition ks_control_record ::
  "ks_action \<Rightarrow> string \<Rightarrow> string \<Rightarrow> string \<Rightarrow> int \<Rightarrow> datetime \<Rightarrow> journal_record" where
  "ks_control_record action operation actor reason prior occurred =
     \<lparr>jr_record_id = ks_record_id operation, jr_session_id = KILL_SWITCH_CONTROL_SESSION_ID,
      jr_kind = ks_kind action, jr_occurred_at = occurred,
      jr_payload = ks_payload action operation actor reason prior,
      jr_idempotency_scope = Some KILL_SWITCH_IDEMPOTENCY_SCOPE,
      jr_idempotency_key = Some operation, jr_schema_version = JOURNAL_SCHEMA_VERSION\<rparr>"

lemma ks_control_record_simps [simp]:
  "jr_payload (ks_control_record a op ac re n t) = ks_payload a op ac re n"
  "jr_kind (ks_control_record a op ac re n t) = ks_kind a"
  "jr_session_id (ks_control_record a op ac re n t) = KILL_SWITCH_CONTROL_SESSION_ID"
  "jr_record_id (ks_control_record a op ac re n t) = ks_record_id op"
  "jr_schema_version (ks_control_record a op ac re n t) = JOURNAL_SCHEMA_VERSION"
  "jr_occurred_at (ks_control_record a op ac re n t) = t"
  "jr_idempotency_scope (ks_control_record a op ac re n t) = Some KILL_SWITCH_IDEMPOTENCY_SCOPE"
  "jr_idempotency_key (ks_control_record a op ac re n t) = Some op"
  by (simp_all add: ks_control_record_def)

lemma clean_not_blank: "clean_text v n \<Longrightarrow> \<not> blank v"
  by (simp add: clean_text_def blank_def)

lemma ks_constants_not_blank:
  "\<not> blank KILL_SWITCH_CONTROL_SESSION_ID" "\<not> blank KILL_SWITCH_IDEMPOTENCY_SCOPE"
  "\<not> blank JOURNAL_SCHEMA_VERSION" "\<not> blank (ks_kind a)" "\<not> blank (ks_record_id v)"
proof -
  show "\<not> blank KILL_SWITCH_CONTROL_SESSION_ID" "\<not> blank KILL_SWITCH_IDEMPOTENCY_SCOPE"
    "\<not> blank JOURNAL_SCHEMA_VERSION" by code_simp+
  have "\<not> blank KILL_SWITCH_ENGAGED_KIND" "\<not> blank KILL_SWITCH_RESET_KIND" by code_simp+
  then show "\<not> blank (ks_kind a)" by (cases a) simp_all
  have "\<not> blank ''local-paper-kill-switch:''" by code_simp
  then show "\<not> blank (ks_record_id v)" unfolding ks_record_id_def blank_append by blast
qed

lemma kill_switch_record_Inr:
  "kill_switch_record a op ac re prior t = Inr r \<longleftrightarrow>
     (\<exists>o' a' r'. normalized_text op ''operation_id'' 96 = Inr o'
        \<and> normalized_text ac ''actor_id'' 128 = Inr a'
        \<and> normalized_text re ''reason'' 500 = Inr r' \<and> 0 \<le> prior \<and> dt_aware t
        \<and> r = ks_control_record a o' a' r' prior t)"
proof -
  have "mk_journal_record (ks_control_record a o' a' r' prior t) = Inr r \<longleftrightarrow>
      dt_aware t \<and> r = ks_control_record a o' a' r' prior t"
    if "normalized_text op ''operation_id'' 96 = Inr o'" for o' a' r'
    using clean_not_blank normalized_text_Inr [OF that] ks_constants_not_blank
    by (auto simp: mk_journal_record_def ks_control_record_def canonical_payload res_simps
        opt_string_def)
  then show ?thesis
    unfolding kill_switch_record_def ks_control_record_def [symmetric]
    by (auto simp: res_simps)
qed

definition ks_after ::
  "ks_projection \<Rightarrow> ks_action \<Rightarrow> string \<Rightarrow> string \<Rightarrow> string \<Rightarrow> datetime \<Rightarrow> int \<Rightarrow> ks_projection" where
  "ks_after p action operation actor reason occurred sequence =
     \<lparr>kp_control_state = ks_result_state action, kp_revision = kp_revision p + 1,
      kp_reason = (if action = ENGAGE then Some reason else None),
      kp_engaged_at = (if action = ENGAGE then Some occurred else None),
      kp_last_transition_at = Some occurred, kp_last_actor_id = Some actor,
      kp_last_operation_id = Some operation, kp_last_journal_sequence = sequence,
      kp_operation_receipts = dset operation
        \<lparr>kr_action = action, kr_operation_id = operation, kr_actor_id = actor,
         kr_reason = reason, kr_prior_revision = kp_revision p, kr_revision = kp_revision p + 1,
         kr_resulting_state = ks_result_state action, kr_occurred_at = occurred,
         kr_journal_sequence = sequence\<rparr> (kp_operation_receipts p)\<rparr>"

text \<open>Strict replay accepts the record of a legal transition, and nothing is lost in it.\<close>

lemma payload_reads:
  "map_of (ks_payload a op ac re n) ''contract_version'' = Some (JStr KILL_SWITCH_CONTRACT_VERSION)"
  "map_of (ks_payload a op ac re n) ''execution_boundary''
     = Some (JStr KILL_SWITCH_EXECUTION_BOUNDARY)"
  "payload_str (ks_payload a op ac re n) ''action'' = ks_action_value a"
  "payload_str (ks_payload a op ac re n) ''resulting_state'' = ks_state_value (ks_result_state a)"
  "clean_text op 96 \<Longrightarrow> payload_text (ks_payload a op ac re n) ''operation_id'' 96 = Inr op"
  "clean_text ac 128 \<Longrightarrow> payload_text (ks_payload a op ac re n) ''actor_id'' 128 = Inr ac"
  "clean_text re 500 \<Longrightarrow> payload_text (ks_payload a op ac re n) ''reason'' 500 = Inr re"
  "0 \<le> n \<Longrightarrow> payload_revision (ks_payload a op ac re n) ''prior_revision'' = Inr n"
  "0 \<le> n \<Longrightarrow> payload_revision (ks_payload a op ac re n) ''revision'' = Inr (n + 1)"
  "set (map fst (ks_payload a op ac re n)) = set PAYLOAD_FIELDS"
  by (simp_all add: ks_payload_def payload_str_def payload_text_def payload_revision_def
      normalized_text_clean PAYLOAD_FIELDS_def Let_def)

lemma enum_round_trip [simp]:
  "ks_action_of (ks_action_value a) = Some a" "ks_state_of (ks_state_value s) = Some s"
  by (cases a; simp add: ks_action_of_def) (cases s; simp add: ks_state_of_def)

lemma replay_control_record:
  assumes "clean_text op 96" and "clean_text ac 128" and "clean_text re 500"
    and "0 \<le> kp_revision p" and "kp_last_journal_sequence p < n"
    and "dget (kp_operation_receipts p) op = None"
    and "a = RESET \<Longrightarrow> kp_control_state p = KS_ENGAGED"
  shows "replay_event p \<lparr>ja_record = ks_control_record a op ac re (kp_revision p) t,
      ja_sequence = n, ja_idempotent = f\<rparr> = Inr (ks_after p a op ac re t n)"
proof -
  let ?r = "ks_control_record a op ac re (kp_revision p) t"
  let ?x = "\<lparr>ja_record = ?r, ja_sequence = n, ja_idempotent = f\<rparr>"
  have kind: "ks_kind a = KILL_SWITCH_ENGAGED_KIND \<or> ks_kind a = KILL_SWITCH_RESET_KIND"
    by (cases a) simp_all
  have "replay_envelope p ?x = Inr ()"
    using assms(5) kind by (simp add: replay_envelope_def Let_def payload_reads del: set_map)
  then show ?thesis
    using assms by (auto simp: replay_event_def Let_def payload_reads ks_after_def)
qed


lemma replay_events_append:
  "replay_events p (xs @ ys) =
     (case replay_events p xs of Inl e \<Rightarrow> Inl e | Inr q \<Rightarrow> replay_events q ys)"
  by (induction xs arbitrary: p) (auto split: sum.split)

lemma replay_event_Inr:
  assumes "replay_event p x = Inr q"
  obtains op receipt where "kp_revision q = kp_revision p + 1"
    and "kp_last_journal_sequence q = ja_sequence x"
    and "kp_operation_receipts q = dset op receipt (kp_operation_receipts p)"
    and "jr_record_id (ja_record x) = ks_record_id op"
    and "idempotency_of (ja_record x) = Some (KILL_SWITCH_IDEMPOTENCY_SCOPE, op)"
    and "kp_control_state q \<noteq> KS_RECOVERY_REQUIRED"
proof -
  obtain a st where a: "ks_action_of (payload_str (jr_payload (ja_record x)) ''action'') = Some a"
    "ks_state_of (payload_str (jr_payload (ja_record x)) ''resulting_state'') = Some st"
    using assms by (auto simp: replay_event_def Let_def res_simps split: option.splits)
  note u = assms [unfolded replay_event_def Let_def a option.case prod.case res_simps]
  obtain op ac re pr rv where
    v: "st = ks_result_state a" "pr = kp_revision p" "rv = pr + 1"
    "jr_record_id (ja_record x) = ks_record_id op"
    "jr_idempotency_scope (ja_record x) = Some KILL_SWITCH_IDEMPOTENCY_SCOPE"
    "jr_idempotency_key (ja_record x) = Some op" and
    q: "Inr \<lparr>kp_control_state = st, kp_revision = rv,
                kp_reason = (if a = ENGAGE then Some re else None),
                kp_engaged_at = (if a = ENGAGE then Some (jr_occurred_at (ja_record x)) else None),
                kp_last_transition_at = Some (jr_occurred_at (ja_record x)), kp_last_actor_id = Some ac,
                kp_last_operation_id = Some op,
                kp_last_journal_sequence = ja_sequence x,
                kp_operation_receipts = dset op \<lparr>kr_action = a, kr_operation_id = op, kr_actor_id = ac,
                 kr_reason = re, kr_prior_revision = pr, kr_revision = rv,
                 kr_resulting_state = st, kr_occurred_at = jr_occurred_at (ja_record x),
                 kr_journal_sequence = ja_sequence x\<rparr> (kp_operation_receipts p)\<rparr> = (Inr q :: ks_projection res)"
    using u by blast
  have "q = projr (Inr q :: ks_projection res)" by simp
  note q' = this [folded q, simplified]
  have "kp_control_state q \<noteq> KS_RECOVERY_REQUIRED"
    using v(1) by (cases a) (simp_all add: q')
  then show ?thesis
    by (intro that [of op]) (simp_all add: v q' idempotency_of_def opt_string_def)
qed

definition replay_facts :: "ks_projection \<Rightarrow> append_result list \<Rightarrow> bool" where
  "replay_facts q xs \<longleftrightarrow>
     kp_revision q = int (length xs)
     \<and> kp_last_journal_sequence q = (if xs = [] then 0 else ja_sequence (last xs))
     \<and> kp_control_state q \<noteq> KS_RECOVERY_REQUIRED
     \<and> (\<forall>x \<in> set xs. \<exists>op. jr_record_id (ja_record x) = ks_record_id op
          \<and> idempotency_of (ja_record x) = Some (KILL_SWITCH_IDEMPOTENCY_SCOPE, op)
          \<and> dget (kp_operation_receipts q) op \<noteq> None)"

lemma replay_facts: "replay_events initial_ks_projection xs = Inr q \<Longrightarrow> replay_facts q xs"
proof (induction xs arbitrary: q rule: rev_induct)
  case Nil
  then show ?case by (auto simp: replay_facts_def initial_ks_projection_def)
next
  case (snoc x xs)
  obtain p where p: "replay_events initial_ks_projection xs = Inr p" "replay_event p x = Inr q"
    using snoc.prems by (auto simp: replay_events_append res_simps)
  note IH = snoc.IH [OF p(1)]
  from p(2) show ?case
  proof (rule replay_event_Inr)
    fix op receipt
    assume q: "kp_revision q = kp_revision p + 1" "kp_last_journal_sequence q = ja_sequence x"
      "kp_operation_receipts q = dset op receipt (kp_operation_receipts p)"
      "jr_record_id (ja_record x) = ks_record_id op"
      "idempotency_of (ja_record x) = Some (KILL_SWITCH_IDEMPOTENCY_SCOPE, op)"
      "kp_control_state q \<noteq> KS_RECOVERY_REQUIRED"
    have "\<exists>op'. jr_record_id (ja_record y) = ks_record_id op'
        \<and> idempotency_of (ja_record y) = Some (KILL_SWITCH_IDEMPOTENCY_SCOPE, op')
        \<and> dget (kp_operation_receipts q) op' \<noteq> None" if "y \<in> set (xs @ [x])" for y
    proof (cases "y = x")
      case True
      then show ?thesis using q by auto
    next
      case False
      then have "y \<in> set xs" using that by simp
      then obtain op' where "jr_record_id (ja_record y) = ks_record_id op'"
        "idempotency_of (ja_record y) = Some (KILL_SWITCH_IDEMPOTENCY_SCOPE, op')"
        "dget (kp_operation_receipts p) op' \<noteq> None"
        using IH by (auto simp: replay_facts_def)
      then show ?thesis using q(3) by (intro exI [of _ op']) auto
    qed
    then show "replay_facts q (xs @ [x])"
      using IH q unfolding replay_facts_def by simp
  qed
qed

section \<open>The service over any repository\<close>

text \<open>
  The service is synchronised with a journal when it holds the started control session and
  the strict replay of its records, and no other session uses its idempotency scope.
\<close>

definition ks_exclusive :: "(string \<Rightarrow> append_result list) \<Rightarrow> bool" where
  "ks_exclusive v \<longleftrightarrow> (\<forall>sid x op. x \<in> set (v sid) \<longrightarrow> sid \<noteq> KILL_SWITCH_CONTROL_SESSION_ID \<longrightarrow>
     idempotency_of (ja_record x) \<noteq> Some (KILL_SWITCH_IDEMPOTENCY_SCOPE, op))"

definition ks_synced ::
  "(string \<Rightarrow> append_result list) \<Rightarrow> (string \<Rightarrow> journal_session option) \<Rightarrow> ks_service \<Rightarrow> bool" where
  "ks_synced v st s \<longleftrightarrow> ks_exclusive v \<and>
     (\<exists>session p. kss_session s = Some session \<and> st KILL_SWITCH_CONTROL_SESSION_ID = Some session
        \<and> kss_projection s = Some p
        \<and> replay_kill_switch session (v KILL_SWITCH_CONTROL_SESSION_ID) = Inr p)"

lemma ks_syncedE:
  assumes "ks_synced v st s"
  obtains session p where "kss_session s = Some session"
    and "st KILL_SWITCH_CONTROL_SESSION_ID = Some session" and "kss_projection s = Some p"
    and "validate_kill_switch_control_session session = Inr ()"
    and "replay_events initial_ks_projection (v KILL_SWITCH_CONTROL_SESSION_ID) = Inr p"
    and "ks_exclusive v"
  using assms by (auto simp: ks_synced_def replay_kill_switch_def res_simps)

lemma matching_None:
  "matching_operation_receipt p a op ac re e = Inr None \<longleftrightarrow>
     (\<exists>o'. normalized_text op ''operation_id'' 96 = Inr o'
        \<and> dget (kp_operation_receipts p) o' = None)"
  by (auto simp: matching_operation_receipt_def Let_def split: sum.splits option.splits)

context journal_repository
begin

lemma append_transition_fresh:
  assumes inv: "inv j" and sync: "ks_synced (view j) (started j) s" and p: "kss_projection s = Some p"
    and op: "normalized_text op ''operation_id'' 96 = Inr o'"
    and ac: "normalized_text ac ''actor_id'' 128 = Inr a'"
    and re: "normalized_text re ''reason'' 500 = Inr r'" and now: "dt_aware now"
    and fresh: "dget (kp_operation_receipts p) o' = None"
    and guard: "a = RESET \<Longrightarrow> kp_control_state p = KS_ENGAGED"
  shows "\<exists>n j' receipt. append_transition ops j s now a op ac re (kp_revision p)
      = (Inr (transition_result (s\<lparr>kss_projection := Some (ks_after p a o' a' r' now n),
            kss_recovery_error := None\<rparr>) receipt False),
         s\<lparr>kss_projection := Some (ks_after p a o' a' r' now n), kss_recovery_error := None\<rparr>, j')
    \<and> inv j' \<and> ks_synced (view j') (started j')
        (s\<lparr>kss_projection := Some (ks_after p a o' a' r' now n), kss_recovery_error := None\<rparr>)
    \<and> dget (kp_operation_receipts (ks_after p a o' a' r' now n)) o' = Some receipt"
proof -
  let ?C = KILL_SWITCH_CONTROL_SESSION_ID
  obtain session where se: "kss_session s = Some session" "started j ?C = Some session"
    "validate_kill_switch_control_session session = Inr ()"
    "replay_events initial_ks_projection (view j ?C) = Inr p" "ks_exclusive (view j)"
    using ks_syncedE [OF sync] p by (metis option.inject)
  have clean: "clean_text o' 96" "clean_text a' 128" "clean_text r' 500" "o' = py_strip op"
    using normalized_text_Inr op ac re by blast+
  note facts = replay_facts [OF se(4), unfolded replay_facts_def]
  let ?r = "ks_control_record a o' a' r' (kp_revision p) now"
  have rec: "kill_switch_record a op ac re (kp_revision p) now = Inr ?r"
    unfolding kill_switch_record_Inr using op ac re now facts by auto
  have idem: "idempotency_of ?r = Some (KILL_SWITCH_IDEMPOTENCY_SCOPE, o')"
    by (simp add: idempotency_of_def opt_string_def)
  have new_id: "\<forall>x \<in> set (view j (jr_session_id ?r)). jr_record_id (ja_record x) \<noteq> jr_record_id ?r"
  proof
    fix x assume "x \<in> set (view j (jr_session_id ?r))"
    then obtain o'' where "jr_record_id (ja_record x) = ks_record_id o''"
      "dget (kp_operation_receipts p) o'' \<noteq> None" using facts by auto
    then show "jr_record_id (ja_record x) \<noteq> jr_record_id ?r"
      using fresh by (auto simp: ks_record_id_def)
  qed
  have new_key: "\<forall>sid. \<forall>x \<in> set (view j sid). \<forall>i. idempotency_of ?r = Some i \<longrightarrow>
      idempotency_of (ja_record x) \<noteq> Some i"
  proof (intro allI ballI impI)
    fix sid x i assume x: "x \<in> set (view j sid)" and i: "idempotency_of ?r = Some i"
    show "idempotency_of (ja_record x) \<noteq> Some i"
    proof (cases "sid = ?C")
      case True
      then obtain o'' where "idempotency_of (ja_record x) = Some (KILL_SWITCH_IDEMPOTENCY_SCOPE, o'')"
        "dget (kp_operation_receipts p) o'' \<noteq> None" using facts x by auto
      then show ?thesis using fresh i idem by auto
    next
      case False
      then show ?thesis using x i idem se(5) by (auto simp: ks_exclusive_def)
    qed
  qed
  have "started j (jr_session_id ?r) \<noteq> None" using se(2) by simp
  from append_fresh [OF inv this new_id new_key]
  obtain n j' where app: "jo_append ops j ?r
        = (Inr \<lparr>ja_record = ?r, ja_sequence = n, ja_idempotent = False\<rparr>, j')"
    and j': "inv j'" "started j' = started j"
      "view j' = (view j)(?C := view j ?C @ [\<lparr>ja_record = ?r, ja_sequence = n, ja_idempotent = False\<rparr>])"
    by auto
  let ?x = "\<lparr>ja_record = ?r, ja_sequence = n, ja_idempotent = False\<rparr>"
  let ?q = "ks_after p a o' a' r' now n"
  let ?s = "s\<lparr>kss_projection := Some ?q, kss_recovery_error := None\<rparr>"
  have "kp_last_journal_sequence p < n"
    using increasing [OF j'(1), of ?C] facts j'(3)
    by (cases "view j ?C" rule: rev_cases) (auto simp: sorted_wrt_append)
  then have "replay_event p ?x = Inr ?q"
    using replay_control_record [OF clean(1-3) _ _ fresh guard] facts by simp
  then have replay: "replay_kill_switch session (view j' ?C) = Inr ?q"
    using se(3,4) j'(3) by (simp add: replay_kill_switch_def replay_events_append)
  have "ks_exclusive (view j')" using se(5) j'(3) by (auto simp: ks_exclusive_def)
  then have sync': "ks_synced (view j') (started j') ?s"
    using replay se(1,2) j'(2) by (auto simp: ks_synced_def)
  obtain receipt where "dget (kp_operation_receipts ?q) o' = Some receipt"
    by (simp add: ks_after_def)
  then show ?thesis
    using app rec replay j' sync' se(1) clean(4)
    by (intro exI [of _ n] exI [of _ j'] exI [of _ receipt])
      (simp add: append_transition_def replay_current_def records_return Let_def)
qed

lemma recover_same:
  assumes "inv j" and "ks_synced (view j) (started j) s"
  shows "\<exists>s'. ks_recover ops j now d = (s', j) \<and> ks_synced (view j) (started j) s'
     \<and> kss_projection s' = kss_projection s \<and> kss_recovered s'"
proof -
  let ?C = KILL_SWITCH_CONTROL_SESSION_ID
  obtain session p where se: "kss_session s = Some session" "started j ?C = Some session"
    "kss_projection s = Some p" "validate_kill_switch_control_session session = Inr ()"
    "replay_events initial_ks_projection (view j ?C) = Inr p" "ks_exclusive (view j)"
    using ks_syncedE [OF assms(2)] by metis
  have "js_session_id session = ?C"
    using se(4) by (auto simp: validate_kill_switch_control_session_def res_simps)
  then have "jo_start ops j session = (Inr (), j)"
    using start_again [OF assms(1), of session session] se(2) by (simp add: session_same_def)
  then show ?thesis using se assms(1)
    by (simp add: ks_recover_def session_returns records_return Let_def replay_kill_switch_def
        ks_synced_def)
qed

lemma recover_new:
  assumes "inv j" and "started j KILL_SWITCH_CONTROL_SESSION_ID = None"
    and "view j KILL_SWITCH_CONTROL_SESSION_ID = []" and "dt_aware now" and "ks_exclusive (view j)"
  shows "\<exists>s j'. ks_recover ops j now d = (s, j') \<and> inv j' \<and> ks_synced (view j') (started j') s
     \<and> kss_projection s = Some initial_ks_projection \<and> \<not> kss_recovered s"
proof -
  let ?C = KILL_SWITCH_CONTROL_SESSION_ID
  let ?s = "kill_switch_control_session now"
  have sid: "js_session_id ?s = ?C" by (simp add: kill_switch_control_session_def)
  have mode: "\<not> blank KILL_SWITCH_CONTROL_MODE" by code_simp
  have ok: "journal_session_post_init ?s = Inr ()"
    using assms(4) mode ks_constants_not_blank
    by (auto simp: journal_session_post_init_def kill_switch_control_session_def res_simps)
  have val: "validate_kill_switch_control_session ?s = Inr ()"
    by (simp add: validate_kill_switch_control_session_def kill_switch_control_session_def)
  obtain j' where "jo_start ops j ?s = (Inr (), j')" "inv j'"
    "started j' = (started j)(?C := Some ?s)" "view j' = view j"
    using start_fresh [OF assms(1), of ?s] assms(2) sid by auto
  then show ?thesis using assms ok val
    by (simp add: ks_recover_def session_returns records_return Let_def replay_kill_switch_def
        ks_synced_def)
qed

lemma append_transition_outcome:
  assumes "inv j" and "ks_synced (view j) (started j) s" and "kss_projection s = Some p"
    and "matching_operation_receipt p a op ac re e = Inr None"
    and "a = RESET \<Longrightarrow> kp_control_state p = KS_ENGAGED"
    and "append_transition ops j s now a op ac re (kp_revision p) = (result, s', j')"
  shows "s' = s \<and> j' = j
    \<or> (\<exists>tr. result = Inr tr) \<and> kss_control_state s' = ks_result_state a
      \<and> inv j' \<and> ks_synced (view j') (started j') s'"
proof (cases "kill_switch_record a op ac re (kp_revision p) now")
  case (Inl err)
  then show ?thesis using assms by (simp add: append_transition_def)
next
  case (Inr r)
  then obtain o' a' r' where t: "normalized_text op ''operation_id'' 96 = Inr o'"
    "normalized_text ac ''actor_id'' 128 = Inr a'" "normalized_text re ''reason'' 500 = Inr r'"
    "dt_aware now" by (auto simp: kill_switch_record_Inr)
  have f: "dget (kp_operation_receipts p) o' = None"
    using assms(4) t(1) by (auto simp: matching_None)
  obtain n k receipt where
    "append_transition ops j s now a op ac re (kp_revision p)
      = (Inr (transition_result (s\<lparr>kss_projection := Some (ks_after p a o' a' r' now n),
            kss_recovery_error := None\<rparr>) receipt False),
         s\<lparr>kss_projection := Some (ks_after p a o' a' r' now n), kss_recovery_error := None\<rparr>, k)"
    "inv k" "ks_synced (view k) (started k)
        (s\<lparr>kss_projection := Some (ks_after p a o' a' r' now n), kss_recovery_error := None\<rparr>)"
    using append_transition_fresh [OF assms(1-3) t f assms(5)] by blast
  with assms(6) show ?thesis by (auto simp: kss_control_state_def ks_after_def)
qed

lemma engage_synced:
  assumes "inv j" and "ks_synced (view j) (started j) s"
    and "ks_engage ops j s now ac op re = (result, s', j')"
  shows "inv j' \<and> ks_synced (view j') (started j') s'"
proof -
  obtain p where p: "kss_projection s = Some p" using ks_syncedE [OF assms(2)] by metis
  consider (err) e where "matching_operation_receipt p ENGAGE op ac re None = Inl e"
    | (some) rc where "matching_operation_receipt p ENGAGE op ac re None = Inr (Some rc)"
    | (none) "matching_operation_receipt p ENGAGE op ac re None = Inr None"
    by (metis option.exhaust sum.exhaust)
  then show ?thesis
  proof cases
    case none
    then show ?thesis
      using append_transition_outcome [OF assms(1,2) p none] assms p
      by (auto simp: ks_engage_def require_projection_def)
  qed (use assms p in \<open>auto simp: ks_engage_def require_projection_def\<close>)
qed

lemma reset_synced:
  assumes "inv j" and "ks_synced (view j) (started j) s"
    and "ks_reset ops j s now ac op re expected = (result, s', j')"
  shows "inv j' \<and> ks_synced (view j') (started j') s'"
proof -
  obtain p where p: "kss_projection s = Some p" using ks_syncedE [OF assms(2)] by metis
  consider (err) e where "matching_operation_receipt p RESET op ac re (Some expected) = Inl e"
    | (some) rc where "matching_operation_receipt p RESET op ac re (Some expected) = Inr (Some rc)"
    | (none) "matching_operation_receipt p RESET op ac re (Some expected) = Inr None"
    by (metis option.exhaust sum.exhaust)
  then show ?thesis
  proof cases
    case none
    then show ?thesis
      using append_transition_outcome [OF assms(1,2) p none] assms p
      by (auto simp: ks_reset_def require_projection_def split: if_splits)
  qed (use assms p in \<open>auto simp: ks_reset_def require_projection_def split: if_splits\<close>)
qed

text \<open>What a request leaves: nothing new, or the state its action asks for.\<close>

lemma engage_state:
  assumes "inv j" and "ks_synced (view j) (started j) s"
    and "ks_engage ops j s now ac op re = (result, s', j')"
  shows "s' = s \<or> kss_control_state s' = KS_ENGAGED"
proof -
  obtain p where p: "kss_projection s = Some p" using ks_syncedE [OF assms(2)] by metis
  show ?thesis
  proof (cases "matching_operation_receipt p ENGAGE op ac re None = Inr None")
    case True
    then show ?thesis
      using append_transition_outcome [OF assms(1,2) p True] assms(3) p
      by (auto simp: ks_engage_def require_projection_def)
  next
    case False
    then show ?thesis using assms p
      by (auto simp: ks_engage_def require_projection_def split: sum.splits option.splits)
  qed
qed

lemma reset_state:
  assumes "inv j" and "ks_synced (view j) (started j) s" and "kss_projection s = Some p"
    and "ks_reset ops j s now ac op re expected = (result, s', j')"
  shows "s' = s \<or> expected = kp_revision p \<and> (\<exists>tr. result = Inr tr)"
proof (cases "matching_operation_receipt p RESET op ac re (Some expected) = Inr None")
  case True
  then show ?thesis
    using append_transition_outcome [OF assms(1-3) True] assms(3,4)
    by (auto simp: ks_reset_def require_projection_def split: if_splits)
next
  case False
  then show ?thesis using assms
    by (auto simp: ks_reset_def require_projection_def split: sum.splits option.splits if_splits)
qed

text \<open>Engaging with fresh, valid texts always succeeds, and so does its retry.\<close>

lemma engage_fresh:
  assumes "inv j" and "ks_synced (view j) (started j) s" and "kss_projection s = Some p"
    and "normalized_text op ''operation_id'' 96 = Inr o'"
    and "normalized_text ac ''actor_id'' 128 = Inr a'"
    and "normalized_text re ''reason'' 500 = Inr r'" and "dt_aware now"
    and "dget (kp_operation_receipts p) o' = None"
  shows "\<exists>tr s' j' q. ks_engage ops j s now ac op re = (Inr tr, s', j')
     \<and> kss_projection s' = Some q \<and> kp_control_state q = KS_ENGAGED
     \<and> kp_revision q = kp_revision p + 1 \<and> kp_reason q = Some r' \<and> \<not> ktr_idempotent tr
     \<and> ks_engage ops j' s' later ac op re
         = (Inr (transition_result s' (ktr_receipt tr) True), s', j')"
proof -
  have m: "matching_operation_receipt p ENGAGE op ac re None = Inr None"
    using assms(4,8) by (auto simp: matching_None)
  obtain n j' receipt where a: "append_transition ops j s now ENGAGE op ac re (kp_revision p)
      = (Inr (transition_result (s\<lparr>kss_projection := Some (ks_after p ENGAGE o' a' r' now n),
            kss_recovery_error := None\<rparr>) receipt False),
         s\<lparr>kss_projection := Some (ks_after p ENGAGE o' a' r' now n), kss_recovery_error := None\<rparr>, j')"
    "dget (kp_operation_receipts (ks_after p ENGAGE o' a' r' now n)) o' = Some receipt"
    using append_transition_fresh [OF assms(1-8)] by blast
  have r: "kr_action receipt = ENGAGE" "kr_actor_id receipt = a'" "kr_reason receipt = r'"
    using a(2) by (auto simp: ks_after_def)
  have again: "matching_operation_receipt (ks_after p ENGAGE o' a' r' now n) ENGAGE op ac re None
      = Inr (Some receipt)"
    using a(2) r assms(4-6) by (simp add: matching_operation_receipt_def Let_def)
  show ?thesis
    using a(1) assms(3) m again
    by (simp add: ks_engage_def require_projection_def transition_result_def)
      (simp add: ks_after_def)
qed

end

section \<open>The service over the in-memory journal\<close>

text \<open>
  The other components share the journal: they start sessions of their own, append to them, open
  them atomically and save checkpoints, but do not use the control session or its idempotency scope.
\<close>

definition foreign_record :: "journal_record \<Rightarrow> bool" where
  "foreign_record r \<longleftrightarrow> jr_session_id r \<noteq> KILL_SWITCH_CONTROL_SESSION_ID
     \<and> jr_idempotency_scope r \<noteq> Some KILL_SWITCH_IDEMPOTENCY_SCOPE"

fun foreign_command :: "journal_command \<Rightarrow> bool" where
  "foreign_command (StartSession t) \<longleftrightarrow> js_session_id t \<noteq> KILL_SWITCH_CONTROL_SESSION_ID"
| "foreign_command (Append r) \<longleftrightarrow> foreign_record r"
| "foreign_command (AtomicOpen t r cutoff t1 t2 t3) \<longleftrightarrow>
     js_session_id t \<noteq> KILL_SWITCH_CONTROL_SESSION_ID \<and> foreign_record r"
| "foreign_command (SaveCheckpoint c) \<longleftrightarrow> True"

text \<open>
  A step of the system: an operator command, a restart of the process (the service is rebuilt
  from the journal), or a journal command of another component. The first start of the service
  finds a journal the others may have used already.
\<close>

inductive ks_step ::
  "(json \<Rightarrow> string) \<Rightarrow> memory_journal \<times> ks_service \<Rightarrow> memory_journal \<times> ks_service \<Rightarrow> bool"
  for sha where
  Engage: "ks_engage (mem_ops sha) j s now ac op re = (result, s', j') \<Longrightarrow>
    ks_step sha (j, s) (j', s')"
| Reset: "ks_reset (mem_ops sha) j s now ac op re expected = (result, s', j') \<Longrightarrow>
    ks_step sha (j, s) (j', s')"
| Restart: "ks_recover (mem_ops sha) j now d = (s', j') \<Longrightarrow> ks_step sha (j, s) (j', s')"
| Foreign: "foreign_command c \<Longrightarrow> ks_step sha (j, s) (journal_exec sha j c, s)"

inductive ks_reachable ::
  "(json \<Rightarrow> string) \<Rightarrow> memory_journal \<times> ks_service \<Rightarrow> bool" for sha where
  Boot: "dt_aware now \<Longrightarrow> list_all foreign_command cs \<Longrightarrow>
    ks_recover (mem_ops sha) (foldl (journal_exec sha) empty_journal cs) now d = (s, j) \<Longrightarrow>
    ks_reachable sha (j, s)"
| Step: "ks_reachable sha x \<Longrightarrow> ks_step sha x y \<Longrightarrow> ks_reachable sha y"

definition mem_synced :: "memory_journal \<times> ks_service \<Rightarrow> bool" where
  "mem_synced x \<longleftrightarrow> mem_inv (fst x) \<and> ks_synced (mem_view (fst x)) (mem_session (fst x)) (snd x)"

lemma mem_view_empty [simp]: "mem_view empty_journal = (\<lambda>sid. [])"
  by (simp add: mem_view_def empty_journal_def fun_eq_iff)

text \<open>What a foreign command leaves alone: the control session, its records, the exclusive scope.\<close>

definition control_kept :: "memory_journal \<Rightarrow> memory_journal \<Rightarrow> bool" where
  "control_kept j k \<longleftrightarrow>
     mem_session k KILL_SWITCH_CONTROL_SESSION_ID = mem_session j KILL_SWITCH_CONTROL_SESSION_ID
     \<and> mem_view k KILL_SWITCH_CONTROL_SESSION_ID = mem_view j KILL_SWITCH_CONTROL_SESSION_ID
     \<and> (ks_exclusive (mem_view j) \<longrightarrow> ks_exclusive (mem_view k))"

lemma control_kept_refl [simp]: "control_kept j j"
  by (simp add: control_kept_def)

lemma control_kept_trans: "control_kept j k \<Longrightarrow> control_kept k l \<Longrightarrow> control_kept j l"
  by (simp add: control_kept_def)

lemma start_keeps_control:
  assumes "mem_start_session j t = (result, j')" and "js_session_id t \<noteq> KILL_SWITCH_CONTROL_SESSION_ID"
  shows "control_kept j j'"
proof -
  have "mj_records j' = mj_records j"
    using assms(1) by (auto simp: mem_start_session_def split: option.splits if_splits)
  then have "mem_view j' = mem_view j" by (simp add: mem_view_def fun_eq_iff)
  then show ?thesis
    using assms by (auto simp: control_kept_def mem_start_session_def mem_session_def
        split: option.splits if_splits)
qed

lemma append_keeps_control:
  assumes app: "mem_append sha j r = (appended, j')" and "foreign_record r"
  shows "control_kept j j'"
proof -
  have "\<exists>xs. mj_records j' = mj_records j @ xs \<and> (\<forall>x \<in> set xs. ja_record x = r)"
    and ses: "mj_sessions j' = mj_sessions j"
    using app by (simp_all add: mem_append_def Let_def split: if_splits option.splits) auto
  then obtain xs where rec: "mj_records j' = mj_records j @ xs" "\<forall>x \<in> set xs. ja_record x = r"
    by blast
  have view: "mem_view j' sid = mem_view j sid @ (if jr_session_id r = sid then xs else [])" for sid
  proof -
    have "filter (\<lambda>x. jr_session_id (ja_record x) = sid) xs = filter (\<lambda>x. jr_session_id r = sid) xs"
      using rec(2) by (intro filter_cong) simp_all
    then show ?thesis by (simp add: mem_view_def rec(1))
  qed
  have idem: "idempotency_of r \<noteq> Some (KILL_SWITCH_IDEMPOTENCY_SCOPE, op)" for op
    using assms(2) by (auto simp: idempotency_of_def foreign_record_def)
  have "ks_exclusive (mem_view j) \<Longrightarrow> ks_exclusive (mem_view j')"
    unfolding ks_exclusive_def using view rec(2) idem by (auto split: if_splits)
  then show ?thesis
    using view assms(2) ses by (simp add: control_kept_def foreign_record_def mem_session_def)
qed

lemma foreign_keeps_control: "foreign_command c \<Longrightarrow> control_kept j (journal_exec sha j c)"
proof (cases c)
  case (AtomicOpen t r cutoff t1 t2 t3)
  assume f: "foreign_command c"
  obtain res j' where run: "mem_start_and_append_before sha j t r cutoff t1 t2 t3 = (res, j')"
    by force
  show ?thesis
  proof (cases res)
    case (Inl e)
    then show ?thesis using AtomicOpen run atomic_open_Inl by fastforce
  next
    case (Inr x)
    with run obtain stored j1 where
      1: "mem_start_session j (t\<lparr>js_started_at := stored\<rparr>) = (Inr (), j1)" and
      2: "mem_append sha j1 (r\<lparr>jr_occurred_at := stored\<rparr>) = (Inr x, j')"
      using atomic_open_Inr by metis
    have "control_kept j j1" "control_kept j1 j'"
      using start_keeps_control [OF 1] append_keeps_control [OF 2] f AtomicOpen
      by (simp_all add: foreign_record_def)
    then show ?thesis using AtomicOpen run control_kept_trans by auto
  qed
next
  case (StartSession t)
  then show "foreign_command c \<Longrightarrow> ?thesis"
    using start_keeps_control [of j t] by (cases "mem_start_session j t") auto
next
  case (Append r)
  then show "foreign_command c \<Longrightarrow> ?thesis"
    using append_keeps_control [of sha j r] by (cases "mem_append sha j r") auto
next
  case (SaveCheckpoint k)
  then show ?thesis
    by (auto simp: mem_save_checkpoint_def Let_def control_kept_def mem_view_def mem_session_def
        ks_exclusive_def split: option.splits)
qed

lemma foreign_run:
  "list_all foreign_command cs \<Longrightarrow> mem_inv j \<Longrightarrow>
     mem_inv (foldl (journal_exec sha) j cs) \<and> control_kept j (foldl (journal_exec sha) j cs)"
proof (induction cs arbitrary: j)
  case (Cons c cs)
  then show ?case
    using foreign_keeps_control [of c j sha] exec_step [OF Cons.prems(2), of sha c] control_kept_trans
    by fastforce
qed simp

lemma boot_synced:
  assumes "dt_aware now" and "list_all foreign_command cs"
    and "ks_recover (mem_ops sha) (foldl (journal_exec sha) empty_journal cs) now d = (s, j)"
  shows "mem_synced (j, s)"
proof -
  let ?j = "foldl (journal_exec sha) empty_journal cs"
  have "control_kept empty_journal ?j" and inv: "mem_inv ?j"
    using foreign_run [OF assms(2) mem_inv_empty] by simp_all
  then have "mem_session ?j KILL_SWITCH_CONTROL_SESSION_ID = None"
    "mem_view ?j KILL_SWITCH_CONTROL_SESSION_ID = []" "ks_exclusive (mem_view ?j)"
    by (simp_all add: control_kept_def ks_exclusive_def) (simp add: mem_session_def empty_journal_def)
  from mem.recover_new [OF inv this(1,2) assms(1) this(3), of sha d] assms(3)
  show ?thesis by (auto simp: mem_synced_def)
qed

lemma foreign_synced:
  assumes "mem_synced (j, s)" and "foreign_command c"
  shows "mem_synced (journal_exec sha j c, s)"
  using assms(1) exec_step [of j sha c] foreign_keeps_control [OF assms(2), of j sha]
  by (auto simp: mem_synced_def ks_synced_def control_kept_def)

lemma step_synced: "ks_step sha x y \<Longrightarrow> mem_synced x \<Longrightarrow> mem_synced y"
proof (induction rule: ks_step.induct)
  case (Engage j s now ac op re result s' j')
  then show ?case using mem.engage_synced [OF _ _ Engage.hyps] by (simp add: mem_synced_def)
next
  case (Reset j s now ac op re expected result s' j')
  then show ?case using mem.reset_synced [OF _ _ Reset.hyps] by (simp add: mem_synced_def)
next
  case (Restart j now d s' j' s)
  then obtain t where "ks_recover (mem_ops sha) j now d = (t, j)"
    "ks_synced (mem_view j) (mem_session j) t" "mem_inv j"
    using mem.recover_same [of j s sha now d] by (auto simp only: mem_synced_def fst_conv snd_conv)
  then show ?case using Restart by (simp add: mem_synced_def)
next
  case (Foreign c j s)
  then show ?case by (intro foreign_synced)
qed

lemma reachable_synced: "ks_reachable sha x \<Longrightarrow> mem_synced x"
  by (induction rule: ks_reachable.induct) (auto intro: boot_synced step_synced)

section \<open>Properties\<close>

text \<open>
  C2. The service and the durable journal never disagree: in every reachable state (any
  interleaving of engage and reset requests, valid or not, restarts, and other components'
  commands on the same journal, before the first start and after: sessions started, records
  appended, sessions opened atomically, checkpoints saved) the service's projection is exactly the strict replay of the control session's
  records; it is never in doubt (no RECOVERY_REQUIRED) over a journal that does not fail.
\<close>

theorem kill_switch_projection_is_replay:
  assumes "ks_reachable sha (j, s)"
  shows "\<exists>session p. kss_session s = Some session
     \<and> mem_session j KILL_SWITCH_CONTROL_SESSION_ID = Some session
     \<and> kss_projection s = Some p
     \<and> replay_kill_switch session (mem_view j KILL_SWITCH_CONTROL_SESSION_ID) = Inr p
     \<and> kp_control_state p \<noteq> KS_RECOVERY_REQUIRED
     \<and> kp_revision p = int (length (mem_view j KILL_SWITCH_CONTROL_SESSION_ID))"
proof -
  have sync: "ks_synced (mem_view j) (mem_session j) s"
    using reachable_synced [OF assms] by (simp add: mem_synced_def)
  then obtain session p where a: "kss_session s = Some session"
    "mem_session j KILL_SWITCH_CONTROL_SESSION_ID = Some session" "kss_projection s = Some p"
    "replay_kill_switch session (mem_view j KILL_SWITCH_CONTROL_SESSION_ID) = Inr p"
    by (auto simp: ks_synced_def)
  then have "replay_facts p (mem_view j KILL_SWITCH_CONTROL_SESSION_ID)"
    by (intro replay_facts) (auto simp: replay_kill_switch_def res_simps)
  with a show ?thesis by (auto simp: replay_facts_def)
qed

text \<open>
  C39. A restart changes nothing: from any reachable state, rebuilding the service from the
  journal gives the same control state, revision, reason and receipts, and appends nothing.
\<close>

theorem restart_preserves_control_state:
  assumes "ks_reachable sha (j, s)"
  shows "\<exists>s'. ks_recover (mem_ops sha) j now d = (s', j) \<and> kss_projection s' = kss_projection s
     \<and> kss_recovered s'"
  using mem.recover_same [of j s sha now d] reachable_synced [OF assms]
  by (auto simp: mem_synced_def)

text \<open>
  C3. Only a reset at the current revision releases an engaged switch: any step that takes the
  service from blocking to admitting is a returning \<open>reset\<close> whose expected revision is the
  service's revision. Restarts, engage requests and stale resets never release it.
\<close>

theorem only_current_reset_disengages:
  assumes "ks_reachable sha (j, s)" and "ks_step sha (j, s) (j', s')"
    and "kss_engaged s" and "\<not> kss_engaged s'"
  shows "\<exists>p now ac op re tr. kss_projection s = Some p
     \<and> ks_reset (mem_ops sha) j s now ac op re (kp_revision p) = (Inr tr, s', j')"
proof -
  have inv: "mem_inv j" and sync: "ks_synced (mem_view j) (mem_session j) s"
    using reachable_synced [OF assms(1)] by (auto simp: mem_synced_def)
  obtain p where p: "kss_projection s = Some p" using ks_syncedE [OF sync] by metis
  have diff: "kss_projection s' \<noteq> kss_projection s" using assms(3,4) by (auto simp: kss_engaged_def)
  from assms(2) show ?thesis
  proof (cases rule: ks_step.cases)
    case (Engage now ac op re result)
    then have "s' = s \<or> kss_control_state s' = KS_ENGAGED"
      using mem.engage_state [OF inv sync] by blast
    then show ?thesis using diff assms(4)
      by (auto simp: kss_control_state_def kss_engaged_def kp_admission_blocked_def
          split: option.splits)
  next
    case (Reset now ac op re expected result)
    then show ?thesis using mem.reset_state [OF inv sync p Reset] diff p by blast
  next
    case (Restart now d)
    then show ?thesis using mem.recover_same [OF inv sync, of sha now d] diff by auto
  next
    case (Foreign c)
    then show ?thesis using diff by simp
  qed
qed

text \<open>
  C38. The switch can always be engaged, and engaging is safe to retry: from any reachable
  state, a request with a fresh operation id and valid texts returns, records the reason under
  the next revision, refuses every automated intent from then on, and repeating the request
  returns the same receipt, marked idempotent, without another record.
\<close>

theorem engage_returns_and_blocks:
  assumes "ks_reachable sha (j, s)" and "kss_projection s = Some p" and "dt_aware now"
    and "clean_text op 96" and "clean_text ac 128" and "clean_text re 500"
    and "dget (kp_operation_receipts p) op = None"
  shows "\<exists>tr s' j' q. ks_engage (mem_ops sha) j s now ac op re = (Inr tr, s', j')
     \<and> kss_projection s' = Some q \<and> kp_revision q = kp_revision p + 1 \<and> kp_reason q = Some re
     \<and> is_err (admit_automated_intent s' intent)
     \<and> ks_engage (mem_ops sha) j' s' later ac op re
         = (Inr (transition_result s' (ktr_receipt tr) True), s', j')"
proof -
  have inv: "mem_inv j" and sync: "ks_synced (mem_view j) (mem_session j) s"
    using reachable_synced [OF assms(1)] by (auto simp: mem_synced_def)
  obtain tr s' j' q where "ks_engage (mem_ops sha) j s now ac op re = (Inr tr, s', j')"
    "kss_projection s' = Some q" "kp_control_state q = KS_ENGAGED"
    "kp_revision q = kp_revision p + 1" "kp_reason q = Some re"
    "ks_engage (mem_ops sha) j' s' later ac op re
       = (Inr (transition_result s' (ktr_receipt tr) True), s', j')"
    using mem.engage_fresh [OF inv sync assms(2) normalized_text_clean [OF assms(4)]
        normalized_text_clean [OF assms(5)] normalized_text_clean [OF assms(6)] assms(3,7)] by blast
  then show ?thesis
    by (auto simp: admit_automated_intent_def assert_admission_allowed_def require_projection_def)
qed

section \<open>An example run\<close>

definition example_boot :: "ks_service \<times> memory_journal" where
  "example_boot = ks_recover (mem_ops (\<lambda>_. [])) empty_journal (example_time_at 1) EPHEMERAL_MEMORY"

text \<open>Between the start and the request another component opens its session and appends a record.\<close>

definition example_others :: "journal_command list" where
  "example_others = [StartSession example_session, Append example_record]"

definition example_shared :: memory_journal where
  "example_shared = foldl (journal_exec (\<lambda>_. [])) (snd example_boot) example_others"

definition example_engaged :: "ks_transition res \<times> ks_service \<times> memory_journal" where
  "example_engaged = ks_engage (mem_ops (\<lambda>_. [])) example_shared (fst example_boot)
     (example_time_at 2) ''me'' ''op1'' ''halt''"

definition example_released :: "ks_transition res \<times> ks_service \<times> memory_journal" where
  "example_released = ks_reset (mem_ops (\<lambda>_. [])) (snd (snd example_engaged))
     (fst (snd example_engaged)) (example_time_at 3) ''me'' ''op2'' ''go'' 1"

lemma example_boot_reachable: "ks_reachable (\<lambda>_. []) (snd example_boot, fst example_boot)"
  by (rule ks_reachable.Boot [of "example_time_at 1" "[]" _ EPHEMERAL_MEMORY])
    (simp_all add: example_boot_def example_time_at_def dt_aware_def)

lemma foreign_run_reachable:
  "list_all foreign_command cs \<Longrightarrow> ks_reachable sha (j, s) \<Longrightarrow>
     ks_reachable sha (foldl (journal_exec sha) j cs, s)"
  by (induction cs arbitrary: j) (auto intro: ks_reachable.Step ks_step.Foreign)

lemma example_shared_reachable: "ks_reachable (\<lambda>_. []) (example_shared, fst example_boot)"
proof -
  have "list_all foreign_command example_others" by code_simp
  then show ?thesis
    unfolding example_shared_def by (rule foreign_run_reachable [OF _ example_boot_reachable])
qed

lemma example_engaged_reachable:
  "ks_reachable (\<lambda>_. []) (snd (snd example_engaged), fst (snd example_engaged))"
  by (rule ks_reachable.Step [OF example_shared_reachable],
      rule ks_step.Engage [of _ _ _ "example_time_at 2" "''me''" "''op1''" "''halt''" "fst example_engaged"])
    (simp add: example_engaged_def)

text \<open>The foreign record really is in the journal, before the service's own.\<close>

lemma example_interleaved:
  "map (\<lambda>x. jr_record_id (ja_record x)) (mj_records (snd (snd example_engaged)))
     = [''r1'', ks_record_id ''op1'']"
  by code_simp

lemma example_run:
  "kss_projection (fst example_boot) = Some initial_ks_projection"
  "kss_engaged (fst (snd example_engaged))" "\<not> kss_engaged (fst (snd example_released))"
  by code_simp+

theorem kill_switch_projection_is_replay_witness:
  "\<exists>p. kss_projection (fst (snd example_engaged)) = Some p
     \<and> kp_revision p = int (length (mem_view (snd (snd example_engaged)) KILL_SWITCH_CONTROL_SESSION_ID))
     \<and> length (mj_records (snd (snd example_engaged))) = 2"
proof -
  have "length (mj_records (snd (snd example_engaged))) = 2"
    using example_interleaved by (metis length_Cons length_map list.size(3) numeral_2_eq_2)
  then show ?thesis using kill_switch_projection_is_replay [OF example_engaged_reachable] by blast
qed

theorem restart_preserves_control_state_witness:
  "\<exists>s'. ks_recover (mem_ops (\<lambda>_. [])) (snd (snd example_engaged)) (example_time_at 9) EPHEMERAL_MEMORY
       = (s', snd (snd example_engaged)) \<and> kss_engaged s'"
  using restart_preserves_control_state [OF example_engaged_reachable, of "example_time_at 9"
      EPHEMERAL_MEMORY] example_run(2) by (auto simp: kss_engaged_def)

theorem only_current_reset_disengages_witness:
  "\<exists>p now ac op re tr. kss_projection (fst (snd example_engaged)) = Some p
     \<and> ks_reset (mem_ops (\<lambda>_. [])) (snd (snd example_engaged)) (fst (snd example_engaged))
         now ac op re (kp_revision p) = (Inr tr, snd example_released)"
proof -
  have "ks_step (\<lambda>_. []) (snd (snd example_engaged), fst (snd example_engaged))
      (snd (snd example_released), fst (snd example_released))"
    by (rule ks_step.Reset [of _ _ _ "example_time_at 3" "''me''" "''op2''" "''go''" 1
          "fst example_released"]) (simp add: example_released_def)
  from only_current_reset_disengages [OF example_engaged_reachable this example_run(2,3)]
  show ?thesis by simp
qed

theorem engage_returns_and_blocks_witness:
  "\<exists>tr s' j'. ks_engage (mem_ops (\<lambda>_. [])) (snd example_boot) (fst example_boot) (example_time_at 2)
       ''me'' ''op1'' ''halt'' = (Inr tr, s', j')
     \<and> is_err (admit_automated_intent s' (\<lambda>_. Inr ()))"
proof -
  have "clean_text ''op1'' 96" "clean_text ''me'' 128" "clean_text ''halt'' 500" by code_simp+
  moreover have "dt_aware (example_time_at 2)" by (simp add: example_time_at_def dt_aware_def)
  moreover have "dget (kp_operation_receipts initial_ks_projection) ''op1'' = None"
    by (simp add: initial_ks_projection_def)
  ultimately show ?thesis
    using engage_returns_and_blocks [OF example_boot_reachable example_run(1)] by blast
qed

end
