(* ===== verification/Signal_Models.thy ===== *)
theory Signal_Models
  imports Calendar "HOL-Library.Sublist"
begin

text \<open>
  The contracts shared by the momentum signal, its state machine and the entry policy
  (\<open>signals/models.py\<close>), the feature values and snapshots they read (\<open>features/models.py\<close>) and
  the versioned configuration (\<open>config/momentum.py\<close>).
\<close>

section \<open>Features\<close>

datatype feature_scalar = FDec rat | FInt int | FBool bool | FStr string

datatype feature_status = FS_VALID | FS_MISSING | FS_STALE | FS_UNVERIFIED

fun feature_status_value :: "feature_status \<Rightarrow> string" where
  "feature_status_value FS_VALID = ''VALID''"
| "feature_status_value FS_MISSING = ''MISSING''"
| "feature_status_value FS_STALE = ''STALE''"
| "feature_status_value FS_UNVERIFIED = ''UNVERIFIED''"

record feature_value =
  fv_value :: "feature_scalar option"
  fv_status :: feature_status
  fv_source_as_of :: "datetime option"
  fv_reason :: "string option"
  fv_source_event_ids :: "string list"

definition falsy_text :: "string option \<Rightarrow> bool" where
  "falsy_text s \<longleftrightarrow> s = None \<or> s = Some []"

definition feature_value_post_init :: "feature_value \<Rightarrow> unit res" where
  "feature_value_post_init v = require_all
     [(case fv_source_as_of v of None \<Rightarrow> True | Some t \<Rightarrow> dt_aware t,
       ''source_as_of must be timezone-aware''),
      (fv_status v = FS_VALID \<longrightarrow> fv_value v \<noteq> None, ''valid feature must have a value''),
      (fv_status v \<noteq> FS_VALID \<longrightarrow> \<not> falsy_text (fv_reason v),
       ''non-valid feature must include a reason'')]"

definition fv_is_valid :: "feature_value \<Rightarrow> bool" where
  "fv_is_valid v \<longleftrightarrow> fv_status v = FS_VALID"

datatype data_health_state = DH_STARTING | DH_HEALTHY | DH_DEGRADED | DH_BLOCKED

fun data_health_value :: "data_health_state \<Rightarrow> string" where
  "data_health_value DH_STARTING = ''STARTING''"
| "data_health_value DH_HEALTHY = ''HEALTHY''"
| "data_health_value DH_DEGRADED = ''DEGRADED''"
| "data_health_value DH_BLOCKED = ''BLOCKED''"

record feature_snapshot =
  fs_symbol :: string
  fs_as_of :: datetime
  fs_current_event_id :: string
  fs_feature_version :: string
  fs_data_health :: data_health_state
  fs_required_inputs_valid :: bool
  fs_block_reasons :: "string list"
  fs_price :: feature_value
  fs_vwap :: feature_value
  fs_previous_intraday_high :: feature_value
  fs_price_above_vwap :: feature_value
  fs_breakout :: feature_value
  fs_return_2m :: feature_value
  fs_distance_to_limit :: feature_value
  fs_volume_2m :: feature_value
  fs_baseline_2m :: feature_value
  fs_baseline_complete_windows :: int
  fs_volume_acceleration_2m :: feature_value
  fs_volume_vs_previous_2m :: feature_value
  fs_external_ratio_session :: feature_value
  fs_external_ratio_session_2m_ago :: feature_value
  fs_external_ratio_rising :: feature_value
  fs_bid_depth_5 :: feature_value
  fs_ask_depth_5 :: feature_value
  fs_bid_ask_ratio_5 :: feature_value
  fs_book_imbalance_5 :: feature_value
  fs_opening_volume_context :: feature_value
  fs_opening_volume_context_mode :: "string option"

definition feature_snapshot_post_init :: "feature_snapshot \<Rightarrow> unit res" where
  "feature_snapshot_post_init s = require_all
     [(\<not> blank (fs_symbol s), ''feature symbol must not be empty''),
      (\<not> blank (fs_current_event_id s), ''current event id must not be empty''),
      (\<not> blank (fs_feature_version s), ''feature version must not be empty''),
      (dt_aware (fs_as_of s), ''feature as_of must be timezone-aware''),
      (0 \<le> fs_baseline_complete_windows s, ''baseline complete windows cannot be negative'')]"

section \<open>Signals\<close>

datatype signal_family = SF_OPENING_MOMENTUM | SF_LIMIT_UP_MOMENTUM

fun signal_family_value :: "signal_family \<Rightarrow> string" where
  "signal_family_value SF_OPENING_MOMENTUM = ''OPENING_MOMENTUM''"
| "signal_family_value SF_LIMIT_UP_MOMENTUM = ''LIMIT_UP_MOMENTUM''"

datatype momentum_signal =
    MS_NONE | MS_OPENING_MOMENTUM | MS_BREAKOUT | MS_VOLUME_ACCELERATION
  | MS_MOMENTUM_ACCELERATION | MS_LIMIT_UP_MOMENTUM

fun momentum_signal_value :: "momentum_signal \<Rightarrow> string" where
  "momentum_signal_value MS_NONE = ''NONE''"
| "momentum_signal_value MS_OPENING_MOMENTUM = ''OPENING_MOMENTUM''"
| "momentum_signal_value MS_BREAKOUT = ''BREAKOUT''"
| "momentum_signal_value MS_VOLUME_ACCELERATION = ''VOLUME_ACCELERATION''"
| "momentum_signal_value MS_MOMENTUM_ACCELERATION = ''MOMENTUM_ACCELERATION''"
| "momentum_signal_value MS_LIMIT_UP_MOMENTUM = ''LIMIT_UP_MOMENTUM''"

datatype momentum_stage =
    WATCH | STRONG | BREAKOUT | ACCELERATING | NEAR_LIMIT_UP | LIMIT_TOUCHED

fun momentum_stage_value :: "momentum_stage \<Rightarrow> string" where
  "momentum_stage_value WATCH = ''WATCH''"
| "momentum_stage_value STRONG = ''STRONG''"
| "momentum_stage_value BREAKOUT = ''BREAKOUT''"
| "momentum_stage_value ACCELERATING = ''ACCELERATING''"
| "momentum_stage_value NEAR_LIMIT_UP = ''NEAR_LIMIT_UP''"
| "momentum_stage_value LIMIT_TOUCHED = ''LIMIT_TOUCHED''"

fun STAGE_ORDER :: "momentum_stage \<Rightarrow> nat" where
  "STAGE_ORDER WATCH = 0"
| "STAGE_ORDER STRONG = 1"
| "STAGE_ORDER BREAKOUT = 2"
| "STAGE_ORDER ACCELERATING = 3"
| "STAGE_ORDER NEAR_LIMIT_UP = 4"
| "STAGE_ORDER LIMIT_TOUCHED = 5"

lemma STAGE_ORDER_inj: "STAGE_ORDER a = STAGE_ORDER b \<Longrightarrow> a = b"
  by (cases a; cases b) simp_all

instantiation momentum_stage :: linorder
begin

definition less_eq_momentum_stage :: "momentum_stage \<Rightarrow> momentum_stage \<Rightarrow> bool" where
  "less_eq_momentum_stage a b \<longleftrightarrow> STAGE_ORDER a \<le> STAGE_ORDER b"

definition less_momentum_stage :: "momentum_stage \<Rightarrow> momentum_stage \<Rightarrow> bool" where
  "less_momentum_stage a b \<longleftrightarrow> STAGE_ORDER a < STAGE_ORDER b"

instance
  by standard (auto simp: less_eq_momentum_stage_def less_momentum_stage_def intro: STAGE_ORDER_inj)

end

datatype episode_status = ES_ACTIVE | ES_INVALIDATED | ES_EXPIRED | ES_DATA_BLOCKED

fun episode_status_value :: "episode_status \<Rightarrow> string" where
  "episode_status_value ES_ACTIVE = ''ACTIVE''"
| "episode_status_value ES_INVALIDATED = ''INVALIDATED''"
| "episode_status_value ES_EXPIRED = ''EXPIRED''"
| "episode_status_value ES_DATA_BLOCKED = ''DATA_BLOCKED''"

datatype evidence_status = EV_VALID | EV_MISSING | EV_STALE | EV_UNVERIFIED

fun evidence_status_value :: "evidence_status \<Rightarrow> string" where
  "evidence_status_value EV_VALID = ''VALID''"
| "evidence_status_value EV_MISSING = ''MISSING''"
| "evidence_status_value EV_STALE = ''STALE''"
| "evidence_status_value EV_UNVERIFIED = ''UNVERIFIED''"

datatype signal_evaluation_status =
    SE_TRIGGERED | SE_NOT_TRIGGERED | SE_INSUFFICIENT_DATA | SE_OUTSIDE_WINDOW

fun signal_evaluation_status_value :: "signal_evaluation_status \<Rightarrow> string" where
  "signal_evaluation_status_value SE_TRIGGERED = ''TRIGGERED''"
| "signal_evaluation_status_value SE_NOT_TRIGGERED = ''NOT_TRIGGERED''"
| "signal_evaluation_status_value SE_INSUFFICIENT_DATA = ''INSUFFICIENT_DATA''"
| "signal_evaluation_status_value SE_OUTSIDE_WINDOW = ''OUTSIDE_WINDOW''"

text \<open>
  What a rule observed, or its threshold: a feature scalar, or the text the rule composes of
  Decimals (\<open>f"{a}>{b}"\<close>, \<open>f">={t} and rising"\<close>), kept as its parts. \<open>evidence_text\<close> is
  \<open>str\<close> of it as it enters the payload.
\<close>

datatype evidence_scalar = EScalar feature_scalar | EGreater rat rat | EAtLeastRising rat

fun evidence_text :: "evidence_scalar \<Rightarrow> json" where
  "evidence_text (EScalar (FDec d)) = JDec d"
| "evidence_text (EScalar (FInt i)) = JStr (show_int i)"
| "evidence_text (EScalar (FBool b)) = JStr (if b then ''True'' else ''False'')"
| "evidence_text (EScalar (FStr s)) = JStr s"
| "evidence_text (EGreater a b) = JList [JDec a, JStr ''>'', JDec b]"
| "evidence_text (EAtLeastRising t) = JList [JStr ''>='', JDec t, JStr '' and rising'']"

record signal_detail =
  sgd_rule :: string
  sgd_status :: evidence_status
  sgd_passed :: "bool option"
  sgd_points_awarded :: int
  sgd_points_possible :: int
  sgd_observed_value :: "evidence_scalar option"
  sgd_threshold :: "evidence_scalar option"
  sgd_source_as_of :: "datetime option"
  sgd_missing_reason :: "string option"

definition signal_detail_post_init :: "signal_detail \<Rightarrow> unit res" where
  "signal_detail_post_init d = require_all
     [(\<not> blank (sgd_rule d), ''rule must not be empty''),
      (0 \<le> sgd_points_awarded d \<and> sgd_points_awarded d \<le> sgd_points_possible d,
       ''points_awarded must be within points_possible''),
      (case sgd_source_as_of d of None \<Rightarrow> True | Some t \<Rightarrow> dt_aware t,
       ''source_as_of must be timezone-aware''),
      (sgd_status d = EV_VALID \<longrightarrow> sgd_passed d \<noteq> None,
       ''valid evidence must have a pass/fail result''),
      (sgd_status d \<noteq> EV_VALID \<longrightarrow> \<not> falsy_text (sgd_missing_reason d),
       ''non-valid evidence must include a missing reason'')]"

record signal_result =
  sr_symbol :: string
  sr_as_of :: datetime
  sr_config_version :: string
  sr_feature_version :: string
  sr_signal_family :: signal_family
  sr_signal :: momentum_signal
  sr_triggered_signals :: "momentum_signal list"
  sr_momentum_acceleration_confirmed :: bool
  sr_evidence_score :: int
  sr_evidence_max_score :: int
  sr_passed_rule_count :: int
  sr_total_rule_count :: int
  sr_coverage :: rat
  sr_data_health :: string
  sr_evaluation_status :: signal_evaluation_status
  sr_details :: "signal_detail list"
  sr_block_reasons :: "string list"

definition signal_result_post_init :: "signal_result \<Rightarrow> unit res" where
  "signal_result_post_init s = require_all
     [(\<not> blank (sr_symbol s), ''symbol must not be empty''),
      (\<not> blank (sr_config_version s), ''config_version must not be empty''),
      (\<not> blank (sr_feature_version s), ''feature_version must not be empty''),
      (\<not> blank (sr_data_health s), ''data_health must not be empty''),
      (dt_aware (sr_as_of s), ''as_of must be timezone-aware''),
      (0 < sr_evidence_max_score s, ''evidence_max_score must be positive''),
      (0 \<le> sr_evidence_score s \<and> sr_evidence_score s \<le> sr_evidence_max_score s,
       ''evidence_score must be between 0 and evidence_max_score''),
      (0 \<le> sr_passed_rule_count s \<and> sr_passed_rule_count s \<le> sr_total_rule_count s,
       ''passed_rule_count must be between 0 and total_rule_count''),
      (0 \<le> sr_coverage s \<and> sr_coverage s \<le> 1, ''coverage must be between 0 and 1''),
      (\<not> (sr_evaluation_status s = SE_TRIGGERED \<and> sr_signal s = MS_NONE),
       ''triggered evaluation must expose a signal'')]"

definition signal_detail_payload :: "signal_detail \<Rightarrow> json" where
  "signal_detail_payload d = JObj
     [(''rule'', JStr (sgd_rule d)),
      (''status'', JStr (evidence_status_value (sgd_status d))),
      (''passed'', jopt JBool (sgd_passed d)),
      (''points_awarded'', JInt (sgd_points_awarded d)),
      (''points_possible'', JInt (sgd_points_possible d)),
      (''observed_value'', jopt evidence_text (sgd_observed_value d)),
      (''threshold'', jopt evidence_text (sgd_threshold d)),
      (''source_as_of'', jopt JTime (sgd_source_as_of d)),
      (''missing_reason'', jopt JStr (sgd_missing_reason d))]"

definition signal_payload :: "signal_result \<Rightarrow> json" where
  "signal_payload s = JObj
     [(''symbol'', JStr (sr_symbol s)),
      (''as_of'', JTime (sr_as_of s)),
      (''config_version'', JStr (sr_config_version s)),
      (''feature_version'', JStr (sr_feature_version s)),
      (''signal_family'', JStr (signal_family_value (sr_signal_family s))),
      (''signal'', JStr (momentum_signal_value (sr_signal s))),
      (''triggered_signals'',
        JList (map (JStr \<circ> momentum_signal_value) (sr_triggered_signals s))),
      (''momentum_acceleration_confirmed'', JBool (sr_momentum_acceleration_confirmed s)),
      (''evidence_score'', JInt (sr_evidence_score s)),
      (''evidence_max_score'', JInt (sr_evidence_max_score s)),
      (''passed_rule_count'', JInt (sr_passed_rule_count s)),
      (''total_rule_count'', JInt (sr_total_rule_count s)),
      (''coverage'', JDec (sr_coverage s)),
      (''data_health'', JStr (sr_data_health s)),
      (''evaluation_status'', JStr (signal_evaluation_status_value (sr_evaluation_status s))),
      (''details'', JList (map signal_detail_payload (sr_details s))),
      (''block_reasons'', JList (map JStr (sr_block_reasons s)))]"

definition signal_digest :: "(json \<Rightarrow> string) \<Rightarrow> signal_result \<Rightarrow> string" where
  "signal_digest sha s = sha (signal_payload s)"

section \<open>Momentum episodes\<close>

record stage_transition =
  str_occurred_at :: datetime
  str_from_stage :: momentum_stage
  str_to_stage :: momentum_stage
  str_signal_family :: signal_family
  str_config_version :: string
  str_evidence_snapshot_id :: string

definition stage_transition_post_init :: "stage_transition \<Rightarrow> unit res" where
  "stage_transition_post_init t = require_all
     [(dt_aware (str_occurred_at t), ''occurred_at must be timezone-aware''),
      (\<not> blank (str_config_version t), ''config_version must not be empty''),
      (\<not> blank (str_evidence_snapshot_id t), ''evidence_snapshot_id must not be empty''),
      (STAGE_ORDER (str_from_stage t) < STAGE_ORDER (str_to_stage t),
       ''stage transitions must move forward'')]"

record evidence_update =
  eu_occurred_at :: datetime
  eu_signal_family :: signal_family
  eu_config_version :: string
  eu_evidence_snapshot_id :: string
  eu_momentum_acceleration_confirmed :: bool

definition evidence_update_post_init :: "evidence_update \<Rightarrow> unit res" where
  "evidence_update_post_init u = require_all
     [(dt_aware (eu_occurred_at u), ''occurred_at must be timezone-aware''),
      (\<not> blank (eu_config_version u), ''config_version must not be empty''),
      (\<not> blank (eu_evidence_snapshot_id u), ''evidence_snapshot_id must not be empty'')]"

record momentum_episode =
  me_episode_id :: string
  me_symbol :: string
  me_session_date :: int
  me_status :: episode_status
  me_created_at :: datetime
  me_created_by_signal_family :: signal_family
  me_created_by_config_version :: string
  me_current_signal_family :: signal_family
  me_current_config_version :: string
  me_current_stage :: momentum_stage
  me_highest_stage :: momentum_stage
  me_breakout_level :: "rat option"
  me_first_seen_at :: "datetime option"
  me_peak_price :: "rat option"
  me_last_progress_at :: "datetime option"
  me_last_evaluated_at :: "datetime option"
  me_closed_at :: "datetime option"
  me_close_reason :: "string option"
  me_cooldown_until :: "datetime option"
  me_transitions :: "stage_transition list"
  me_evidence_updates :: "evidence_update list"
  me_limit_touched_at :: "datetime option"
  me_limit_locked :: "bool option"
  me_limit_lock_evidence_as_of :: "datetime option"
  me_limit_locked_at :: "datetime option"
  me_limit_unlocked_at :: "datetime option"

text \<open>The loop over the optional times: each one present is aware and of the session's date.\<close>

fun require_session_times :: "int \<Rightarrow> (datetime option \<times> string) list \<Rightarrow> unit res" where
  "require_session_times day [] = Inr ()"
| "require_session_times day ((None, field) # rest) = require_session_times day rest"
| "require_session_times day ((Some t, field) # rest) =
     (if \<not> dt_aware t then Inl (ValueError (field @ '' must be timezone-aware''))
      else if dt_date t \<noteq> day then Inl (ValueError (field @ '' must belong to session_date''))
      else require_session_times day rest)"

definition in_session :: "int \<Rightarrow> datetime option \<Rightarrow> bool" where
  "in_session day v \<longleftrightarrow> (case v of None \<Rightarrow> True | Some t \<Rightarrow> dt_aware t \<and> dt_date t = day)"

lemma in_session_simps [simp]:
  "in_session day None" "in_session day (Some t) \<longleftrightarrow> dt_aware t \<and> dt_date t = day"
  by (simp_all add: in_session_def)

lemma require_session_times_Inr [simp]:
  "require_session_times day vs = Inr u \<longleftrightarrow> list_all (\<lambda>v. in_session day (fst v)) vs"
  by (induction day vs rule: require_session_times.induct) auto

definition before :: "datetime option \<Rightarrow> datetime option \<Rightarrow> bool" where
  "before a b \<longleftrightarrow>
     (case (a, b) of (Some s, Some t) \<Rightarrow> instant s < instant t | _ \<Rightarrow> False)"

lemma before_simps [simp]:
  "\<not> before None b" "\<not> before a None" "before (Some s) (Some t) \<longleftrightarrow> instant s < instant t"
  by (auto simp: before_def split: option.splits)

definition positive_option :: "rat option \<Rightarrow> bool" where
  "positive_option v \<longleftrightarrow> (case v of None \<Rightarrow> True | Some x \<Rightarrow> 0 < x)"

lemma positive_option_simps [simp]: "positive_option None" "positive_option (Some x) \<longleftrightarrow> 0 < x"
  by (simp_all add: positive_option_def)

definition episode_post_init :: "momentum_episode \<Rightarrow> unit res" where
  "episode_post_init e =
     (case require_all
        [(\<not> blank (me_episode_id e), ''episode_id must not be empty''),
         (\<not> blank (me_symbol e), ''symbol must not be empty''),
         (\<not> blank (me_created_by_config_version e), ''created_by_config_version must not be empty''),
         (\<not> blank (me_current_config_version e), ''current_config_version must not be empty''),
         (dt_aware (me_created_at e), ''created_at must be timezone-aware''),
         (dt_date (me_created_at e) = me_session_date e, ''created_at must belong to session_date''),
         (STAGE_ORDER (me_current_stage e) \<le> STAGE_ORDER (me_highest_stage e),
          ''highest_stage cannot be behind current_stage'')] of Inl x \<Rightarrow> Inl x
      | Inr _ \<Rightarrow>
      case require_session_times (me_session_date e)
        [(me_first_seen_at e, ''first_seen_at''), (me_last_progress_at e, ''last_progress_at''),
         (me_last_evaluated_at e, ''last_evaluated_at''), (me_closed_at e, ''closed_at''),
         (me_cooldown_until e, ''cooldown_until''), (me_limit_touched_at e, ''limit_touched_at''),
         (me_limit_lock_evidence_as_of e, ''limit_lock_evidence_as_of''),
         (me_limit_locked_at e, ''limit_locked_at''),
         (me_limit_unlocked_at e, ''limit_unlocked_at'')] of Inl x \<Rightarrow> Inl x
      | Inr _ \<Rightarrow> require_all
        [(positive_option (me_breakout_level e), ''breakout_level must be positive''),
         (positive_option (me_peak_price e), ''peak_price must be positive''),
         (\<not> before (Some (me_created_at e)) (me_first_seen_at e),
          ''first_seen_at cannot follow created_at''),
         (\<not> before (me_last_progress_at e) (Some (me_created_at e)),
          ''last_progress_at cannot predate created_at''),
         (\<not> before (me_last_evaluated_at e) (Some (me_created_at e)),
          ''last_evaluated_at cannot predate created_at''),
         (me_status e = ES_ACTIVE \<longrightarrow> me_closed_at e = None \<and> me_close_reason e = None,
          ''active episode cannot have closure metadata''),
         (me_status e \<noteq> ES_ACTIVE \<longrightarrow> me_closed_at e \<noteq> None \<and> \<not> falsy_text (me_close_reason e),
          ''closed episode requires time and reason''),
         (\<not> before (me_closed_at e) (Some (me_created_at e)), ''closed_at cannot predate created_at''),
         (\<not> before (me_cooldown_until e) (me_closed_at e), ''cooldown_until cannot predate closed_at''),
         (me_limit_locked e = Some True \<longrightarrow>
            me_limit_locked_at e \<noteq> None \<and> me_limit_lock_evidence_as_of e \<noteq> None,
          ''locked state requires lock time and evidence time''),
         (me_limit_unlocked_at e \<noteq> None \<longrightarrow> me_limit_locked_at e \<noteq> None,
          ''unlock time requires a previous lock time''),
         (\<not> before (me_limit_unlocked_at e) (me_limit_locked_at e),
          ''unlock time cannot predate lock time'')])"

text \<open>The constructor and \<open>dataclasses.replace\<close>: the value, if it validates.\<close>

definition checked_episode :: "momentum_episode \<Rightarrow> momentum_episode res" where
  "checked_episode e = (case episode_post_init e of Inl x \<Rightarrow> Inl x | Inr _ \<Rightarrow> Inr e)"

lemma checked_episode_Inr [simp]:
  "checked_episode e = Inr f \<longleftrightarrow> f = e \<and> episode_post_init e = Inr ()"
  by (cases "episode_post_init e") (auto simp: checked_episode_def)

definition with_evidence_update ::
  "momentum_episode \<Rightarrow> evidence_update \<Rightarrow> momentum_episode res" where
  "with_evidence_update e u =
     (if me_status e \<noteq> ES_ACTIVE
      then Inl (ValueError ''only an active episode accepts evidence'')
      else if instant (eu_occurred_at u) < instant (me_created_at e)
      then Inl (ValueError ''evidence update cannot predate the episode'')
      else if me_evidence_updates e \<noteq> []
        \<and> instant (eu_occurred_at u) < instant (eu_occurred_at (last (me_evidence_updates e)))
      then Inl (ValueError ''evidence updates must be chronological'')
      else checked_episode
        (e\<lparr>me_current_signal_family := eu_signal_family u,
           me_current_config_version := eu_config_version u,
           me_evidence_updates := me_evidence_updates e @ [u],
           me_last_evaluated_at := Some (eu_occurred_at u)\<rparr>))"

definition with_transition :: "momentum_episode \<Rightarrow> stage_transition \<Rightarrow> momentum_episode res" where
  "with_transition e t =
     (if me_status e \<noteq> ES_ACTIVE
      then Inl (ValueError ''only an active episode may advance stage'')
      else if str_from_stage t \<noteq> me_current_stage e
      then Inl (ValueError ''transition.from_stage must match current_stage'')
      else if instant (str_occurred_at t) < instant (me_created_at e)
      then Inl (ValueError ''stage transition cannot predate the episode'')
      else if me_transitions e \<noteq> []
        \<and> instant (str_occurred_at t) < instant (str_occurred_at (last (me_transitions e)))
      then Inl (ValueError ''stage transitions must be chronological'')
      else checked_episode
        (e\<lparr>me_current_signal_family := str_signal_family t,
           me_current_config_version := str_config_version t,
           me_current_stage := str_to_stage t,
           me_highest_stage := max (me_highest_stage e) (str_to_stage t),
           me_transitions := me_transitions e @ [t],
           me_last_progress_at := Some (str_occurred_at t),
           me_last_evaluated_at := Some (str_occurred_at t)\<rparr>))"

definition with_market_observation ::
  "momentum_episode \<Rightarrow> datetime \<Rightarrow> rat \<Rightarrow> momentum_episode res" where
  "with_market_observation e occurred_at price =
     (if me_status e \<noteq> ES_ACTIVE
      then Inl (ValueError ''only an active episode accepts market observations'')
      else if \<not> dt_aware occurred_at
      then Inl (ValueError ''occurred_at must be timezone-aware'')
      else if instant occurred_at <
        instant (case me_last_evaluated_at e of None \<Rightarrow> me_created_at e | Some t \<Rightarrow> t)
      then Inl (ValueError ''market observations must be chronological'')
      else if price \<le> 0
      then Inl (ValueError ''market observation price must be positive'')
      else
        let peak_increased = (case me_peak_price e of None \<Rightarrow> True | Some p \<Rightarrow> p < price)
        in checked_episode
          (e\<lparr>me_peak_price :=
               Some (case me_peak_price e of None \<Rightarrow> price | Some p \<Rightarrow> max p price),
             me_last_progress_at :=
               (if peak_increased then Some occurred_at else me_last_progress_at e),
             me_last_evaluated_at := Some occurred_at\<rparr>))"

definition episode_close ::
  "momentum_episode \<Rightarrow> episode_status \<Rightarrow> datetime \<Rightarrow> string \<Rightarrow> datetime option
     \<Rightarrow> momentum_episode res" where
  "episode_close e status occurred_at reason cooldown_until =
     (if me_status e \<noteq> ES_ACTIVE then Inl (ValueError ''only an active episode may close'')
      else if status = ES_ACTIVE then Inl (ValueError ''close status must be terminal'')
      else case require_all
        [(dt_aware occurred_at, ''occurred_at must be timezone-aware''),
         (case cooldown_until of None \<Rightarrow> True | Some t \<Rightarrow> dt_aware t,
          ''cooldown_until must be timezone-aware''),
         (\<not> blank reason, ''reason must not be empty'')] of Inl x \<Rightarrow> Inl x
      | Inr _ \<Rightarrow> checked_episode
          (e\<lparr>me_status := status, me_closed_at := Some occurred_at,
             me_close_reason := Some reason, me_cooldown_until := cooldown_until,
             me_last_evaluated_at := Some occurred_at\<rparr>))"

section \<open>Well-formed episodes\<close>

text \<open>The transitions lead from one stage to another, each one forward.\<close>

fun follows :: "momentum_stage \<Rightarrow> stage_transition list \<Rightarrow> momentum_stage \<Rightarrow> bool" where
  "follows a [] b \<longleftrightarrow> a = b"
| "follows a (t # ts) b \<longleftrightarrow>
     str_from_stage t = a \<and> a < str_to_stage t \<and> follows (str_to_stage t) ts b"

lemma follows_snoc:
  "follows a (ts @ [t]) c \<longleftrightarrow>
     follows a ts (str_from_stage t) \<and> str_from_stage t < str_to_stage t \<and> str_to_stage t = c"
  by (induction ts arbitrary: a) auto

lemma follows_le: "follows a ts b \<Longrightarrow> a \<le> b"
  by (induction ts arbitrary: a) (auto intro: less_imp_le order_trans)

definition episode_wf :: "momentum_episode \<Rightarrow> bool" where
  "episode_wf e \<longleftrightarrow> episode_post_init e = Inr ()
     \<and> follows STRONG (me_transitions e) (me_current_stage e)
     \<and> me_highest_stage e = me_current_stage e
     \<and> sorted (map (instant \<circ> str_occurred_at) (me_transitions e))
     \<and> sorted (map (instant \<circ> eu_occurred_at) (me_evidence_updates e))"

text \<open>What an operation on an episode never changes, and what it only extends.\<close>

definition episode_extends :: "momentum_episode \<Rightarrow> momentum_episode \<Rightarrow> bool" where
  "episode_extends e f \<longleftrightarrow>
     me_episode_id f = me_episode_id e \<and> me_symbol f = me_symbol e
     \<and> me_session_date f = me_session_date e \<and> me_created_at f = me_created_at e
     \<and> me_created_by_signal_family f = me_created_by_signal_family e
     \<and> me_created_by_config_version f = me_created_by_config_version e
     \<and> me_breakout_level f = me_breakout_level e \<and> me_first_seen_at f = me_first_seen_at e
     \<and> me_current_stage e \<le> me_current_stage f
     \<and> prefix (me_transitions e) (me_transitions f)
     \<and> prefix (me_evidence_updates e) (me_evidence_updates f)
     \<and> (me_limit_touched_at e \<noteq> None \<longrightarrow> me_limit_touched_at f = me_limit_touched_at e)"

lemma episode_extends_refl [simp]: "episode_extends e e"
  by (simp add: episode_extends_def)

lemma episode_extends_trans: "episode_extends e f \<Longrightarrow> episode_extends f g \<Longrightarrow> episode_extends e g"
  unfolding episode_extends_def by (auto intro: prefix_order.trans)

lemma sorted_snoc_last:
  fixes f :: "'a \<Rightarrow> 'b :: linorder"
  assumes "sorted (map f xs)" and "xs \<noteq> [] \<Longrightarrow> f (last xs) \<le> f x"
  shows "sorted (map f (xs @ [x]))"
proof (cases xs rule: rev_cases)
  case (snoc ys y)
  then show ?thesis using assms by (auto simp: sorted_append)
qed simp

lemma with_evidence_update_wf:
  assumes "with_evidence_update e u = Inr f" and "episode_wf e"
  shows "episode_wf f \<and> episode_extends e f \<and> me_status f = ES_ACTIVE"
proof -
  have f: "me_status e = ES_ACTIVE" "episode_post_init f = Inr ()"
      "f = e\<lparr>me_current_signal_family := eu_signal_family u,
           me_current_config_version := eu_config_version u,
           me_evidence_updates := me_evidence_updates e @ [u],
           me_last_evaluated_at := Some (eu_occurred_at u)\<rparr>"
    and ge: "me_evidence_updates e \<noteq> [] \<Longrightarrow>
      instant (eu_occurred_at (last (me_evidence_updates e))) \<le> instant (eu_occurred_at u)"
    using assms(1) by (auto simp: with_evidence_update_def split: if_splits)
  have "sorted (map (instant \<circ> eu_occurred_at) (me_evidence_updates e @ [u]))"
    using assms(2) ge by (intro sorted_snoc_last) (auto simp: episode_wf_def)
  then show ?thesis using assms(2) f(1,2) unfolding f(3)
    by (simp add: episode_wf_def episode_extends_def)
qed

lemma with_transition_wf:
  assumes "with_transition e t = Inr f" and "episode_wf e"
    and "STAGE_ORDER (str_from_stage t) < STAGE_ORDER (str_to_stage t)"
  shows "episode_wf f \<and> episode_extends e f \<and> me_status f = ES_ACTIVE
     \<and> me_current_stage f = str_to_stage t"
proof -
  have f: "me_status e = ES_ACTIVE" "str_from_stage t = me_current_stage e"
      "episode_post_init f = Inr ()"
      "f = e\<lparr>me_current_signal_family := str_signal_family t,
           me_current_config_version := str_config_version t,
           me_current_stage := str_to_stage t,
           me_highest_stage := max (me_highest_stage e) (str_to_stage t),
           me_transitions := me_transitions e @ [t],
           me_last_progress_at := Some (str_occurred_at t),
           me_last_evaluated_at := Some (str_occurred_at t)\<rparr>"
    and ge: "me_transitions e \<noteq> [] \<Longrightarrow>
      instant (str_occurred_at (last (me_transitions e))) \<le> instant (str_occurred_at t)"
    using assms(1) by (auto simp: with_transition_def split: if_splits)
  have lt: "me_current_stage e < str_to_stage t"
    using assms(3) f(2) by (simp add: less_momentum_stage_def)
  have "sorted (map (instant \<circ> str_occurred_at) (me_transitions e @ [t]))"
    using assms(2) ge by (intro sorted_snoc_last) (auto simp: episode_wf_def)
  then show ?thesis using assms(2) f(1,2,3) lt unfolding f(4)
    by (auto simp: episode_wf_def episode_extends_def follows_snoc max_def)
qed

lemma with_market_observation_wf:
  assumes "with_market_observation e t price = Inr f" and "episode_wf e"
  shows "episode_wf f \<and> episode_extends e f \<and> me_status f = ES_ACTIVE
     \<and> me_current_stage f = me_current_stage e \<and> me_limit_touched_at f = me_limit_touched_at e"
  using assms
  by (auto simp: with_market_observation_def episode_wf_def episode_extends_def Let_def
      split: if_splits)

lemma episode_close_wf:
  assumes "episode_close e status t reason cooldown = Inr f" and "episode_wf e"
  shows "episode_wf f \<and> episode_extends e f \<and> me_status f = status \<and> status \<noteq> ES_ACTIVE
     \<and> me_cooldown_until f = cooldown \<and> me_closed_at f = Some t"
  using assms
  by (auto simp: episode_close_def episode_wf_def episode_extends_def res_simps split: if_splits)

definition stage_transition_payload :: "stage_transition \<Rightarrow> json" where
  "stage_transition_payload t = JObj
     [(''occurred_at'', JTime (str_occurred_at t)),
      (''from_stage'', JStr (momentum_stage_value (str_from_stage t))),
      (''to_stage'', JStr (momentum_stage_value (str_to_stage t))),
      (''signal_family'', JStr (signal_family_value (str_signal_family t))),
      (''config_version'', JStr (str_config_version t)),
      (''evidence_snapshot_id'', JStr (str_evidence_snapshot_id t))]"

definition evidence_update_payload :: "evidence_update \<Rightarrow> json" where
  "evidence_update_payload u = JObj
     [(''occurred_at'', JTime (eu_occurred_at u)),
      (''signal_family'', JStr (signal_family_value (eu_signal_family u))),
      (''config_version'', JStr (eu_config_version u)),
      (''evidence_snapshot_id'', JStr (eu_evidence_snapshot_id u)),
      (''momentum_acceleration_confirmed'', JBool (eu_momentum_acceleration_confirmed u))]"

definition episode_payload :: "momentum_episode \<Rightarrow> json" where
  "episode_payload e = JObj
     [(''episode_id'', JStr (me_episode_id e)),
      (''symbol'', JStr (me_symbol e)),
      (''session_date'', JDate (me_session_date e)),
      (''status'', JStr (episode_status_value (me_status e))),
      (''created_at'', JTime (me_created_at e)),
      (''created_by_signal_family'', JStr (signal_family_value (me_created_by_signal_family e))),
      (''created_by_config_version'', JStr (me_created_by_config_version e)),
      (''current_signal_family'', JStr (signal_family_value (me_current_signal_family e))),
      (''current_config_version'', JStr (me_current_config_version e)),
      (''current_stage'', JStr (momentum_stage_value (me_current_stage e))),
      (''highest_stage'', JStr (momentum_stage_value (me_highest_stage e))),
      (''breakout_level'', jopt JDec (me_breakout_level e)),
      (''first_seen_at'', jopt JTime (me_first_seen_at e)),
      (''peak_price'', jopt JDec (me_peak_price e)),
      (''last_progress_at'', jopt JTime (me_last_progress_at e)),
      (''last_evaluated_at'', jopt JTime (me_last_evaluated_at e)),
      (''closed_at'', jopt JTime (me_closed_at e)),
      (''close_reason'', jopt JStr (me_close_reason e)),
      (''cooldown_until'', jopt JTime (me_cooldown_until e)),
      (''transitions'', JList (map stage_transition_payload (me_transitions e))),
      (''evidence_updates'', JList (map evidence_update_payload (me_evidence_updates e))),
      (''limit_touched_at'', jopt JTime (me_limit_touched_at e)),
      (''limit_locked'', jopt JBool (me_limit_locked e)),
      (''limit_lock_evidence_as_of'', jopt JTime (me_limit_lock_evidence_as_of e)),
      (''limit_locked_at'', jopt JTime (me_limit_locked_at e)),
      (''limit_unlocked_at'', jopt JTime (me_limit_unlocked_at e))]"

definition episode_digest :: "(json \<Rightarrow> string) \<Rightarrow> momentum_episode \<Rightarrow> string" where
  "episode_digest sha e = sha (episode_payload e)"

section \<open>Entry policy\<close>

datatype entry_mode = EM_NORMAL | EM_MOMENTUM

datatype risk_gate_status = RG_PASS | RG_BLOCKED | RG_UNAVAILABLE

datatype entry_opportunity_status = EO_WAITING | EO_AVAILABLE | EO_BLOCKED

datatype entry_risk_level = ER_HIGH | ER_VERY_HIGH

record entry_policy_config =
  epc_version :: string
  epc_enabled_signal_families :: "signal_family list"

record entry_policy_decision =
  epd_eligible :: bool
  epd_policy_version :: string
  epd_reasons :: "string list"

record entry_opportunity =
  eo_mode :: entry_mode
  eo_status :: entry_opportunity_status
  eo_signal_id :: string
  eo_policy_version :: string
  eo_risk_decision_id :: "string option"
  eo_risk_level :: entry_risk_level
  eo_position_size_cap :: "rat option"
  eo_invalidation_price :: "rat option"
  eo_reasons :: "string list"

definition entry_opportunity_post_init :: "entry_opportunity \<Rightarrow> unit res" where
  "entry_opportunity_post_init p = require_all
     [(\<not> blank (eo_signal_id p), ''signal_id must not be empty''),
      (\<not> blank (eo_policy_version p), ''policy_version must not be empty''),
      (positive_option (eo_position_size_cap p), ''position_size_cap must be positive''),
      (positive_option (eo_invalidation_price p), ''invalidation_price must be positive''),
      (eo_status p = EO_AVAILABLE \<longrightarrow> eo_risk_decision_id p \<noteq> None,
       ''available entry requires a risk decision id''),
      (eo_status p = EO_AVAILABLE \<longrightarrow> eo_reasons p = [],
       ''available entry cannot have block reasons'')]"

definition evaluate_momentum_entry_policy ::
  "momentum_episode \<Rightarrow> entry_policy_config \<Rightarrow> risk_gate_status \<Rightarrow> entry_policy_decision" where
  "evaluate_momentum_entry_policy e policy gate =
     (let reasons =
            (if me_status e \<noteq> ES_ACTIVE then [''episode_not_active''] else [])
            @ (if STAGE_ORDER (me_current_stage e) < STAGE_ORDER ACCELERATING
               then [''acceleration_not_confirmed''] else [])
            @ (if \<not> List.member (epc_enabled_signal_families policy) (me_current_signal_family e)
               then [''signal_family_not_enabled''] else [])
            @ (if gate \<noteq> RG_PASS then [''risk_gate_not_passed''] else [])
      in \<lparr>epd_eligible = (reasons = []), epd_policy_version = epc_version policy,
          epd_reasons = reasons\<rparr>)"

definition starts_with :: "string \<Rightarrow> string \<Rightarrow> bool" where
  "starts_with p s \<longleftrightarrow> take (length p) s = p"

definition evaluate_momentum_entry_opportunity ::
  "momentum_episode \<Rightarrow> string \<Rightarrow> entry_policy_config \<Rightarrow> risk_gate_status \<Rightarrow> string option
     \<Rightarrow> rat option \<Rightarrow> rat option \<Rightarrow> entry_opportunity res" where
  "evaluate_momentum_entry_opportunity e signal_id policy gate risk_decision_id cap
      invalidation =
     (let reasons = epd_reasons (evaluate_momentum_entry_policy e policy gate)
            @ (if gate = RG_PASS \<and> falsy_text risk_decision_id
               then [''risk_decision_id_missing''] else []);
          risk_blocked = (gate \<noteq> RG_PASS \<or> falsy_text risk_decision_id);
          non_risk_reasons = filter (\<lambda>r. \<not> starts_with ''risk_'' r) reasons;
          status = (if risk_blocked then EO_BLOCKED
                    else if non_risk_reasons \<noteq> [] then EO_WAITING else EO_AVAILABLE);
          p = \<lparr>eo_mode = EM_MOMENTUM, eo_status = status, eo_signal_id = signal_id,
               eo_policy_version = epc_version policy, eo_risk_decision_id = risk_decision_id,
               eo_risk_level = ER_VERY_HIGH, eo_position_size_cap = cap,
               eo_invalidation_price = invalidation,
               eo_reasons = (if status = EO_AVAILABLE then [] else reasons)\<rparr>
      in case entry_opportunity_post_init p of Inl x \<Rightarrow> Inl x | Inr _ \<Rightarrow> Inr p)"

lemma risk_reasons:
  "starts_with ''risk_'' ''risk_gate_not_passed''" "starts_with ''risk_'' ''risk_decision_id_missing''"
  "\<not> starts_with ''risk_'' ''episode_not_active''"
  "\<not> starts_with ''risk_'' ''acceleration_not_confirmed''"
  "\<not> starts_with ''risk_'' ''signal_family_not_enabled''"
  by (simp_all add: starts_with_def)

text \<open>
  C37. An entry is presented as AVAILABLE exactly when the episode is open, its acceleration is
  confirmed, its signal family is enabled, and a risk decision with an identity has passed; it
  is BLOCKED exactly when the risk gate is the obstacle, and whatever is not AVAILABLE names at
  least one reason.
\<close>

theorem entry_available_iff:
  assumes "evaluate_momentum_entry_opportunity e sid policy gate rid cap inval = Inr p"
  shows "(eo_status p = EO_AVAILABLE \<longleftrightarrow> me_status e = ES_ACTIVE \<and> ACCELERATING \<le> me_current_stage e
       \<and> List.member (epc_enabled_signal_families policy) (me_current_signal_family e)
       \<and> gate = RG_PASS \<and> \<not> falsy_text rid)
     \<and> (eo_status p = EO_BLOCKED \<longleftrightarrow> gate \<noteq> RG_PASS \<or> falsy_text rid)
     \<and> (eo_status p = EO_AVAILABLE \<longleftrightarrow> eo_reasons p = [])"
  using assms
  by (auto simp: evaluate_momentum_entry_opportunity_def evaluate_momentum_entry_policy_def Let_def
      risk_reasons less_eq_momentum_stage_def res_simps split: if_splits sum.splits)

section \<open>Configuration\<close>

record lock_policy =
  lp_version :: string
  lp_confirmation_duration :: "int option"

definition lock_policy_post_init :: "lock_policy \<Rightarrow> unit res" where
  "lock_policy_post_init p = require_all
     [(\<not> blank (lp_version p), ''version must not be empty''),
      (case lp_confirmation_duration p of None \<Rightarrow> True | Some d \<Rightarrow> 0 < d,
       ''confirmation_duration must be positive'')]"

record state_machine_config =
  smc_version :: string
  smc_near_limit_distance :: rat
  smc_episode_ttl :: int
  smc_cooldown :: int
  smc_invalidation_confirmation :: int

definition state_machine_config_post_init :: "state_machine_config \<Rightarrow> unit res" where
  "state_machine_config_post_init c = require_all
     [(\<not> blank (smc_version c), ''state-machine version must not be empty''),
      (0 \<le> smc_near_limit_distance c \<and> smc_near_limit_distance c < 1,
       ''near-limit distance must be between zero and one''),
      (0 < smc_episode_ttl c, ''episode TTL must be positive''),
      (0 \<le> smc_cooldown c, ''cooldown cannot be negative''),
      (0 < smc_invalidation_confirmation c, ''invalidation confirmation must be positive'')]"

definition MOMENTUM_STATE_HYPOTHESIS_V0 :: state_machine_config where
  "MOMENTUM_STATE_HYPOTHESIS_V0 =
     \<lparr>smc_version = ''momentum_state_hypothesis_v0'', smc_near_limit_distance = 1 / 100,
      smc_episode_ttl = 600000000, smc_cooldown = 120000000, smc_invalidation_confirmation = 2\<rparr>"

definition LIMIT_LOCK_HYPOTHESIS_V0 :: lock_policy where
  "LIMIT_LOCK_HYPOTHESIS_V0 =
     \<lparr>lp_version = ''limit_lock_hypothesis_v0'', lp_confirmation_duration = None\<rparr>"

section \<open>Sample values\<close>

definition example_feature :: "feature_scalar \<Rightarrow> feature_value" where
  "example_feature v = \<lparr>fv_value = Some v, fv_status = FS_VALID, fv_source_as_of = None,
     fv_reason = None, fv_source_event_ids = []\<rparr>"

text \<open>At \<open>k\<close> seconds after nine on 2025-07-01 in Taipei.\<close>

definition example_clock :: "int \<Rightarrow> datetime" where
  "example_clock k = \<lparr>instant = 1751331600000000 + 1000000 * k, utcoffset = Some 28800000000\<rparr>"

definition example_snapshot :: "int \<Rightarrow> rat \<Rightarrow> rat \<Rightarrow> feature_snapshot" where
  "example_snapshot k price distance =
     (let v = example_feature (FDec 1) in
      \<lparr>fs_symbol = ''2330'', fs_as_of = example_clock k, fs_current_event_id = ''e'' @ show_int k,
       fs_feature_version = ''v0'', fs_data_health = DH_HEALTHY, fs_required_inputs_valid = True,
       fs_block_reasons = [], fs_price = example_feature (FDec price),
       fs_vwap = example_feature (FDec 99), fs_previous_intraday_high = example_feature (FDec 100),
       fs_price_above_vwap = example_feature (FBool (99 < price)),
       fs_breakout = example_feature (FBool (100 < price)), fs_return_2m = v,
       fs_distance_to_limit = example_feature (FDec distance), fs_volume_2m = v,
       fs_baseline_2m = v, fs_baseline_complete_windows = 5, fs_volume_acceleration_2m = v,
       fs_volume_vs_previous_2m = v, fs_external_ratio_session = v,
       fs_external_ratio_session_2m_ago = v, fs_external_ratio_rising = v, fs_bid_depth_5 = v,
       fs_ask_depth_5 = v, fs_bid_ask_ratio_5 = v, fs_book_imbalance_5 = v,
       fs_opening_volume_context = v, fs_opening_volume_context_mode = None\<rparr>)"

end
