(* ===== verification/Momentum.thy ===== *)
theory Momentum
  imports Signal_Models
begin

text \<open>
  The momentum episode state machine (\<open>signals/momentum_state.py\<close>). Its nine per-symbol
  dictionaries are the fields of \<open>momentum_machine\<close>; a method returns its result or the error
  it raises, together with the state as it is then, since some updates precede a failure.
\<close>

section \<open>Inputs, outputs and state\<close>

datatype lock_evidence_status = LOCK_CONDITION | UNLOCK_CONDITION | LOCK_UNKNOWN

fun lock_evidence_value :: "lock_evidence_status \<Rightarrow> string" where
  "lock_evidence_value LOCK_CONDITION = ''LOCK_CONDITION''"
| "lock_evidence_value UNLOCK_CONDITION = ''UNLOCK_CONDITION''"
| "lock_evidence_value LOCK_UNKNOWN = ''UNKNOWN''"

datatype lock_transition = LT_LOCKED | LT_UNLOCKED | LT_UNKNOWN

fun lock_transition_value :: "lock_transition \<Rightarrow> string" where
  "lock_transition_value LT_LOCKED = ''LOCKED''"
| "lock_transition_value LT_UNLOCKED = ''UNLOCKED''"
| "lock_transition_value LT_UNKNOWN = ''UNKNOWN''"

record lock_observation =
  lo_observed_at :: datetime
  lo_status :: lock_evidence_status
  lo_evidence_id :: string

definition lock_observation_post_init :: "lock_observation \<Rightarrow> unit res" where
  "lock_observation_post_init ob = require_all
     [(dt_aware (lo_observed_at ob), ''lock observed_at must be timezone-aware''),
      (\<not> blank (lo_evidence_id ob), ''lock evidence id must not be empty'')]"

record state_update =
  su_symbol :: string
  su_as_of :: datetime
  su_previous_stage :: momentum_stage
  su_current_stage :: momentum_stage
  su_episode :: "momentum_episode option"
  su_evidence_snapshot_id :: string
  su_episode_created :: bool
  su_stage_advanced :: bool
  su_episode_closed_status :: "episode_status option"
  su_limit_lock_transition :: "lock_transition option"
  su_lock_evidence_id :: "string option"
  su_duplicate_ignored :: bool
  su_reasons :: "string list"

definition state_update_post_init :: "state_update \<Rightarrow> unit res" where
  "state_update_post_init u = require_all
     [(\<not> blank (su_symbol u), ''state update symbol must not be empty''),
      (\<not> blank (su_evidence_snapshot_id u), ''evidence snapshot id must not be empty''),
      (dt_aware (su_as_of u), ''state update as_of must be timezone-aware'')]"

definition make_update :: "state_update \<Rightarrow> state_update res" where
  "make_update u = (case state_update_post_init u of Inl x \<Rightarrow> Inl x | Inr _ \<Rightarrow> Inr u)"

definition state_update_payload :: "(json \<Rightarrow> string) \<Rightarrow> state_update \<Rightarrow> json" where
  "state_update_payload sha u = JObj
     [(''symbol'', JStr (su_symbol u)),
      (''as_of'', JTime (su_as_of u)),
      (''previous_stage'', JStr (momentum_stage_value (su_previous_stage u))),
      (''current_stage'', JStr (momentum_stage_value (su_current_stage u))),
      (''episode_digest'', jopt (\<lambda>e. JStr (episode_digest sha e)) (su_episode u)),
      (''evidence_snapshot_id'', JStr (su_evidence_snapshot_id u)),
      (''episode_created'', JBool (su_episode_created u)),
      (''stage_advanced'', JBool (su_stage_advanced u)),
      (''episode_closed_status'',
        jopt (JStr \<circ> episode_status_value) (su_episode_closed_status u)),
      (''limit_lock_transition'',
        jopt (JStr \<circ> lock_transition_value) (su_limit_lock_transition u)),
      (''lock_evidence_id'', jopt JStr (su_lock_evidence_id u)),
      (''duplicate_ignored'', JBool (su_duplicate_ignored u)),
      (''reasons'', JList (map JStr (su_reasons u)))]"

definition state_update_digest :: "(json \<Rightarrow> string) \<Rightarrow> state_update \<Rightarrow> string" where
  "state_update_digest sha u = sha (state_update_payload sha u)"

record momentum_machine =
  mm_session_date :: int
  mm_config :: state_machine_config
  mm_lock_policy :: lock_policy
  mm_active :: "string \<rightharpoonup> momentum_episode"
  mm_latest :: "string \<rightharpoonup> momentum_episode"
  mm_watch_stage :: "string \<rightharpoonup> momentum_stage"
  mm_cooldown_until :: "string \<rightharpoonup> datetime"
  mm_sequence :: "string \<rightharpoonup> int"
  mm_last_as_of :: "string \<rightharpoonup> datetime"
  mm_last_input_digest :: "string \<rightharpoonup> string"
  mm_invalidation_count :: "string \<rightharpoonup> int"
  mm_lock_candidate_started_at :: "string \<rightharpoonup> datetime"

definition new_machine :: "int \<Rightarrow> state_machine_config \<Rightarrow> lock_policy \<Rightarrow> momentum_machine" where
  "new_machine day config policy =
     \<lparr>mm_session_date = day, mm_config = config, mm_lock_policy = policy,
      mm_active = Map.empty, mm_latest = Map.empty, mm_watch_stage = Map.empty,
      mm_cooldown_until = Map.empty, mm_sequence = Map.empty, mm_last_as_of = Map.empty,
      mm_last_input_digest = Map.empty, mm_invalidation_count = Map.empty,
      mm_lock_candidate_started_at = Map.empty\<rparr>"

definition begin_session :: "int \<Rightarrow> momentum_machine \<Rightarrow> momentum_machine" where
  "begin_session day m =
     (if day = mm_session_date m then m else new_machine day (mm_config m) (mm_lock_policy m))"

definition current_episode :: "momentum_machine \<Rightarrow> string \<Rightarrow> momentum_episode option" where
  "current_episode m symbol = mm_active m symbol"

definition latest_episode :: "momentum_machine \<Rightarrow> string \<Rightarrow> momentum_episode option" where
  "latest_episode m symbol = mm_latest m symbol"

type_synonym 'a machine_step = "'a res \<times> momentum_machine"

section \<open>Helpers of the evaluation\<close>

definition data_healthy :: "feature_snapshot \<Rightarrow> signal_result \<Rightarrow> bool" where
  "data_healthy s g \<longleftrightarrow>
     fs_data_health s = DH_HEALTHY \<and> sr_data_health g = data_health_value DH_HEALTHY"

definition is_true :: "feature_value \<Rightarrow> bool" where
  "is_true v \<longleftrightarrow> fv_status v = FS_VALID \<and> fv_value v = Some (FBool True)"

text \<open>\<open>value.status is VALID and isinstance(value.value, Decimal)\<close>, and the Decimal.\<close>

definition valid_decimal :: "feature_value \<Rightarrow> rat option" where
  "valid_decimal v =
     (if fv_status v = FS_VALID then (case fv_value v of Some (FDec d) \<Rightarrow> Some d | _ \<Rightarrow> None)
      else None)"

definition decimal_value :: "feature_value \<Rightarrow> rat option" where
  "decimal_value v = (case fv_value v of Some (FDec d) \<Rightarrow> Some d | _ \<Rightarrow> None)"

definition public_stage :: "momentum_machine \<Rightarrow> string \<Rightarrow> momentum_stage" where
  "public_stage m symbol =
     (case mm_active m symbol of
        Some e \<Rightarrow> me_current_stage e
      | None \<Rightarrow> (case mm_watch_stage m symbol of Some g \<Rightarrow> g | None \<Rightarrow> WATCH))"

definition next_episode_id :: "momentum_machine \<Rightarrow> string \<Rightarrow> string \<times> momentum_machine" where
  "next_episode_id m symbol =
     (let sequence = (case mm_sequence m symbol of None \<Rightarrow> 0 | Some n \<Rightarrow> n) + 1
      in (symbol @ ''-'' @ date_compact (mm_session_date m) @ ''-'' @ show_padded 3 sequence,
          m\<lparr>mm_sequence := (mm_sequence m)(symbol \<mapsto> sequence)\<rparr>))"

definition validate_input ::
  "momentum_machine \<Rightarrow> feature_snapshot \<Rightarrow> signal_result \<Rightarrow> lock_observation option \<Rightarrow> unit res" where
  "validate_input m s g ob = require_all
     ([(fs_symbol s = sr_symbol g, ''feature and signal symbols must match''),
       (instant (fs_as_of s) = instant (sr_as_of g), ''feature and signal as_of must match''),
       (dt_date (fs_as_of s) = mm_session_date m, ''state input does not belong to session''),
       (fv_status (fs_price s) = FS_VALID, ''state input requires a valid current price'')]
      @ (case ob of None \<Rightarrow> []
         | Some x \<Rightarrow>
           [(instant (lo_observed_at x) \<le> instant (fs_as_of s),
             ''lock observation cannot use future data''),
            (dt_date (lo_observed_at x) = mm_session_date m,
             ''lock observation does not belong to session'')]))"

lemma validate_input_Inr:
  "validate_input m s g ob = Inr () \<longleftrightarrow>
     fs_symbol s = sr_symbol g \<and> instant (fs_as_of s) = instant (sr_as_of g)
     \<and> dt_date (fs_as_of s) = mm_session_date m \<and> fv_status (fs_price s) = FS_VALID
     \<and> (\<forall>x. ob = Some x \<longrightarrow> instant (lo_observed_at x) \<le> instant (fs_as_of s)
          \<and> dt_date (lo_observed_at x) = mm_session_date m)"
  unfolding validate_input_def require_all_Inr by (auto split: option.splits)

definition input_payload ::
  "(json \<Rightarrow> string) \<Rightarrow> feature_snapshot \<Rightarrow> signal_result \<Rightarrow> lock_observation option \<Rightarrow> json" where
  "input_payload sha s g ob = JObj
     [(''current_event_id'', JStr (fs_current_event_id s)),
      (''signal_digest'', JStr (signal_digest sha g)),
      (''lock_evidence_id'', jopt (\<lambda>x. JStr (lo_evidence_id x)) ob),
      (''lock_status'', jopt (\<lambda>x. JStr (lock_evidence_value (lo_status x))) ob)]"

definition input_digest ::
  "(json \<Rightarrow> string) \<Rightarrow> feature_snapshot \<Rightarrow> signal_result \<Rightarrow> lock_observation option \<Rightarrow> string" where
  "input_digest sha s g ob = sha (input_payload sha s g ob)"

definition advance ::
  "(json \<Rightarrow> string) \<Rightarrow> momentum_episode \<Rightarrow> momentum_stage \<Rightarrow> signal_result \<Rightarrow> momentum_episode res" where
  "advance sha e target g =
     (if STAGE_ORDER target \<le> STAGE_ORDER (me_current_stage e) then Inr e
      else
        let t = \<lparr>str_occurred_at = sr_as_of g, str_from_stage = me_current_stage e,
                 str_to_stage = target, str_signal_family = sr_signal_family g,
                 str_config_version = sr_config_version g,
                 str_evidence_snapshot_id = signal_digest sha g\<rparr>
        in case stage_transition_post_init t of Inl x \<Rightarrow> Inl x | Inr _ \<Rightarrow> with_transition e t)"

definition append_evidence ::
  "(json \<Rightarrow> string) \<Rightarrow> momentum_episode \<Rightarrow> signal_result \<Rightarrow> momentum_episode res" where
  "append_evidence sha e g =
     (if me_evidence_updates e \<noteq> []
        \<and> eu_evidence_snapshot_id (last (me_evidence_updates e)) = signal_digest sha g
      then Inr e
      else
        let u = \<lparr>eu_occurred_at = sr_as_of g, eu_signal_family = sr_signal_family g,
                 eu_config_version = sr_config_version g,
                 eu_evidence_snapshot_id = signal_digest sha g,
                 eu_momentum_acceleration_confirmed = sr_momentum_acceleration_confirmed g\<rparr>
        in case evidence_update_post_init u of Inl x \<Rightarrow> Inl x | Inr _ \<Rightarrow> with_evidence_update e u)"

definition advance_for_market ::
  "(json \<Rightarrow> string) \<Rightarrow> state_machine_config \<Rightarrow> momentum_episode \<Rightarrow> feature_snapshot
     \<Rightarrow> signal_result \<Rightarrow> momentum_episode res" where
  "advance_for_market sha c e s g =
     (case valid_decimal (fs_distance_to_limit s) of
        Some d \<Rightarrow>
          if d \<le> 0
          then (case advance sha e LIMIT_TOUCHED g of Inl x \<Rightarrow> Inl x
                | Inr e1 \<Rightarrow>
                    if me_limit_touched_at e1 = None
                    then checked_episode (e1\<lparr>me_limit_touched_at := Some (fs_as_of s)\<rparr>)
                    else Inr e1)
          else
          (case (if sr_momentum_acceleration_confirmed g then advance sha e ACCELERATING g
                 else Inr e) of Inl x \<Rightarrow> Inl x
           | Inr e1 \<Rightarrow>
               if STAGE_ORDER ACCELERATING \<le> STAGE_ORDER (me_current_stage e1)
                  \<and> d \<le> smc_near_limit_distance c
               then advance sha e1 NEAR_LIMIT_UP g else Inr e1)
      | None \<Rightarrow>
          if sr_momentum_acceleration_confirmed g then advance sha e ACCELERATING g else Inr e)"

definition invalidation_reasons :: "momentum_episode \<Rightarrow> feature_snapshot \<Rightarrow> string list" where
  "invalidation_reasons e s =
     (case decimal_value (fs_price s) of None \<Rightarrow> []
      | Some price \<Rightarrow>
          (if (case me_breakout_level e of None \<Rightarrow> False | Some b \<Rightarrow> price < b)
           then [''price_below_breakout_level''] else [])
          @ (if (case valid_decimal (fs_vwap s) of None \<Rightarrow> False | Some v \<Rightarrow> price < v)
             then [''price_below_vwap''] else []))
     @ (if (case valid_decimal (fs_return_2m s) of None \<Rightarrow> False | Some r \<Rightarrow> r < 0)
        then [''return_2m_negative''] else [])"

fun join_plus :: "string list \<Rightarrow> string" where
  "join_plus [] = []"
| "join_plus [x] = x"
| "join_plus (x # y # ys) = x @ ''+'' @ join_plus (y # ys)"

definition clear_candidate :: "string \<Rightarrow> momentum_machine \<Rightarrow> momentum_machine" where
  "clear_candidate symbol m =
     m\<lparr>mm_lock_candidate_started_at := (mm_lock_candidate_started_at m)(symbol := None)\<rparr>"

definition apply_lock_observation ::
  "momentum_machine \<Rightarrow> momentum_episode \<Rightarrow> lock_observation option
     \<Rightarrow> (momentum_episode \<times> lock_transition option) machine_step" where
  "apply_lock_observation m e ob =
     (case (ob, me_limit_touched_at e) of
        (Some x, Some _) \<Rightarrow>
        (let symbol = me_symbol e;
             previous = me_limit_locked e;
             seen = lo_observed_at x;
             finish = (\<lambda>m' e' t. case checked_episode e' of
                Inl err \<Rightarrow> (Inl err, m') | Inr e'' \<Rightarrow> (Inr (e'', t), m'))
         in case lo_status x of
              LOCK_UNKNOWN \<Rightarrow>
                finish (clear_candidate symbol m)
                  (e\<lparr>me_limit_locked := None, me_limit_lock_evidence_as_of := Some seen\<rparr>)
                  (if previous \<noteq> None then Some LT_UNKNOWN else None)
            | UNLOCK_CONDITION \<Rightarrow>
                finish (clear_candidate symbol m)
                  (e\<lparr>me_limit_locked := Some False, me_limit_lock_evidence_as_of := Some seen,
                     me_limit_unlocked_at :=
                       (if previous = Some True then Some seen else me_limit_unlocked_at e)\<rparr>)
                  (if previous = Some True then Some LT_UNLOCKED else None)
            | LOCK_CONDITION \<Rightarrow>
                (case lp_confirmation_duration (mm_lock_policy m) of
                   None \<Rightarrow>
                     finish m
                       (e\<lparr>me_limit_locked := None, me_limit_lock_evidence_as_of := Some seen\<rparr>)
                       (if previous \<noteq> None then Some LT_UNKNOWN else None)
                 | Some duration \<Rightarrow>
                     let started_at = (case mm_lock_candidate_started_at m symbol of
                           Some t \<Rightarrow> t | None \<Rightarrow> seen);
                         m' = m\<lparr>mm_lock_candidate_started_at :=
                             (mm_lock_candidate_started_at m)(symbol \<mapsto> started_at)\<rparr>
                     in if instant seen - instant started_at < duration then (Inr (e, None), m')
                        else if previous = Some True
                        then finish m' (e\<lparr>me_limit_lock_evidence_as_of := Some seen\<rparr>) None
                        else finish m'
                          (e\<lparr>me_limit_locked := Some True,
                             me_limit_lock_evidence_as_of := Some seen,
                             me_limit_locked_at := Some seen, me_limit_unlocked_at := None\<rparr>)
                          (Some LT_LOCKED)))
      | _ \<Rightarrow> (Inr (e, None), m))"

section \<open>Evaluation\<close>

definition close_episode ::
  "(json \<Rightarrow> string) \<Rightarrow> momentum_machine \<Rightarrow> momentum_episode \<Rightarrow> feature_snapshot \<Rightarrow> signal_result
     \<Rightarrow> episode_status \<Rightarrow> string \<Rightarrow> momentum_stage \<Rightarrow> state_update machine_step" where
  "close_episode sha m e s g status reason previous =
     (case append_evidence sha e g of Inl x \<Rightarrow> (Inl x, m) | Inr e1 \<Rightarrow>
      let cooldown = (if status = ES_INVALIDATED
                      then Some (dt_plus (fs_as_of s) (smc_cooldown (mm_config m))) else None)
      in case episode_close e1 status (fs_as_of s) reason cooldown of
           Inl x \<Rightarrow> (Inl x, m)
         | Inr ended \<Rightarrow>
           let symbol = fs_symbol s;
               m' = m\<lparr>mm_active := (mm_active m)(symbol := None),
                      mm_latest := (mm_latest m)(symbol \<mapsto> ended),
                      mm_cooldown_until := (mm_cooldown_until m)(symbol := me_cooldown_until ended),
                      mm_watch_stage := (mm_watch_stage m)(symbol \<mapsto> WATCH),
                      mm_invalidation_count := (mm_invalidation_count m)(symbol \<mapsto> 0),
                      mm_lock_candidate_started_at :=
                        (mm_lock_candidate_started_at m)(symbol := None)\<rparr>
           in (make_update
                 \<lparr>su_symbol = symbol, su_as_of = fs_as_of s, su_previous_stage = previous,
                  su_current_stage = WATCH, su_episode = Some ended,
                  su_evidence_snapshot_id = signal_digest sha g, su_episode_created = False,
                  su_stage_advanced = False, su_episode_closed_status = Some status,
                  su_limit_lock_transition = None, su_lock_evidence_id = None,
                  su_duplicate_ignored = False, su_reasons = [reason]\<rparr>, m'))"

definition cooldown_reasons :: "momentum_machine \<Rightarrow> string \<Rightarrow> datetime \<Rightarrow> string list" where
  "cooldown_reasons m symbol t =
     (case mm_cooldown_until m symbol of
        None \<Rightarrow> []
      | Some until \<Rightarrow> if instant t < instant until then [''cooldown_until:'' @ isoformat until]
                      else [])"

text \<open>The new episode with its first evidence and stages, and its registration.\<close>

definition first_episode ::
  "momentum_machine \<Rightarrow> feature_snapshot \<Rightarrow> signal_result \<Rightarrow> string \<Rightarrow> rat \<Rightarrow> rat \<Rightarrow> momentum_episode" where
  "first_episode m s g episode_id high price =
     \<lparr>me_episode_id = episode_id, me_symbol = fs_symbol s,
      me_session_date = mm_session_date m, me_status = ES_ACTIVE,
      me_created_at = fs_as_of s, me_created_by_signal_family = sr_signal_family g,
      me_created_by_config_version = sr_config_version g,
      me_current_signal_family = sr_signal_family g,
      me_current_config_version = sr_config_version g,
      me_current_stage = STRONG, me_highest_stage = STRONG,
      me_breakout_level = Some high, me_first_seen_at = Some (fs_as_of s),
      me_peak_price = Some price, me_last_progress_at = Some (fs_as_of s),
      me_last_evaluated_at = Some (fs_as_of s), me_closed_at = None,
      me_close_reason = None, me_cooldown_until = None, me_transitions = [],
      me_evidence_updates = [], me_limit_touched_at = None, me_limit_locked = None,
      me_limit_lock_evidence_as_of = None, me_limit_locked_at = None,
      me_limit_unlocked_at = None\<rparr>"

definition fresh_episode ::
  "(json \<Rightarrow> string) \<Rightarrow> momentum_machine \<Rightarrow> feature_snapshot \<Rightarrow> signal_result \<Rightarrow> string \<Rightarrow> rat \<Rightarrow> rat
     \<Rightarrow> momentum_episode res" where
  "fresh_episode sha m s g episode_id high price =
     (case checked_episode (first_episode m s g episode_id high price) of Inl x \<Rightarrow> Inl x | Inr e0 \<Rightarrow>
      case append_evidence sha e0 g of Inl x \<Rightarrow> Inl x | Inr e1 \<Rightarrow>
      case advance sha e1 BREAKOUT g of Inl x \<Rightarrow> Inl x | Inr e2 \<Rightarrow>
      advance_for_market sha (mm_config m) e2 s g)"

definition open_episode ::
  "(json \<Rightarrow> string) \<Rightarrow> momentum_machine \<Rightarrow> feature_snapshot \<Rightarrow> signal_result \<Rightarrow> momentum_stage
     \<Rightarrow> lock_observation option \<Rightarrow> rat \<Rightarrow> rat \<Rightarrow> state_update machine_step" where
  "open_episode sha m s g previous ob high price =
     (let symbol = fs_symbol s in
      case next_episode_id m symbol of (episode_id, m1) \<Rightarrow>
      case fresh_episode sha m s g episode_id high price of Inl x \<Rightarrow> (Inl x, m1) | Inr e3 \<Rightarrow>
      case apply_lock_observation m1 e3 ob of
        (Inl x, m2) \<Rightarrow> (Inl x, m2)
      | (Inr (e, lock_transition), m2) \<Rightarrow>
        (make_update
           \<lparr>su_symbol = symbol, su_as_of = fs_as_of s, su_previous_stage = previous,
            su_current_stage = me_current_stage e, su_episode = Some e,
            su_evidence_snapshot_id = signal_digest sha g, su_episode_created = True,
            su_stage_advanced = True, su_episode_closed_status = None,
            su_limit_lock_transition = lock_transition,
            su_lock_evidence_id =
              (if lock_transition \<noteq> None then map_option lo_evidence_id ob else None),
            su_duplicate_ignored = False, su_reasons = []\<rparr>,
         m2\<lparr>mm_active := (mm_active m2)(symbol \<mapsto> e),
            mm_latest := (mm_latest m2)(symbol \<mapsto> e),
            mm_watch_stage := (mm_watch_stage m2)(symbol \<mapsto> me_current_stage e),
            mm_invalidation_count := (mm_invalidation_count m2)(symbol \<mapsto> 0)\<rparr>))"

definition evaluate_without_active ::
  "(json \<Rightarrow> string) \<Rightarrow> momentum_machine \<Rightarrow> feature_snapshot \<Rightarrow> signal_result \<Rightarrow> momentum_stage
     \<Rightarrow> lock_observation option \<Rightarrow> state_update machine_step" where
  "evaluate_without_active sha m0 s g previous ob =
     (let symbol = fs_symbol s;
          healthy = data_healthy s g;
          strong = (healthy \<and> is_true (fs_price_above_vwap s));
          base_stage = (if strong then STRONG else WATCH);
          m = m0\<lparr>mm_watch_stage := (mm_watch_stage m0)(symbol \<mapsto> base_stage)\<rparr>;
          reasons = cooldown_reasons m symbol (fs_as_of s);
          can_create = (reasons = [] \<and> strong \<and> is_true (fs_breakout s)
            \<and> fv_status (fs_previous_intraday_high s) = FS_VALID
            \<and> fv_status (fs_price s) = FS_VALID \<and> sr_evaluation_status g \<noteq> SE_OUTSIDE_WINDOW)
      in if \<not> can_create
         then (make_update
           \<lparr>su_symbol = symbol, su_as_of = fs_as_of s, su_previous_stage = previous,
            su_current_stage = base_stage, su_episode = mm_latest m symbol,
            su_evidence_snapshot_id = signal_digest sha g, su_episode_created = False,
            su_stage_advanced = (STAGE_ORDER previous < STAGE_ORDER base_stage),
            su_episode_closed_status = None, su_limit_lock_transition = None,
            su_lock_evidence_id = None, su_duplicate_ignored = False,
            su_reasons = reasons @ (if healthy then [] else [''data_health_not_healthy''])\<rparr>, m)
         else
         case (decimal_value (fs_previous_intraday_high s), decimal_value (fs_price s)) of
           (Some high, Some price) \<Rightarrow> open_episode sha m s g previous ob high price
         | _ \<Rightarrow> (Inl (AssertionFailure []), m))"

text \<open>
  What follows the invalidation test for an episode that stays open: stages, lock evidence and
  the time-to-live.
\<close>

definition progress_episode ::
  "(json \<Rightarrow> string) \<Rightarrow> momentum_machine \<Rightarrow> momentum_episode \<Rightarrow> feature_snapshot \<Rightarrow> signal_result
     \<Rightarrow> momentum_stage \<Rightarrow> lock_observation option \<Rightarrow> string list \<Rightarrow> state_update machine_step" where
  "progress_episode sha m e0 s g previous ob reasons =
     (case advance_for_market sha (mm_config m) e0 s g of Inl x \<Rightarrow> (Inl x, m) | Inr e1 \<Rightarrow>
      case apply_lock_observation m e1 ob of
        (Inl x, m1) \<Rightarrow> (Inl x, m1)
      | (Inr (e, lock_transition), m1) \<Rightarrow>
        let symbol = fs_symbol s;
            last_progress_at =
              (case me_last_progress_at e of None \<Rightarrow> me_created_at e | Some t \<Rightarrow> t)
        in if smc_episode_ttl (mm_config m) \<le> instant (fs_as_of s) - instant last_progress_at
           then close_episode sha m1 e s g ES_EXPIRED ''episode_progress_ttl_elapsed'' previous
           else (make_update
                   \<lparr>su_symbol = symbol, su_as_of = fs_as_of s, su_previous_stage = previous,
                    su_current_stage = me_current_stage e, su_episode = Some e,
                    su_evidence_snapshot_id = signal_digest sha g, su_episode_created = False,
                    su_stage_advanced =
                      (STAGE_ORDER previous < STAGE_ORDER (me_current_stage e)),
                    su_episode_closed_status = None, su_limit_lock_transition = lock_transition,
                    su_lock_evidence_id =
                      (if lock_transition \<noteq> None then map_option lo_evidence_id ob else None),
                    su_duplicate_ignored = False, su_reasons = reasons\<rparr>,
                 m1\<lparr>mm_active := (mm_active m1)(symbol \<mapsto> e),
                    mm_latest := (mm_latest m1)(symbol \<mapsto> e),
                    mm_watch_stage := (mm_watch_stage m1)(symbol \<mapsto> me_current_stage e)\<rparr>))"

definition evaluate_active ::
  "(json \<Rightarrow> string) \<Rightarrow> momentum_machine \<Rightarrow> momentum_episode \<Rightarrow> feature_snapshot \<Rightarrow> signal_result
     \<Rightarrow> momentum_stage \<Rightarrow> lock_observation option \<Rightarrow> state_update machine_step" where
  "evaluate_active sha m e s g previous ob =
     (if \<not> data_healthy s g
      then close_episode sha m e s g ES_DATA_BLOCKED ''data_health_not_healthy'' previous
      else
      case decimal_value (fs_price s) of None \<Rightarrow> (Inl (AssertionFailure []), m) | Some price \<Rightarrow>
      case with_market_observation e (fs_as_of s) price of Inl x \<Rightarrow> (Inl x, m) | Inr e1 \<Rightarrow>
      case append_evidence sha e1 g of Inl x \<Rightarrow> (Inl x, m) | Inr e2 \<Rightarrow>
      let symbol = fs_symbol s;
          reasons = invalidation_reasons e2 s;
          count = (if reasons = [] then 0
                   else (case mm_invalidation_count m symbol of None \<Rightarrow> 0 | Some n \<Rightarrow> n) + 1);
          m1 = m\<lparr>mm_invalidation_count := (mm_invalidation_count m)(symbol \<mapsto> count)\<rparr>
      in if reasons \<noteq> [] \<and> smc_invalidation_confirmation (mm_config m) \<le> count
         then close_episode sha m1 e2 s g ES_INVALIDATED (join_plus reasons) previous
         else progress_episode sha m1 e2 s g previous ob reasons)"

definition momentum_evaluate ::
  "(json \<Rightarrow> string) \<Rightarrow> momentum_machine \<Rightarrow> feature_snapshot \<Rightarrow> signal_result
     \<Rightarrow> lock_observation option \<Rightarrow> state_update machine_step" where
  "momentum_evaluate sha m s g ob =
     (case validate_input m s g ob of Inl x \<Rightarrow> (Inl x, m) | Inr _ \<Rightarrow>
      let symbol = fs_symbol s;
          previous = public_stage m symbol;
          digest = input_digest sha s g ob
      in if mm_last_input_digest m symbol = Some digest
         then (make_update
                 \<lparr>su_symbol = symbol, su_as_of = fs_as_of s, su_previous_stage = previous,
                  su_current_stage = previous, su_episode = mm_latest m symbol,
                  su_evidence_snapshot_id = signal_digest sha g, su_episode_created = False,
                  su_stage_advanced = False, su_episode_closed_status = None,
                  su_limit_lock_transition = None, su_lock_evidence_id = None,
                  su_duplicate_ignored = True, su_reasons = [''duplicate_evaluation'']\<rparr>, m)
         else if (case mm_last_as_of m symbol of None \<Rightarrow> False
                  | Some t \<Rightarrow> instant (fs_as_of s) < instant t)
         then (Inl (ValueError ''state evaluations must be chronological''), m)
         else
           let m1 = m\<lparr>mm_last_as_of := (mm_last_as_of m)(symbol \<mapsto> fs_as_of s),
                      mm_last_input_digest := (mm_last_input_digest m)(symbol \<mapsto> digest)\<rparr>
           in case mm_active m symbol of
                None \<Rightarrow> evaluate_without_active sha m1 s g previous ob
              | Some e \<Rightarrow> evaluate_active sha m1 e s g previous ob)"

section \<open>Steps on the episode\<close>

lemma advance_wf:
  assumes "advance sha e target g = Inr f" and "episode_wf e"
  shows "episode_wf f \<and> episode_extends e f \<and> me_status f = me_status e
     \<and> me_current_stage f = max (me_current_stage e) target"
proof (cases "STAGE_ORDER target \<le> STAGE_ORDER (me_current_stage e)")
  case True
  then have "target \<le> me_current_stage e" by (simp add: less_eq_momentum_stage_def)
  then show ?thesis using assms True by (simp add: advance_def max_absorb1)
next
  case False
  let ?t = "\<lparr>str_occurred_at = sr_as_of g, str_from_stage = me_current_stage e,
      str_to_stage = target, str_signal_family = sr_signal_family g,
      str_config_version = sr_config_version g, str_evidence_snapshot_id = signal_digest sha g\<rparr>"
  have w: "with_transition e ?t = Inr f"
    using assms(1) False by (auto simp: advance_def Let_def res_simps)
  then have "me_status e = ES_ACTIVE" by (auto simp: with_transition_def split: if_splits)
  then show ?thesis using with_transition_wf [OF w assms(2)] False
    by (simp add: max_def less_eq_momentum_stage_def)
qed

lemma append_evidence_wf:
  assumes "append_evidence sha e g = Inr f" and "episode_wf e"
  shows "episode_wf f \<and> episode_extends e f \<and> me_status f = me_status e
     \<and> me_current_stage f = me_current_stage e \<and> me_limit_touched_at f = me_limit_touched_at e
     \<and> me_limit_locked f = me_limit_locked e"
proof (cases "me_evidence_updates e \<noteq> []
    \<and> eu_evidence_snapshot_id (last (me_evidence_updates e)) = signal_digest sha g")
  case True
  then show ?thesis using assms by (simp add: append_evidence_def)
next
  case False
  then obtain u where u: "with_evidence_update e u = Inr f"
    using assms(1) unfolding append_evidence_def Let_def if_not_P [OF False] res_simps by blast
  then have "me_status e = ES_ACTIVE" "me_current_stage f = me_current_stage e"
      "me_limit_touched_at f = me_limit_touched_at e" "me_limit_locked f = me_limit_locked e"
    by (auto simp: with_evidence_update_def split: if_splits)
  then show ?thesis using with_evidence_update_wf [OF u assms(2)] by simp
qed

lemma advance_limit_fields:
  assumes "advance sha e target g = Inr f"
  shows "me_limit_touched_at f = me_limit_touched_at e \<and> me_limit_locked f = me_limit_locked e"
  using assms by (auto simp: advance_def with_transition_def Let_def res_simps split: if_splits)

text \<open>The limit-touched mark agrees with the stage.\<close>

definition touched_wf :: "momentum_episode \<Rightarrow> bool" where
  "touched_wf e \<longleftrightarrow> (me_limit_touched_at e \<noteq> None \<longleftrightarrow> me_current_stage e = LIMIT_TOUCHED)
     \<and> (me_limit_locked e \<noteq> None \<longrightarrow> me_limit_touched_at e \<noteq> None)"

lemma stage_le_touched [simp]: "g \<le> LIMIT_TOUCHED"
  by (cases g) (simp_all add: less_eq_momentum_stage_def)

lemma max_touched_iff [simp]: "max g h = LIMIT_TOUCHED \<longleftrightarrow> g = LIMIT_TOUCHED \<or> h = LIMIT_TOUCHED"
  by (cases g; cases h) (simp_all add: max_def less_eq_momentum_stage_def)

lemma max_touched [simp]: "max g LIMIT_TOUCHED = LIMIT_TOUCHED"
  by simp

lemma advance_touched:
  assumes "advance sha e target g = Inr f" and "episode_wf e" and "touched_wf e"
    and "target \<noteq> LIMIT_TOUCHED"
  shows "touched_wf f"
  using advance_wf [OF assms(1,2)] advance_limit_fields [OF assms(1)] assms(3,4)
  by (auto simp: touched_wf_def)

lemma mark_touched_wf:
  assumes "episode_wf e" and "episode_post_init (e\<lparr>me_limit_touched_at := Some t\<rparr>) = Inr ()"
    and "me_limit_touched_at e = None"
  shows "episode_wf (e\<lparr>me_limit_touched_at := Some t\<rparr>)
     \<and> episode_extends e (e\<lparr>me_limit_touched_at := Some t\<rparr>)"
  using assms by (auto simp: episode_wf_def episode_extends_def)

lemma advance_for_market_wf:
  assumes "advance_for_market sha c e s g = Inr f" and "episode_wf e" and "touched_wf e"
  shows "episode_wf f \<and> episode_extends e f \<and> me_status f = me_status e \<and> touched_wf f
     \<and> me_limit_locked f = me_limit_locked e"
proof (cases "valid_decimal (fs_distance_to_limit s)")
  case None
  show ?thesis
  proof (cases "sr_momentum_acceleration_confirmed g")
    case True
    then have "advance sha e ACCELERATING g = Inr f"
      using assms(1) None by (simp add: advance_for_market_def)
    from advance_wf [OF this assms(2)] advance_touched [OF this assms(2,3)]
      advance_limit_fields [OF this] show ?thesis by simp
  next
    case False
    then show ?thesis using assms None by (simp add: advance_for_market_def)
  qed
next
  case (Some d)
  show ?thesis
  proof (cases "d \<le> 0")
    case True
    with assms(1) Some obtain e1 where e1: "advance sha e LIMIT_TOUCHED g = Inr e1"
      "(if me_limit_touched_at e1 = None
        then checked_episode (e1\<lparr>me_limit_touched_at := Some (fs_as_of s)\<rparr>) else Inr e1) = Inr f"
      by (auto simp: advance_for_market_def res_simps)
    note w = advance_wf [OF e1(1) assms(2)] and l = advance_limit_fields [OF e1(1)]
    show ?thesis
    proof (cases "me_limit_touched_at e1 = None")
      case True
      then have f: "f = e1\<lparr>me_limit_touched_at := Some (fs_as_of s)\<rparr>"
          "episode_post_init (e1\<lparr>me_limit_touched_at := Some (fs_as_of s)\<rparr>) = Inr ()"
        using e1(2) by auto
      show ?thesis using mark_touched_wf [OF _ f(2) True] w l assms(3)
        by (auto simp: f(1) touched_wf_def intro: episode_extends_trans)
    next
      case False
      then show ?thesis using e1(2) w l assms(3) by (auto simp: touched_wf_def)
    qed
  next
    case False
    then obtain e1 where e1:
      "(if sr_momentum_acceleration_confirmed g then advance sha e ACCELERATING g else Inr e) = Inr e1"
      "(if STAGE_ORDER ACCELERATING \<le> STAGE_ORDER (me_current_stage e1)
          \<and> d \<le> smc_near_limit_distance c then advance sha e1 NEAR_LIMIT_UP g else Inr e1) = Inr f"
      using assms(1) Some by (auto simp only: advance_for_market_def option.case if_False res_simps)
    have s1: "episode_wf e1 \<and> episode_extends e e1 \<and> me_status e1 = me_status e \<and> touched_wf e1
        \<and> me_limit_locked e1 = me_limit_locked e"
      using e1(1) assms(2,3) advance_wf [of sha e _ g e1] advance_touched [of sha e _ g e1]
        advance_limit_fields [of sha e _ g e1] by (auto split: if_splits)
    have s2: "episode_wf f \<and> episode_extends e1 f \<and> me_status f = me_status e1 \<and> touched_wf f
        \<and> me_limit_locked f = me_limit_locked e1"
      using e1(2) s1 advance_wf [of sha e1 _ g f] advance_touched [of sha e1 _ g f]
        advance_limit_fields [of sha e1 _ g f] by (auto split: if_splits)
    from s1 s2 show ?thesis by (auto intro: episode_extends_trans)
  qed
qed

text \<open>Lock evidence leaves everything but the lock fields of the episode alone.\<close>

lemma apply_lock_frame:
  assumes "apply_lock_observation m e ob = (r, m')"
  shows "m' = m\<lparr>mm_lock_candidate_started_at := mm_lock_candidate_started_at m'\<rparr>
     \<and> (\<forall>sy. sy \<noteq> me_symbol e \<longrightarrow>
          mm_lock_candidate_started_at m' sy = mm_lock_candidate_started_at m sy)"
  using assms
  by (auto simp: apply_lock_observation_def clear_candidate_def Let_def
      split: option.splits lock_evidence_status.splits if_splits sum.splits)

lemma apply_lock_episode:
  assumes "apply_lock_observation m e ob = (Inr (f, t), n)"
  shows "(\<exists>a b c d. f = e\<lparr>me_limit_locked := a, me_limit_lock_evidence_as_of := b,
             me_limit_locked_at := c, me_limit_unlocked_at := d\<rparr>)
     \<and> (f = e \<or> episode_post_init f = Inr () \<and> me_limit_touched_at e \<noteq> None)"
proof (cases "f = e")
  case True
  then have "f = e\<lparr>me_limit_locked := me_limit_locked e,
      me_limit_lock_evidence_as_of := me_limit_lock_evidence_as_of e,
      me_limit_locked_at := me_limit_locked_at e, me_limit_unlocked_at := me_limit_unlocked_at e\<rparr>"
    by simp
  with True show ?thesis by blast
next
  case False
  then obtain x u where x: "ob = Some x" "me_limit_touched_at e = Some u"
    using assms by (auto simp: apply_lock_observation_def split: option.splits)
  have "\<exists>a b c d. checked_episode (e\<lparr>me_limit_locked := a, me_limit_lock_evidence_as_of := b,
             me_limit_locked_at := c, me_limit_unlocked_at := d\<rparr>) = Inr f"
  proof -
    have keep: "e\<lparr>me_limit_locked := a, me_limit_lock_evidence_as_of := b\<rparr> =
        e\<lparr>me_limit_locked := a, me_limit_lock_evidence_as_of := b,
          me_limit_locked_at := me_limit_locked_at e, me_limit_unlocked_at := me_limit_unlocked_at e\<rparr>"
      "e\<lparr>me_limit_locked := a, me_limit_lock_evidence_as_of := b, me_limit_unlocked_at := d\<rparr> =
        e\<lparr>me_limit_locked := a, me_limit_lock_evidence_as_of := b,
          me_limit_locked_at := me_limit_locked_at e, me_limit_unlocked_at := d\<rparr>"
      "e\<lparr>me_limit_lock_evidence_as_of := b\<rparr> =
        e\<lparr>me_limit_locked := me_limit_locked e, me_limit_lock_evidence_as_of := b,
          me_limit_locked_at := me_limit_locked_at e, me_limit_unlocked_at := me_limit_unlocked_at e\<rparr>"
      for a b d by simp_all
    show ?thesis
      using assms False
      by (simp add: apply_lock_observation_def Let_def x
          split: option.splits lock_evidence_status.splits if_splits sum.splits) (metis keep)+
  qed
  then show ?thesis using x by auto
qed

lemma apply_lock_wf:
  assumes "apply_lock_observation m e ob = (Inr (f, t), n)" and "episode_wf e" and "touched_wf e"
  shows "episode_wf f \<and> episode_extends e f \<and> me_status f = me_status e \<and> touched_wf f"
proof (cases "f = e")
  case False
  obtain a b c d where f: "f = e\<lparr>me_limit_locked := a, me_limit_lock_evidence_as_of := b,
      me_limit_locked_at := c, me_limit_unlocked_at := d\<rparr>"
    and ok: "episode_post_init f = Inr ()" "me_limit_touched_at e \<noteq> None"
    using apply_lock_episode [OF assms(1)] False by blast
  have "me_status f = me_status e" "me_current_stage f = me_current_stage e"
      "me_limit_touched_at f = me_limit_touched_at e"
    by (simp_all add: f)
  then show ?thesis using assms(2,3) ok
    by (simp add: episode_wf_def episode_extends_def touched_wf_def f)
qed (use assms in simp)

lemma apply_lock_history:
  assumes "apply_lock_observation m e ob = (Inr (f, t), n)"
  shows "me_created_at f = me_created_at e \<and> me_last_evaluated_at f = me_last_evaluated_at e
     \<and> me_evidence_updates f = me_evidence_updates e \<and> me_transitions f = me_transitions e
     \<and> me_status f = me_status e \<and> me_session_date f = me_session_date e"
proof -
  obtain a b c d where f: "f = e\<lparr>me_limit_locked := a, me_limit_lock_evidence_as_of := b,
      me_limit_locked_at := c, me_limit_unlocked_at := d\<rparr>"
    using apply_lock_episode [OF assms] by blast
  show ?thesis unfolding f by simp
qed

section \<open>Slots\<close>

text \<open>Everything the machine keeps about one symbol, and its consistency.\<close>

definition same_slot :: "string \<Rightarrow> momentum_machine \<Rightarrow> momentum_machine \<Rightarrow> bool" where
  "same_slot sy m n \<longleftrightarrow>
     mm_active n sy = mm_active m sy \<and> mm_latest n sy = mm_latest m sy
     \<and> mm_watch_stage n sy = mm_watch_stage m sy
     \<and> mm_cooldown_until n sy = mm_cooldown_until m sy
     \<and> mm_sequence n sy = mm_sequence m sy \<and> mm_last_as_of n sy = mm_last_as_of m sy
     \<and> mm_last_input_digest n sy = mm_last_input_digest m sy
     \<and> mm_invalidation_count n sy = mm_invalidation_count m sy
     \<and> mm_lock_candidate_started_at n sy = mm_lock_candidate_started_at m sy"

definition same_setup :: "momentum_machine \<Rightarrow> momentum_machine \<Rightarrow> bool" where
  "same_setup m n \<longleftrightarrow> mm_session_date n = mm_session_date m \<and> mm_config n = mm_config m
     \<and> mm_lock_policy n = mm_lock_policy m"

definition episode_of :: "string \<Rightarrow> momentum_machine \<Rightarrow> momentum_episode \<Rightarrow> bool" where
  "episode_of sy m e \<longleftrightarrow> episode_wf e \<and> touched_wf e \<and> me_symbol e = sy
     \<and> me_session_date e = mm_session_date m"

definition slot_wf :: "string \<Rightarrow> momentum_machine \<Rightarrow> bool" where
  "slot_wf sy m \<longleftrightarrow>
     (\<forall>e. mm_latest m sy = Some e \<longrightarrow> episode_of sy m e)
     \<and> (case mm_active m sy of
          None \<Rightarrow> \<forall>e. mm_latest m sy = Some e \<longrightarrow> me_status e \<noteq> ES_ACTIVE
        | Some e \<Rightarrow> mm_latest m sy = Some e \<and> me_status e = ES_ACTIVE
            \<and> mm_watch_stage m sy = Some (me_current_stage e))"

definition machine_wf :: "momentum_machine \<Rightarrow> bool" where
  "machine_wf m \<longleftrightarrow> (\<forall>sy. slot_wf sy m)"

lemma slot_wf_active:
  assumes "slot_wf sy m" and "mm_active m sy = Some e"
  shows "episode_wf e" and "touched_wf e" and "me_symbol e = sy"
    and "me_session_date e = mm_session_date m" and "me_status e = ES_ACTIVE"
    and "mm_latest m sy = Some e" and "mm_watch_stage m sy = Some (me_current_stage e)"
  using assms by (simp_all add: slot_wf_def episode_of_def)

lemma slot_wf_same: "slot_wf sy m \<Longrightarrow> same_slot sy m n \<Longrightarrow> same_setup m n \<Longrightarrow> slot_wf sy n"
  by (cases "mm_active m sy") (simp_all add: slot_wf_def episode_of_def same_slot_def same_setup_def)

lemma slot_wf_keep:
  "slot_wf sy m \<Longrightarrow> same_setup m n \<Longrightarrow> mm_active n sy = mm_active m sy
    \<Longrightarrow> mm_latest n sy = mm_latest m sy \<Longrightarrow> mm_watch_stage n sy = mm_watch_stage m sy
    \<Longrightarrow> slot_wf sy n"
  by (cases "mm_active m sy") (simp_all add: slot_wf_def episode_of_def same_setup_def)

lemma same_slot_trans: "same_slot sy m n \<Longrightarrow> same_slot sy n k \<Longrightarrow> same_slot sy m k"
  by (simp add: same_slot_def)

lemma same_slot_refl [simp]: "same_slot sy m m"
  by (simp add: same_slot_def)

lemma same_setup_refl [simp]: "same_setup m m"
  by (simp add: same_setup_def)

lemma same_setup_trans: "same_setup m n \<Longrightarrow> same_setup n k \<Longrightarrow> same_setup m k"
  by (simp add: same_setup_def)

lemma new_machine_wf: "machine_wf (new_machine day config policy)"
  by (simp add: machine_wf_def slot_wf_def new_machine_def)

text \<open>What one evaluation may do to the slot of its symbol, at the time \<open>t\<close>.\<close>

definition next_sequence :: "momentum_machine \<Rightarrow> string \<Rightarrow> int" where
  "next_sequence m sy = (case mm_sequence m sy of None \<Rightarrow> 0 | Some n \<Rightarrow> n) + 1"

definition cooling :: "momentum_machine \<Rightarrow> string \<Rightarrow> datetime \<Rightarrow> bool" where
  "cooling m sy t \<longleftrightarrow>
     (case mm_cooldown_until m sy of None \<Rightarrow> False | Some c \<Rightarrow> instant t < instant c)"

definition cooldown_after ::
  "state_machine_config \<Rightarrow> datetime \<Rightarrow> episode_status \<Rightarrow> datetime option" where
  "cooldown_after c t status =
     (if status = ES_INVALIDATED then Some (dt_plus t (smc_cooldown c)) else None)"

definition slot_step :: "string \<Rightarrow> datetime \<Rightarrow> momentum_machine \<Rightarrow> momentum_machine \<Rightarrow> bool" where
  "slot_step sy t m n \<longleftrightarrow>
     (case (mm_active m sy, mm_active n sy) of
        (Some e, Some f) \<Rightarrow> episode_extends e f \<and> mm_sequence n sy = mm_sequence m sy
          \<and> mm_cooldown_until n sy = mm_cooldown_until m sy
      | (Some e, None) \<Rightarrow> mm_sequence n sy = mm_sequence m sy
          \<and> (\<exists>f. mm_latest n sy = Some f \<and> episode_extends e f
                \<and> mm_cooldown_until n sy = me_cooldown_until f
                \<and> me_cooldown_until f = cooldown_after (mm_config m) t (me_status f))
      | (None, Some f) \<Rightarrow> \<not> cooling m sy t
          \<and> me_episode_id f = fst (next_episode_id m sy)
          \<and> mm_sequence n sy = Some (next_sequence m sy)
          \<and> mm_cooldown_until n sy = mm_cooldown_until m sy
      | (None, None) \<Rightarrow> mm_latest n sy = mm_latest m sy
          \<and> mm_cooldown_until n sy = mm_cooldown_until m sy
          \<and> mm_sequence n sy \<in> {mm_sequence m sy, Some (next_sequence m sy)})"

text \<open>A step that changes only the bookkeeping of a slot.\<close>

lemma slot_step_idle:
  assumes "mm_active n sy = mm_active m sy" and "mm_latest n sy = mm_latest m sy"
    and "mm_cooldown_until n sy = mm_cooldown_until m sy"
    and "mm_sequence n sy = mm_sequence m sy"
  shows "slot_step sy t m n"
  using assms by (auto simp: slot_step_def split: option.split)

text \<open>The effect of an evaluation: its slot stays consistent and moves by \<open>slot_step\<close>.\<close>

definition slot_effect :: "string \<Rightarrow> datetime \<Rightarrow> momentum_machine \<Rightarrow> momentum_machine \<Rightarrow> bool" where
  "slot_effect sy t m n \<longleftrightarrow>
     same_setup m n \<and> slot_wf sy n \<and> slot_step sy t m n
     \<and> (\<forall>other. other \<noteq> sy \<longrightarrow> same_slot other m n)"

lemma slot_effect_idle:
  assumes "slot_wf sy m" and "same_setup m n"
    and "mm_active n sy = mm_active m sy" and "mm_latest n sy = mm_latest m sy"
    and "mm_cooldown_until n sy = mm_cooldown_until m sy"
    and "mm_sequence n sy = mm_sequence m sy"
    and "\<forall>e. mm_active m sy = Some e \<longrightarrow> mm_watch_stage n sy = mm_watch_stage m sy"
    and "\<forall>other. other \<noteq> sy \<longrightarrow> same_slot other m n"
  shows "slot_effect sy t m n"
proof -
  have "slot_wf sy n" using assms(1,2,7)
    by (cases "mm_active m sy")
      (simp_all add: slot_wf_def episode_of_def same_setup_def assms(3,4))
  then show ?thesis using assms slot_step_idle [OF assms(3-6)] by (simp add: slot_effect_def)
qed

lemma slot_effect_after:
  assumes "slot_effect sy t m n" and "mm_active m sy = mm_active k sy"
    and "mm_latest m sy = mm_latest k sy" and "mm_cooldown_until m sy = mm_cooldown_until k sy"
    and "mm_sequence m sy = mm_sequence k sy" and "same_setup k m"
    and "\<forall>other. other \<noteq> sy \<longrightarrow> same_slot other k m"
  shows "slot_effect sy t k n"
proof -
  have "slot_step sy t k n"
    using assms(1-6)
    by (auto simp: slot_effect_def slot_step_def cooling_def next_sequence_def same_setup_def
        next_episode_id_def Let_def split: option.splits)
  then show ?thesis using assms(1,6,7)
    by (auto simp: slot_effect_def intro: same_setup_trans same_slot_trans)
qed

section \<open>Each branch of the evaluation\<close>

lemma close_episode_effect:
  assumes "close_episode sha m e s g status reason previous = (r, n)"
    and "slot_wf (fs_symbol s) m" and "mm_active m (fs_symbol s) = Some e0"
    and "episode_extends e0 e" and "episode_wf e" and "touched_wf e"
  shows "slot_effect (fs_symbol s) (fs_as_of s) m n"
proof (cases "append_evidence sha e g")
  case (Inl x)
  then show ?thesis using assms(1,2) slot_effect_idle by (auto simp: close_episode_def)
next
  case (Inr e1)
  let ?cooldown = "cooldown_after (mm_config m) (fs_as_of s) status"
  note slot = slot_wf_active [OF assms(2,3)]
  note w1 = append_evidence_wf [OF Inr assms(5)]
  show ?thesis
  proof (cases "episode_close e1 status (fs_as_of s) reason ?cooldown")
    case (Inl x)
    then show ?thesis using assms(1,2) Inr slot_effect_idle
      by (auto simp: close_episode_def Let_def simp flip: cooldown_after_def)
  next
    case (Inr f)
    have f: "episode_wf f \<and> episode_extends e1 f \<and> me_status f = status \<and> status \<noteq> ES_ACTIVE
        \<and> me_cooldown_until f = ?cooldown"
      using episode_close_wf [OF Inr] w1 by simp
    have t: "touched_wf f"
      using Inr w1 assms(6) by (auto simp: episode_close_def touched_wf_def res_simps split: if_splits)
    have x: "episode_extends e0 f"
      using assms(4) w1 f by (blast intro: episode_extends_trans)
    then have id: "me_symbol f = fs_symbol s" "me_session_date f = mm_session_date m"
      using slot by (simp_all add: episode_extends_def)
    from assms(1) \<open>append_evidence sha e g = Inr e1\<close> Inr show ?thesis
      using f t x id assms(3)
      by (auto simp: close_episode_def Let_def slot_effect_def same_setup_def same_slot_def
          slot_wf_def episode_of_def slot_step_def simp flip: cooldown_after_def)
  qed
qed

lemma progress_episode_effect:
  assumes "progress_episode sha m e0 s g previous ob reasons = (r, n)"
    and "slot_wf (fs_symbol s) m" and "mm_active m (fs_symbol s) = Some a"
    and "episode_extends a e0" and "episode_wf e0" and "touched_wf e0" and "me_status e0 = ES_ACTIVE"
  shows "slot_effect (fs_symbol s) (fs_as_of s) m n"
proof (cases "advance_for_market sha (mm_config m) e0 s g")
  case (Inl x)
  then show ?thesis using assms(1,2) slot_effect_idle by (auto simp: progress_episode_def)
next
  case (Inr e1)
  note w1 = advance_for_market_wf [OF Inr assms(5,6)]
  note a = slot_wf_active [OF assms(2,3)]
  have x1: "episode_extends a e1" using assms(4) w1 by (blast intro: episode_extends_trans)
  then have sy: "me_symbol e1 = fs_symbol s" using a by (simp add: episode_extends_def)
  obtain q m1 where lock: "apply_lock_observation m e1 ob = (q, m1)" by force
  note frame = apply_lock_frame [OF lock, unfolded sy]
  let ?k = "mm_lock_candidate_started_at m1"
  have m1: "m1 = m\<lparr>mm_lock_candidate_started_at := ?k\<rparr>"
    and other: "\<And>z. z \<noteq> fs_symbol s \<Longrightarrow> ?k z = mm_lock_candidate_started_at m z"
    using frame by blast+
  have keep: "same_setup m m1" "\<forall>z. z \<noteq> fs_symbol s \<longrightarrow> same_slot z m m1"
      "mm_active m1 = mm_active m" "mm_latest m1 = mm_latest m"
      "mm_cooldown_until m1 = mm_cooldown_until m" "mm_sequence m1 = mm_sequence m"
      "mm_watch_stage m1 = mm_watch_stage m" "mm_config m1 = mm_config m"
    using other by (subst m1, simp add: same_setup_def same_slot_def)+
  have wf1: "slot_wf (fs_symbol s) m1"
    using assms(2) keep by (cases "mm_active m (fs_symbol s)")
      (simp_all add: slot_wf_def episode_of_def same_setup_def)
  show ?thesis
  proof (cases q)
    case (Inl x)
    then have "n = m1" using assms(1) Inr lock by (simp add: progress_episode_def)
    then show ?thesis using slot_effect_idle [OF assms(2) keep(1)] keep by simp
  next
    case q: (Inr p)
    obtain e t where p: "p = (e, t)" by force
    note w = apply_lock_wf [OF lock [unfolded q p], of]
    have e: "episode_wf e" "episode_extends a e" "me_status e = ES_ACTIVE" "touched_wf e"
      using w w1 x1 assms(7) by (auto intro: episode_extends_trans)
    have id: "me_symbol e = fs_symbol s" "me_session_date e = mm_session_date m"
      using e(2) a by (simp_all add: episode_extends_def)
    show ?thesis
    proof (cases "smc_episode_ttl (mm_config m) \<le> instant (fs_as_of s)
        - instant (case me_last_progress_at e of None \<Rightarrow> me_created_at e | Some t \<Rightarrow> t)")
      case True
      then have c: "close_episode sha m1 e s g ES_EXPIRED ''episode_progress_ttl_elapsed'' previous
          = (r, n)"
        using assms(1) Inr lock q p by (simp add: progress_episode_def Let_def)
      have "slot_effect (fs_symbol s) (fs_as_of s) m1 n"
        using close_episode_effect [OF c wf1 _ e(2,1,4)] keep assms(3) by simp
      then show ?thesis by (rule slot_effect_after) (simp_all add: keep)
    next
      case False
      then have n: "n = m1\<lparr>mm_active := (mm_active m1)(fs_symbol s \<mapsto> e),
                    mm_latest := (mm_latest m1)(fs_symbol s \<mapsto> e),
                    mm_watch_stage := (mm_watch_stage m1)(fs_symbol s \<mapsto> me_current_stage e)\<rparr>"
        using assms(1) Inr lock q p by (simp add: progress_episode_def Let_def)
      show ?thesis using e id keep assms(3) unfolding n
        by (simp add: slot_effect_def same_setup_def same_slot_def slot_wf_def episode_of_def
            slot_step_def)
    qed
  qed
qed

lemma evaluate_active_effect:
  assumes "evaluate_active sha m e s g previous ob = (r, n)"
    and "slot_wf (fs_symbol s) m" and "mm_active m (fs_symbol s) = Some e"
  shows "slot_effect (fs_symbol s) (fs_as_of s) m n"
proof (cases "data_healthy s g")
  case False
  then have "close_episode sha m e s g ES_DATA_BLOCKED ''data_health_not_healthy'' previous = (r, n)"
    using assms(1) by (simp add: evaluate_active_def)
  from close_episode_effect [OF this assms(2,3) episode_extends_refl]
  show ?thesis using slot_wf_active [OF assms(2,3)] by simp
next
  case healthy: True
  note a = slot_wf_active [OF assms(2,3)]
  have idle: "n = m \<Longrightarrow> ?thesis" using assms(2) slot_effect_idle [OF assms(2), of m] by simp
  show ?thesis
  proof (cases "decimal_value (fs_price s)")
    case None
    then show ?thesis using assms(1) healthy idle by (simp add: evaluate_active_def)
  next
    case (Some price)
    show ?thesis
    proof (cases "with_market_observation e (fs_as_of s) price")
      case (Inl x)
      then show ?thesis using assms(1) healthy Some idle by (simp add: evaluate_active_def)
    next
      case e1: (Inr e1)
      note w1 = with_market_observation_wf [OF e1 a(1)]
      have t1: "touched_wf e1"
        using e1 a(2) by (auto simp: with_market_observation_def touched_wf_def Let_def split: if_splits)
      show ?thesis
      proof (cases "append_evidence sha e1 g")
        case (Inl x)
        then show ?thesis using assms(1) healthy Some e1 idle by (simp add: evaluate_active_def)
      next
        case e2: (Inr e2)
        note w2 = append_evidence_wf [OF e2, OF conjunct1 [OF w1]]
        have e: "episode_extends e e2" "episode_wf e2" "touched_wf e2" "me_status e2 = ES_ACTIVE"
          using w1 w2 t1 by (auto simp: touched_wf_def intro: episode_extends_trans)
        let ?reasons = "invalidation_reasons e2 s"
        let ?count = "if ?reasons = [] then 0
            else (case mm_invalidation_count m (fs_symbol s) of None \<Rightarrow> 0 | Some n \<Rightarrow> n) + 1"
        let ?m1 = "m\<lparr>mm_invalidation_count := (mm_invalidation_count m)(fs_symbol s \<mapsto> ?count)\<rparr>"
        have keep: "same_setup m ?m1" "\<forall>z. z \<noteq> fs_symbol s \<longrightarrow> same_slot z m ?m1"
          by (simp_all add: same_setup_def same_slot_def)
        have wf1: "slot_wf (fs_symbol s) ?m1"
          using assms(2,3) by (simp add: slot_wf_def episode_of_def)
        have act: "mm_active ?m1 (fs_symbol s) = Some e" using assms(3) by simp
        have "(if ?reasons \<noteq> [] \<and> smc_invalidation_confirmation (mm_config m) \<le> ?count
            then close_episode sha ?m1 e2 s g ES_INVALIDATED (join_plus ?reasons) previous
            else progress_episode sha ?m1 e2 s g previous ob ?reasons) = (r, n)"
          using assms(1) healthy Some e1 e2 by (simp only: evaluate_active_def Let_def) simp
        then have "slot_effect (fs_symbol s) (fs_as_of s) ?m1 n"
          using close_episode_effect [OF _ wf1 act e(1,2,3)]
            progress_episode_effect [OF _ wf1 act e(1,2,3,4)] by (simp split: if_splits)
        then show ?thesis by (rule slot_effect_after) (use keep in simp_all)
      qed
    qed
  qed
qed

text \<open>Without an open episode: a slot that stays without one, whatever was numbered.\<close>

lemma slot_effect_no_episode:
  assumes "slot_wf sy m" and "mm_active m sy = None"
    and "same_setup m n" and "\<forall>z. z \<noteq> sy \<longrightarrow> same_slot z m n"
    and "mm_active n sy = None" and "mm_latest n sy = mm_latest m sy"
    and "mm_cooldown_until n sy = mm_cooldown_until m sy"
    and "mm_sequence n sy = mm_sequence m sy \<or> mm_sequence n sy = Some (next_sequence m sy)"
  shows "slot_effect sy t m n"
proof -
  have "slot_wf sy n" using assms(1-3,5,6) by (simp add: slot_wf_def episode_of_def same_setup_def)
  then show ?thesis using assms by (simp add: slot_effect_def slot_step_def)
qed

lemma next_episode_id_machine:
  "snd (next_episode_id m sy) = m\<lparr>mm_sequence := (mm_sequence m)(sy \<mapsto> next_sequence m sy)\<rparr>"
  by (simp add: next_episode_id_def next_sequence_def Let_def)

lemma fresh_episode_wf:
  assumes "fresh_episode sha m s g eid high price = Inr e"
  shows "episode_wf e \<and> touched_wf e \<and> me_status e = ES_ACTIVE \<and> me_symbol e = fs_symbol s
     \<and> me_session_date e = mm_session_date m \<and> me_episode_id e = eid \<and> BREAKOUT \<le> me_current_stage e"
proof -
  obtain e0 e1 e2 where e0: "episode_post_init e0 = Inr ()" "me_status e0 = ES_ACTIVE"
      "me_symbol e0 = fs_symbol s" "me_session_date e0 = mm_session_date m" "me_episode_id e0 = eid"
      "me_transitions e0 = []" "me_evidence_updates e0 = []" "me_current_stage e0 = STRONG"
      "me_highest_stage e0 = STRONG" "me_limit_touched_at e0 = None" "me_limit_locked e0 = None"
    and e1: "append_evidence sha e0 g = Inr e1" and e2: "advance sha e1 BREAKOUT g = Inr e2"
    and e: "advance_for_market sha (mm_config m) e2 s g = Inr e"
    using assms unfolding fresh_episode_def by (auto simp: res_simps first_episode_def)
  have w0: "episode_wf e0" "touched_wf e0"
    using e0 by (simp_all add: episode_wf_def touched_wf_def)
  note w1 = append_evidence_wf [OF e1 w0(1)]
  have t1: "touched_wf e1" using w1 w0(2) by (auto simp: touched_wf_def)
  note w2 = advance_wf [OF e2 conjunct1 [OF w1]] and t2 = advance_touched [OF e2 conjunct1 [OF w1] t1]
  have t2: "touched_wf e2" using t2 by simp
  note w = advance_for_market_wf [OF e conjunct1 [OF w2] t2]
  have "BREAKOUT \<le> me_current_stage e" using w w2 by (auto simp: episode_extends_def)
  then show ?thesis using w w2 w1 e0 by (simp add: episode_extends_def)
qed

lemma open_episode_effect:
  assumes "open_episode sha m s g previous ob high price = (r, n)"
    and "slot_wf (fs_symbol s) m" and "mm_active m (fs_symbol s) = None"
    and "\<not> cooling m (fs_symbol s) (fs_as_of s)"
  shows "slot_effect (fs_symbol s) (fs_as_of s) m n"
proof -
  let ?sy = "fs_symbol s"
  let ?m1 = "m\<lparr>mm_sequence := (mm_sequence m)(?sy \<mapsto> next_sequence m ?sy)\<rparr>"
  obtain eid where id: "next_episode_id m ?sy = (eid, ?m1)"
    using next_episode_id_machine [of m ?sy] by (metis prod.collapse)
  note start = assms(1) [unfolded open_episode_def Let_def, unfolded id prod.case]
  show ?thesis
  proof (cases "fresh_episode sha m s g eid high price")
    case (Inl x)
    then have "n = ?m1" using start by simp
    then show ?thesis using assms(3) by (intro slot_effect_no_episode [OF assms(2,3)])
      (simp_all add: same_setup_def same_slot_def)
  next
    case (Inr e3)
    note w3 = fresh_episode_wf [OF Inr]
    obtain q m2 where lock: "apply_lock_observation ?m1 e3 ob = (q, m2)" by force
    have sy: "me_symbol e3 = ?sy" using w3 by simp
    let ?k = "mm_lock_candidate_started_at m2"
    have m2: "m2 = ?m1\<lparr>mm_lock_candidate_started_at := ?k\<rparr>"
      and other: "\<And>z. z \<noteq> ?sy \<Longrightarrow> ?k z = mm_lock_candidate_started_at m z"
      using apply_lock_frame [OF lock, unfolded sy] by simp_all
    have keep: "same_setup m m2" "\<forall>z. z \<noteq> ?sy \<longrightarrow> same_slot z m m2"
        "mm_active m2 = mm_active m" "mm_latest m2 = mm_latest m"
        "mm_cooldown_until m2 = mm_cooldown_until m"
        "mm_sequence m2 ?sy = Some (next_sequence m ?sy)"
      using other by (subst m2, simp add: same_setup_def same_slot_def)+
    show ?thesis
    proof (cases q)
      case (Inl x)
      then have "n = m2" using start Inr lock by simp
      then show ?thesis using assms(3) keep by (intro slot_effect_no_episode [OF assms(2,3)]) simp_all
    next
      case q: (Inr p)
      obtain e t where p: "p = (e, t)" by force
      have e: "episode_wf e" "me_status e = ES_ACTIVE" "touched_wf e" "episode_extends e3 e"
        using apply_lock_wf [OF lock [unfolded q p]] w3 by simp_all
      then have f: "me_symbol e = ?sy" "me_session_date e = mm_session_date m"
          "me_episode_id e = eid"
        using w3 by (simp_all add: episode_extends_def)
      have n: "n = m2\<lparr>mm_active := (mm_active m2)(?sy \<mapsto> e), mm_latest := (mm_latest m2)(?sy \<mapsto> e),
            mm_watch_stage := (mm_watch_stage m2)(?sy \<mapsto> me_current_stage e),
            mm_invalidation_count := (mm_invalidation_count m2)(?sy \<mapsto> 0)\<rparr>"
        using start Inr lock q p by simp
      show ?thesis using e f keep assms(3,4) unfolding n
        by (simp add: slot_effect_def same_setup_def same_slot_def slot_wf_def episode_of_def
            slot_step_def id)
    qed
  qed
qed

lemma cooldown_reasons_Nil: "cooldown_reasons m sy t = [] \<longleftrightarrow> \<not> cooling m sy t"
  by (simp add: cooldown_reasons_def cooling_def split: option.split)

lemma evaluate_without_active_effect:
  assumes "evaluate_without_active sha m0 s g previous ob = (r, n)"
    and "slot_wf (fs_symbol s) m0" and "mm_active m0 (fs_symbol s) = None"
  shows "slot_effect (fs_symbol s) (fs_as_of s) m0 n"
proof -
  let ?sy = "fs_symbol s"
  define m where "m = m0\<lparr>mm_watch_stage := (mm_watch_stage m0)(?sy \<mapsto>
      if data_healthy s g \<and> is_true (fs_price_above_vwap s) then STRONG else WATCH)\<rparr>"
  have keep: "same_setup m0 m" "\<forall>z. z \<noteq> ?sy \<longrightarrow> same_slot z m0 m" "slot_wf ?sy m"
      "mm_active m = mm_active m0" "mm_latest m = mm_latest m0"
      "mm_cooldown_until m = mm_cooldown_until m0" "mm_sequence m = mm_sequence m0"
    using assms(2,3)
    by (simp_all add: m_def same_setup_def same_slot_def slot_wf_def episode_of_def)
  have "n = m \<or> (\<exists>high price. open_episode sha m s g previous ob high price = (r, n)
      \<and> \<not> cooling m ?sy (fs_as_of s))"
    using assms(1) [unfolded evaluate_without_active_def Let_def, folded m_def,
        unfolded cooldown_reasons_Nil]
    by (auto split: if_splits option.splits)
  then show ?thesis
  proof
    assume "n = m"
    then show ?thesis
      using assms(3) by (intro slot_effect_no_episode [OF assms(2,3)]) (simp_all add: keep)
  next
    assume "\<exists>high price. open_episode sha m s g previous ob high price = (r, n)
      \<and> \<not> cooling m ?sy (fs_as_of s)"
    then have "slot_effect ?sy (fs_as_of s) m n"
      using open_episode_effect [OF _ keep(3)] assms(3) keep by auto
    then show ?thesis by (rule slot_effect_after) (simp_all add: keep)
  qed
qed

text \<open>Every evaluation, accepted or not.\<close>

lemma momentum_evaluate_effect:
  assumes "momentum_evaluate sha m s g ob = (r, n)" and "machine_wf m"
  shows "slot_effect (fs_symbol s) (fs_as_of s) m n"
proof -
  let ?sy = "fs_symbol s"
  have wf: "slot_wf ?sy m" using assms(2) by (simp add: machine_wf_def)
  have idle: "n = m \<Longrightarrow> ?thesis" using slot_effect_idle [OF wf, of m] by simp
  define m1 where "m1 = m\<lparr>mm_last_as_of := (mm_last_as_of m)(?sy \<mapsto> fs_as_of s),
      mm_last_input_digest := (mm_last_input_digest m)(?sy \<mapsto> input_digest sha s g ob)\<rparr>"
  have keep: "same_setup m m1" "\<forall>z. z \<noteq> ?sy \<longrightarrow> same_slot z m m1"
      "mm_active m1 = mm_active m" "mm_latest m1 = mm_latest m"
      "mm_cooldown_until m1 = mm_cooldown_until m" "mm_sequence m1 = mm_sequence m"
    by (simp_all add: m1_def same_setup_def same_slot_def)
  have wf1: "slot_wf ?sy m1"
    by (rule slot_wf_keep [OF wf keep(1)]) (simp_all add: m1_def)
  have "n = m \<or> (case mm_active m ?sy of
      None \<Rightarrow> evaluate_without_active sha m1 s g (public_stage m ?sy) ob = (r, n)
    | Some e \<Rightarrow> evaluate_active sha m1 e s g (public_stage m ?sy) ob = (r, n))"
    using assms(1)
    by (auto simp: momentum_evaluate_def Let_def simp flip: m1_def
        split: if_splits option.splits sum.splits)
  then consider "n = m"
    | "mm_active m ?sy = None" "evaluate_without_active sha m1 s g (public_stage m ?sy) ob = (r, n)"
    | e where "mm_active m ?sy = Some e"
        "evaluate_active sha m1 e s g (public_stage m ?sy) ob = (r, n)"
    by (auto split: option.splits)
  then show ?thesis
  proof cases
    case 1
    then show ?thesis by (rule idle)
  next
    case 2
    then have "slot_effect ?sy (fs_as_of s) m1 n"
      using evaluate_without_active_effect [OF _ wf1] keep by simp
    then show ?thesis by (rule slot_effect_after) (simp_all add: keep)
  next
    case 3
    then have "slot_effect ?sy (fs_as_of s) m1 n"
      using evaluate_active_effect [OF _ wf1] keep by simp
    then show ?thesis by (rule slot_effect_after) (simp_all add: keep)
  qed
qed

section \<open>Runs\<close>

type_synonym evaluation = "feature_snapshot \<times> signal_result \<times> lock_observation option"

definition evaluate_next :: "(json \<Rightarrow> string) \<Rightarrow> momentum_machine \<Rightarrow> evaluation \<Rightarrow> momentum_machine" where
  "evaluate_next sha m x = (case x of (s, g, ob) \<Rightarrow> snd (momentum_evaluate sha m s g ob))"

text \<open>The machine after a history of evaluations, refused ones included.\<close>

definition run_machine ::
  "(json \<Rightarrow> string) \<Rightarrow> momentum_machine \<Rightarrow> evaluation list \<Rightarrow> momentum_machine" where
  "run_machine sha = foldl (evaluate_next sha)"

lemma run_machine_simps [simp]:
  "run_machine sha m [] = m" "run_machine sha m (x # xs) = run_machine sha (evaluate_next sha m x) xs"
  "run_machine sha m (xs @ ys) = run_machine sha (run_machine sha m xs) ys"
  by (simp_all add: run_machine_def)

lemma evaluate_next_effect:
  assumes "machine_wf m"
  shows "slot_effect (fs_symbol (fst x)) (fs_as_of (fst x)) m (evaluate_next sha m x)"
proof -
  obtain s g ob where x: "x = (s, g, ob)" by (cases x)
  obtain r n where n: "momentum_evaluate sha m s g ob = (r, n)" by force
  show ?thesis using momentum_evaluate_effect [OF n assms] by (simp add: x n evaluate_next_def)
qed

lemma slot_effect_machine_wf: "machine_wf m \<Longrightarrow> slot_effect sy t m n \<Longrightarrow> machine_wf n"
  unfolding machine_wf_def slot_effect_def using slot_wf_same by metis

lemma run_machine_wf:
  "machine_wf m \<Longrightarrow> machine_wf (run_machine sha m xs) \<and> same_setup m (run_machine sha m xs)"
proof (induction xs arbitrary: m)
  case (Cons x xs)
  have e: "slot_effect (fs_symbol (fst x)) (fs_as_of (fst x)) m (evaluate_next sha m x)"
    by (rule evaluate_next_effect [OF Cons.prems])
  have "same_setup m (evaluate_next sha m x)" using e by (simp add: slot_effect_def)
  with Cons.IH [OF slot_effect_machine_wf [OF Cons.prems e]] show ?case
    by (auto intro: same_setup_trans)
qed simp

lemma run_machine_new: "machine_wf (run_machine sha (new_machine day c p) xs)"
  using run_machine_wf [OF new_machine_wf] by blast

lemma slot_step_active:
  assumes "slot_step sy t m n" and "mm_active m sy = Some e" and "slot_wf sy n"
  shows "\<exists>f. mm_latest n sy = Some f \<and> episode_extends e f
     \<and> (me_status f = ES_ACTIVE \<longleftrightarrow> mm_active n sy = Some f)"
proof (cases "mm_active n sy")
  case None
  then show ?thesis using assms by (auto simp: slot_step_def slot_wf_def)
next
  case (Some f)
  have "mm_latest n sy = Some f" "me_status f = ES_ACTIVE"
    using slot_wf_active [OF assms(3) Some] by simp_all
  then show ?thesis using assms Some by (auto simp: slot_step_def)
qed

lemma other_slot_active:
  assumes "same_slot sy m n" and "mm_active m sy = Some e" and "slot_wf sy n"
  shows "\<exists>f. mm_latest n sy = Some f \<and> episode_extends e f
     \<and> (me_status f = ES_ACTIVE \<longleftrightarrow> mm_active n sy = Some f)"
proof -
  have "mm_active n sy = Some e" using assms(1,2) by (simp add: same_slot_def)
  with slot_wf_active [OF assms(3) this] show ?thesis by auto
qed

lemma cooling_step:
  assumes "slot_step sy t m n" and "mm_active m sy = None" and "cooling m sy t"
  shows "mm_active n sy = None \<and> mm_latest n sy = mm_latest m sy
     \<and> mm_cooldown_until n sy = mm_cooldown_until m sy"
  using assms by (auto simp: slot_step_def split: option.splits)

lemma cooling_run:
  assumes "machine_wf m" and "mm_active m sy = None" and "mm_cooldown_until m sy = Some c"
    and "\<forall>x \<in> set xs. fs_symbol (fst x) = sy \<longrightarrow> instant (fs_as_of (fst x)) < instant c"
  shows "mm_active (run_machine sha m xs) sy = None
     \<and> mm_latest (run_machine sha m xs) sy = mm_latest m sy"
  using assms
proof (induction xs arbitrary: m)
  case (Cons x xs)
  let ?n = "evaluate_next sha m x"
  have e: "slot_effect (fs_symbol (fst x)) (fs_as_of (fst x)) m ?n"
    by (rule evaluate_next_effect [OF Cons.prems(1)])
  have n: "mm_active ?n sy = None \<and> mm_latest ?n sy = mm_latest m sy
      \<and> mm_cooldown_until ?n sy = mm_cooldown_until m sy"
  proof (cases "fs_symbol (fst x) = sy")
    case True
    then have "cooling m sy (fs_as_of (fst x))"
      using Cons.prems(3,4) by (simp add: cooling_def)
    then show ?thesis using cooling_step [of sy "fs_as_of (fst x)" m ?n] e True Cons.prems(2)
      by (simp add: slot_effect_def)
  next
    case False
    then show ?thesis using e Cons.prems(2) by (simp add: slot_effect_def same_slot_def)
  qed
  show ?case using Cons.IH [OF slot_effect_machine_wf [OF Cons.prems(1) e]] n Cons.prems(3,4) by simp
qed simp

text \<open>The identities of the episodes opened for a symbol along a run.\<close>

fun opened_ids ::
  "(json \<Rightarrow> string) \<Rightarrow> string \<Rightarrow> momentum_machine \<Rightarrow> evaluation list \<Rightarrow> string list" where
  "opened_ids sha sy m [] = []"
| "opened_ids sha sy m (x # xs) =
     (let n = evaluate_next sha m x
      in (case (mm_active m sy, mm_active n sy) of
            (None, Some e) \<Rightarrow> [me_episode_id e]
          | _ \<Rightarrow> []) @ opened_ids sha sy n xs)"

definition numbered_id :: "momentum_machine \<Rightarrow> string \<Rightarrow> int \<Rightarrow> string" where
  "numbered_id m sy k =
     sy @ ''-'' @ date_compact (mm_session_date m) @ ''-'' @ show_padded 3 k"

lemma numbered_id_inj: "0 \<le> j \<Longrightarrow> 0 \<le> k \<Longrightarrow> numbered_id m sy j = numbered_id m sy k \<Longrightarrow> j = k"
  by (auto simp: numbered_id_def dest: show_padded_inj)

lemma opened_ids_numbered:
  assumes "machine_wf m" and "0 < next_sequence m sy"
  shows "distinct (opened_ids sha sy m xs)
     \<and> (\<forall>i \<in> set (opened_ids sha sy m xs). \<exists>k. next_sequence m sy \<le> k \<and> i = numbered_id m sy k)"
  using assms
proof (induction xs arbitrary: m)
  case (Cons x xs)
  let ?n = "evaluate_next sha m x"
  have e: "slot_effect (fs_symbol (fst x)) (fs_as_of (fst x)) m ?n"
    by (rule evaluate_next_effect [OF Cons.prems(1)])
  have day: "numbered_id ?n sy = numbered_id m sy"
    using e by (auto simp: slot_effect_def same_setup_def numbered_id_def fun_eq_iff)
  have step: "next_sequence m sy \<le> next_sequence ?n sy"
    and opened: "\<And>f. mm_active m sy = None \<Longrightarrow> mm_active ?n sy = Some f \<Longrightarrow>
        me_episode_id f = numbered_id m sy (next_sequence m sy)
        \<and> next_sequence ?n sy = next_sequence m sy + 1"
    using e
    by (cases "fs_symbol (fst x) = sy";
        auto simp: slot_effect_def slot_step_def same_slot_def next_sequence_def next_episode_id_def
          numbered_id_def Let_def split: option.splits)+
  have IH: "distinct (opened_ids sha sy ?n xs)"
      "\<And>i. i \<in> set (opened_ids sha sy ?n xs) \<Longrightarrow>
        \<exists>k. next_sequence ?n sy \<le> k \<and> i = numbered_id m sy k"
    using Cons.IH [OF slot_effect_machine_wf [OF Cons.prems(1) e]] step Cons.prems(2)
    by (simp_all add: day)
  have later: "\<exists>k. next_sequence m sy \<le> k \<and> i = numbered_id m sy k"
    if "i \<in> set (opened_ids sha sy ?n xs)" for i
    using IH(2) [OF that] step order_trans by blast
  show ?case
  proof (cases "mm_active m sy = None \<and> mm_active ?n sy \<noteq> None")
    case True
    then obtain f where f: "mm_active m sy = None" "mm_active ?n sy = Some f" by auto
    note o = opened [OF f]
    have "me_episode_id f \<notin> set (opened_ids sha sy ?n xs)"
    proof
      assume "me_episode_id f \<in> set (opened_ids sha sy ?n xs)"
      then obtain k where "next_sequence ?n sy \<le> k" "me_episode_id f = numbered_id m sy k"
        using IH(2) by blast
      with o Cons.prems(2) numbered_id_inj [of "next_sequence m sy" k m sy] show False by simp
    qed
    then show ?thesis using f o IH(1) later by auto
  next
    case False
    then have "opened_ids sha sy m (x # xs) = opened_ids sha sy ?n xs"
      by (auto simp: Let_def split: option.split)
    then show ?thesis using IH(1) later by simp
  qed
qed simp

section \<open>Duplicates\<close>

definition same_inputs :: "momentum_machine \<Rightarrow> momentum_machine \<Rightarrow> bool" where
  "same_inputs m n \<longleftrightarrow> mm_last_as_of n = mm_last_as_of m
     \<and> mm_last_input_digest n = mm_last_input_digest m \<and> mm_session_date n = mm_session_date m"

lemma same_inputs_refl [simp]: "same_inputs m m"
  by (simp add: same_inputs_def)

lemma same_inputs_trans: "same_inputs m n \<Longrightarrow> same_inputs n k \<Longrightarrow> same_inputs m k"
  by (simp add: same_inputs_def)

lemma apply_lock_inputs: "apply_lock_observation m e ob = (r, n) \<Longrightarrow> same_inputs m n"
  by (drule apply_lock_frame, elim conjE, drule arg_cong [where f = "same_inputs m"])
    (simp add: same_inputs_def)

lemma close_episode_inputs:
  "close_episode sha m e s g status reason previous = (r, n) \<Longrightarrow> same_inputs m n"
  by (auto simp: close_episode_def same_inputs_def Let_def split: sum.splits)

lemma progress_episode_inputs:
  assumes "progress_episode sha m e0 s g previous ob reasons = (r, n)"
  shows "same_inputs m n"
proof (cases "advance_for_market sha (mm_config m) e0 s g")
  case (Inl x)
  then show ?thesis using assms by (simp add: progress_episode_def)
next
  case (Inr e1)
  obtain q m1 where lock: "apply_lock_observation m e1 ob = (q, m1)" by force
  have m1: "same_inputs m m1" by (rule apply_lock_inputs [OF lock])
  have "same_inputs m1 n"
    using assms Inr lock
    by (auto simp: progress_episode_def Let_def same_inputs_def dest!: close_episode_inputs
        split: sum.splits if_splits)
  with m1 show ?thesis by (rule same_inputs_trans)
qed

lemma evaluate_active_inputs:
  assumes "evaluate_active sha m e s g previous ob = (r, n)"
  shows "same_inputs m n"
  using assms unfolding evaluate_active_def Let_def
  by (auto simp: same_inputs_def dest!: close_episode_inputs progress_episode_inputs
      split: sum.splits if_splits option.splits)

lemma open_episode_inputs:
  assumes "open_episode sha m s g previous ob high price = (r, n)"
  shows "same_inputs m n"
proof -
  obtain eid m1 where id: "next_episode_id m (fs_symbol s) = (eid, m1)" by force
  have m1: "same_inputs m m1"
    using id next_episode_id_machine [of m "fs_symbol s"] by (simp add: same_inputs_def)
  have "same_inputs m1 n"
    using assms id
    by (auto simp: open_episode_def Let_def same_inputs_def dest!: apply_lock_inputs
        split: sum.splits prod.splits)
  with m1 show ?thesis by (rule same_inputs_trans)
qed

lemma evaluate_without_active_inputs:
  assumes "evaluate_without_active sha m s g previous ob = (r, n)"
  shows "same_inputs m n"
  using assms unfolding evaluate_without_active_def Let_def
  by (auto simp: same_inputs_def dest!: open_episode_inputs split: if_splits option.splits)

text \<open>An evaluation that passes the checks is recorded, whatever becomes of it.\<close>

lemma momentum_evaluate_inputs:
  assumes "momentum_evaluate sha m s g ob = (r, n)" and "validate_input m s g ob = Inr ()"
    and "mm_last_input_digest m (fs_symbol s) \<noteq> Some (input_digest sha s g ob)"
    and "\<forall>t. mm_last_as_of m (fs_symbol s) = Some t \<longrightarrow> instant t \<le> instant (fs_as_of s)"
  shows "mm_last_input_digest n (fs_symbol s) = Some (input_digest sha s g ob)
     \<and> mm_last_as_of n (fs_symbol s) = Some (fs_as_of s)
     \<and> mm_session_date n = mm_session_date m"
proof -
  let ?m1 = "m\<lparr>mm_last_as_of := (mm_last_as_of m)(fs_symbol s \<mapsto> fs_as_of s),
      mm_last_input_digest := (mm_last_input_digest m)(fs_symbol s \<mapsto> input_digest sha s g ob)\<rparr>"
  have "\<not> (case mm_last_as_of m (fs_symbol s) of None \<Rightarrow> False
      | Some t \<Rightarrow> instant (fs_as_of s) < instant t)"
    using assms(4) by (auto split: option.splits)
  then have "(case mm_active m (fs_symbol s) of
        None \<Rightarrow> evaluate_without_active sha ?m1 s g (public_stage m (fs_symbol s)) ob
      | Some e \<Rightarrow> evaluate_active sha ?m1 e s g (public_stage m (fs_symbol s)) ob) = (r, n)"
    using assms(1-3) by (simp add: momentum_evaluate_def Let_def)
  then have "same_inputs ?m1 n"
    by (auto dest: evaluate_without_active_inputs evaluate_active_inputs split: option.splits)
  then show ?thesis by (simp add: same_inputs_def)
qed

section \<open>Lock evidence\<close>

lemma apply_lock_locked:
  assumes "apply_lock_observation m e ob = (Inr (f, Some LT_LOCKED), n)"
  shows "\<exists>x d t0. ob = Some x \<and> lo_status x = LOCK_CONDITION
     \<and> lp_confirmation_duration (mm_lock_policy m) = Some d
     \<and> mm_lock_candidate_started_at n (me_symbol e) = Some t0
     \<and> d \<le> instant (lo_observed_at x) - instant t0
     \<and> me_limit_locked e \<noteq> Some True \<and> me_limit_touched_at e \<noteq> None
     \<and> me_limit_locked f = Some True \<and> me_limit_locked_at f = Some (lo_observed_at x)"
  using assms
  by (auto simp: apply_lock_observation_def Let_def
      split: option.splits lock_evidence_status.splits if_splits sum.splits)

lemma make_update_Inr [simp]:
  "make_update u = Inr v \<longleftrightarrow> v = u \<and> state_update_post_init u = Inr ()"
  by (cases "state_update_post_init u") (auto simp: make_update_def)

lemma close_episode_not_locked:
  "close_episode sha m e s g status reason previous = (Inr u, n) \<Longrightarrow> su_limit_lock_transition u = None"
  by (auto simp: close_episode_def Let_def split: sum.splits)

text \<open>A LOCKED transition reported for a symbol, at the end of an evaluation.\<close>

definition locked_by ::
  "momentum_machine \<Rightarrow> string \<Rightarrow> lock_observation option \<Rightarrow> state_update \<Rightarrow> momentum_machine \<Rightarrow> bool" where
  "locked_by m sy ob u n \<longleftrightarrow>
     (\<exists>x d t0 f. ob = Some x \<and> lo_status x = LOCK_CONDITION
        \<and> lp_confirmation_duration (mm_lock_policy m) = Some d
        \<and> mm_lock_candidate_started_at n sy = Some t0
        \<and> d \<le> instant (lo_observed_at x) - instant t0
        \<and> su_episode u = Some f \<and> mm_active n sy = Some f
        \<and> me_limit_touched_at f \<noteq> None \<and> me_limit_locked f = Some True
        \<and> me_limit_locked_at f = Some (lo_observed_at x)
        \<and> su_lock_evidence_id u = Some (lo_evidence_id x))"

lemma progress_episode_locked:
  assumes "progress_episode sha m e0 s g previous ob reasons = (Inr u, n)"
    and "su_limit_lock_transition u = Some LT_LOCKED" and "episode_wf e0" and "touched_wf e0"
    and "me_symbol e0 = fs_symbol s"
  shows "locked_by m (fs_symbol s) ob u n"
proof -
  obtain e1 where e1: "advance_for_market sha (mm_config m) e0 s g = Inr e1"
    using assms(1) by (cases "advance_for_market sha (mm_config m) e0 s g")
      (auto simp: progress_episode_def)
  have w: "episode_wf e1" "touched_wf e1" "me_symbol e1 = fs_symbol s"
    using advance_for_market_wf [OF e1 assms(3,4)] assms(5) by (simp_all add: episode_extends_def)
  obtain e t m1 where lock: "apply_lock_observation m e1 ob = (Inr (e, t), m1)"
    using assms(1) e1 by (cases "apply_lock_observation m e1 ob")
      (auto simp: progress_episode_def split: sum.splits)
  have t: "t = Some LT_LOCKED"
    and n: "mm_lock_candidate_started_at n = mm_lock_candidate_started_at m1"
      "su_episode u = Some e" "mm_active n (fs_symbol s) = Some e"
      "su_lock_evidence_id u = map_option lo_evidence_id ob"
    using assms(1,2) e1 lock
    by (auto simp: progress_episode_def Let_def dest: close_episode_not_locked split: if_splits)
  have touched: "me_limit_touched_at e \<noteq> None"
    using apply_lock_wf [OF lock w(1,2)] apply_lock_locked [OF lock [unfolded t]]
    by (auto simp: touched_wf_def)
  show ?thesis
    using apply_lock_locked [OF lock [unfolded t]] n w touched by (auto simp: locked_by_def)
qed

lemma open_episode_locked:
  assumes "open_episode sha m s g previous ob high price = (Inr u, n)"
    and "su_limit_lock_transition u = Some LT_LOCKED"
  shows "locked_by m (fs_symbol s) ob u n"
proof -
  obtain eid m1 where id: "next_episode_id m (fs_symbol s) = (eid, m1)" by force
  have m1: "mm_lock_policy m1 = mm_lock_policy m"
    using id next_episode_id_machine [of m "fs_symbol s"] by simp
  obtain e1 where e1: "fresh_episode sha m s g eid high price = Inr e1"
    using assms(1) id by (cases "fresh_episode sha m s g eid high price")
      (auto simp: open_episode_def Let_def)
  note w = fresh_episode_wf [OF e1]
  obtain e t m2 where lock: "apply_lock_observation m1 e1 ob = (Inr (e, t), m2)"
    using assms(1) id e1 by (cases "apply_lock_observation m1 e1 ob")
      (auto simp: open_episode_def Let_def split: sum.splits)
  have t: "t = Some LT_LOCKED"
    and n: "mm_lock_candidate_started_at n = mm_lock_candidate_started_at m2"
      "su_episode u = Some e" "mm_active n (fs_symbol s) = Some e"
      "su_lock_evidence_id u = map_option lo_evidence_id ob"
    using assms id e1 lock by (auto simp: open_episode_def Let_def)
  have touched: "me_limit_touched_at e \<noteq> None"
    using apply_lock_wf [OF lock] w apply_lock_locked [OF lock [unfolded t]]
    by (auto simp: touched_wf_def)
  show ?thesis
    using apply_lock_locked [OF lock [unfolded t]] n w touched m1 by (auto simp: locked_by_def)
qed

lemma evaluate_active_locked:
  assumes "evaluate_active sha m e s g previous ob = (Inr u, n)"
    and "su_limit_lock_transition u = Some LT_LOCKED"
    and "slot_wf (fs_symbol s) m" and "mm_active m (fs_symbol s) = Some e"
  shows "locked_by m (fs_symbol s) ob u n"
proof -
  note a = slot_wf_active [OF assms(3,4)]
  have healthy: "data_healthy s g"
    using assms(1,2) by (auto simp: evaluate_active_def dest: close_episode_not_locked split: if_splits)
  obtain price e1 e2 where price: "decimal_value (fs_price s) = Some price"
    and e1: "with_market_observation e (fs_as_of s) price = Inr e1"
    and e2: "append_evidence sha e1 g = Inr e2"
    using assms(1) healthy by (auto simp: evaluate_active_def split: option.splits sum.splits)
  note w1 = with_market_observation_wf [OF e1 a(1)]
  have t1: "touched_wf e1"
    using e1 a(2) by (auto simp: with_market_observation_def touched_wf_def Let_def split: if_splits)
  note w2 = append_evidence_wf [OF e2, OF conjunct1 [OF w1]]
  have e: "episode_wf e2" "touched_wf e2" "me_symbol e2 = fs_symbol s"
    using w1 w2 t1 a by (auto simp: touched_wf_def episode_extends_def)
  obtain count where
    "progress_episode sha (m\<lparr>mm_invalidation_count := count\<rparr>) e2 s g previous ob
       (invalidation_reasons e2 s) = (Inr u, n)"
    using assms(1,2) healthy price e1 e2
    by (auto simp: evaluate_active_def Let_def dest: close_episode_not_locked split: if_splits)
  from progress_episode_locked [OF this assms(2) e] show ?thesis by (simp add: locked_by_def)
qed

lemma momentum_evaluate_locked:
  assumes "momentum_evaluate sha m s g ob = (Inr u, n)"
    and "su_limit_lock_transition u = Some LT_LOCKED" and "machine_wf m"
  shows "locked_by m (fs_symbol s) ob u n"
proof -
  let ?m1 = "m\<lparr>mm_last_as_of := (mm_last_as_of m)(fs_symbol s \<mapsto> fs_as_of s),
      mm_last_input_digest := (mm_last_input_digest m)(fs_symbol s \<mapsto> input_digest sha s g ob)\<rparr>"
  have wf: "slot_wf (fs_symbol s) ?m1"
    using assms(3) slot_wf_keep [of "fs_symbol s" m ?m1] by (simp add: machine_wf_def same_setup_def)
  have "(case mm_active m (fs_symbol s) of
        None \<Rightarrow> evaluate_without_active sha ?m1 s g (public_stage m (fs_symbol s)) ob
      | Some e \<Rightarrow> evaluate_active sha ?m1 e s g (public_stage m (fs_symbol s)) ob) = (Inr u, n)"
    using assms(1,2) by (auto simp: momentum_evaluate_def Let_def split: sum.splits if_splits)
  then have "locked_by ?m1 (fs_symbol s) ob u n"
  proof (cases "mm_active m (fs_symbol s)")
    case None
    assume "(case mm_active m (fs_symbol s) of
        None \<Rightarrow> evaluate_without_active sha ?m1 s g (public_stage m (fs_symbol s)) ob
      | Some e \<Rightarrow> evaluate_active sha ?m1 e s g (public_stage m (fs_symbol s)) ob) = (Inr u, n)"
    then obtain w high price where
      "open_episode sha (?m1\<lparr>mm_watch_stage := w\<rparr>) s g (public_stage m (fs_symbol s)) ob high price
         = (Inr u, n)"
      using None assms(2) by (auto simp: evaluate_without_active_def Let_def split: if_splits option.splits)
    from open_episode_locked [OF this assms(2)] show ?thesis by (simp add: locked_by_def)
  next
    case (Some e)
    assume "(case mm_active m (fs_symbol s) of
        None \<Rightarrow> evaluate_without_active sha ?m1 s g (public_stage m (fs_symbol s)) ob
      | Some e \<Rightarrow> evaluate_active sha ?m1 e s g (public_stage m (fs_symbol s)) ob) = (Inr u, n)"
    with Some have "evaluate_active sha ?m1 e s g (public_stage m (fs_symbol s)) ob = (Inr u, n)"
      by simp
    from evaluate_active_locked [OF this assms(2) wf] Some show ?thesis by simp
  qed
  then show ?thesis by (simp add: locked_by_def)
qed

end
