(* ===== verification/Momentum_Runs.thy ===== *)
theory Momentum_Runs
  imports Momentum
begin

text \<open>
  Runs of the momentum state machine: the times its episodes record, when an evaluation cannot
  fail, and the properties of whole histories.
\<close>

section \<open>Times\<close>

text \<open>Nothing an episode has recorded is later than \<open>T\<close>.\<close>

definition episode_by :: "int \<Rightarrow> momentum_episode \<Rightarrow> bool" where
  "episode_by T e \<longleftrightarrow> instant (me_created_at e) \<le> T
     \<and> (\<forall>t. me_last_evaluated_at e = Some t \<longrightarrow> instant t \<le> T)
     \<and> (me_evidence_updates e \<noteq> [] \<longrightarrow> instant (eu_occurred_at (last (me_evidence_updates e))) \<le> T)
     \<and> (me_transitions e \<noteq> [] \<longrightarrow> instant (str_occurred_at (last (me_transitions e))) \<le> T)"

lemma episode_by_later: "episode_by T e \<Longrightarrow> T \<le> U \<Longrightarrow> episode_by U e"
  by (auto simp: episode_by_def)

lemma append_evidence_by:
  assumes "append_evidence sha e g = Inr f" and "episode_by T e" and "instant (sr_as_of g) = T"
  shows "episode_by T f"
  using assms
  by (auto simp: append_evidence_def with_evidence_update_def episode_by_def Let_def res_simps
      split: if_splits)

lemma advance_by:
  assumes "advance sha e target g = Inr f" and "episode_by T e" and "instant (sr_as_of g) = T"
  shows "episode_by T f"
  using assms
  by (auto simp: advance_def with_transition_def episode_by_def Let_def res_simps split: if_splits)

lemma advance_for_market_by:
  assumes "advance_for_market sha c e s g = Inr f" and "episode_by T e" and "instant (sr_as_of g) = T"
  shows "episode_by T f"
proof -
  have step: "advance sha h target g = Inr k \<Longrightarrow> episode_by T h \<Longrightarrow> episode_by T k" for h target k
    using advance_by assms(3) by blast
  have mark: "episode_by T (h\<lparr>me_limit_touched_at := x\<rparr>) = episode_by T h" for h x
    by (simp add: episode_by_def)
  show ?thesis
  proof (cases "valid_decimal (fs_distance_to_limit s)")
    case None
    then show ?thesis using assms(1,2) step by (simp add: advance_for_market_def split: if_splits)
  next
    case (Some d)
    show ?thesis
    proof (cases "d \<le> 0")
      case True
      with assms(1) Some obtain e1 where e1: "advance sha e LIMIT_TOUCHED g = Inr e1"
        "(if me_limit_touched_at e1 = None
          then checked_episode (e1\<lparr>me_limit_touched_at := Some (fs_as_of s)\<rparr>) else Inr e1) = Inr f"
        by (auto simp: advance_for_market_def res_simps)
      show ?thesis using step [OF e1(1) assms(2)] e1(2) mark by (auto split: if_splits)
    next
      case False
      then obtain e1 where e1:
        "(if sr_momentum_acceleration_confirmed g then advance sha e ACCELERATING g else Inr e) = Inr e1"
        "(if STAGE_ORDER ACCELERATING \<le> STAGE_ORDER (me_current_stage e1)
            \<and> d \<le> smc_near_limit_distance c then advance sha e1 NEAR_LIMIT_UP g else Inr e1) = Inr f"
        using assms(1) Some by (auto simp only: advance_for_market_def option.case if_False res_simps)
      have "episode_by T e1" using e1(1) assms(2) step by (auto split: if_splits)
      then show ?thesis using e1(2) step by (auto split: if_splits)
    qed
  qed
qed

lemma with_market_observation_by:
  assumes "with_market_observation e t price = Inr f" and "episode_by T e" and "instant t = T"
  shows "episode_by T f"
  using assms by (auto simp: with_market_observation_def episode_by_def Let_def split: if_splits)

lemma apply_lock_by:
  "apply_lock_observation m e ob = (Inr (f, t), n) \<Longrightarrow> episode_by T e \<Longrightarrow> episode_by T f"
  by (drule apply_lock_history) (simp add: episode_by_def)

definition timed :: "momentum_machine \<Rightarrow> bool" where
  "timed m \<longleftrightarrow> (\<forall>sy e. mm_active m sy = Some e \<longrightarrow>
     (\<exists>t. mm_last_as_of m sy = Some t \<and> episode_by (instant t) e))"

text \<open>An evaluation at \<open>T\<close> leaves an episode without later times.\<close>

definition ends_by :: "int \<Rightarrow> string \<Rightarrow> momentum_machine \<Rightarrow> bool" where
  "ends_by T sy n \<longleftrightarrow> (\<forall>e. mm_active n sy = Some e \<longrightarrow> episode_by T e)"

lemma close_episode_ends:
  assumes "close_episode sha m e s g status reason previous = (r, n)" and "ends_by T (fs_symbol s) m"
  shows "ends_by T (fs_symbol s) n"
  using assms by (auto simp: close_episode_def ends_by_def Let_def split: sum.splits)

lemma apply_lock_active: "apply_lock_observation m e ob = (r, n) \<Longrightarrow> mm_active n = mm_active m"
  by (drule apply_lock_frame, elim conjE, drule arg_cong [where f = mm_active]) simp

lemma progress_episode_ends:
  assumes "progress_episode sha m e0 s g previous ob reasons = (r, n)"
    and "ends_by T (fs_symbol s) m" and "episode_by T e0" and "instant (sr_as_of g) = T"
  shows "ends_by T (fs_symbol s) n"
proof (cases "advance_for_market sha (mm_config m) e0 s g")
  case (Inl x)
  then show ?thesis using assms(1,2) by (simp add: progress_episode_def)
next
  case (Inr e1)
  obtain q m1 where lock: "apply_lock_observation m e1 ob = (q, m1)" by force
  have m1: "ends_by T (fs_symbol s) m1"
    using assms(2) apply_lock_active [OF lock] by (simp add: ends_by_def)
  show ?thesis
  proof (cases q)
    case (Inl x)
    then show ?thesis using assms(1) Inr lock m1 by (simp add: progress_episode_def)
  next
    case q: (Inr p)
    obtain e t where p: "p = (e, t)" by force
    have "episode_by T e"
      using apply_lock_by [OF lock [unfolded q p]] advance_for_market_by [OF Inr assms(3,4)] by simp
    then show ?thesis using assms(1) Inr lock q p m1
      by (auto simp: progress_episode_def Let_def ends_by_def split: if_splits
          dest!: close_episode_ends [where T = T])
  qed
qed

lemma evaluate_active_ends:
  assumes "evaluate_active sha m e s g previous ob = (r, n)"
    and "mm_active m (fs_symbol s) = Some e" and "episode_by T e"
    and "instant (sr_as_of g) = T" and "instant (fs_as_of s) = T"
  shows "ends_by T (fs_symbol s) n"
proof -
  have m: "ends_by T (fs_symbol s) m" using assms(2,3) by (simp add: ends_by_def)
  then have count: "ends_by T (fs_symbol s) (m\<lparr>mm_invalidation_count := c\<rparr>)" for c
    by (simp add: ends_by_def)
  show ?thesis
    using assms(1) m count
    by (auto simp: evaluate_active_def Let_def split: if_splits option.splits sum.splits
        dest: close_episode_ends [OF _ m] close_episode_ends [OF _ count]
          progress_episode_ends [OF _ count _ assms(4)]
          append_evidence_by [OF _ with_market_observation_by [OF _ assms(3,5)] assms(4)])
qed

lemma fresh_episode_by:
  assumes "fresh_episode sha m s g eid high price = Inr e"
    and "instant (sr_as_of g) = T" and "instant (fs_as_of s) = T"
  shows "episode_by T e"
proof -
  let ?e0 = "first_episode m s g eid high price"
  obtain e1 e2 where e1: "append_evidence sha ?e0 g = Inr e1"
    and e2: "advance sha e1 BREAKOUT g = Inr e2"
    and e: "advance_for_market sha (mm_config m) e2 s g = Inr e"
    using assms(1) unfolding fresh_episode_def by (auto simp: res_simps)
  have "episode_by T ?e0" using assms(3) by (simp add: episode_by_def first_episode_def)
  from advance_for_market_by [OF e advance_by [OF e2 append_evidence_by [OF e1 this]]] assms(2)
  show ?thesis by simp
qed

lemma open_episode_ends:
  assumes "open_episode sha m s g previous ob high price = (r, n)"
    and "mm_active m (fs_symbol s) = None"
    and "instant (sr_as_of g) = T" and "instant (fs_as_of s) = T"
  shows "ends_by T (fs_symbol s) n"
proof -
  obtain eid m1 where id: "next_episode_id m (fs_symbol s) = (eid, m1)" by force
  have m1: "mm_active m1 = mm_active m"
    using id next_episode_id_machine [of m "fs_symbol s"] by simp
  show ?thesis
  proof (cases "fresh_episode sha m s g eid high price")
    case (Inl x)
    then show ?thesis using assms(1,2) id m1 by (simp add: open_episode_def ends_by_def)
  next
    case (Inr e1)
    obtain q m2 where lock: "apply_lock_observation m1 e1 ob = (q, m2)" by force
    have m2: "mm_active m2 = mm_active m" using apply_lock_active [OF lock] m1 by simp
    have by_T: "episode_by T e" if "q = Inr (e, t)" for e t
      using apply_lock_by [OF lock [unfolded that] fresh_episode_by [OF Inr assms(3,4)]] .
    show ?thesis
      using assms(1,2) id m2 Inr lock by_T
      by (auto simp: open_episode_def Let_def ends_by_def split: sum.splits prod.splits)
  qed
qed

lemma evaluate_without_active_ends:
  assumes "evaluate_without_active sha m s g previous ob = (r, n)"
    and "mm_active m (fs_symbol s) = None"
    and "instant (sr_as_of g) = T" and "instant (fs_as_of s) = T"
  shows "ends_by T (fs_symbol s) n"
  using assms(1,2) unfolding evaluate_without_active_def Let_def
  by (auto simp: ends_by_def split: if_splits option.splits
      dest!: open_episode_ends [OF _ _ assms(3,4)])

lemma evaluate_next_timed:
  assumes "machine_wf m" and "timed m"
  shows "timed (evaluate_next sha m x)"
proof -
  obtain s g ob where x: "x = (s, g, ob)" by (cases x)
  obtain r n where ev: "momentum_evaluate sha m s g ob = (r, n)" by force
  let ?sy = "fs_symbol s"
  let ?m1 = "m\<lparr>mm_last_as_of := (mm_last_as_of m)(?sy \<mapsto> fs_as_of s),
      mm_last_input_digest := (mm_last_input_digest m)(?sy \<mapsto> input_digest sha s g ob)\<rparr>"
  have other: "same_slot z m n" if "z \<noteq> ?sy" for z
    using momentum_evaluate_effect [OF ev assms(1)] that by (simp add: slot_effect_def)
  have "n = m \<or> mm_last_as_of n ?sy = Some (fs_as_of s) \<and> ends_by (instant (fs_as_of s)) ?sy n"
  proof (cases "validate_input m s g ob = Inr ()
      \<and> mm_last_input_digest m ?sy \<noteq> Some (input_digest sha s g ob)
      \<and> (\<forall>t. mm_last_as_of m ?sy = Some t \<longrightarrow> instant t \<le> instant (fs_as_of s))")
    case False
    then have "n = m"
      using ev by (auto simp: momentum_evaluate_def Let_def split: sum.splits if_splits option.splits)
    then show ?thesis ..
  next
    case True
    then have T: "instant (sr_as_of g) = instant (fs_as_of s)"
      by (simp add: validate_input_Inr)
    have "\<not> (case mm_last_as_of m ?sy of None \<Rightarrow> False
        | Some t \<Rightarrow> instant (fs_as_of s) < instant t)"
      using True by (auto split: option.splits)
    then have step: "(case mm_active m ?sy of
          None \<Rightarrow> evaluate_without_active sha ?m1 s g (public_stage m ?sy) ob
        | Some e \<Rightarrow> evaluate_active sha ?m1 e s g (public_stage m ?sy) ob) = (r, n)"
      using ev True by (simp add: momentum_evaluate_def Let_def)
    have "ends_by (instant (fs_as_of s)) ?sy n"
    proof (cases "mm_active m ?sy")
      case None
      then show ?thesis using step T evaluate_without_active_ends [of sha ?m1] by simp
    next
      case (Some e)
      then obtain t where "mm_last_as_of m ?sy = Some t" "episode_by (instant t) e"
        using assms(2) by (auto simp: timed_def)
      then have "episode_by (instant (fs_as_of s)) e"
        using True by (blast intro: episode_by_later)
      then show ?thesis using step Some T evaluate_active_ends [of sha ?m1 e s g _ ob r n] by simp
    qed
    then show ?thesis using momentum_evaluate_inputs [OF ev] True by blast
  qed
  then have "timed n"
  proof
    assume n: "mm_last_as_of n ?sy = Some (fs_as_of s) \<and> ends_by (instant (fs_as_of s)) ?sy n"
    show ?thesis unfolding timed_def
    proof (intro allI impI)
      fix z e assume e: "mm_active n z = Some e"
      show "\<exists>t. mm_last_as_of n z = Some t \<and> episode_by (instant t) e"
      proof (cases "z = ?sy")
        case True
        then show ?thesis using n e by (simp add: ends_by_def)
      next
        case False
        then show ?thesis using other [OF False] e assms(2) by (simp add: same_slot_def timed_def)
      qed
    qed
  qed (use assms(2) in simp)
  then show ?thesis by (simp add: x ev evaluate_next_def)
qed

lemma run_machine_timed: "machine_wf m \<Longrightarrow> timed m \<Longrightarrow> timed (run_machine sha m xs)"
proof (induction xs arbitrary: m)
  case (Cons x xs)
  have "machine_wf (evaluate_next sha m x)"
    by (rule slot_effect_machine_wf [OF Cons.prems(1) evaluate_next_effect [OF Cons.prems(1)]])
  from Cons.IH [OF this evaluate_next_timed [OF Cons.prems]] show ?case by simp
qed simp

lemma new_machine_timed: "timed (new_machine day c p)"
  by (simp add: timed_def new_machine_def)

section \<open>Operations that cannot fail\<close>

text \<open>An open episode of the session, evaluated at \<open>t\<close>.\<close>

definition live :: "datetime \<Rightarrow> momentum_episode \<Rightarrow> bool" where
  "live t e \<longleftrightarrow> episode_wf e \<and> me_status e = ES_ACTIVE \<and> dt_aware t
     \<and> dt_date t = me_session_date e \<and> episode_by (instant t) e"

text \<open>What the signal engine guarantees of its result, and the digest.\<close>

definition usable_signal :: "(json \<Rightarrow> string) \<Rightarrow> datetime \<Rightarrow> signal_result \<Rightarrow> bool" where
  "usable_signal sha t g \<longleftrightarrow> sr_as_of g = t \<and> \<not> blank (sr_config_version g)
     \<and> \<not> blank (signal_digest sha g)"

definition steps_to :: "datetime \<Rightarrow> momentum_episode \<Rightarrow> momentum_episode res \<Rightarrow> bool" where
  "steps_to t e r \<longleftrightarrow> (\<exists>f. r = Inr f \<and> live t f \<and> episode_extends e f
     \<and> me_limit_locked_at f = me_limit_locked_at e)"

lemma steps_toI:
  assumes "r = Inr f" and "live t f" and "episode_extends e f"
    and "me_limit_locked_at f = me_limit_locked_at e"
  shows "steps_to t e r"
  using assms by (auto simp: steps_to_def)

lemma episode_wf_valid: "episode_wf e \<Longrightarrow> episode_post_init e = Inr ()"
  by (simp add: episode_wf_def)

lemma append_evidence_live:
  assumes "live t e" and "usable_signal sha t g"
  shows "steps_to t e (append_evidence sha e g)"
proof (cases "me_evidence_updates e \<noteq> []
    \<and> eu_evidence_snapshot_id (last (me_evidence_updates e)) = signal_digest sha g")
  case True
  then show ?thesis using assms(1) by (simp add: append_evidence_def steps_to_def)
next
  case False
  note l = assms [unfolded live_def usable_signal_def episode_by_def]
  have valid: "episode_post_init e = Inr ()" using l by (simp add: episode_wf_def)
  let ?u = "\<lparr>eu_occurred_at = sr_as_of g, eu_signal_family = sr_signal_family g,
      eu_config_version = sr_config_version g, eu_evidence_snapshot_id = signal_digest sha g,
      eu_momentum_acceleration_confirmed = sr_momentum_acceleration_confirmed g\<rparr>"
  let ?f = "e\<lparr>me_current_signal_family := sr_signal_family g,
      me_current_config_version := sr_config_version g,
      me_evidence_updates := me_evidence_updates e @ [?u],
      me_last_evaluated_at := Some (sr_as_of g)\<rparr>"
  have post: "episode_post_init ?f = Inr ()"
    using l valid by (simp add: episode_post_init_def res_simps not_less)
  have "append_evidence sha e g = Inr ?f \<and> me_limit_locked_at ?f = me_limit_locked_at e"
    unfolding append_evidence_def if_not_P [OF False] Let_def using l post
    by (auto simp: with_evidence_update_def evidence_update_post_init_def checked_episode_def)
  then obtain f where f: "append_evidence sha e g = Inr f"
    "me_limit_locked_at f = me_limit_locked_at e" by blast
  have w: "episode_wf f \<and> episode_extends e f \<and> me_status f = ES_ACTIVE"
    using append_evidence_wf [OF f(1)] l by auto
  have "episode_by (instant t) f"
    using append_evidence_by [OF f(1)] assms by (simp add: live_def usable_signal_def)
  with w f(2) l show ?thesis
    by (intro steps_toI [OF f(1)]) (auto simp: live_def episode_extends_def)
qed

lemma advance_live:
  assumes "live t e" and "usable_signal sha t g"
  shows "steps_to t e (advance sha e target g)"
proof (cases "STAGE_ORDER target \<le> STAGE_ORDER (me_current_stage e)")
  case True
  then show ?thesis using assms(1) by (simp add: advance_def steps_to_def)
next
  case False
  note l = assms [unfolded live_def usable_signal_def episode_by_def]
  have valid: "episode_post_init e = Inr ()" using l by (simp add: episode_wf_def)
  have "\<exists>f. advance sha e target g = Inr f \<and> me_limit_locked_at f = me_limit_locked_at e"
    using False l valid
    by (auto simp: advance_def with_transition_def stage_transition_post_init_def Let_def
        episode_post_init_def res_simps max_def less_eq_momentum_stage_def)
  then obtain f where f: "advance sha e target g = Inr f"
    "me_limit_locked_at f = me_limit_locked_at e" by blast
  have w: "episode_wf f \<and> episode_extends e f \<and> me_status f = ES_ACTIVE"
    using advance_wf [OF f(1)] l by simp
  have "episode_by (instant t) f"
    using advance_by [OF f(1)] assms by (simp add: live_def usable_signal_def)
  with w f(2) l show ?thesis
    by (intro steps_toI [OF f(1)]) (auto simp: live_def episode_extends_def)
qed

lemma steps_to_bind:
  assumes "steps_to t e r" and "\<And>f. live t f \<Longrightarrow> steps_to t f (h f)"
  shows "steps_to t e (case r of Inl x \<Rightarrow> Inl x | Inr f \<Rightarrow> h f)"
  using assms unfolding steps_to_def by (auto intro: episode_extends_trans) (metis episode_extends_trans)

lemma steps_to_same: "live t e \<Longrightarrow> steps_to t e (Inr e)"
  by (simp add: steps_to_def)

lemma mark_touched_live:
  assumes "live t e" and "me_limit_touched_at e = None"
  shows "steps_to t e (checked_episode (e\<lparr>me_limit_touched_at := Some t\<rparr>))"
proof -
  have "episode_post_init (e\<lparr>me_limit_touched_at := Some t\<rparr>) = Inr ()"
    using assms by (simp add: live_def episode_wf_def episode_post_init_def res_simps)
  then show ?thesis using assms mark_touched_wf [of e t]
    by (auto simp: steps_to_def live_def episode_by_def)
qed

lemma advance_for_market_live:
  assumes "live (fs_as_of s) e" and "usable_signal sha (fs_as_of s) g"
  shows "steps_to (fs_as_of s) e (advance_for_market sha c e s g)"
proof -
  note step = advance_live [OF _ assms(2)]
  have acc: "steps_to (fs_as_of s) e
      (if sr_momentum_acceleration_confirmed g then advance sha e ACCELERATING g else Inr e)"
    using step assms(1) by (simp add: steps_to_same)
  show ?thesis
  proof (cases "valid_decimal (fs_distance_to_limit s)")
    case None
    then show ?thesis using acc by (simp add: advance_for_market_def)
  next
    case (Some d)
    have touch: "steps_to (fs_as_of s) h (if me_limit_touched_at h = None
          then checked_episode (h\<lparr>me_limit_touched_at := Some (fs_as_of s)\<rparr>) else Inr h)"
      if "live (fs_as_of s) h" for h
      using that by (simp add: mark_touched_live steps_to_same)
    have near: "steps_to (fs_as_of s) h
        (if STAGE_ORDER ACCELERATING \<le> STAGE_ORDER (me_current_stage h)
            \<and> d \<le> smc_near_limit_distance c then advance sha h NEAR_LIMIT_UP g else Inr h)"
      if "live (fs_as_of s) h" for h
      using that step by (simp add: steps_to_same)
    show ?thesis
      unfolding advance_for_market_def Some option.case
      using steps_to_bind [OF step [OF assms(1)] touch] steps_to_bind [OF acc near] by simp
  qed
qed

lemma with_market_observation_live:
  assumes "live t e" and "0 < price"
  shows "steps_to t e (with_market_observation e t price)"
proof -
  note l = assms [unfolded live_def episode_by_def]
  have valid: "episode_post_init e = Inr ()" using l by (simp add: episode_wf_def)
  have "\<exists>f. with_market_observation e t price = Inr f
      \<and> me_limit_locked_at f = me_limit_locked_at e"
    using l valid
    by (auto simp: with_market_observation_def episode_post_init_def res_simps Let_def not_less
        split: option.split)
  then obtain f where f: "with_market_observation e t price = Inr f"
    "me_limit_locked_at f = me_limit_locked_at e" by blast
  have w: "episode_wf f \<and> episode_extends e f \<and> me_status f = ES_ACTIVE"
    using with_market_observation_wf [OF f(1)] l by simp
  have "episode_by (instant t) f"
    using with_market_observation_by [OF f(1)] assms by (simp add: live_def)
  with w f(2) l show ?thesis
    by (intro steps_toI [OF f(1)]) (auto simp: live_def episode_extends_def)
qed

text \<open>Lock evidence of the session that is not older than the lock it may end.\<close>

definition usable_lock :: "int \<Rightarrow> datetime option \<Rightarrow> lock_observation option \<Rightarrow> bool" where
  "usable_lock day locked ob \<longleftrightarrow>
     (\<forall>x. ob = Some x \<longrightarrow> dt_aware (lo_observed_at x) \<and> dt_date (lo_observed_at x) = day
        \<and> (\<forall>l. locked = Some l \<longrightarrow> instant l \<le> instant (lo_observed_at x)))"

lemma lock_updates_valid:
  assumes "episode_post_init e = Inr ()" and "dt_aware x" and "dt_date x = me_session_date e"
    and "\<forall>l. me_limit_locked_at e = Some l \<longrightarrow> instant l \<le> instant x"
  shows "episode_post_init (e\<lparr>me_limit_locked := None, me_limit_lock_evidence_as_of := Some x\<rparr>)
      = Inr ()"
    and "episode_post_init (e\<lparr>me_limit_lock_evidence_as_of := Some x\<rparr>) = Inr ()"
    and "episode_post_init (e\<lparr>me_limit_locked := Some False, me_limit_lock_evidence_as_of := Some x,
      me_limit_unlocked_at :=
        (if me_limit_locked e = Some True then Some x else me_limit_unlocked_at e)\<rparr>) = Inr ()"
    and "episode_post_init (e\<lparr>me_limit_locked := Some True, me_limit_lock_evidence_as_of := Some x,
      me_limit_locked_at := Some x, me_limit_unlocked_at := None\<rparr>) = Inr ()"
  using assms by (auto simp: episode_post_init_def res_simps not_less)

lemma apply_lock_returns:
  assumes "episode_post_init e = Inr ()"
    and "usable_lock (me_session_date e) (me_limit_locked_at e) ob"
  shows "\<exists>f tr n. apply_lock_observation m e ob = (Inr (f, tr), n)"
proof (cases ob)
  case None
  then show ?thesis by (simp add: apply_lock_observation_def)
next
  case (Some x)
  show ?thesis
  proof (cases "me_limit_touched_at e")
    case None
    then show ?thesis using Some by (simp add: apply_lock_observation_def)
  next
    case (Some u)
    have x: "dt_aware (lo_observed_at x)" "dt_date (lo_observed_at x) = me_session_date e"
        "\<forall>l. me_limit_locked_at e = Some l \<longrightarrow> instant l \<le> instant (lo_observed_at x)"
      using assms(2) \<open>ob = Some x\<close> by (simp_all add: usable_lock_def)
    note ok = lock_updates_valid [OF assms(1) x]
    show ?thesis
      by (cases "lo_status x"; cases "lp_confirmation_duration (mm_lock_policy m)")
        (simp_all add: apply_lock_observation_def checked_episode_def Let_def ok Some \<open>ob = Some x\<close>)
  qed
qed

lemma apply_lock_returns_wf:
  assumes "apply_lock_observation m e ob = (Inr (f, t), n)" and "episode_wf e"
  shows "episode_wf f \<and> me_status f = me_status e \<and> me_session_date f = me_session_date e"
proof (cases "f = e")
  case False
  obtain a b c d where f: "f = e\<lparr>me_limit_locked := a, me_limit_lock_evidence_as_of := b,
      me_limit_locked_at := c, me_limit_unlocked_at := d\<rparr>" and ok: "episode_post_init f = Inr ()"
    using apply_lock_episode [OF assms(1)] False by blast
  show ?thesis using ok assms(2) by (simp add: f episode_wf_def)
qed (use assms(2) in simp)

lemma apply_lock_live:
  assumes "live t e" and "usable_lock (me_session_date e) (me_limit_locked_at e) ob"
  shows "\<exists>f tr n. apply_lock_observation m e ob = (Inr (f, tr), n) \<and> live t f"
proof -
  have l: "episode_wf e" "me_status e = ES_ACTIVE" "dt_aware t" "dt_date t = me_session_date e"
      "episode_by (instant t) e"
    using assms(1) by (simp_all add: live_def)
  have valid: "episode_post_init e = Inr ()" using l by (simp add: episode_wf_def)
  have "\<exists>f tr n. apply_lock_observation m e ob = (Inr (f, tr), n)"
    by (rule apply_lock_returns [OF valid assms(2)])
  then obtain f tr n where f: "apply_lock_observation m e ob = (Inr (f, tr), n)" by blast
  have "episode_wf f \<and> me_status f = me_status e \<and> me_session_date f = me_session_date e"
    using apply_lock_returns_wf [OF f l(1)] .
  then have "live t f" using l apply_lock_by [OF f l(5)] by (simp add: live_def)
  with f show ?thesis by blast
qed

lemma close_episode_live:
  assumes "live (fs_as_of s) e" and "usable_signal sha (fs_as_of s) g" and "status \<noteq> ES_ACTIVE"
    and "\<not> blank reason" and "\<not> blank (fs_symbol s)" and "0 \<le> smc_cooldown (mm_config m)"
    and "dt_date (dt_plus (fs_as_of s) (smc_cooldown (mm_config m))) = me_session_date e"
  shows "\<exists>u n. close_episode sha m e s g status reason previous = (Inr u, n)"
proof -
  obtain e1 where e1: "append_evidence sha e g = Inr e1" and l1: "live (fs_as_of s) e1"
    and x: "episode_extends e e1"
    using append_evidence_live [OF assms(1,2)] by (auto simp: steps_to_def)
  note l = l1 [unfolded live_def episode_by_def]
  have valid: "episode_post_init e1 = Inr ()" using l by (simp add: episode_wf_def)
  have day: "me_session_date e1 = me_session_date e" using x by (simp add: episode_extends_def)
  have falsy: "\<not> falsy_text (Some reason)"
    using assms(4) by (auto simp: falsy_text_def blank_iff)
  let ?cooldown = "if status = ES_INVALIDATED
      then Some (dt_plus (fs_as_of s) (smc_cooldown (mm_config m))) else None"
  have "\<exists>f. episode_close e1 status (fs_as_of s) reason ?cooldown = Inr f"
    using l valid assms(3,4,6,7) day falsy
    by (auto simp: episode_close_def episode_post_init_def res_simps not_less)
  then obtain f where f: "episode_close e1 status (fs_as_of s) reason ?cooldown = Inr f" by blast
  show ?thesis
    using e1 f assms(2,5) l
    by (simp add: close_episode_def Let_def make_update_def state_update_post_init_def
        usable_signal_def)
qed

lemma join_plus_not_blank: "rs \<noteq> [] \<Longrightarrow> \<forall>r \<in> set rs. \<not> blank r \<Longrightarrow> \<not> blank (join_plus rs)"
  by (induction rs rule: join_plus.induct) (auto simp: blank_append)

lemma invalidation_reasons_not_blank: "r \<in> set (invalidation_reasons e s) \<Longrightarrow> \<not> blank r"
  by (auto simp: invalidation_reasons_def blank_iff py_space_def split: option.splits if_splits)

section \<open>Evaluation returns\<close>

text \<open>
  An input as the pipeline builds it: a valid snapshot of the session with a positive price
  (and previous high), the engine's signal for it, lock evidence not older than the lock of the
  open episode; the cooldown must not reach past midnight.
\<close>

definition sound_input ::
  "(json \<Rightarrow> string) \<Rightarrow> momentum_machine \<Rightarrow> feature_snapshot \<Rightarrow> signal_result
     \<Rightarrow> lock_observation option \<Rightarrow> bool" where
  "sound_input sha m s g ob \<longleftrightarrow>
     validate_input m s g ob = Inr () \<and> \<not> blank (fs_symbol s) \<and> dt_aware (fs_as_of s)
     \<and> usable_signal sha (fs_as_of s) g
     \<and> (\<exists>price. decimal_value (fs_price s) = Some price \<and> 0 < price)
     \<and> (fv_status (fs_previous_intraday_high s) = FS_VALID \<longrightarrow>
          (\<exists>high. decimal_value (fs_previous_intraday_high s) = Some high \<and> 0 < high))
     \<and> usable_lock (mm_session_date m)
          (case mm_active m (fs_symbol s) of None \<Rightarrow> None | Some e \<Rightarrow> me_limit_locked_at e) ob
     \<and> (\<forall>t. mm_last_as_of m (fs_symbol s) = Some t \<longrightarrow> instant t \<le> instant (fs_as_of s))
     \<and> 0 \<le> smc_cooldown (mm_config m)
     \<and> dt_date (dt_plus (fs_as_of s) (smc_cooldown (mm_config m))) = mm_session_date m"

lemma progress_episode_live:
  assumes "live (fs_as_of s) e0" and "usable_signal sha (fs_as_of s) g"
    and "usable_lock (me_session_date e0) (me_limit_locked_at e0) ob" and "\<not> blank (fs_symbol s)"
    and "0 \<le> smc_cooldown (mm_config m)"
    and "dt_date (dt_plus (fs_as_of s) (smc_cooldown (mm_config m))) = me_session_date e0"
    and "touched_wf e0"
  shows "\<exists>u n. progress_episode sha m e0 s g previous ob reasons = (Inr u, n)"
proof -
  obtain e1 where e1: "advance_for_market sha (mm_config m) e0 s g = Inr e1"
    and l1: "live (fs_as_of s) e1" and x: "episode_extends e0 e1"
    and k: "me_limit_locked_at e1 = me_limit_locked_at e0"
    using advance_for_market_live [OF assms(1,2)] by (auto simp: steps_to_def)
  have day: "me_session_date e1 = me_session_date e0" using x by (simp add: episode_extends_def)
  obtain e t m1 where lock: "apply_lock_observation m e1 ob = (Inr (e, t), m1)"
    and l: "live (fs_as_of s) e"
    using apply_lock_live [OF l1, of ob m] assms(3) day k by auto
  have t1: "episode_wf e1" "touched_wf e1"
    using advance_for_market_wf [OF e1 _ assms(7)] assms(1) by (simp_all add: live_def)
  have sd: "me_session_date e = me_session_date e0"
    using apply_lock_wf [OF lock t1] day by (simp add: episode_extends_def)
  have c: "mm_config m1 = mm_config m"
    using arg_cong [OF conjunct1 [OF apply_lock_frame [OF lock]], of mm_config] by simp
  have "\<exists>u n. close_episode sha m1 e s g ES_EXPIRED ''episode_progress_ttl_elapsed'' previous
      = (Inr u, n)"
    by (rule close_episode_live [OF l assms(2) _ _ assms(4)])
      (use assms(5,6) c sd in \<open>simp_all add: blank_iff py_space_def\<close>)
  then show ?thesis
    using e1 lock assms(2,4) l
    by (auto simp: progress_episode_def Let_def make_update_def state_update_post_init_def
        usable_signal_def live_def)
qed

lemma evaluate_active_live:
  assumes "live (fs_as_of s) e" and "usable_signal sha (fs_as_of s) g"
    and "usable_lock (me_session_date e) (me_limit_locked_at e) ob" and "\<not> blank (fs_symbol s)"
    and "0 \<le> smc_cooldown (mm_config m)"
    and "dt_date (dt_plus (fs_as_of s) (smc_cooldown (mm_config m))) = me_session_date e"
    and "decimal_value (fs_price s) = Some price" and "0 < price" and "touched_wf e"
  shows "\<exists>u n. evaluate_active sha m e s g previous ob = (Inr u, n)"
proof -
  note close = close_episode_live [OF _ assms(2) _ _ assms(4)]
  have blocked: "\<exists>u n. close_episode sha m e s g ES_DATA_BLOCKED ''data_health_not_healthy'' previous
      = (Inr u, n)"
    by (rule close [OF assms(1)]) (use assms(5,6) in \<open>simp_all add: blank_iff py_space_def\<close>)
  obtain e1 where e1: "with_market_observation e (fs_as_of s) price = Inr e1"
    and l1: "live (fs_as_of s) e1" and x1: "episode_extends e e1"
    and k1: "me_limit_locked_at e1 = me_limit_locked_at e"
    using with_market_observation_live [OF assms(1,8)] by (auto simp: steps_to_def)
  obtain e2 where e2: "append_evidence sha e1 g = Inr e2"
    and l2: "live (fs_as_of s) e2" and x2: "episode_extends e1 e2"
    and k2: "me_limit_locked_at e2 = me_limit_locked_at e1"
    using append_evidence_live [OF l1 assms(2)] by (auto simp: steps_to_def)
  have day: "me_session_date e2 = me_session_date e"
    using x1 x2 by (simp add: episode_extends_def)
  have t2: "touched_wf e2"
    using append_evidence_wf [OF e2] l1 e1 assms(9)
    by (auto simp: touched_wf_def live_def with_market_observation_def Let_def split: if_splits)
  let ?m = "\<lambda>c. m\<lparr>mm_invalidation_count := c\<rparr>"
  have inv: "\<exists>u n. close_episode sha (?m c) e2 s g ES_INVALIDATED
      (join_plus (invalidation_reasons e2 s)) previous = (Inr u, n)"
    if "invalidation_reasons e2 s \<noteq> []" for c
    by (rule close [OF l2])
      (use that assms(5,6) day join_plus_not_blank invalidation_reasons_not_blank in auto)
  have prog: "\<exists>u n. progress_episode sha (?m c) e2 s g previous ob (invalidation_reasons e2 s)
      = (Inr u, n)" for c
    by (rule progress_episode_live [OF l2 assms(2) _ assms(4)])
      (use assms(3,5,6) day k1 k2 t2 in auto)
  show ?thesis
    using blocked e1 e2 inv prog assms(7)
    by (simp add: evaluate_active_def Let_def)
qed

lemma first_episode_live:
  assumes "\<not> blank eid" and "\<not> blank (fs_symbol s)" and "\<not> blank (sr_config_version g)"
    and "dt_aware (fs_as_of s)" and "dt_date (fs_as_of s) = mm_session_date m"
    and "0 < high" and "0 < price"
  shows "live (fs_as_of s) (first_episode m s g eid high price)"
proof -
  have "episode_post_init (first_episode m s g eid high price) = Inr ()"
    using assms by (simp add: first_episode_def episode_post_init_def)
  then show ?thesis using assms(4,5)
    by (simp add: live_def episode_wf_def episode_by_def first_episode_def)
qed

lemma fresh_episode_live:
  assumes "live (fs_as_of s) (first_episode m s g eid high price)"
    and "usable_signal sha (fs_as_of s) g"
  shows "steps_to (fs_as_of s) (first_episode m s g eid high price)
    (fresh_episode sha m s g eid high price)"
proof -
  let ?e = "first_episode m s g eid high price"
  have e0: "steps_to (fs_as_of s) ?e (checked_episode ?e)"
    using assms(1) by (simp add: steps_to_def live_def episode_wf_def)
  show ?thesis
    unfolding fresh_episode_def
    by (intro steps_to_bind [OF e0] steps_to_bind [OF append_evidence_live [OF _ assms(2)]]
        steps_to_bind [OF advance_live [OF _ assms(2)]] advance_for_market_live [OF _ assms(2)])
qed

lemma open_episode_live:
  assumes "sound_input sha m s g ob" and "mm_active m (fs_symbol s) = None"
    and "decimal_value (fs_previous_intraday_high s) = Some high" and "0 < high"
    and "decimal_value (fs_price s) = Some price" and "0 < price"
  shows "\<exists>u n. open_episode sha m s g previous ob high price = (Inr u, n)"
proof -
  note i = assms(1) [unfolded sound_input_def validate_input_Inr usable_signal_def]
  obtain eid m1 where id: "next_episode_id m (fs_symbol s) = (eid, m1)" by force
  have eid: "\<not> blank eid"
    using id i by (auto simp: next_episode_id_def Let_def blank_append)
  have live0: "live (fs_as_of s) (first_episode m s g eid high price)"
    using i eid assms(4,6) by (intro first_episode_live) auto
  have sig: "usable_signal sha (fs_as_of s) g" using assms(1) by (simp add: sound_input_def)
  obtain e1 where e1: "fresh_episode sha m s g eid high price = Inr e1" "live (fs_as_of s) e1"
      "me_limit_locked_at e1 = None" "me_session_date e1 = mm_session_date m"
    using fresh_episode_live [OF live0 sig]
    by (auto simp: steps_to_def episode_extends_def first_episode_def)
  obtain f tr n where "apply_lock_observation m1 e1 ob = (Inr (f, tr), n)"
    using apply_lock_live [OF e1(2), of ob m1] assms(2) e1(3,4) i by (auto simp: usable_lock_def)
  then show ?thesis
    using id e1(1) i
    by (auto simp: open_episode_def Let_def make_update_def state_update_post_init_def)
qed

lemma momentum_evaluate_total:
  assumes "machine_wf m" and "timed m" and "sound_input sha m s g ob"
  shows "\<exists>u n. momentum_evaluate sha m s g ob = (Inr u, n)"
proof -
  let ?sy = "fs_symbol s"
  let ?m1 = "m\<lparr>mm_last_as_of := (mm_last_as_of m)(?sy \<mapsto> fs_as_of s),
      mm_last_input_digest := (mm_last_input_digest m)(?sy \<mapsto> input_digest sha s g ob)\<rparr>"
  note i = assms(3) [unfolded sound_input_def]
  obtain price where price: "decimal_value (fs_price s) = Some price" "0 < price" using i by blast
  have update: "\<not> blank ?sy" "\<not> blank (signal_digest sha g)" "dt_aware (fs_as_of s)"
    using i by (auto simp: usable_signal_def)
  have late: "\<not> (case mm_last_as_of m ?sy of None \<Rightarrow> False
      | Some t \<Rightarrow> instant (fs_as_of s) < instant t)"
    using i by (auto split: option.splits)
  have "\<exists>u n. (case mm_active m ?sy of
        None \<Rightarrow> evaluate_without_active sha ?m1 s g previous ob
      | Some e \<Rightarrow> evaluate_active sha ?m1 e s g previous ob) = (Inr u, n)" for previous
  proof (cases "mm_active m ?sy")
    case None
    let ?w = "?m1\<lparr>mm_watch_stage := (mm_watch_stage ?m1)(?sy \<mapsto>
        if data_healthy s g \<and> is_true (fs_price_above_vwap s) then STRONG else WATCH)\<rparr>"
    have sound: "sound_input sha ?w s g ob"
      using i None unfolding sound_input_def validate_input_Inr by auto
    have "\<exists>u n. open_episode sha ?w s g previous ob high price = (Inr u, n)"
      if "decimal_value (fs_previous_intraday_high s) = Some high" "0 < high" for high
      using open_episode_live [OF sound _ that price] None by simp
    then show ?thesis
      using None i price update
      by (simp add: evaluate_without_active_def Let_def make_update_def state_update_post_init_def)
        auto
  next
    case (Some e)
    have wf: "slot_wf ?sy m" using assms(1) by (simp add: machine_wf_def)
    note a = slot_wf_active [OF wf Some]
    obtain t where t: "mm_last_as_of m ?sy = Some t" "episode_by (instant t) e"
      using assms(2) Some by (auto simp: timed_def)
    have "episode_by (instant (fs_as_of s)) e"
      using t i by (blast intro: episode_by_later)
    then have l: "live (fs_as_of s) e"
      using a i by (simp add: live_def validate_input_Inr)
    have "\<exists>u n. evaluate_active sha ?m1 e s g previous ob = (Inr u, n)"
      by (rule evaluate_active_live [OF l _ _ update(1) _ _ price a(2)]) (use i a Some in simp_all)
    then show ?thesis using Some by simp
  qed
  then show ?thesis
    using i late update
    by (auto simp: momentum_evaluate_def Let_def make_update_def state_update_post_init_def)
qed

section \<open>Properties\<close>

text \<open>
  C12. Episodes only advance: from any state the machine can reach, whatever is evaluated next
  (for this symbol or another, accepted or refused), the open episode of a symbol keeps its
  identity, creation data, breakout level and history, its stage never goes back, and the
  machine holds it either still open or closed for good; its transitions lead step by step from
  STRONG to its stage, and LIMIT_TOUCHED is recorded exactly with its time.
\<close>

theorem momentum_episodes_only_advance:
  assumes "mm_active (run_machine sha (new_machine day c p) xs) sy = Some e"
  shows "\<exists>f. mm_latest (run_machine sha (new_machine day c p) (xs @ [x])) sy = Some f
     \<and> episode_extends e f
     \<and> (me_status f = ES_ACTIVE \<longleftrightarrow>
          mm_active (run_machine sha (new_machine day c p) (xs @ [x])) sy = Some f)
     \<and> follows STRONG (me_transitions f) (me_current_stage f)
     \<and> (me_limit_touched_at f \<noteq> None \<longleftrightarrow> me_current_stage f = LIMIT_TOUCHED)"
proof -
  let ?m = "run_machine sha (new_machine day c p) xs"
  let ?n = "run_machine sha (new_machine day c p) (xs @ [x])"
  have m: "machine_wf ?m" by (rule run_machine_new)
  have n: "slot_wf sy ?n" using run_machine_new [of sha day c p "xs @ [x]"] by (simp add: machine_wf_def)
  have eff: "slot_effect (fs_symbol (fst x)) (fs_as_of (fst x)) ?m ?n"
    using evaluate_next_effect [OF m, of x sha] by simp
  obtain f where f: "mm_latest ?n sy = Some f" "episode_extends e f"
    "me_status f = ES_ACTIVE \<longleftrightarrow> mm_active ?n sy = Some f"
  proof (cases "fs_symbol (fst x) = sy")
    case True
    then show ?thesis using that eff slot_step_active [OF _ assms n] by (auto simp: slot_effect_def)
  next
    case False
    then show ?thesis using that eff other_slot_active [OF _ assms n] by (auto simp: slot_effect_def)
  qed
  have "episode_wf f" "touched_wf f" using n f(1) by (simp_all add: slot_wf_def episode_of_def)
  with f show ?thesis by (auto simp: episode_wf_def touched_wf_def)
qed

text \<open>
  C14. After an episode is invalidated, no new episode of its symbol is opened before the
  cooldown has elapsed, whatever is evaluated in the meantime.
\<close>

theorem no_episode_in_cooldown:
  assumes "mm_active (run_machine sha (new_machine day c p) xs) sy = Some e"
    and "mm_latest (run_machine sha (new_machine day c p) (xs @ [(s, g, ob)])) sy = Some f"
    and "me_status f = ES_INVALIDATED" and "fs_symbol s = sy"
    and "\<forall>y \<in> set ys. fs_symbol (fst y) = sy \<longrightarrow>
           instant (fs_as_of (fst y)) < instant (fs_as_of s) + smc_cooldown c"
  shows "mm_active (run_machine sha (new_machine day c p) (xs @ [(s, g, ob)] @ ys)) sy = None
     \<and> mm_latest (run_machine sha (new_machine day c p) (xs @ [(s, g, ob)] @ ys)) sy = Some f"
proof -
  let ?m = "run_machine sha (new_machine day c p) xs"
  let ?n = "run_machine sha (new_machine day c p) (xs @ [(s, g, ob)])"
  have m: "machine_wf ?m" and n: "machine_wf ?n" by (rule run_machine_new)+
  have cfg: "mm_config ?m = c"
    using run_machine_wf [OF new_machine_wf, of sha day c p xs]
    by (simp add: same_setup_def new_machine_def)
  have step: "slot_step sy (fs_as_of s) ?m ?n"
    using evaluate_next_effect [OF m, of "(s, g, ob)" sha] assms(4) by (simp add: slot_effect_def)
  have none: "mm_active ?n sy = None"
  proof (cases "mm_active ?n sy")
    case (Some h)
    have "slot_wf sy ?n" using n by (simp add: machine_wf_def)
    from slot_wf_active [OF this Some] assms(2,3) show ?thesis by simp
  qed
  have cool: "mm_cooldown_until ?n sy = Some (dt_plus (fs_as_of s) (smc_cooldown c))"
    using step assms(1-3) none cfg by (auto simp: slot_step_def cooldown_after_def)
  show ?thesis using cooling_run [OF n none cool, of ys sha] assms(2,5) by simp
qed

text \<open>C31. Within a session no episode identity is ever used twice for a symbol.\<close>

theorem episode_ids_never_reused:
  "distinct (opened_ids sha sy (new_machine day c p) xs)"
  using opened_ids_numbered [OF new_machine_wf, of day c p sy sha xs]
  by (simp add: next_sequence_def new_machine_def)

text \<open>
  C34. Evaluating the same input again changes nothing and is reported as a duplicate with the
  current stage, also when the first evaluation of it failed; for an input that passes the machine's
  validation and is not older than the last one of its symbol.
\<close>

theorem momentum_duplicate_ignored:
  assumes "momentum_evaluate sha m s g ob = (r, n)" and "validate_input m s g ob = Inr ()"
    and "\<forall>t. mm_last_as_of m (fs_symbol s) = Some t \<longrightarrow> instant t \<le> instant (fs_as_of s)"
    and "\<not> blank (fs_symbol s)" and "dt_aware (fs_as_of s)" and "\<not> blank (signal_digest sha g)"
  shows "\<exists>u. momentum_evaluate sha n s g ob = (Inr u, n) \<and> su_duplicate_ignored u
     \<and> su_current_stage u = public_stage n (fs_symbol s) \<and> su_episode u = mm_latest n (fs_symbol s)"
proof -
  have n: "mm_last_input_digest n (fs_symbol s) = Some (input_digest sha s g ob)
      \<and> mm_session_date n = mm_session_date m"
  proof (cases "mm_last_input_digest m (fs_symbol s) = Some (input_digest sha s g ob)")
    case True
    then show ?thesis using assms(1,2) by (auto simp: momentum_evaluate_def Let_def)
  next
    case False
    then show ?thesis using momentum_evaluate_inputs [OF assms(1,2) _ assms(3)] by simp
  qed
  then have "validate_input n s g ob = Inr ()" using assms(2) by (auto simp: validate_input_Inr)
  then show ?thesis using n assms(4-6)
    by (simp add: momentum_evaluate_def Let_def make_update_def state_update_post_init_def)
qed

text \<open>
  C23. A limit lock is reported only on confirmed evidence: the policy has a confirmation
  duration (without one the machine never locks), the evidence shows the lock condition and has
  done so since a recorded start at least that long ago, and the episode has touched the limit.
\<close>

theorem limit_lock_is_confirmed:
  assumes "momentum_evaluate sha (run_machine sha (new_machine day c p) xs) s g ob = (Inr u, n)"
    and "su_limit_lock_transition u = Some LT_LOCKED"
  shows "\<exists>x d t0 f. ob = Some x \<and> lo_status x = LOCK_CONDITION
     \<and> lp_confirmation_duration p = Some d
     \<and> mm_lock_candidate_started_at n (fs_symbol s) = Some t0
     \<and> d \<le> instant (lo_observed_at x) - instant t0
     \<and> su_episode u = Some f \<and> mm_active n (fs_symbol s) = Some f
     \<and> me_limit_touched_at f \<noteq> None \<and> me_limit_locked f = Some True
     \<and> me_limit_locked_at f = Some (lo_observed_at x)
     \<and> su_lock_evidence_id u = Some (lo_evidence_id x)"
proof -
  have p: "mm_lock_policy (run_machine sha (new_machine day c p) xs) = p"
    using run_machine_wf [OF new_machine_wf, of sha day c p xs]
    by (simp add: same_setup_def new_machine_def)
  show ?thesis
    using momentum_evaluate_locked [OF assms run_machine_new] unfolding locked_by_def p .
qed

text \<open>
  C21. Every evaluation of a sound input returns: after any history, no constructor or
  transition of an episode can reject what the machine feeds it.
\<close>

theorem momentum_evaluation_returns:
  assumes "sound_input sha (run_machine sha (new_machine day c p) xs) s g ob"
  shows "\<exists>u n. momentum_evaluate sha (run_machine sha (new_machine day c p) xs) s g ob = (Inr u, n)"
  by (rule momentum_evaluate_total
      [OF run_machine_new run_machine_timed [OF new_machine_wf new_machine_timed] assms])

section \<open>A run\<close>

definition example_signal :: "int \<Rightarrow> signal_result" where
  "example_signal k =
     \<lparr>sr_symbol = ''2330'', sr_as_of = example_clock k, sr_config_version = ''c0'',
      sr_feature_version = ''v0'', sr_signal_family = SF_LIMIT_UP_MOMENTUM,
      sr_signal = MS_BREAKOUT, sr_triggered_signals = [MS_BREAKOUT],
      sr_momentum_acceleration_confirmed = True, sr_evidence_score = 80,
      sr_evidence_max_score = 100, sr_passed_rule_count = 5, sr_total_rule_count = 6,
      sr_coverage = 1, sr_data_health = ''HEALTHY'', sr_evaluation_status = SE_TRIGGERED,
      sr_details = [], sr_block_reasons = []\<rparr>"

text \<open>A digest that tells the inputs of the run apart: the time of a signal.\<close>

fun example_digest :: "json \<Rightarrow> string" where
  "example_digest (JObj ((_, JStr a) # (_, JTime t) # _)) = show_int (instant t)"
| "example_digest (JObj ((_, JStr a) # (_, JStr b) # _)) = a @ ''/'' @ b"
| "example_digest _ = ''x''"

definition example_lock :: "int \<Rightarrow> lock_observation" where
  "example_lock k = \<lparr>lo_observed_at = example_clock k, lo_status = LOCK_CONDITION,
     lo_evidence_id = ''book''\<rparr>"

definition example_config :: state_machine_config where
  "example_config = MOMENTUM_STATE_HYPOTHESIS_V0\<lparr>smc_invalidation_confirmation := 1\<rparr>"

definition example_policy :: lock_policy where
  "example_policy = \<lparr>lp_version = ''lock'', lp_confirmation_duration = Some 3000000\<rparr>"

text \<open>An episode opens at its limit; then the price falls, or the lock evidence goes on.\<close>

definition example_open :: evaluation where
  "example_open = (example_snapshot 10 105 0, example_signal 10, Some (example_lock 10))"

definition example_fall :: evaluation where
  "example_fall = (example_snapshot 20 98 (1 / 20), example_signal 20, None)"

definition example_rebound :: evaluation where
  "example_rebound = (example_snapshot 40 101 (1 / 20), example_signal 40, None)"

definition example_after :: "evaluation list \<Rightarrow> momentum_machine" where
  "example_after xs = run_machine example_digest (new_machine 20270 example_config example_policy) xs"

lemma example_fields [simp]:
  "fs_symbol (example_snapshot k price d) = ''2330''"
  "fs_as_of (example_snapshot k price d) = example_clock k"
  "sr_symbol (example_signal k) = ''2330''"
  "sr_as_of (example_signal k) = example_clock k" "sr_config_version (example_signal k) = ''c0''"
  "dt_aware (example_clock k)" "lo_observed_at (example_lock k) = example_clock k"
  "instant (example_clock k) = 1751331600000000 + 1000000 * k"
  "\<not> blank ''2330''" "\<not> blank ''c0''"
  "decimal_value (fs_price (example_snapshot k price d)) = Some price"
  "fv_status (fs_price (example_snapshot k price d)) = FS_VALID"
  "decimal_value (fs_previous_intraday_high (example_snapshot k price d)) = Some 100"
  by (simp_all add: example_snapshot_def Let_def example_signal_def example_clock_def dt_aware_def
      example_lock_def blank_iff py_space_def example_feature_def decimal_value_def)

lemma example_dates:
  "dt_date (example_clock 14) = 20270" "dt_date (dt_plus (example_clock 14) 120000000) = 20270"
  "\<not> blank (signal_digest example_digest (example_signal 14))"
  by code_simp+

definition example_view :: "momentum_machine \<Rightarrow>
    (momentum_stage \<times> datetime option) option \<times> int option \<times> int \<times> int" where
  "example_view m =
     (map_option (\<lambda>e. (me_current_stage e, me_limit_locked_at e)) (mm_active m ''2330''),
      map_option instant (mm_last_as_of m ''2330''), mm_session_date m, smc_cooldown (mm_config m))"

lemma example_opened:
  "example_view (example_after [example_open])
   = (Some (LIMIT_TOUCHED, None), Some (instant (example_clock 10)), 20270, 120000000)"
  by code_simp

lemma example_fallen:
  "map_option me_status (mm_latest (example_after [example_open, example_fall]) ''2330'')
   = Some ES_INVALIDATED"
  by code_simp

lemma example_locked:
  "map_sum id su_limit_lock_transition (fst (momentum_evaluate example_digest
      (example_after [example_open]) (example_snapshot 14 105 0) (example_signal 14)
      (Some (example_lock 14)))) = Inr (Some LT_LOCKED)"
  by code_simp

lemma example_open_episode:
  obtains e where "mm_active (example_after [example_open]) ''2330'' = Some e"
    "me_limit_locked_at e = None"
  using example_opened by (auto simp: example_view_def)

theorem momentum_episodes_only_advance_witness:
  "\<exists>e f. mm_active (example_after [example_open]) ''2330'' = Some e
     \<and> mm_latest (example_after [example_open, example_fall]) ''2330'' = Some f
     \<and> episode_extends e f"
proof -
  obtain e where e: "mm_active (example_after [example_open]) ''2330'' = Some e"
    by (rule example_open_episode)
  then show ?thesis
    using momentum_episodes_only_advance [OF e [unfolded example_after_def], of example_fall]
    unfolding example_after_def by auto
qed

theorem no_episode_in_cooldown_witness:
  "mm_active (example_after [example_open, example_fall, example_rebound]) ''2330'' = None"
proof -
  obtain e where e: "mm_active (example_after [example_open]) ''2330'' = Some e"
    by (rule example_open_episode)
  obtain f where f: "mm_latest (example_after [example_open, example_fall]) ''2330'' = Some f"
    "me_status f = ES_INVALIDATED"
    using example_fallen by auto
  have f': "mm_latest (run_machine example_digest (new_machine 20270 example_config example_policy)
      ([example_open] @ [(example_snapshot 20 98 (1 / 20), example_signal 20, None)])) ''2330'' = Some f"
    using f(1) by (simp add: example_after_def example_fall_def)
  have early: "\<forall>y \<in> set [example_rebound]. fs_symbol (fst y) = ''2330'' \<longrightarrow> instant (fs_as_of (fst y))
      < instant (fs_as_of (example_snapshot 20 98 (1 / 20))) + smc_cooldown example_config"
    by (simp add: example_rebound_def example_config_def MOMENTUM_STATE_HYPOTHESIS_V0_def)
  show ?thesis
    using no_episode_in_cooldown [OF e [unfolded example_after_def] f' f(2) _ early]
    by (simp add: example_after_def example_fall_def)
qed

theorem momentum_duplicate_ignored_witness:
  "\<exists>u m n. momentum_evaluate example_digest m (example_snapshot 14 105 0) (example_signal 14)
     (Some (example_lock 14)) = (Inr u, n) \<and> su_duplicate_ignored u"
proof -
  let ?m = "new_machine 20270 example_config example_policy"
  obtain r n where e: "momentum_evaluate example_digest ?m (example_snapshot 14 105 0)
      (example_signal 14) (Some (example_lock 14)) = (r, n)" by force
  have v: "validate_input ?m (example_snapshot 14 105 0) (example_signal 14) (Some (example_lock 14))
      = Inr ()"
    using example_dates by (simp add: validate_input_Inr new_machine_def)
  show ?thesis
    using momentum_duplicate_ignored [OF e v] example_dates(3) by (simp add: new_machine_def) blast
qed

theorem momentum_evaluation_returns_witness:
  "\<exists>u n. momentum_evaluate example_digest (example_after [example_open]) (example_snapshot 14 105 0)
     (example_signal 14) (Some (example_lock 14)) = (Inr u, n)"
proof -
  obtain e where e: "mm_active (example_after [example_open]) ''2330'' = Some e"
    "me_limit_locked_at e = None"
    by (rule example_open_episode)
  have "sound_input example_digest (example_after [example_open]) (example_snapshot 14 105 0)
      (example_signal 14) (Some (example_lock 14))"
    using example_opened e example_dates
    by (auto simp: example_view_def sound_input_def validate_input_Inr usable_signal_def usable_lock_def)
  then show ?thesis
    using momentum_evaluation_returns unfolding example_after_def by blast
qed

theorem limit_lock_is_confirmed_witness:
  "\<exists>(n :: momentum_machine) (f :: momentum_episode). mm_active n ''2330'' = Some f \<and> me_limit_locked f = Some True
     \<and> me_limit_locked_at f = Some (example_clock 14)"
proof -
  obtain r n where e: "momentum_evaluate example_digest
      (example_after [example_open]) (example_snapshot 14 105 0) (example_signal 14)
      (Some (example_lock 14)) = (r, n)" by force
  then obtain u where u: "r = Inr u" "su_limit_lock_transition u = Some LT_LOCKED"
    using example_locked by (cases r) auto
  obtain f where "mm_active n ''2330'' = Some f" "me_limit_locked f = Some True"
    "me_limit_locked_at f = Some (example_clock 14)"
    using limit_lock_is_confirmed [OF e [unfolded u(1) example_after_def] u(2)] by auto
  then show ?thesis by (intro exI [of _ n] exI [of _ f] conjI)
qed

theorem entry_available_iff_witness:
  "\<exists>e p. mm_active (example_after [example_open]) ''2330'' = Some e
     \<and> evaluate_momentum_entry_opportunity e ''s'' \<lparr>epc_version = ''p0'',
          epc_enabled_signal_families = [SF_LIMIT_UP_MOMENTUM]\<rparr> RG_BLOCKED (Some ''r'') None None = Inr p
     \<and> eo_status p = EO_BLOCKED \<and> eo_reasons p \<noteq> []"
proof -
  obtain e where e: "mm_active (example_after [example_open]) ''2330'' = Some e"
    by (rule example_open_episode)
  let ?policy = "\<lparr>epc_version = ''p0'', epc_enabled_signal_families = [SF_LIMIT_UP_MOMENTUM]\<rparr>"
  obtain p where p: "evaluate_momentum_entry_opportunity e ''s'' ?policy RG_BLOCKED (Some ''r'') None None
      = Inr p"
    by (auto simp: evaluate_momentum_entry_opportunity_def Let_def entry_opportunity_post_init_def
        blank_iff py_space_def split: sum.splits if_splits)
  show ?thesis using entry_available_iff [OF p] e p by auto
qed

end
