(* ===== verification/Momentum_Signals.thy ===== *)
theory Momentum_Signals
  imports Signal_Models
begin

text \<open>
  The momentum signal evaluators: scored evidence (\<open>signals/evidence.py\<close>), the Opening and
  Limit-Up families (\<open>signals/opening_momentum.py\<close>, \<open>signals/momentum.py\<close>), their versioned
  configuration (\<open>config/momentum.py\<close>) and the router by exchange time.
\<close>

section \<open>Configuration\<close>

record evidence_weight =
  ew_rule :: string
  ew_points :: int

definition evidence_weight_post_init :: "evidence_weight \<Rightarrow> unit res" where
  "evidence_weight_post_init w = require_all
     [(\<not> blank (ew_rule w), ''rule must not be empty''),
      (0 \<le> ew_points w, ''points must be non-negative'')]"

record family_config =
  fc_version :: string
  fc_signal_family :: signal_family
  fc_acceleration_signals :: "momentum_signal list"

definition family_config_post_init :: "family_config \<Rightarrow> unit res" where
  "family_config_post_init c = require_all
     [(\<not> blank (fc_version c), ''version must not be empty''),
      (fc_acceleration_signals c \<noteq> [], ''acceleration_signals must not be empty'')]"

definition confirms_acceleration :: "family_config \<Rightarrow> momentum_signal \<Rightarrow> bool" where
  "confirms_acceleration c signal \<longleftrightarrow> List.member (fc_acceleration_signals c) signal"

datatype volume_context_mode =
    HISTORICAL_ELAPSED_TIME_RVOL | PREVIOUS_DAY_TOTAL_RATIO | HISTORICAL_OPENING_PROFILE_RVOL

fun volume_context_mode_value :: "volume_context_mode \<Rightarrow> string" where
  "volume_context_mode_value HISTORICAL_ELAPSED_TIME_RVOL = ''HISTORICAL_ELAPSED_TIME_RVOL''"
| "volume_context_mode_value PREVIOUS_DAY_TOTAL_RATIO = ''PREVIOUS_DAY_TOTAL_RATIO''"
| "volume_context_mode_value HISTORICAL_OPENING_PROFILE_RVOL = ''HISTORICAL_OPENING_PROFILE_RVOL''"

definition validate_evidence_config :: "int \<Rightarrow> evidence_weight list \<Rightarrow> unit res" where
  "validate_evidence_config trigger weights =
     (let max_score = sum_list (map ew_points weights)
      in require_all
        [(0 < max_score, ''evidence weights must have a positive total''),
         (distinct (map ew_rule weights), ''evidence weight rules must be unique''),
         (0 \<le> trigger \<and> trigger \<le> max_score,
          ''trigger_evidence_score must be within score range'')])"

record limit_up_config =
  lu_family :: family_config
  lu_min_return_2m :: rat
  lu_max_distance_to_limit :: rat
  lu_min_volume_acceleration_2m :: rat
  lu_min_external_ratio :: rat
  lu_trigger_evidence_score :: int
  lu_weights :: "evidence_weight list"

definition limit_up_config_post_init :: "limit_up_config \<Rightarrow> unit res" where
  "limit_up_config_post_init c =
     validate_evidence_config (lu_trigger_evidence_score c) (lu_weights c)"

record opening_config =
  op_family :: family_config
  op_volume_context_mode :: "volume_context_mode option"
  op_min_return_2m :: rat
  op_max_distance_to_limit :: rat
  op_min_opening_volume_context :: rat
  op_min_external_ratio :: rat
  op_trigger_evidence_score :: int
  op_weights :: "evidence_weight list"

definition opening_config_post_init :: "opening_config \<Rightarrow> unit res" where
  "opening_config_post_init c =
     validate_evidence_config (op_trigger_evidence_score c) (op_weights c)"

definition op_runtime_ready :: "opening_config \<Rightarrow> bool" where
  "op_runtime_ready c \<longleftrightarrow> op_volume_context_mode c \<noteq> None"

definition evidence_max_score :: "evidence_weight list \<Rightarrow> int" where
  "evidence_max_score ws = sum_list (map ew_points ws)"

definition OPENING_MOMENTUM_HYPOTHESIS_V0 :: opening_config where
  "OPENING_MOMENTUM_HYPOTHESIS_V0 =
     \<lparr>op_family = \<lparr>fc_version = ''opening_momentum_hypothesis_v0'',
        fc_signal_family = SF_OPENING_MOMENTUM,
        fc_acceleration_signals = [MS_OPENING_MOMENTUM]\<rparr>,
      op_volume_context_mode = None, op_min_return_2m = 15 / 1000,
      op_max_distance_to_limit = 3 / 100, op_min_opening_volume_context = 3 / 2,
      op_min_external_ratio = 60 / 100, op_trigger_evidence_score = 70,
      op_weights =
        [\<lparr>ew_rule = ''price_above_vwap'', ew_points = 15\<rparr>, \<lparr>ew_rule = ''breakout'', ew_points = 20\<rparr>,
         \<lparr>ew_rule = ''return_2m'', ew_points = 15\<rparr>,
         \<lparr>ew_rule = ''distance_to_limit'', ew_points = 20\<rparr>,
         \<lparr>ew_rule = ''opening_volume_context'', ew_points = 20\<rparr>,
         \<lparr>ew_rule = ''external_ratio_rising'', ew_points = 10\<rparr>]\<rparr>"

definition LIMIT_UP_MOMENTUM_HYPOTHESIS_V0 :: limit_up_config where
  "LIMIT_UP_MOMENTUM_HYPOTHESIS_V0 =
     \<lparr>lu_family = \<lparr>fc_version = ''limit_up_momentum_hypothesis_v0'',
        fc_signal_family = SF_LIMIT_UP_MOMENTUM,
        fc_acceleration_signals = [MS_LIMIT_UP_MOMENTUM]\<rparr>,
      lu_min_return_2m = 15 / 1000, lu_max_distance_to_limit = 3 / 100,
      lu_min_volume_acceleration_2m = 3 / 2, lu_min_external_ratio = 60 / 100,
      lu_trigger_evidence_score = 70,
      lu_weights =
        [\<lparr>ew_rule = ''price_above_vwap'', ew_points = 15\<rparr>, \<lparr>ew_rule = ''breakout'', ew_points = 20\<rparr>,
         \<lparr>ew_rule = ''return_2m'', ew_points = 15\<rparr>,
         \<lparr>ew_rule = ''distance_to_limit'', ew_points = 20\<rparr>,
         \<lparr>ew_rule = ''volume_acceleration_2m'', ew_points = 20\<rparr>,
         \<lparr>ew_rule = ''external_ratio_rising'', ew_points = 10\<rparr>]\<rparr>"

section \<open>Evidence\<close>

fun evidence_of_feature_status :: "feature_status \<Rightarrow> evidence_status" where
  "evidence_of_feature_status FS_VALID = EV_VALID"
| "evidence_of_feature_status FS_MISSING = EV_MISSING"
| "evidence_of_feature_status FS_STALE = EV_STALE"
| "evidence_of_feature_status FS_UNVERIFIED = EV_UNVERIFIED"

definition make_detail :: "signal_detail \<Rightarrow> signal_detail res" where
  "make_detail d = (case signal_detail_post_init d of Inl x \<Rightarrow> Inl x | Inr _ \<Rightarrow> Inr d)"

definition detail_for_feature ::
  "string \<Rightarrow> feature_value \<Rightarrow> int \<Rightarrow> evidence_scalar \<Rightarrow> (feature_scalar \<Rightarrow> bool res)
     \<Rightarrow> signal_detail res" where
  "detail_for_feature rule feature points threshold predicate =
     (if fv_status feature \<noteq> FS_VALID
      then make_detail
        \<lparr>sgd_rule = rule, sgd_status = evidence_of_feature_status (fv_status feature),
         sgd_passed = None, sgd_points_awarded = 0, sgd_points_possible = points,
         sgd_observed_value = map_option EScalar (fv_value feature),
         sgd_threshold = Some threshold, sgd_source_as_of = fv_source_as_of feature,
         sgd_missing_reason = fv_reason feature\<rparr>
      else
      case fv_value feature of None \<Rightarrow> Inl (AssertionFailure []) | Some v \<Rightarrow>
      case predicate v of Inl x \<Rightarrow> Inl x | Inr passed \<Rightarrow>
      make_detail
        \<lparr>sgd_rule = rule, sgd_status = EV_VALID, sgd_passed = Some passed,
         sgd_points_awarded = (if passed then points else 0), sgd_points_possible = points,
         sgd_observed_value = Some (EScalar v), sgd_threshold = Some threshold,
         sgd_source_as_of = fv_source_as_of feature, sgd_missing_reason = None\<rparr>)"

text \<open>\<open>value is True\<close>, and the comparisons of a scalar with a Decimal.\<close>

definition value_is_true :: "feature_scalar \<Rightarrow> bool res" where
  "value_is_true v = Inr (v = FBool True)"

fun scalar_number :: "feature_scalar \<Rightarrow> rat res" where
  "scalar_number (FDec d) = Inr d"
| "scalar_number (FInt i) = Inr (of_int i)"
| "scalar_number (FBool b) = Inr (if b then 1 else 0)"
| "scalar_number (FStr s) = Inl (TypeError ''comparison not supported'')"

definition at_least :: "rat \<Rightarrow> feature_scalar \<Rightarrow> bool res" where
  "at_least t v = (case scalar_number v of Inl x \<Rightarrow> Inl x | Inr d \<Rightarrow> Inr (t \<le> d))"

definition at_most :: "rat \<Rightarrow> feature_scalar \<Rightarrow> bool res" where
  "at_most t v = (case scalar_number v of Inl x \<Rightarrow> Inl x | Inr d \<Rightarrow> Inr (d \<le> t))"

definition external_ratio_detail ::
  "feature_value \<Rightarrow> feature_value \<Rightarrow> feature_value \<Rightarrow> int \<Rightarrow> rat \<Rightarrow> signal_detail res" where
  "external_ratio_detail current previous rising points threshold =
     (case find (\<lambda>i. fv_status i \<noteq> FS_VALID) [current, previous, rising] of
        Some unavailable \<Rightarrow> make_detail
          \<lparr>sgd_rule = ''external_ratio_rising'',
           sgd_status = evidence_of_feature_status (fv_status unavailable), sgd_passed = None,
           sgd_points_awarded = 0, sgd_points_possible = points,
           sgd_observed_value = map_option EScalar (fv_value current),
           sgd_threshold = Some (EAtLeastRising threshold),
           sgd_source_as_of = fv_source_as_of unavailable,
           sgd_missing_reason = fv_reason unavailable\<rparr>
      | None \<Rightarrow>
        (case (fv_value current, fv_value previous) of
           (Some (FDec c), Some (FDec p)) \<Rightarrow>
             let passed = (threshold \<le> c \<and> fv_value rising = Some (FBool True))
             in make_detail
               \<lparr>sgd_rule = ''external_ratio_rising'', sgd_status = EV_VALID,
                sgd_passed = Some passed, sgd_points_awarded = (if passed then points else 0),
                sgd_points_possible = points, sgd_observed_value = Some (EGreater c p),
                sgd_threshold = Some (EAtLeastRising threshold),
                sgd_source_as_of = fv_source_as_of current, sgd_missing_reason = None\<rparr>
         | _ \<Rightarrow> Inl (AssertionFailure [])))"

definition score_details :: "signal_detail list \<Rightarrow> int \<times> int \<times> rat" where
  "score_details ds =
     (sum_list (map sgd_points_awarded ds),
      int (length (filter (\<lambda>d. sgd_passed d = Some True) ds)),
      if ds = [] then 0
      else of_nat (length (filter (\<lambda>d. sgd_status d = EV_VALID) ds)) / of_nat (length ds))"

section \<open>The evaluators\<close>

definition weights_dict :: "evidence_weight list \<Rightarrow> (string, int) dict" where
  "weights_dict ws = foldl (\<lambda>d w. dset (ew_rule w) (ew_points w) d) [] ws"

definition weight_of :: "evidence_weight list \<Rightarrow> string \<Rightarrow> int res" where
  "weight_of ws rule =
     (case dget (weights_dict ws) rule of
        None \<Rightarrow> Inl (ValueError (''missing evidence weight: '' @ rule))
      | Some p \<Rightarrow> Inr p)"

text \<open>\<open>detail_for_feature(points=self._weight(rule), ...)\<close>: the weight is looked up first.\<close>

definition weighed_detail ::
  "evidence_weight list \<Rightarrow> string \<Rightarrow> feature_value \<Rightarrow> evidence_scalar
     \<Rightarrow> (feature_scalar \<Rightarrow> bool res) \<Rightarrow> signal_detail res" where
  "weighed_detail ws rule feature threshold predicate =
     (case weight_of ws rule of Inl x \<Rightarrow> Inl x
      | Inr points \<Rightarrow> detail_for_feature rule feature points threshold predicate)"

definition weighed_ratio ::
  "evidence_weight list \<Rightarrow> feature_snapshot \<Rightarrow> rat \<Rightarrow> signal_detail res" where
  "weighed_ratio ws s threshold =
     (case weight_of ws ''external_ratio_rising'' of Inl x \<Rightarrow> Inl x
      | Inr points \<Rightarrow> external_ratio_detail (fs_external_ratio_session s)
          (fs_external_ratio_session_2m_ago s) (fs_external_ratio_rising s) points threshold)"

definition limit_up_details :: "limit_up_config \<Rightarrow> feature_snapshot \<Rightarrow> signal_detail list res" where
  "limit_up_details c s = rmap id
     [weighed_detail (lu_weights c) ''price_above_vwap'' (fs_price_above_vwap s)
        (EScalar (FStr ''price > vwap'')) value_is_true,
      weighed_detail (lu_weights c) ''breakout'' (fs_breakout s)
        (EScalar (FStr ''price > strict previous intraday high'')) value_is_true,
      weighed_detail (lu_weights c) ''return_2m'' (fs_return_2m s)
        (EScalar (FDec (lu_min_return_2m c))) (at_least (lu_min_return_2m c)),
      weighed_detail (lu_weights c) ''distance_to_limit'' (fs_distance_to_limit s)
        (EScalar (FDec (lu_max_distance_to_limit c))) (at_most (lu_max_distance_to_limit c)),
      weighed_detail (lu_weights c) ''volume_acceleration_2m'' (fs_volume_acceleration_2m s)
        (EScalar (FDec (lu_min_volume_acceleration_2m c)))
        (at_least (lu_min_volume_acceleration_2m c)),
      weighed_ratio (lu_weights c) s (lu_min_external_ratio c)]"

text \<open>\<open>by_rule[rule].passed\<close> as a truth value.\<close>

definition rule_passed :: "signal_detail list \<Rightarrow> string \<Rightarrow> bool" where
  "rule_passed ds rule \<longleftrightarrow>
     (case find (\<lambda>d. sgd_rule d = rule) (rev ds) of
        None \<Rightarrow> False | Some d \<Rightarrow> sgd_passed d = Some True)"

definition component_signals ::
  "string \<Rightarrow> momentum_signal \<Rightarrow> signal_detail list \<Rightarrow> bool \<Rightarrow> momentum_signal \<times> momentum_signal list" where
  "component_signals volume_rule family_signal ds triggered =
     (let components =
        (if rule_passed ds ''breakout'' then [MS_BREAKOUT] else [])
        @ (if rule_passed ds volume_rule then [MS_VOLUME_ACCELERATION] else [])
        @ (if rule_passed ds ''return_2m'' \<and> rule_passed ds volume_rule
           then [MS_MOMENTUM_ACCELERATION] else [])
        @ (if triggered then [family_signal] else [])
      in (if components = [] then MS_NONE else last components, components))"

definition regime_reasons :: "bool \<Rightarrow> feature_snapshot \<Rightarrow> string list" where
  "regime_reasons low_score s =
     (if low_score then [''evidence_score_below_threshold''] else [])
     @ (if fv_value (fs_price_above_vwap s) \<noteq> Some (FBool True)
        then [''price_above_vwap_regime_guard_failed''] else [])
     @ (if fv_value (fs_breakout s) \<noteq> Some (FBool True)
        then [''breakout_regime_guard_failed''] else [])"

definition make_signal :: "signal_result \<Rightarrow> signal_result res" where
  "make_signal r = (case signal_result_post_init r of Inl x \<Rightarrow> Inl x | Inr _ \<Rightarrow> Inr r)"

definition limit_up_evaluate :: "limit_up_config \<Rightarrow> feature_snapshot \<Rightarrow> signal_result res" where
  "limit_up_evaluate c s =
     (case limit_up_details c s of Inl x \<Rightarrow> Inl x | Inr details \<Rightarrow>
      case score_details details of (score, passed_count, coverage) \<Rightarrow>
      let triggered = (fs_required_inputs_valid s \<and> lu_trigger_evidence_score c \<le> score
            \<and> fv_value (fs_price_above_vwap s) = Some (FBool True)
            \<and> fv_value (fs_breakout s) = Some (FBool True));
          (primary, components) =
            component_signals ''volume_acceleration_2m'' MS_LIMIT_UP_MOMENTUM details triggered;
          status = (if \<not> fs_required_inputs_valid s then SE_INSUFFICIENT_DATA
                    else if triggered then SE_TRIGGERED else SE_NOT_TRIGGERED)
      in make_signal
        \<lparr>sr_symbol = fs_symbol s, sr_as_of = fs_as_of s,
         sr_config_version = fc_version (lu_family c),
         sr_feature_version = fs_feature_version s,
         sr_signal_family = fc_signal_family (lu_family c), sr_signal = primary,
         sr_triggered_signals = components,
         sr_momentum_acceleration_confirmed = confirms_acceleration (lu_family c) primary,
         sr_evidence_score = score, sr_evidence_max_score = evidence_max_score (lu_weights c),
         sr_passed_rule_count = passed_count, sr_total_rule_count = int (length details),
         sr_coverage = coverage, sr_data_health = data_health_value (fs_data_health s),
         sr_evaluation_status = status, sr_details = details,
         sr_block_reasons = fs_block_reasons s
           @ (if fs_required_inputs_valid s \<and> \<not> triggered
              then regime_reasons (score < lu_trigger_evidence_score c) s else [])\<rparr>)"

definition opening_details :: "opening_config \<Rightarrow> feature_snapshot \<Rightarrow> signal_detail list res" where
  "opening_details c s = rmap id
     [weighed_detail (op_weights c) ''price_above_vwap'' (fs_price_above_vwap s)
        (EScalar (FStr ''price > vwap'')) value_is_true,
      weighed_detail (op_weights c) ''breakout'' (fs_breakout s)
        (EScalar (FStr ''price > strict previous intraday high'')) value_is_true,
      weighed_detail (op_weights c) ''return_2m'' (fs_return_2m s)
        (EScalar (FDec (op_min_return_2m c))) (at_least (op_min_return_2m c)),
      weighed_detail (op_weights c) ''distance_to_limit'' (fs_distance_to_limit s)
        (EScalar (FDec (op_max_distance_to_limit c))) (at_most (op_max_distance_to_limit c)),
      weighed_detail (op_weights c) ''opening_volume_context'' (fs_opening_volume_context s)
        (EScalar (FDec (op_min_opening_volume_context c)))
        (at_least (op_min_opening_volume_context c)),
      weighed_ratio (op_weights c) s (op_min_external_ratio c)]"

definition invalid_reason :: "string \<Rightarrow> feature_value \<Rightarrow> string list" where
  "invalid_reason name v =
     (if fv_status v \<noteq> FS_VALID
      then [name @ '':'' @ feature_status_value (fv_status v) @ '':''
            @ (case fv_reason v of None \<Rightarrow> ''None'' | Some r \<Rightarrow> r)]
      else [])"

definition required_block_reasons :: "opening_config \<Rightarrow> feature_snapshot \<Rightarrow> string list" where
  "required_block_reasons c s =
     concat (map (\<lambda>(name, v). invalid_reason name v)
       [(''price'', fs_price s), (''vwap'', fs_vwap s),
        (''previous_intraday_high'', fs_previous_intraday_high s),
        (''price_above_vwap'', fs_price_above_vwap s), (''breakout'', fs_breakout s),
        (''return_2m'', fs_return_2m s), (''distance_to_limit'', fs_distance_to_limit s),
        (''opening_volume_context'', fs_opening_volume_context s)])
     @ (if \<not> op_runtime_ready c then [''opening_volume_context_mode_unconfigured'']
        else if fs_opening_volume_context_mode s
             \<noteq> map_option volume_context_mode_value (op_volume_context_mode c)
        then [''opening_volume_context_mode_mismatch''] else [])
     @ (if fs_data_health s \<noteq> DH_HEALTHY
        then [''data_health:'' @ data_health_value (fs_data_health s)] else [])
     @ filter (\<lambda>r. starts_with ''current_tick:'' r \<or> starts_with ''data_health:'' r)
         (fs_block_reasons s)"

definition opening_evaluate :: "opening_config \<Rightarrow> feature_snapshot \<Rightarrow> signal_result res" where
  "opening_evaluate c s =
     (case opening_details c s of Inl x \<Rightarrow> Inl x | Inr details \<Rightarrow>
      case score_details details of (score, passed_count, coverage) \<Rightarrow>
      let blocked = required_block_reasons c s;
          triggered = (blocked = [] \<and> op_trigger_evidence_score c \<le> score
            \<and> fv_value (fs_price_above_vwap s) = Some (FBool True)
            \<and> fv_value (fs_breakout s) = Some (FBool True));
          (primary, components) =
            component_signals ''opening_volume_context'' MS_OPENING_MOMENTUM details triggered;
          status = (if blocked \<noteq> [] then SE_INSUFFICIENT_DATA
                    else if triggered then SE_TRIGGERED else SE_NOT_TRIGGERED)
      in make_signal
        \<lparr>sr_symbol = fs_symbol s, sr_as_of = fs_as_of s,
         sr_config_version = fc_version (op_family c),
         sr_feature_version = fs_feature_version s,
         sr_signal_family = fc_signal_family (op_family c), sr_signal = primary,
         sr_triggered_signals = components,
         sr_momentum_acceleration_confirmed = confirms_acceleration (op_family c) primary,
         sr_evidence_score = score, sr_evidence_max_score = evidence_max_score (op_weights c),
         sr_passed_rule_count = passed_count, sr_total_rule_count = int (length details),
         sr_coverage = coverage, sr_data_health = data_health_value (fs_data_health s),
         sr_evaluation_status = status, sr_details = details,
         sr_block_reasons = blocked
           @ (if blocked = [] \<and> \<not> triggered
              then regime_reasons (score < op_trigger_evidence_score c) s else [])\<rparr>)"

text \<open>The router: before 09:00, from 09:00 to 09:10, from 09:10 on, by the exchange's clock.\<close>

definition clock_of :: "int \<Rightarrow> int \<Rightarrow> int" where
  "clock_of h m = (h * 3600 + m * 60) * 1000000"

definition signal_engine_evaluate ::
  "opening_config \<Rightarrow> limit_up_config \<Rightarrow> feature_snapshot \<Rightarrow> signal_result res" where
  "signal_engine_evaluate oc lc s =
     (let event_time = wall_clock (fs_as_of s) in
      if event_time < clock_of 9 0
      then make_signal
        \<lparr>sr_symbol = fs_symbol s, sr_as_of = fs_as_of s,
         sr_config_version = fc_version (op_family oc),
         sr_feature_version = fs_feature_version s,
         sr_signal_family = fc_signal_family (op_family oc), sr_signal = MS_NONE,
         sr_triggered_signals = [], sr_momentum_acceleration_confirmed = False,
         sr_evidence_score = 0, sr_evidence_max_score = evidence_max_score (op_weights oc),
         sr_passed_rule_count = 0, sr_total_rule_count = int (length (op_weights oc)),
         sr_coverage = 0, sr_data_health = data_health_value (fs_data_health s),
         sr_evaluation_status = SE_OUTSIDE_WINDOW, sr_details = [],
         sr_block_reasons = [''before_regular_session'']\<rparr>
      else if event_time < clock_of 9 10 then opening_evaluate oc s
      else limit_up_evaluate lc s)"

section \<open>Scores\<close>

lemma weights_dict_lookup:
  "distinct (map ew_rule ws) \<Longrightarrow> w \<in> set ws \<Longrightarrow> dget (weights_dict ws) (ew_rule w) = Some (ew_points w)"
proof (induction ws rule: rev_induct)
  case (snoc x xs)
  then show ?case by (auto simp: weights_dict_def image_iff)
qed simp

lemma weights_dict_None:
  "dget (weights_dict ws) r = None \<longleftrightarrow> r \<notin> ew_rule ` set ws"
  by (induction ws rule: rev_induct) (auto simp: weights_dict_def)

lemma weight_of_Inr:
  assumes "distinct (map ew_rule ws)"
  shows "weight_of ws r = Inr p \<longleftrightarrow> (\<exists>w \<in> set ws. ew_rule w = r \<and> ew_points w = p)"
proof (cases "dget (weights_dict ws) r")
  case None
  then have "r \<notin> ew_rule ` set ws" by (rule weights_dict_None [THEN iffD1])
  with None show ?thesis by (auto simp: weight_of_def)
next
  case (Some q)
  then obtain w where "w \<in> set ws" "ew_rule w = r" using weights_dict_None [of ws r] by auto
  with weights_dict_lookup [OF assms] Some show ?thesis
    by (auto simp: weight_of_def dest: weights_dict_lookup [OF assms])
qed

text \<open>Distinct rules cannot weigh more than all of them.\<close>

lemma weights_sum_le:
  assumes "distinct (map ew_rule ws)" and "\<forall>w \<in> set ws. 0 \<le> ew_points w"
    and "distinct rs" and "list_all2 (\<lambda>r p. weight_of ws r = Inr p) rs ps"
  shows "sum_list ps \<le> evidence_max_score ws"
proof -
  have inj: "inj_on ew_rule (set ws)" and d: "distinct ws"
    using assms(1) by (simp_all add: distinct_map)
  define f where "f r = (case weight_of ws r of Inr p \<Rightarrow> p | Inl _ \<Rightarrow> 0)" for r
  have ps: "ps = map f rs"
    using assms(4) by (induction rule: list_all2_induct) (simp_all add: f_def)
  have rs: "set rs \<subseteq> ew_rule ` set ws"
  proof
    fix r assume "r \<in> set rs"
    then obtain i where i: "i < length rs" "rs ! i = r" by (auto simp: in_set_conv_nth)
    have "weight_of ws r = Inr (ps ! i)" using list_all2_nthD [OF assms(4) i(1)] i(2) by simp
    then obtain p where "weight_of ws r = Inr p" ..
    then obtain w where "w \<in> set ws" "ew_rule w = r"
      using weight_of_Inr [OF assms(1), of r p] by blast
    then show "r \<in> ew_rule ` set ws" by blast
  qed
  have f: "f (ew_rule w) = ew_points w" if "w \<in> set ws" for w
    using weights_dict_lookup [OF assms(1) that] by (simp add: f_def weight_of_def)
  have "sum_list ps = (\<Sum>r \<in> set rs. f r)"
    using assms(3) by (simp add: ps sum_list_distinct_conv_sum_set)
  also have "\<dots> \<le> (\<Sum>r \<in> ew_rule ` set ws. f r)"
    using rs f assms(2) by (intro sum_mono2) auto
  also have "\<dots> = (\<Sum>w \<in> set ws. ew_points w)"
    using inj f by (simp add: sum.reindex)
  also have "\<dots> = evidence_max_score ws"
    using d by (simp add: evidence_max_score_def sum_list_distinct_conv_sum_set)
  finally show ?thesis .
qed

section \<open>Evaluations that return\<close>

text \<open>A configuration as its constructors admit it, with a weight for each rule of the family.\<close>

definition weights_ok :: "evidence_weight list \<Rightarrow> string list \<Rightarrow> bool" where
  "weights_ok ws rules \<longleftrightarrow> distinct (map ew_rule ws)
     \<and> list_all (\<lambda>w. evidence_weight_post_init w = Inr ()) ws
     \<and> 0 < evidence_max_score ws \<and> list_all (\<lambda>r. List.member (map ew_rule ws) r) rules"

definition LIMIT_UP_RULES :: "string list" where
  "LIMIT_UP_RULES = [''price_above_vwap'', ''breakout'', ''return_2m'', ''distance_to_limit'',
     ''volume_acceleration_2m'', ''external_ratio_rising'']"

definition OPENING_RULES :: "string list" where
  "OPENING_RULES = [''price_above_vwap'', ''breakout'', ''return_2m'', ''distance_to_limit'',
     ''opening_volume_context'', ''external_ratio_rising'']"

text \<open>A feature as its constructor admits it, with a value of the expected kind when valid.\<close>

definition feature_ok :: "feature_value \<Rightarrow> bool" where
  "feature_ok v \<longleftrightarrow> feature_value_post_init v = Inr ()"

definition numeric_ok :: "feature_value \<Rightarrow> bool" where
  "numeric_ok v \<longleftrightarrow> feature_ok v
     \<and> (fv_status v = FS_VALID \<longrightarrow>
          (case fv_value v of None \<Rightarrow> False | Some x \<Rightarrow> is_ok (scalar_number x)))"

definition decimal_ok :: "feature_value \<Rightarrow> bool" where
  "decimal_ok v \<longleftrightarrow> feature_ok v
     \<and> (fv_status v = FS_VALID \<longrightarrow> (case fv_value v of Some (FDec d) \<Rightarrow> True | _ \<Rightarrow> False))"

definition evaluable :: "feature_snapshot \<Rightarrow> bool" where
  "evaluable s \<longleftrightarrow> feature_snapshot_post_init s = Inr ()
     \<and> feature_ok (fs_price_above_vwap s) \<and> feature_ok (fs_breakout s)
     \<and> numeric_ok (fs_return_2m s) \<and> numeric_ok (fs_distance_to_limit s)
     \<and> numeric_ok (fs_volume_acceleration_2m s) \<and> numeric_ok (fs_opening_volume_context s)
     \<and> decimal_ok (fs_external_ratio_session s) \<and> decimal_ok (fs_external_ratio_session_2m_ago s)
     \<and> feature_ok (fs_external_ratio_rising s)"

definition detail_of :: "evidence_weight list \<Rightarrow> string \<Rightarrow> signal_detail \<Rightarrow> bool" where
  "detail_of ws rule d \<longleftrightarrow> sgd_rule d = rule \<and> weight_of ws rule = Inr (sgd_points_possible d)
     \<and> 0 \<le> sgd_points_awarded d \<and> sgd_points_awarded d \<le> sgd_points_possible d"

lemma feature_ok_iff:
  "feature_ok v \<longleftrightarrow> (case fv_source_as_of v of None \<Rightarrow> True | Some t \<Rightarrow> dt_aware t)
     \<and> (fv_status v = FS_VALID \<longrightarrow> fv_value v \<noteq> None)
     \<and> (fv_status v \<noteq> FS_VALID \<longrightarrow> \<not> falsy_text (fv_reason v))"
  unfolding feature_ok_def feature_value_post_init_def require_all_Inr by simp

lemma evidence_status_VALID [simp]: "evidence_of_feature_status x = EV_VALID \<longleftrightarrow> x = FS_VALID"
  by (cases x) simp_all

lemma weights_ok_rule:
  assumes "weights_ok ws rules" and "r \<in> set rules"
  obtains p where "weight_of ws r = Inr p" "0 \<le> p" "\<not> blank r"
proof -
  have "List.member (map ew_rule ws) r" using assms by (auto simp: weights_ok_def list_all_iff)
  then obtain w where w: "w \<in> set ws" "ew_rule w = r" by auto
  have d: "distinct (map ew_rule ws)" using assms(1) by (simp add: weights_ok_def)
  have "evidence_weight_post_init w = Inr ()"
    using assms(1) w by (simp add: weights_ok_def list_all_iff)
  then have "0 \<le> ew_points w" "\<not> blank r"
    unfolding evidence_weight_post_init_def require_all_Inr using w by simp_all
  then show thesis using that weight_of_Inr [OF d, of r "ew_points w"] w by blast
qed

lemma detail_for_feature_ok:
  assumes "feature_ok v" and "0 \<le> points" and "\<not> blank rule"
    and "fv_status v = FS_VALID \<longrightarrow> (\<exists>b. map_option pred (fv_value v) = Some (Inr b))"
  shows "\<exists>d. detail_for_feature rule v points t pred = Inr d \<and> sgd_rule d = rule
     \<and> sgd_points_possible d = points \<and> 0 \<le> sgd_points_awarded d \<and> sgd_points_awarded d \<le> points"
  using assms
  by (auto simp: detail_for_feature_def make_detail_def signal_detail_post_init_def feature_ok_iff
      split: option.split)

lemma weighed_detail_ok:
  assumes "weights_ok ws rules" and "rule \<in> set rules" and "feature_ok v"
    and "fv_status v = FS_VALID \<longrightarrow> (\<exists>b. map_option pred (fv_value v) = Some (Inr b))"
  shows "\<exists>d. weighed_detail ws rule v t pred = Inr d \<and> detail_of ws rule d"
proof -
  obtain p where p: "weight_of ws rule = Inr p" "0 \<le> p" "\<not> blank rule"
    by (rule weights_ok_rule [OF assms(1,2)])
  show ?thesis
    using detail_for_feature_ok [OF assms(3) p(2,3) assms(4)] p(1)
    by (auto simp: weighed_detail_def detail_of_def)
qed

lemma make_detail_ok:
  assumes "\<not> blank (sgd_rule d)"
    and "0 \<le> sgd_points_awarded d" and "sgd_points_awarded d \<le> sgd_points_possible d"
    and "case sgd_source_as_of d of None \<Rightarrow> True | Some t \<Rightarrow> dt_aware t"
    and "sgd_status d = EV_VALID \<Longrightarrow> sgd_passed d \<noteq> None"
    and "sgd_status d \<noteq> EV_VALID \<Longrightarrow> \<not> falsy_text (sgd_missing_reason d)"
  shows "make_detail d = Inr d"
proof -
  have "signal_detail_post_init d = Inr ()"
    unfolding signal_detail_post_init_def require_all_Inr using assms by simp
  then show ?thesis by (simp add: make_detail_def)
qed

lemma external_ratio_ok:
  assumes "decimal_ok current" and "decimal_ok previous" and "feature_ok rising" and "0 \<le> points"
    and "\<not> blank ''external_ratio_rising''"
  shows "\<exists>d. external_ratio_detail current previous rising points t = Inr d
     \<and> sgd_rule d = ''external_ratio_rising'' \<and> sgd_points_possible d = points
     \<and> 0 \<le> sgd_points_awarded d \<and> sgd_points_awarded d \<le> points"
proof (cases "find (\<lambda>i. fv_status i \<noteq> FS_VALID) [current, previous, rising]")
  case None
  then have "fv_status current = FS_VALID" "fv_status previous = FS_VALID"
    by (simp_all split: if_splits)
  then obtain c p where v: "fv_value current = Some (FDec c)" "fv_value previous = Some (FDec p)"
    using assms(1,2) by (auto simp: decimal_ok_def split: option.splits feature_scalar.splits)
  have a: "case fv_source_as_of current of None \<Rightarrow> True | Some t \<Rightarrow> dt_aware t"
    using assms(1) by (simp add: decimal_ok_def feature_ok_iff)
  show ?thesis
    unfolding external_ratio_detail_def None option.case v prod.case feature_scalar.case Let_def
    by (subst make_detail_ok) (use assms(4,5) a in simp_all)
next
  case (Some u)
  then have u: "fv_status u \<noteq> FS_VALID" "u \<in> {current, previous, rising}"
    by (auto split: if_splits)
  then have "feature_ok u" using assms(1-3) by (auto simp: decimal_ok_def)
  with u(1) have r: "\<not> falsy_text (fv_reason u)"
      "case fv_source_as_of u of None \<Rightarrow> True | Some t \<Rightarrow> dt_aware t"
    by (simp_all add: feature_ok_iff)
  show ?thesis
    unfolding external_ratio_detail_def Some option.case
    by (subst make_detail_ok) (use assms(4,5) r u(1) in simp_all)
qed

lemma weighed_ratio_ok:
  assumes "weights_ok ws rules" and "''external_ratio_rising'' \<in> set rules" and "evaluable s"
  shows "\<exists>d. weighed_ratio ws s t = Inr d \<and> detail_of ws ''external_ratio_rising'' d"
proof -
  obtain p where p: "weight_of ws ''external_ratio_rising'' = Inr p" "0 \<le> p"
      "\<not> blank ''external_ratio_rising''"
    by (rule weights_ok_rule [OF assms(1,2)])
  have e: "decimal_ok (fs_external_ratio_session s)" "decimal_ok (fs_external_ratio_session_2m_ago s)"
      "feature_ok (fs_external_ratio_rising s)"
    using assms(3) by (simp_all add: evaluable_def)
  show ?thesis
    unfolding weighed_ratio_def p(1) sum.case
    using external_ratio_ok [OF e p(2,3), of t] p(1) by (auto simp: detail_of_def)
qed

lemma is_true_ok: "feature_ok v \<Longrightarrow> fv_status v = FS_VALID \<longrightarrow>
    (\<exists>b. map_option value_is_true (fv_value v) = Some (Inr b))"
  by (auto simp: feature_ok_iff value_is_true_def)

lemma at_least_ok: "numeric_ok v \<Longrightarrow> fv_status v = FS_VALID \<longrightarrow>
    (\<exists>b. map_option (at_least t) (fv_value v) = Some (Inr b))"
  by (auto simp: numeric_ok_def at_least_def is_ok_iff split: option.splits)

lemma at_most_ok: "numeric_ok v \<Longrightarrow> fv_status v = FS_VALID \<longrightarrow>
    (\<exists>b. map_option (at_most t) (fv_value v) = Some (Inr b))"
  by (auto simp: numeric_ok_def at_most_def is_ok_iff split: option.splits)

lemma rmap_id_Inr:
  assumes "list_all2 (\<lambda>r q. \<exists>d. r = Inr d \<and> Q q d) rs qs"
  shows "\<exists>ds. rmap id rs = Inr ds \<and> list_all2 Q qs ds"
  using assms by (induction rule: list_all2_induct) auto

lemma limit_up_details_ok:
  assumes "weights_ok (lu_weights c) LIMIT_UP_RULES" and "evaluable s"
  shows "\<exists>ds. limit_up_details c s = Inr ds \<and> list_all2 (detail_of (lu_weights c)) LIMIT_UP_RULES ds"
proof -
  note w = weighed_detail_ok [OF assms(1)] and r = weighed_ratio_ok [OF assms(1) _ assms(2)]
  have f: "feature_ok (fs_return_2m s)" "feature_ok (fs_distance_to_limit s)"
      "feature_ok (fs_volume_acceleration_2m s)"
    using assms(2) by (simp_all add: evaluable_def numeric_ok_def)
  note e = assms(2) [unfolded evaluable_def]
  show ?thesis
    unfolding limit_up_details_def
    by (rule rmap_id_Inr, unfold LIMIT_UP_RULES_def, simp only: list_all2_Cons list_all2_Nil, intro conjI)
      (use e f in \<open>auto intro!: w r is_true_ok at_least_ok at_most_ok simp: LIMIT_UP_RULES_def\<close>)
qed

lemma opening_details_ok:
  assumes "weights_ok (op_weights c) OPENING_RULES" and "evaluable s"
  shows "\<exists>ds. opening_details c s = Inr ds \<and> list_all2 (detail_of (op_weights c)) OPENING_RULES ds"
proof -
  note w = weighed_detail_ok [OF assms(1)] and r = weighed_ratio_ok [OF assms(1) _ assms(2)]
  have f: "feature_ok (fs_return_2m s)" "feature_ok (fs_distance_to_limit s)"
      "feature_ok (fs_opening_volume_context s)"
    using assms(2) by (simp_all add: evaluable_def numeric_ok_def)
  note e = assms(2) [unfolded evaluable_def]
  show ?thesis
    unfolding opening_details_def
    by (rule rmap_id_Inr, unfold OPENING_RULES_def, simp only: list_all2_Cons list_all2_Nil, intro conjI)
      (use e f in \<open>auto intro!: w r is_true_ok at_least_ok at_most_ok simp: OPENING_RULES_def\<close>)
qed

lemma sum_list_mono2:
  fixes f g :: "'a \<Rightarrow> int"
  shows "list_all (\<lambda>d. f d \<le> g d) ds \<Longrightarrow> sum_list (map f ds) \<le> sum_list (map g ds)"
  by (induction ds) auto

lemma details_score:
  assumes "weights_ok ws rules" and "distinct rules" and "list_all2 (detail_of ws) rules ds"
    and "score_details ds = (score, passed, coverage)"
  shows "0 \<le> score" and "score \<le> evidence_max_score ws"
    and "0 \<le> passed" and "passed \<le> int (length ds)" and "0 \<le> coverage" and "coverage \<le> 1"
proof -
  have d: "distinct (map ew_rule ws)" and w: "list_all (\<lambda>w. evidence_weight_post_init w = Inr ()) ws"
    using assms(1) by (simp_all add: weights_ok_def)
  have nonneg: "\<forall>w \<in> set ws. 0 \<le> ew_points w"
  proof
    fix v assume "v \<in> set ws"
    then have "evidence_weight_post_init v = Inr ()" using w by (simp add: list_all_iff)
    then show "0 \<le> ew_points v" unfolding evidence_weight_post_init_def require_all_Inr by simp
  qed
  have ps: "list_all2 (\<lambda>r p. weight_of ws r = Inr p) rules (map sgd_points_possible ds)"
    using assms(3) by (induction rule: list_all2_induct) (simp_all add: detail_of_def)
  have awarded: "list_all (\<lambda>d. 0 \<le> sgd_points_awarded d \<and> sgd_points_awarded d \<le> sgd_points_possible d) ds"
    using assms(3) by (induction rule: list_all2_induct) (simp_all add: detail_of_def)
  have s: "score = sum_list (map sgd_points_awarded ds)"
      "passed = int (length (filter (\<lambda>d. sgd_passed d = Some True) ds))"
      "coverage = (if ds = [] then 0
        else of_nat (length (filter (\<lambda>d. sgd_status d = EV_VALID) ds)) / of_nat (length ds))"
    using assms(4) by (simp_all add: score_details_def)
  show "0 \<le> score" using awarded by (auto simp: s list_all_iff intro!: sum_list_nonneg)
  have "score \<le> sum_list (map sgd_points_possible ds)"
    unfolding s(1) using awarded by (intro sum_list_mono2) (auto simp: list_all_iff)
  also have "\<dots> \<le> evidence_max_score ws" by (rule weights_sum_le [OF d nonneg assms(2) ps])
  finally show "score \<le> evidence_max_score ws" .
  show "0 \<le> passed" "passed \<le> int (length ds)" by (simp_all add: s length_filter_le)
  show "0 \<le> coverage" "coverage \<le> 1" by (simp_all add: s divide_le_eq length_filter_le)
qed

lemma component_signals_triggered:
  "component_signals rule family ds True = (primary, components) \<Longrightarrow> primary = family"
  by (auto simp: component_signals_def Let_def)

lemma component_signals_quiet:
  "component_signals rule family ds False = (primary, components) \<Longrightarrow>
     primary \<in> {MS_NONE, MS_BREAKOUT, MS_VOLUME_ACCELERATION, MS_MOMENTUM_ACCELERATION}"
  by (auto simp: component_signals_def Let_def split: if_splits)

lemma component_signals_primary:
  assumes "component_signals rule family ds t = (primary, components)"
    and "family \<in> {MS_OPENING_MOMENTUM, MS_LIMIT_UP_MOMENTUM}"
  shows "primary = family \<longleftrightarrow> t"
proof (cases t)
  case True
  then show ?thesis using assms(1) component_signals_triggered by auto
next
  case False
  then show ?thesis using assms component_signals_quiet [of rule family ds primary components] by auto
qed

text \<open>What a signal of the engine says about its snapshot.\<close>

definition signal_for :: "feature_snapshot \<Rightarrow> signal_result \<Rightarrow> bool" where
  "signal_for s g \<longleftrightarrow> sr_symbol g = fs_symbol s \<and> sr_as_of g = fs_as_of s
     \<and> sr_data_health g = data_health_value (fs_data_health s)
     \<and> signal_result_post_init g = Inr ()"

lemma data_health_not_blank [simp]: "\<not> blank (data_health_value h)"
  by (cases h) (simp_all add: blank_iff py_space_def)

lemma signal_post_init_iff:
  "signal_result_post_init g = Inr () \<longleftrightarrow>
     \<not> blank (sr_symbol g) \<and> \<not> blank (sr_config_version g) \<and> \<not> blank (sr_feature_version g)
     \<and> \<not> blank (sr_data_health g) \<and> dt_aware (sr_as_of g) \<and> 0 < sr_evidence_max_score g
     \<and> (0 \<le> sr_evidence_score g \<and> sr_evidence_score g \<le> sr_evidence_max_score g)
     \<and> (0 \<le> sr_passed_rule_count g \<and> sr_passed_rule_count g \<le> sr_total_rule_count g)
     \<and> (0 \<le> sr_coverage g \<and> sr_coverage g \<le> 1)
     \<and> \<not> (sr_evaluation_status g = SE_TRIGGERED \<and> sr_signal g = MS_NONE)"
  unfolding signal_result_post_init_def require_all_Inr by simp

lemma make_signal_Inr [simp]: "make_signal g = Inr h \<longleftrightarrow> h = g \<and> signal_result_post_init g = Inr ()"
  by (cases "signal_result_post_init g") (auto simp: make_signal_def)

lemma evaluable_fields:
  assumes "evaluable s"
  shows "\<not> blank (fs_symbol s)" and "\<not> blank (fs_feature_version s)" and "dt_aware (fs_as_of s)"
  using assms unfolding evaluable_def feature_snapshot_post_init_def require_all_Inr by simp_all

lemma limit_up_returns:
  assumes "weights_ok (lu_weights c) LIMIT_UP_RULES" and "\<not> blank (fc_version (lu_family c))"
    and "evaluable s"
  shows "\<exists>g. limit_up_evaluate c s = Inr g \<and> signal_for s g"
proof -
  obtain ds where ds: "limit_up_details c s = Inr ds"
      "list_all2 (detail_of (lu_weights c)) LIMIT_UP_RULES ds"
    using limit_up_details_ok [OF assms(1,3)] by blast
  obtain score passed coverage where sc: "score_details ds = (score, passed, coverage)"
    by (cases "score_details ds")
  have "distinct LIMIT_UP_RULES" by (simp add: LIMIT_UP_RULES_def)
  note score = details_score [OF assms(1) this ds(2) sc]
  let ?t = "fs_required_inputs_valid s \<and> lu_trigger_evidence_score c \<le> score
            \<and> fv_value (fs_price_above_vwap s) = Some (FBool True)
            \<and> fv_value (fs_breakout s) = Some (FBool True)"
  obtain primary components where comp:
    "component_signals ''volume_acceleration_2m'' MS_LIMIT_UP_MOMENTUM ds ?t = (primary, components)"
    by force
  have prim: "?t \<Longrightarrow> primary \<noteq> MS_NONE"
    using comp component_signals_triggered [of "''volume_acceleration_2m''" MS_LIMIT_UP_MOMENTUM ds]
    by auto
  have max: "0 < evidence_max_score (lu_weights c)" using assms(1) by (simp add: weights_ok_def)
  show ?thesis
    using score max prim assms(2) evaluable_fields [OF assms(3)]
    by (simp add: limit_up_evaluate_def ds(1) sc comp Let_def signal_for_def signal_post_init_iff)
qed

lemma opening_returns:
  assumes "weights_ok (op_weights c) OPENING_RULES" and "\<not> blank (fc_version (op_family c))"
    and "evaluable s"
  shows "\<exists>g. opening_evaluate c s = Inr g \<and> signal_for s g"
proof -
  obtain ds where ds: "opening_details c s = Inr ds"
      "list_all2 (detail_of (op_weights c)) OPENING_RULES ds"
    using opening_details_ok [OF assms(1,3)] by blast
  obtain score passed coverage where sc: "score_details ds = (score, passed, coverage)"
    by (cases "score_details ds")
  have "distinct OPENING_RULES" by (simp add: OPENING_RULES_def)
  note score = details_score [OF assms(1) this ds(2) sc]
  let ?t = "required_block_reasons c s = [] \<and> op_trigger_evidence_score c \<le> score
            \<and> fv_value (fs_price_above_vwap s) = Some (FBool True)
            \<and> fv_value (fs_breakout s) = Some (FBool True)"
  obtain primary components where comp:
    "component_signals ''opening_volume_context'' MS_OPENING_MOMENTUM ds ?t = (primary, components)"
    by force
  have prim: "?t \<Longrightarrow> primary \<noteq> MS_NONE"
    using comp component_signals_triggered [of "''opening_volume_context''" MS_OPENING_MOMENTUM ds]
    by auto
  have max: "0 < evidence_max_score (op_weights c)" using assms(1) by (simp add: weights_ok_def)
  show ?thesis
    using score max prim assms(2) evaluable_fields [OF assms(3)]
    by (simp add: opening_evaluate_def ds(1) sc comp Let_def signal_for_def signal_post_init_iff)
qed

section \<open>Properties\<close>

lemma signal_engine_returns_for:
  assumes "weights_ok (op_weights oc) OPENING_RULES" and "weights_ok (lu_weights lc) LIMIT_UP_RULES"
    and "\<not> blank (fc_version (op_family oc))" and "\<not> blank (fc_version (lu_family lc))"
    and "evaluable s"
  shows "\<exists>g. signal_engine_evaluate oc lc s = Inr g \<and> signal_for s g"
proof -
  have max: "0 < evidence_max_score (op_weights oc)" using assms(1) by (simp add: weights_ok_def)
  show ?thesis
    using limit_up_returns [OF assms(2,4,5)] opening_returns [OF assms(1,3,5)] max assms(3)
      evaluable_fields [OF assms(5)]
    by (simp add: signal_engine_evaluate_def Let_def signal_for_def signal_post_init_iff)
qed

text \<open>
  C29. For configurations with a weight for every rule, distinct and not negative, the signal engine
  returns on every well-formed snapshot, and its evidence stays in range:
  the score lies between 0 and the sum of all weights, the passed rules between 0 and their
  number, the coverage between 0 and 1.
\<close>

theorem signal_evidence_in_range:
  assumes "weights_ok (op_weights oc) OPENING_RULES" and "weights_ok (lu_weights lc) LIMIT_UP_RULES"
    and "\<not> blank (fc_version (op_family oc))" and "\<not> blank (fc_version (lu_family lc))"
    and "evaluable s"
  shows "\<exists>g. signal_engine_evaluate oc lc s = Inr g
     \<and> sr_symbol g = fs_symbol s \<and> sr_as_of g = fs_as_of s
     \<and> 0 \<le> sr_evidence_score g \<and> sr_evidence_score g \<le> sr_evidence_max_score g
     \<and> 0 \<le> sr_passed_rule_count g \<and> sr_passed_rule_count g \<le> sr_total_rule_count g
     \<and> 0 \<le> sr_coverage g \<and> sr_coverage g \<le> 1"
  using signal_engine_returns_for [OF assms] by (auto simp: signal_for_def signal_post_init_iff)

lemma limit_up_triggered:
  assumes "limit_up_evaluate c s = Inr g"
  shows "(sr_momentum_acceleration_confirmed g \<longleftrightarrow> sr_signal g \<in> set (fc_acceleration_signals (lu_family c)))
     \<and> (sr_signal g = MS_LIMIT_UP_MOMENTUM \<longleftrightarrow> sr_evaluation_status g = SE_TRIGGERED)
     \<and> (sr_evaluation_status g = SE_TRIGGERED \<longleftrightarrow> fs_required_inputs_valid s
          \<and> lu_trigger_evidence_score c \<le> sr_evidence_score g
          \<and> fv_value (fs_price_above_vwap s) = Some (FBool True)
          \<and> fv_value (fs_breakout s) = Some (FBool True))"
proof -
  obtain ds score passed coverage where d: "limit_up_details c s = Inr ds"
    "score_details ds = (score, passed, coverage)"
    using assms(1) by (cases "limit_up_details c s"; cases "score_details (projr (limit_up_details c s))")
      (auto simp: limit_up_evaluate_def)
  let ?t = "fs_required_inputs_valid s \<and> lu_trigger_evidence_score c \<le> score
            \<and> fv_value (fs_price_above_vwap s) = Some (FBool True)
            \<and> fv_value (fs_breakout s) = Some (FBool True)"
  obtain primary components where comp:
    "component_signals ''volume_acceleration_2m'' MS_LIMIT_UP_MOMENTUM ds ?t = (primary, components)"
    by force
  have prim: "primary = MS_LIMIT_UP_MOMENTUM \<longleftrightarrow> ?t"
    by (rule component_signals_primary [OF comp]) simp
  have g: "sr_evidence_score g = score" "sr_signal g = primary"
      "sr_momentum_acceleration_confirmed g \<longleftrightarrow> primary \<in> set (fc_acceleration_signals (lu_family c))"
      "sr_evaluation_status g = (if \<not> fs_required_inputs_valid s then SE_INSUFFICIENT_DATA
         else if ?t then SE_TRIGGERED else SE_NOT_TRIGGERED)"
    by (simp_all add: conjunct1 [OF assms(1) [unfolded limit_up_evaluate_def d sum.case prod.case Let_def
        comp make_signal_Inr]] confirms_acceleration_def)
  show ?thesis unfolding g(1-3) prim by (simp add: g(4))
qed

lemma opening_triggered:
  assumes "opening_evaluate c s = Inr g"
  shows "(sr_momentum_acceleration_confirmed g \<longleftrightarrow> sr_signal g \<in> set (fc_acceleration_signals (op_family c)))
     \<and> (sr_signal g = MS_OPENING_MOMENTUM \<longleftrightarrow> sr_evaluation_status g = SE_TRIGGERED)
     \<and> (sr_evaluation_status g = SE_TRIGGERED \<longleftrightarrow> required_block_reasons c s = []
          \<and> op_trigger_evidence_score c \<le> sr_evidence_score g
          \<and> fv_value (fs_price_above_vwap s) = Some (FBool True)
          \<and> fv_value (fs_breakout s) = Some (FBool True))"
proof -
  obtain ds score passed coverage where d: "opening_details c s = Inr ds"
    "score_details ds = (score, passed, coverage)"
    using assms(1) by (cases "opening_details c s"; cases "score_details (projr (opening_details c s))")
      (auto simp: opening_evaluate_def)
  let ?t = "required_block_reasons c s = [] \<and> op_trigger_evidence_score c \<le> score
            \<and> fv_value (fs_price_above_vwap s) = Some (FBool True)
            \<and> fv_value (fs_breakout s) = Some (FBool True)"
  obtain primary components where comp:
    "component_signals ''opening_volume_context'' MS_OPENING_MOMENTUM ds ?t = (primary, components)"
    by force
  have prim: "primary = MS_OPENING_MOMENTUM \<longleftrightarrow> ?t"
    by (rule component_signals_primary [OF comp]) simp
  have g: "sr_evidence_score g = score" "sr_signal g = primary"
      "sr_momentum_acceleration_confirmed g \<longleftrightarrow> primary \<in> set (fc_acceleration_signals (op_family c))"
      "sr_evaluation_status g = (if required_block_reasons c s \<noteq> [] then SE_INSUFFICIENT_DATA
         else if ?t then SE_TRIGGERED else SE_NOT_TRIGGERED)"
    by (simp_all add: conjunct1 [OF assms(1) [unfolded opening_evaluate_def d sum.case prod.case Let_def
        comp make_signal_Inr]] confirms_acceleration_def)
  show ?thesis unfolding g(1-3) prim by (simp add: g(4))
qed

lemma no_block_reasons:
  assumes "required_block_reasons c s = []"
  shows "op_volume_context_mode c \<noteq> None" and "fs_data_health s = DH_HEALTHY"
  using assms by (auto simp: required_block_reasons_def op_runtime_ready_def split: if_splits)

text \<open>The signal a family adds when it triggers, and its configured acceleration set.\<close>

definition in_opening_window :: "feature_snapshot \<Rightarrow> bool" where
  "in_opening_window s \<longleftrightarrow> wall_clock (fs_as_of s) < clock_of 9 10"

definition family_trigger :: "feature_snapshot \<Rightarrow> momentum_signal" where
  "family_trigger s = (if in_opening_window s then MS_OPENING_MOMENTUM else MS_LIMIT_UP_MOMENTUM)"

definition acceleration_set ::
  "opening_config \<Rightarrow> limit_up_config \<Rightarrow> feature_snapshot \<Rightarrow> momentum_signal set" where
  "acceleration_set oc lc s =
     set (fc_acceleration_signals (if in_opening_window s then op_family oc else lu_family lc))"

text \<open>
  C18. Triggers and acceleration, for any configuration. An evaluation triggers exactly in the
  regular session, above the VWAP and in a breakout, with the trigger score of its family reached
  and nothing it requires missing: all required inputs from 09:10 on; in the opening window no
  required block reason, so a configured volume context and healthy data (the unconfigured default
  never triggers there). It triggers exactly when the family's own signal is its primary signal.
  Acceleration is confirmed exactly in the session by a primary signal of the configured
  acceleration set, so where that set is the family's own signal, as in both shipped
  configurations, exactly by a triggered evaluation.
\<close>

theorem acceleration_needs_trigger:
  assumes "signal_engine_evaluate oc lc s = Inr g"
  shows "(sr_evaluation_status g = SE_TRIGGERED \<longleftrightarrow>
          clock_of 9 0 \<le> wall_clock (fs_as_of s)
          \<and> fv_value (fs_price_above_vwap s) = Some (FBool True)
          \<and> fv_value (fs_breakout s) = Some (FBool True)
          \<and> (if in_opening_window s
             then required_block_reasons oc s = [] \<and> op_trigger_evidence_score oc \<le> sr_evidence_score g
             else fs_required_inputs_valid s \<and> lu_trigger_evidence_score lc \<le> sr_evidence_score g))
     \<and> (sr_evaluation_status g = SE_TRIGGERED \<and> in_opening_window s \<longrightarrow>
          op_volume_context_mode oc \<noteq> None \<and> fs_data_health s = DH_HEALTHY)
     \<and> (sr_signal g = family_trigger s \<longleftrightarrow> sr_evaluation_status g = SE_TRIGGERED)
     \<and> (sr_momentum_acceleration_confirmed g \<longleftrightarrow>
          clock_of 9 0 \<le> wall_clock (fs_as_of s) \<and> sr_signal g \<in> acceleration_set oc lc s)
     \<and> (acceleration_set oc lc s = {family_trigger s} \<longrightarrow>
          (sr_momentum_acceleration_confirmed g \<longleftrightarrow> sr_evaluation_status g = SE_TRIGGERED))"
proof -
  consider (early) "wall_clock (fs_as_of s) < clock_of 9 0"
    | (window) "clock_of 9 0 \<le> wall_clock (fs_as_of s)" "in_opening_window s"
    | (later) "clock_of 9 0 \<le> wall_clock (fs_as_of s)" "\<not> in_opening_window s" by linarith
  then show ?thesis
  proof cases
    case early
    then have "sr_evaluation_status g = SE_OUTSIDE_WINDOW \<and> sr_signal g = MS_NONE
        \<and> \<not> sr_momentum_acceleration_confirmed g"
      using assms by (simp add: signal_engine_evaluate_def make_signal_Inr Let_def)
    with early show ?thesis by (simp add: family_trigger_def)
  next
    case window
    then have "opening_evaluate oc s = Inr g"
      using assms by (simp add: signal_engine_evaluate_def in_opening_window_def Let_def)
    from opening_triggered [OF this] no_block_reasons [of oc s] window show ?thesis
      by (auto simp: family_trigger_def acceleration_set_def)
  next
    case later
    then have "limit_up_evaluate lc s = Inr g"
      using assms by (simp add: signal_engine_evaluate_def in_opening_window_def Let_def)
    from limit_up_triggered [OF this] later show ?thesis
      by (auto simp: family_trigger_def acceleration_set_def)
  qed
qed

text \<open>The shipped configurations, on a sample snapshot after 09:10.\<close>

lemma shipped_weights:
  "weights_ok (op_weights OPENING_MOMENTUM_HYPOTHESIS_V0) OPENING_RULES"
  "weights_ok (lu_weights LIMIT_UP_MOMENTUM_HYPOTHESIS_V0) LIMIT_UP_RULES"
  "\<not> blank (fc_version (op_family OPENING_MOMENTUM_HYPOTHESIS_V0))"
  "\<not> blank (fc_version (lu_family LIMIT_UP_MOMENTUM_HYPOTHESIS_V0))"
  by code_simp+

lemma sample_evaluable: "evaluable (example_snapshot 700 101 (1 / 50))"
  by code_simp

theorem signal_evidence_in_range_witness:
  "\<exists>g. signal_engine_evaluate OPENING_MOMENTUM_HYPOTHESIS_V0 LIMIT_UP_MOMENTUM_HYPOTHESIS_V0
      (example_snapshot 700 101 (1 / 50)) = Inr g \<and> sr_evidence_score g \<le> sr_evidence_max_score g"
  using signal_evidence_in_range [OF shipped_weights sample_evaluable] by blast

theorem acceleration_needs_trigger_witness:
  "\<exists>g. signal_engine_evaluate OPENING_MOMENTUM_HYPOTHESIS_V0 LIMIT_UP_MOMENTUM_HYPOTHESIS_V0
      (example_snapshot 700 101 (1 / 50)) = Inr g
    \<and> (sr_momentum_acceleration_confirmed g \<longleftrightarrow> sr_evaluation_status g = SE_TRIGGERED)"
proof -
  obtain g where g: "signal_engine_evaluate OPENING_MOMENTUM_HYPOTHESIS_V0
      LIMIT_UP_MOMENTUM_HYPOTHESIS_V0 (example_snapshot 700 101 (1 / 50)) = Inr g"
    using signal_engine_returns_for [OF shipped_weights sample_evaluable] by blast
  have "acceleration_set OPENING_MOMENTUM_HYPOTHESIS_V0 LIMIT_UP_MOMENTUM_HYPOTHESIS_V0
      (example_snapshot 700 101 (1 / 50)) = {family_trigger (example_snapshot 700 101 (1 / 50))}"
    by (simp add: acceleration_set_def family_trigger_def OPENING_MOMENTUM_HYPOTHESIS_V0_def
        LIMIT_UP_MOMENTUM_HYPOTHESIS_V0_def)
  then show ?thesis using acceleration_needs_trigger [OF g] g by blast
qed

end
