(* ===== verification/Candidate_Pool.thy ===== *)
theory Candidate_Pool
  imports Calendar "HOL-Library.List_Lexorder" "HOL-Library.Char_ord" "HOL-Library.Product_Lexorder"
begin

text \<open>
  Candidate discovery and the candidate pool (\<open>candidate/models.py\<close>, \<open>candidate/sources.py\<close>,
  \<open>candidate/pool.py\<close>, the contracts of \<open>market_data/scanner.py\<close>): the sources that discover
  symbols, the merged pool with its time to live, grace period and admission hysteresis, and the
  order in which its entries are selected. The pool keeps its state between operations; an
  operation returns its result or exception, and the pool it leaves.
\<close>

section \<open>Sources and discoveries\<close>

datatype candidate_source =
    CS_AUTO | CS_SCANNER | CS_PREVIOUS_SESSION_WATCHLIST | CS_MANUAL | CS_POSITION | CS_NEWS
  | CS_USER_STRATEGY

fun candidate_source_value :: "candidate_source \<Rightarrow> string" where
  "candidate_source_value CS_AUTO = ''AUTO''"
| "candidate_source_value CS_SCANNER = ''SCANNER''"
| "candidate_source_value CS_PREVIOUS_SESSION_WATCHLIST = ''PREVIOUS_SESSION_WATCHLIST''"
| "candidate_source_value CS_MANUAL = ''MANUAL''"
| "candidate_source_value CS_POSITION = ''POSITION''"
| "candidate_source_value CS_NEWS = ''NEWS''"
| "candidate_source_value CS_USER_STRATEGY = ''USER_STRATEGY''"

lemma candidate_source_value_inj [simp]:
  "candidate_source_value s = candidate_source_value t \<longleftrightarrow> s = t"
  by (cases s; cases t) simp_all

record contribution_ref =
  cr_source :: candidate_source
  cr_artifact_id :: string
  cr_entry_digest :: string

text \<open>The constructor: a bounded pointer with a trimmed identity and a lowercase digest.\<close>

definition make_contribution_ref ::
  "candidate_source \<Rightarrow> string \<Rightarrow> string \<Rightarrow> contribution_ref res" where
  "make_contribution_ref source artifact digest =
     (if py_strip artifact = []
      then Inl (ValueError ''candidate evidence artifact_id must not be empty'')
      else if \<not> is_sha256 digest
      then Inl (ValueError ''candidate evidence entry_digest must be a lowercase SHA256 digest'')
      else Inr \<lparr>cr_source = source, cr_artifact_id = py_strip artifact, cr_entry_digest = digest\<rparr>)"

definition ref_key :: "contribution_ref \<Rightarrow> string \<times> string \<times> string" where
  "ref_key r = (candidate_source_value (cr_source r), cr_artifact_id r, cr_entry_digest r)"

record candidate_discovery =
  cd_symbol :: string
  cd_source :: candidate_source
  cd_rank_types :: "string list"
  cd_best_rank :: "int option"
  cd_discovered_at :: datetime
  cd_expires_at :: "datetime option"
  cd_priority :: int
  cd_contribution_ref :: "contribution_ref option"
  cd_evidence :: "(string, json) dict"

text \<open>\<open>sorted({... for value in values})\<close>, and the symbols of an active-episode set.\<close>

definition sorted_set :: "('a :: linorder) list \<Rightarrow> 'a list" where
  "sorted_set xs = sort (remdups xs)"

text \<open>\<open>dict.fromkeys\<close>: the first occurrence of each value.\<close>

definition fromkeys :: "'a list \<Rightarrow> 'a list" where
  "fromkeys xs = rev (remdups (rev xs))"

lemma fromkeys_simps [simp]: "set (fromkeys xs) = set xs" "distinct (fromkeys xs)"
  by (simp_all add: fromkeys_def)

lemma fromkeys_distinct: "distinct xs \<Longrightarrow> fromkeys xs = xs"
  by (simp add: fromkeys_def distinct_remdups_id)

lemma sorted_set_simps [simp]: "set (sorted_set xs) = set xs" "distinct (sorted_set xs)"
  by (simp_all add: sorted_set_def)

definition strip_all :: "string list \<Rightarrow> string list" where
  "strip_all xs = filter (\<lambda>v. v \<noteq> []) (map py_strip xs)"

definition normalize_symbols :: "string list \<Rightarrow> string list" where
  "normalize_symbols xs = map py_upper (strip_all xs)"

definition make_discovery :: "candidate_discovery \<Rightarrow> candidate_discovery res" where
  "make_discovery d =
     (let symbol = py_upper (py_strip (cd_symbol d))
      in case require_all
        [(symbol \<noteq> [], ''candidate symbol must not be empty''),
         (dt_aware (cd_discovered_at d), ''candidate discovered_at must be timezone-aware''),
         (case cd_expires_at d of None \<Rightarrow> True | Some t \<Rightarrow> dt_aware t,
          ''candidate expires_at must be timezone-aware''),
         (case cd_expires_at d of None \<Rightarrow> True
            | Some t \<Rightarrow> instant (cd_discovered_at d) \<le> instant t,
          ''candidate expires_at cannot predate discovery''),
         (case cd_best_rank d of None \<Rightarrow> True | Some r \<Rightarrow> 0 < r,
          ''candidate best_rank must be positive''),
         (case cd_contribution_ref d of None \<Rightarrow> True | Some r \<Rightarrow> cr_source r = cd_source d,
          ''candidate contribution reference source mismatch'')] of
        Inl e \<Rightarrow> Inl e
      | Inr _ \<Rightarrow> Inr (d\<lparr>cd_symbol := symbol,
                         cd_rank_types := sorted_set (strip_all (cd_rank_types d))\<rparr>))"

subsection \<open>The discovery sources\<close>

datatype scanner_rank_type = RT_CHANGE_PERCENT | RT_VOLUME | RT_AMOUNT | RT_TICK_COUNT

fun rank_type_value :: "scanner_rank_type \<Rightarrow> string" where
  "rank_type_value RT_CHANGE_PERCENT = ''CHANGE_PERCENT''"
| "rank_type_value RT_VOLUME = ''VOLUME''"
| "rank_type_value RT_AMOUNT = ''AMOUNT''"
| "rank_type_value RT_TICK_COUNT = ''TICK_COUNT''"

record scanner_row =
  sw_symbol :: string
  sw_rank :: int
  sw_fields :: "(string, json) dict"

definition make_scanner_row :: "scanner_row \<Rightarrow> scanner_row res" where
  "make_scanner_row r =
     (let symbol = py_upper (py_strip (sw_symbol r))
      in if symbol = [] then Inl (ValueError ''scanner row symbol must not be empty'')
         else if sw_rank r \<le> 0 then Inl (ValueError ''scanner row rank must be positive'')
         else Inr (r\<lparr>sw_symbol := symbol\<rparr>))"

record scanner_response =
  sp_rank_type :: scanner_rank_type
  sp_observed_at :: datetime
  sp_ascending :: bool
  sp_requested_count :: int
  sp_rows :: "scanner_row list"

definition scanner_response_post_init :: "scanner_response \<Rightarrow> unit res" where
  "scanner_response_post_init r = require_all
     [(dt_aware (sp_observed_at r), ''scanner observed_at must be timezone-aware''),
      (1 \<le> sp_requested_count r \<and> sp_requested_count r \<le> 200,
       ''scanner requested_count must be between 1 and 200'')]"

definition scanner_response_payload :: "scanner_response \<Rightarrow> json" where
  "scanner_response_payload r = JObj
     [(''rank_type'', JStr (rank_type_value (sp_rank_type r))),
      (''observed_at'', JTime (sp_observed_at r)),
      (''ascending'', JBool (sp_ascending r)),
      (''requested_count'', JInt (sp_requested_count r)),
      (''rows'', JList (map (\<lambda>w. JObj
         [(''symbol'', JStr (sw_symbol w)), (''rank'', JInt (sw_rank w)),
          (''fields'', JObj (sort_key fst (sw_fields w)))]) (sp_rows r)))]"

record scanner_source =
  so_rank_types :: "scanner_rank_type list"
  so_count_per_rank :: int
  so_ttl :: int
  so_priority :: int
  so_responses :: "scanner_response list"

definition make_scanner_source ::
  "scanner_rank_type list \<Rightarrow> int \<Rightarrow> int \<Rightarrow> int \<Rightarrow> scanner_source res" where
  "make_scanner_source ranks n ttl priority =
     (case require_all
        [(ranks \<noteq> [], ''at least one Scanner rank type is required''),
         (1 \<le> n \<and> n \<le> 200, ''count_per_rank must be between 1 and 200''),
         (0 < ttl, ''Scanner candidate ttl must be positive'')] of
        Inl e \<Rightarrow> Inl e
      | Inr _ \<Rightarrow> Inr \<lparr>so_rank_types = fromkeys ranks, so_count_per_rank = n,
                      so_ttl = ttl, so_priority = priority, so_responses = []\<rparr>)"

text \<open>\<open>max\<close> and \<open>min\<close> of timestamps: the first of the greatest (least) instants.\<close>

definition latest :: "datetime list \<Rightarrow> datetime" where
  "latest ts = foldl (\<lambda>m t. if instant m < instant t then t else m) (hd ts) (tl ts)"

definition earliest :: "datetime list \<Rightarrow> datetime" where
  "earliest ts = foldl (\<lambda>m t. if instant t < instant m then t else m) (hd ts) (tl ts)"

text \<open>\<open>d.setdefault(key, []).append(value)\<close>.\<close>

definition group_add :: "'k \<Rightarrow> 'v \<Rightarrow> ('k, 'v list) dict \<Rightarrow> ('k, 'v list) dict" where
  "group_add k v d = dset k (dget_or d k [] @ [v]) d"

text \<open>The rows of the eligible symbols, grouped by symbol in the order they were seen.\<close>

definition collect_rows ::
  "(string \<Rightarrow> bool) \<Rightarrow> scanner_response list
     \<Rightarrow> (string, (scanner_response \<times> int \<times> (string, json) dict) list) dict" where
  "collect_rows eligible responses = fold (\<lambda>r d. fold (\<lambda>w d.
       if eligible (sw_symbol w) then group_add (sw_symbol w) (r, sw_rank w, sw_fields w) d else d)
     (sp_rows r) d) responses []"

text \<open>A dict comprehension over the observations: the last value of a key wins.\<close>

definition by_rank_type ::
  "(scanner_response \<times> int \<times> (string, json) dict \<Rightarrow> 'v)
     \<Rightarrow> (scanner_response \<times> int \<times> (string, json) dict) list \<Rightarrow> (string, 'v) dict" where
  "by_rank_type f obs = fold (\<lambda>x. dset (rank_type_value (sp_rank_type (fst x))) (f x)) obs []"

definition scanner_discovery ::
  "(json \<Rightarrow> string) \<Rightarrow> scanner_source
     \<Rightarrow> string \<times> (scanner_response \<times> int \<times> (string, json) dict) list \<Rightarrow> candidate_discovery res" where
  "scanner_discovery sha s g =
     (let obs = snd g;
          discovered_at = latest (map (\<lambda>x. sp_observed_at (fst x)) obs);
          ranks = by_rank_type (\<lambda>x. fst (snd x)) obs
      in make_discovery \<lparr>cd_symbol = fst g, cd_source = CS_SCANNER,
           cd_rank_types = map fst ranks, cd_best_rank = Some (Min (set (map snd ranks))),
           cd_discovered_at = discovered_at, cd_expires_at = Some (dt_plus discovered_at (so_ttl s)),
           cd_priority = so_priority s, cd_contribution_ref = None,
           cd_evidence =
             [(''rank_by_type'', JObj (map (\<lambda>(k, v). (k, JInt v)) ranks)),
              (''response_digests'', JObj (map (\<lambda>(k, v). (k, JStr v))
                 (by_rank_type (\<lambda>x. sha (scanner_response_payload (fst x))) obs))),
              (''scanner_fields'', JObj (map (\<lambda>(k, v). (k, JObj v))
                 (by_rank_type (\<lambda>x. snd (snd x)) obs)))]\<rparr>)"

text \<open>
  One scan per rank type; the client's answer is the parameter \<open>scan\<close>. The responses are kept
  before the discoveries are built.
\<close>

definition scanner_discover ::
  "(json \<Rightarrow> string) \<Rightarrow> (scanner_rank_type \<Rightarrow> int \<Rightarrow> scanner_response res) \<Rightarrow> (string \<Rightarrow> bool)
     \<Rightarrow> scanner_source \<Rightarrow> candidate_discovery list res \<times> scanner_source" where
  "scanner_discover sha scan eligible s =
     (case rmap (\<lambda>r. scan r (so_count_per_rank s)) (so_rank_types s) of
        Inl e \<Rightarrow> (Inl e, s)
      | Inr responses \<Rightarrow>
          (case rmap (scanner_discovery sha s) (collect_rows eligible responses) of
             Inl e \<Rightarrow> Inl e
           | Inr ds \<Rightarrow> Inr (sort_key cd_symbol ds),
           s\<lparr>so_responses := so_responses s @ responses\<rparr>))"

record candidate =
  ca_symbol :: string
  ca_sources :: "candidate_source list"
  ca_matched_rules :: "string list"

definition auto_discover ::
  "int \<Rightarrow> int \<Rightarrow> candidate list \<Rightarrow> datetime \<Rightarrow> candidate_discovery list res" where
  "auto_discover ttl priority candidates observed_at =
     (if \<not> dt_aware observed_at then Inl (ValueError ''AUTO observed_at must be timezone-aware'')
      else
      case rmap (\<lambda>c. make_discovery \<lparr>cd_symbol = ca_symbol c, cd_source = CS_AUTO,
             cd_rank_types = ca_matched_rules c, cd_best_rank = None,
             cd_discovered_at = observed_at, cd_expires_at = Some (dt_plus observed_at ttl),
             cd_priority = priority, cd_contribution_ref = None,
             cd_evidence = [(''matched_rules'', JList (map JStr (ca_matched_rules c)))]\<rparr>)
           (filter (\<lambda>c. List.member (ca_sources c) CS_AUTO) candidates) of
        Inl e \<Rightarrow> Inl e
      | Inr ds \<Rightarrow> Inr (sort_key cd_symbol ds))"

definition permanent_discoveries ::
  "string list \<Rightarrow> datetime \<Rightarrow> candidate_source \<Rightarrow> int \<Rightarrow> candidate_discovery list res" where
  "permanent_discoveries symbols observed_at source priority =
     (if \<not> dt_aware observed_at
      then Inl (ValueError (candidate_source_value source @ '' observed_at must be timezone-aware''))
      else rmap (\<lambda>symbol. make_discovery \<lparr>cd_symbol = symbol, cd_source = source,
             cd_rank_types = [], cd_best_rank = None, cd_discovered_at = observed_at,
             cd_expires_at = None, cd_priority = priority, cd_contribution_ref = None,
             cd_evidence = []\<rparr>)
           (sorted_set (normalize_symbols symbols)))"

definition manual_discover where
  "manual_discover priority symbols observed_at =
     permanent_discoveries symbols observed_at CS_MANUAL priority"

definition position_discover where
  "position_discover priority symbols observed_at =
     permanent_discoveries symbols observed_at CS_POSITION priority"

section \<open>The pool\<close>

record pool_config =
  po_version :: string
  po_grace_period :: int
  po_scanner_min_observations :: int

definition pool_config_post_init :: "pool_config \<Rightarrow> unit res" where
  "pool_config_post_init c = require_all
     [(\<not> blank (po_version c), ''CandidatePool config version must not be empty''),
      (0 \<le> po_grace_period c, ''CandidatePool grace_period cannot be negative''),
      (0 < po_scanner_min_observations c, ''scanner_min_observations must be positive'')]"

record pool_entry =
  pe_symbol :: string
  pe_sources :: "candidate_source list"
  pe_rank_types :: "string list"
  pe_best_rank :: "int option"
  pe_first_discovered_at :: datetime
  pe_last_discovered_at :: datetime
  pe_expires_at :: "datetime option"
  pe_priority :: int
  pe_scanner_observations :: int
  pe_admitted :: bool
  pe_in_grace :: bool
  pe_pinned :: bool
  pe_active_episode :: bool
  pe_contribution_refs :: "contribution_ref list"

definition pe_protected :: "pool_entry \<Rightarrow> bool" where
  "pe_protected e \<longleftrightarrow> pe_pinned e \<or> pe_active_episode e"

text \<open>
  The key compares \<open>timestamp()\<close> in binary floating point; for times between 1970 and 2255 distinct
  microseconds have distinct floats, so the order is that of the instants.
\<close>

definition selection_key :: "pool_entry \<Rightarrow> int \<times> int \<times> int \<times> int \<times> int \<times> string" where
  "selection_key e =
     (if pe_protected e then 0 else 1, - pe_priority e,
      case pe_best_rank e of Some r \<Rightarrow> r | None \<Rightarrow> 2147483648,
      if pe_in_grace e then 1 else 0, - instant (pe_last_discovered_at e), pe_symbol e)"

record pool_decision =
  pd_evaluated_at :: datetime
  pd_config_version :: string
  pd_entries :: "pool_entry list"
  pd_admitted_symbols :: "string list"
  pd_pending_symbols :: "string list"
  pd_expired_symbols :: "string list"

definition pool_entry_payload :: "pool_entry \<Rightarrow> json" where
  "pool_entry_payload e = JObj
     [(''symbol'', JStr (pe_symbol e)),
      (''sources'', JList (map (JStr \<circ> candidate_source_value) (pe_sources e))),
      (''rank_types'', JList (map JStr (pe_rank_types e))),
      (''best_rank'', jopt JInt (pe_best_rank e)),
      (''first_discovered_at'', JTime (pe_first_discovered_at e)),
      (''last_discovered_at'', JTime (pe_last_discovered_at e)),
      (''expires_at'', jopt JTime (pe_expires_at e)),
      (''priority'', JInt (pe_priority e)),
      (''scanner_observations'', JInt (pe_scanner_observations e)),
      (''admitted'', JBool (pe_admitted e)), (''in_grace'', JBool (pe_in_grace e)),
      (''pinned'', JBool (pe_pinned e)), (''active_episode'', JBool (pe_active_episode e)),
      (''contribution_refs'', JList (map (\<lambda>r. JObj
         [(''source'', JStr (candidate_source_value (cr_source r))),
          (''artifact_id'', JStr (cr_artifact_id r)),
          (''entry_digest'', JStr (cr_entry_digest r))]) (pe_contribution_refs e)))]"

definition pool_decision_digest :: "(json \<Rightarrow> string) \<Rightarrow> pool_decision \<Rightarrow> string" where
  "pool_decision_digest sha d = sha (JObj
     [(''evaluated_at'', JTime (pd_evaluated_at d)),
      (''config_version'', JStr (pd_config_version d)),
      (''entries'', JList (map pool_entry_payload (pd_entries d))),
      (''admitted_symbols'', JList (map JStr (pd_admitted_symbols d))),
      (''pending_symbols'', JList (map JStr (pd_pending_symbols d))),
      (''expired_symbols'', JList (map JStr (pd_expired_symbols d)))])"

record contribution =
  co_discovery :: candidate_discovery
  co_first_discovered_at :: datetime
  co_last_discovered_at :: datetime
  co_observation_count :: int

type_synonym contribution_key = "string \<times> candidate_source"

record candidate_pool =
  cp_config :: pool_config
  cp_contributions :: "(contribution_key, contribution) dict"
  cp_visible_symbols :: "string list"
  cp_decisions :: "pool_decision list"

definition new_pool :: "pool_config \<Rightarrow> candidate_pool" where
  "new_pool c = \<lparr>cp_config = c, cp_contributions = [], cp_visible_symbols = [], cp_decisions = []\<rparr>"

definition PINNED_SOURCES :: "candidate_source list" where
  "PINNED_SOURCES = [CS_MANUAL, CS_POSITION]"

definition co_source :: "contribution \<Rightarrow> candidate_source" where
  "co_source x = cd_source (co_discovery x)"

definition co_expires :: "contribution list \<Rightarrow> datetime list" where
  "co_expires xs = List.map_filter (\<lambda>x. cd_expires_at (co_discovery x)) xs"

definition scanner_count :: "contribution list \<Rightarrow> int" where
  "scanner_count xs =
     (case map co_observation_count (filter (\<lambda>x. co_source x = CS_SCANNER) xs) of
        [] \<Rightarrow> 0 | n # ns \<Rightarrow> Max (set (n # ns)))"

definition build_entry ::
  "pool_config \<Rightarrow> string \<Rightarrow> contribution list \<Rightarrow> datetime \<Rightarrow> string list \<Rightarrow> pool_entry" where
  "build_entry c symbol xs evaluated_at active =
     (let sources = sort_key candidate_source_value (remdups (map co_source xs));
          ranks = List.map_filter (\<lambda>x. cd_best_rank (co_discovery x)) xs;
          observations = scanner_count xs;
          pinned = list_ex (List.member PINNED_SOURCES) sources;
          active_episode = List.member active symbol;
          immediate = list_ex (\<lambda>s. s \<noteq> CS_SCANNER) sources;
          expiring = co_expires xs;
          permanent = list_ex (\<lambda>x. cd_expires_at (co_discovery x) = None) xs
      in \<lparr>pe_symbol = symbol, pe_sources = sources,
          pe_rank_types = sorted_set (concat (map (\<lambda>x. cd_rank_types (co_discovery x)) xs)),
          pe_best_rank = (if ranks = [] then None else Some (Min (set ranks))),
          pe_first_discovered_at = earliest (map co_first_discovered_at xs),
          pe_last_discovered_at = latest (map co_last_discovered_at xs),
          pe_expires_at = (if permanent then None else Some (latest expiring)),
          pe_priority = Max (set (map (\<lambda>x. cd_priority (co_discovery x)) xs)),
          pe_scanner_observations = observations,
          pe_admitted = (pinned \<or> active_episode \<or> immediate
            \<or> po_scanner_min_observations c \<le> observations),
          pe_in_grace = (\<not> permanent \<and> expiring \<noteq> []
            \<and> list_all (\<lambda>t. instant t < instant evaluated_at) expiring),
          pe_pinned = pinned, pe_active_episode = active_episode,
          pe_contribution_refs = sort_key ref_key
            (remdups (List.map_filter (\<lambda>x. cd_contribution_ref (co_discovery x)) xs))\<rparr>)"

text \<open>A contribution is visible until its expiry and the grace period have passed.\<close>

definition contribution_visible ::
  "pool_config \<Rightarrow> string list \<Rightarrow> datetime \<Rightarrow> contribution \<Rightarrow> bool" where
  "contribution_visible c active evaluated_at x \<longleftrightarrow>
     (case cd_expires_at (co_discovery x) of None \<Rightarrow> True
      | Some t \<Rightarrow> instant evaluated_at \<le> instant t + po_grace_period c
                  \<or> List.member active (cd_symbol (co_discovery x)))"

definition visible_groups ::
  "candidate_pool \<Rightarrow> string list \<Rightarrow> datetime \<Rightarrow> (string, contribution list) dict" where
  "visible_groups p active evaluated_at =
     fold (\<lambda>kx. group_add (cd_symbol (co_discovery (snd kx))) (snd kx))
       (filter (\<lambda>kx. contribution_visible (cp_config p) active evaluated_at (snd kx))
         (cp_contributions p)) []"

definition not_aware :: pyerr where
  "not_aware = ValueError ''CandidatePool evaluated_at must be timezone-aware''"

definition pool_evaluate ::
  "candidate_pool \<Rightarrow> datetime \<Rightarrow> string list \<Rightarrow> pool_decision res \<times> candidate_pool" where
  "pool_evaluate p evaluated_at active_symbols =
     (if \<not> dt_aware evaluated_at then (Inl not_aware, p)
      else
      let active = normalize_symbols active_symbols;
          entries = sort_key selection_key
            (map (\<lambda>(symbol, xs). build_entry (cp_config p) symbol xs evaluated_at active)
              (visible_groups p active evaluated_at));
          visible = map pe_symbol entries;
          d = \<lparr>pd_evaluated_at = evaluated_at, pd_config_version = po_version (cp_config p),
               pd_entries = entries,
               pd_admitted_symbols = map pe_symbol (filter pe_admitted entries),
               pd_pending_symbols = map pe_symbol (filter (\<lambda>e. \<not> pe_admitted e) entries),
               pd_expired_symbols =
                 sort (filter (\<lambda>s. \<not> List.member visible s) (cp_visible_symbols p))\<rparr>
      in (Inr d,
          p\<lparr>cp_contributions := filter
              (\<lambda>kx. contribution_visible (cp_config p) active evaluated_at (snd kx))
              (cp_contributions p),
            cp_visible_symbols := visible, cp_decisions := cp_decisions p @ [d]\<rparr>))"

text \<open>
  One discovery: an old or repeated observation is skipped, one after the expiry and grace of the
  previous observation starts a new count.
\<close>

definition observe :: "pool_config \<Rightarrow> contribution option \<Rightarrow> candidate_discovery \<Rightarrow> contribution" where
  "observe c previous d =
     (let fresh = \<lparr>co_discovery = d, co_first_discovered_at = cd_discovered_at d,
                   co_last_discovered_at = cd_discovered_at d, co_observation_count = 1\<rparr>
      in case previous of None \<Rightarrow> fresh
         | Some x \<Rightarrow>
             if (case cd_expires_at (co_discovery x) of None \<Rightarrow> False
                 | Some t \<Rightarrow> instant t + po_grace_period c < instant (cd_discovered_at d))
             then fresh
             else fresh\<lparr>co_observation_count := co_observation_count x + 1,
                        co_first_discovered_at := co_first_discovered_at x\<rparr>)"

definition discovery_key :: "candidate_discovery \<Rightarrow> contribution_key" where
  "discovery_key d = (cd_symbol d, cd_source d)"

definition stale_discovery :: "contribution option \<Rightarrow> candidate_discovery \<Rightarrow> bool" where
  "stale_discovery previous d \<longleftrightarrow>
     (case previous of None \<Rightarrow> False
      | Some x \<Rightarrow> instant (cd_discovered_at d) \<le> instant (co_last_discovered_at x))"

fun ingest_all ::
  "datetime \<Rightarrow> candidate_discovery list \<Rightarrow> candidate_pool \<Rightarrow> unit res \<times> candidate_pool" where
  "ingest_all evaluated_at [] p = (Inr (), p)"
| "ingest_all evaluated_at (d # ds) p =
     (if instant evaluated_at < instant (cd_discovered_at d)
      then (Inl (ValueError ''candidate discovery cannot be in the future''), p)
      else
      let previous = dget (cp_contributions p) (discovery_key d)
      in ingest_all evaluated_at ds
        (if stale_discovery previous d then p
         else p\<lparr>cp_contributions :=
                dset (discovery_key d) (observe (cp_config p) previous d) (cp_contributions p)\<rparr>))"

definition discovery_order :: "candidate_discovery \<Rightarrow> int \<times> string \<times> string" where
  "discovery_order d =
     (instant (cd_discovered_at d), cd_symbol d, candidate_source_value (cd_source d))"

definition pool_ingest ::
  "candidate_pool \<Rightarrow> candidate_discovery list \<Rightarrow> datetime \<Rightarrow> string list
     \<Rightarrow> pool_decision res \<times> candidate_pool" where
  "pool_ingest p discoveries evaluated_at active =
     (if \<not> dt_aware evaluated_at then (Inl not_aware, p)
      else
      case ingest_all evaluated_at (sort_key discovery_order discoveries) p of
        (Inl e, q) \<Rightarrow> (Inl e, q)
      | (Inr _, q) \<Rightarrow> pool_evaluate q evaluated_at active)"

definition pool_withdraw ::
  "candidate_pool \<Rightarrow> string \<Rightarrow> candidate_source \<Rightarrow> datetime \<Rightarrow> string list
     \<Rightarrow> pool_decision res \<times> candidate_pool" where
  "pool_withdraw p symbol source evaluated_at active =
     (if \<not> dt_aware evaluated_at then (Inl not_aware, p)
      else pool_evaluate
        (p\<lparr>cp_contributions := dpop (py_upper (py_strip symbol), source) (cp_contributions p)\<rparr>)
        evaluated_at active)"

section \<open>Groups\<close>

lemma dget_or_group_add:
  "dget_or (group_add k v d) s [] = dget_or d s [] @ (if s = k then [v] else [])"
  by (simp add: group_add_def)

lemma dget_or_groups:
  "dget_or (fold (\<lambda>x. group_add (f x) (g x)) l d) s [] = dget_or d s [] @ map g (filter (\<lambda>x. f x = s) l)"
  by (induction l arbitrary: d) (auto simp: dget_or_group_add)

lemma distinct_groups:
  "distinct (map fst d) \<Longrightarrow> distinct (map fst (fold (\<lambda>x. group_add (f x) (g x)) l d))"
  by (induction l arbitrary: d) (simp_all add: group_add_def distinct_update)

lemma groups_keys:
  "fst ` set (fold (\<lambda>x. group_add (f x) (g x)) l d) = fst ` set d \<union> f ` set l"
  by (induction l arbitrary: d) (auto simp: group_add_def dom_update)

lemma dget_or_member: "distinct (map fst d) \<Longrightarrow> (s, xs) \<in> set d \<Longrightarrow> dget_or d s [] = xs"
  by (simp add: dget_or_def)

definition visible_of ::
  "candidate_pool \<Rightarrow> string list \<Rightarrow> datetime \<Rightarrow> string \<Rightarrow> contribution list" where
  "visible_of p active t s =
     map snd (filter (\<lambda>kx. cd_symbol (co_discovery (snd kx)) = s
       \<and> contribution_visible (cp_config p) active t (snd kx)) (cp_contributions p))"

lemma visible_groups_distinct: "distinct (map fst (visible_groups p active t))"
  unfolding visible_groups_def by (rule distinct_groups) simp

lemma visible_groups_get: "dget_or (visible_groups p active t) s [] = visible_of p active t s"
  unfolding visible_groups_def dget_or_groups
  by (simp add: dget_or_def visible_of_def conj_commute)

lemma visible_groups_member:
  "(s, xs) \<in> set (visible_groups p active t) \<Longrightarrow> xs = visible_of p active t s"
  using dget_or_member [OF visible_groups_distinct] visible_groups_get by metis

lemma visible_groups_keys:
  "s \<in> fst ` set (visible_groups p active t) \<longleftrightarrow> visible_of p active t s \<noteq> []"
  unfolding visible_groups_def groups_keys visible_of_def
  by (force simp: filter_empty_conv)

lemma build_entry_symbol [simp]: "pe_symbol (build_entry c s xs t active) = s"
  by (simp add: build_entry_def Let_def)

definition entry_of :: "candidate_pool \<Rightarrow> string list \<Rightarrow> datetime \<Rightarrow> string \<Rightarrow> pool_entry" where
  "entry_of p active t s = build_entry (cp_config p) s (visible_of p active t s) t active"

text \<open>The entries of a decision: one per symbol that has a visible contribution.\<close>

lemma pool_evaluate_entries:
  assumes "pool_evaluate p t act = (Inr d, q)"
  shows "pd_entries d = sort_key selection_key (map (entry_of p (normalize_symbols act) t)
     (map fst (visible_groups p (normalize_symbols act) t)))"
    and "cp_decisions q = cp_decisions p @ [d]" and "cp_config q = cp_config p"
    and "cp_contributions q = filter (\<lambda>kx. contribution_visible (cp_config p)
       (normalize_symbols act) t (snd kx)) (cp_contributions p)"
proof -
  have "map (\<lambda>(s, xs). build_entry (cp_config p) s xs t a) (visible_groups p a t)
      = map (entry_of p a t) (map fst (visible_groups p a t))" for a
    by (auto simp: entry_of_def dest: visible_groups_member)
  moreover have "pd_entries d = sort_key selection_key
      (map (\<lambda>(s, xs). build_entry (cp_config p) s xs t (normalize_symbols act))
        (visible_groups p (normalize_symbols act) t))"
    using assms by (auto simp: pool_evaluate_def Let_def split: if_splits)
  ultimately show "pd_entries d = sort_key selection_key
      (map (entry_of p (normalize_symbols act) t)
        (map fst (visible_groups p (normalize_symbols act) t)))"
    by (simp only:)
qed (use assms in \<open>auto simp: pool_evaluate_def Let_def split: if_splits\<close>)

lemma pool_evaluate_entry:
  assumes "pool_evaluate p t act = (Inr d, q)" and "e \<in> set (pd_entries d)"
  shows "e = entry_of p (normalize_symbols act) t (pe_symbol e)"
proof -
  from assms have "e \<in> entry_of p (normalize_symbols act) t ` set (map fst
      (visible_groups p (normalize_symbols act) t))"
    by (simp add: pool_evaluate_entries(1) image_image)
  then show ?thesis by (auto simp: entry_of_def)
qed

lemma pool_evaluate_lists:
  assumes "pool_evaluate p t act = (Inr d, q)" and "visible_of p (normalize_symbols act) t s \<noteq> []"
  shows "entry_of p (normalize_symbols act) t s \<in> set (pd_entries d)"
proof -
  have "s \<in> set (map fst (visible_groups p (normalize_symbols act) t))"
    using visible_groups_keys assms(2) by simp
  then show ?thesis by (auto simp: pool_evaluate_entries(1) [OF assms(1)])
qed

lemma pool_evaluate_distinct:
  assumes "pool_evaluate p t act = (Inr d, q)"
  shows "distinct (map pe_symbol (pd_entries d))"
proof -
  let ?g = "map fst (visible_groups p (normalize_symbols act) t)"
    and ?f = "entry_of p (normalize_symbols act) t"
  have "map pe_symbol (map ?f ?g) = ?g" by (simp add: entry_of_def)
  then have "distinct (map pe_symbol (map ?f ?g))" using visible_groups_distinct by (simp only:)
  then show ?thesis
    unfolding pool_evaluate_entries(1) [OF assms] distinct_map set_sort distinct_sort .
qed

lemma build_entry_fields [simp]:
  "pe_sources (build_entry c s xs t active) =
     sort_key candidate_source_value (remdups (map co_source xs))"
  "pe_scanner_observations (build_entry c s xs t active) = scanner_count xs"
  "pe_active_episode (build_entry c s xs t active) = List.member active s"
  "pe_pinned (build_entry c s xs t active) = list_ex (\<lambda>x. List.member PINNED_SOURCES (co_source x)) xs"
  "pe_admitted (build_entry c s xs t active) \<longleftrightarrow>
     list_ex (\<lambda>x. List.member PINNED_SOURCES (co_source x)) xs \<or> List.member active s
     \<or> list_ex (\<lambda>x. co_source x \<noteq> CS_SCANNER) xs
     \<or> po_scanner_min_observations c \<le> scanner_count xs"
  by (simp_all add: build_entry_def Let_def list_ex_iff)

section \<open>Runs of the pool\<close>

datatype pool_op =
    Pool_Ingest "candidate_discovery list" datetime "string list"
  | Pool_Withdraw string candidate_source datetime "string list"
  | Pool_Evaluate datetime "string list"

fun pool_apply :: "candidate_pool \<Rightarrow> pool_op \<Rightarrow> pool_decision res \<times> candidate_pool" where
  "pool_apply p (Pool_Ingest ds t act) = pool_ingest p ds t act"
| "pool_apply p (Pool_Withdraw s src t act) = pool_withdraw p s src t act"
| "pool_apply p (Pool_Evaluate t act) = pool_evaluate p t act"

definition run_pool :: "candidate_pool \<Rightarrow> pool_op list \<Rightarrow> candidate_pool" where
  "run_pool p ops = foldl (\<lambda>q op. snd (pool_apply q op)) p ops"

lemma run_pool_simps [simp]:
  "run_pool p [] = p" "run_pool p (ops @ [op]) = snd (pool_apply (run_pool p ops) op)"
  by (simp_all add: run_pool_def)

fun op_discoveries :: "pool_op \<Rightarrow> candidate_discovery list" where
  "op_discoveries (Pool_Ingest ds t act) = ds"
| "op_discoveries _ = []"

text \<open>The distinct moments at which a source reported a symbol.\<close>

definition observed_moments :: "candidate_discovery list \<Rightarrow> contribution_key \<Rightarrow> int set" where
  "observed_moments ds k = (\<lambda>d. instant (cd_discovered_at d)) ` {d \<in> set ds. discovery_key d = k}"

lemma observed_moments_finite [simp]: "finite (observed_moments ds k)"
  by (simp add: observed_moments_def)

lemma observed_moments_mono: "set ds \<subseteq> set es \<Longrightarrow> observed_moments ds k \<subseteq> observed_moments es k"
  by (auto simp: observed_moments_def)

definition counted :: "candidate_discovery list \<Rightarrow> contribution_key \<times> contribution \<Rightarrow> bool" where
  "counted ds kx \<longleftrightarrow>
     fst kx = discovery_key (co_discovery (snd kx))
     \<and> instant (co_last_discovered_at (snd kx)) \<in> observed_moments ds (fst kx)
     \<and> co_observation_count (snd kx)
         \<le> int (card {m \<in> observed_moments ds (fst kx). m \<le> instant (co_last_discovered_at (snd kx))})"

lemma counted_mono:
  assumes "set ds \<subseteq> set es" and "counted ds kx"
  shows "counted es kx"
proof -
  have "card {m \<in> observed_moments ds (fst kx). m \<le> i} \<le> card {m \<in> observed_moments es (fst kx). m \<le> i}"
    for i using observed_moments_mono [OF assms(1), of "fst kx"] by (intro card_mono) auto
  then have "int (card {m \<in> observed_moments ds (fst kx). m \<le> i})
      \<le> int (card {m \<in> observed_moments es (fst kx). m \<le> i})" for i by simp
  then show ?thesis
    using assms(2) observed_moments_mono [OF assms(1), of "fst kx"] unfolding counted_def
    using order_trans by blast
qed

lemma observe_counted:
  assumes "d \<in> set ds" and "\<forall>x. previous = Some x \<longrightarrow> counted ds (discovery_key d, x)"
    and "\<not> stale_discovery previous d"
  shows "counted ds (discovery_key d, observe c previous d)"
proof -
  let ?M = "observed_moments ds (discovery_key d)" and ?i = "instant (cd_discovered_at d)"
  have i: "?i \<in> ?M" using assms(1) by (auto simp: observed_moments_def)
  have one: "1 \<le> card {m \<in> ?M. m \<le> ?i}"
    using i by (simp add: card_gt_0_iff Suc_le_eq) (auto intro: exI [of _ ?i])
  show ?thesis
  proof (cases previous)
    case None
    then show ?thesis using i one by (simp add: counted_def observe_def)
  next
    case (Some x)
    let ?l = "instant (co_last_discovered_at x)"
    have less: "?l < ?i" using assms(3) Some by (simp add: stale_discovery_def)
    have "card (insert ?i {m \<in> ?M. m \<le> ?l}) \<le> card {m \<in> ?M. m \<le> ?i}"
      using i less by (intro card_mono) auto
    then have "card {m \<in> ?M. m \<le> ?l} + 1 \<le> card {m \<in> ?M. m \<le> ?i}"
      using less by (subst (asm) card_insert_disjoint) auto
    moreover have "co_observation_count x \<le> int (card {m \<in> ?M. m \<le> ?l})"
      using assms(2) Some unfolding counted_def by auto
    ultimately show ?thesis using i one Some by (auto simp: counted_def observe_def Let_def)
  qed
qed

lemma update_set: "set (dset k v d) \<subseteq> insert (k, v) (set d)"
  by (induction d) auto

lemma ingest_all_counted:
  assumes "\<forall>kx \<in> set (cp_contributions p). counted es kx" and "set ds \<subseteq> set es"
  shows "(\<forall>kx \<in> set (cp_contributions (snd (ingest_all t ds p))). counted es kx)
    \<and> cp_config (snd (ingest_all t ds p)) = cp_config p
    \<and> cp_decisions (snd (ingest_all t ds p)) = cp_decisions p"
  using assms
proof (induction t ds p rule: ingest_all.induct)
  case (2 t d ds p)
  let ?previous = "dget (cp_contributions p) (discovery_key d)"
  let ?q = "if stale_discovery ?previous d then p
     else p\<lparr>cp_contributions :=
       dset (discovery_key d) (observe (cp_config p) ?previous d) (cp_contributions p)\<rparr>"
  have d: "d \<in> set es" using 2(3) by simp
  have "\<forall>x. ?previous = Some x \<longrightarrow> counted es (discovery_key d, x)"
    using 2(2) by (auto dest: map_of_SomeD)
  note new = observe_counted [OF d this, of "cp_config p"]
  have q: "\<forall>kx \<in> set (cp_contributions ?q). counted es kx"
  proof
    fix kx assume "kx \<in> set (cp_contributions ?q)"
    then have "kx \<in> set (cp_contributions p) \<or> (\<not> stale_discovery ?previous d
        \<and> kx = (discovery_key d, observe (cp_config p) ?previous d))"
      using update_set by (fastforce split: if_splits)
    then show "counted es kx"
      using 2(2) new by blast
  qed
  show ?case
    using 2(1) [OF _ refl q] 2(2,3) by (simp add: Let_def)
qed simp

text \<open>What a run has established of every decision.\<close>

definition scanner_confirmed :: "pool_config \<Rightarrow> candidate_discovery list \<Rightarrow> pool_decision \<Rightarrow> bool" where
  "scanner_confirmed c ds d \<longleftrightarrow>
     (\<forall>e \<in> set (pd_entries d). pe_admitted e \<longrightarrow> pe_sources e = [CS_SCANNER] \<longrightarrow> \<not> pe_active_episode e \<longrightarrow>
        po_scanner_min_observations c
          \<le> int (card (observed_moments ds (pe_symbol e, CS_SCANNER))))"

lemma scanner_confirmed_mono:
  "set ds \<subseteq> set es \<Longrightarrow> scanner_confirmed c ds d \<Longrightarrow> scanner_confirmed c es d"
proof -
  assume s: "set ds \<subseteq> set es" and c: "scanner_confirmed c ds d"
  have "int (card (observed_moments ds k)) \<le> int (card (observed_moments es k))" for k
    using observed_moments_mono [OF s] by (simp add: card_mono)
  with c show ?thesis unfolding scanner_confirmed_def using order_trans by blast
qed

definition pool_counted :: "candidate_discovery list \<Rightarrow> candidate_pool \<Rightarrow> bool" where
  "pool_counted ds p \<longleftrightarrow> (\<forall>kx \<in> set (cp_contributions p). counted ds kx)
     \<and> (\<forall>d \<in> set (cp_decisions p). scanner_confirmed (cp_config p) ds d)"

lemma scanner_count_le:
  assumes "0 \<le> n" and "\<forall>x \<in> set xs. co_source x = CS_SCANNER \<longrightarrow> co_observation_count x \<le> n"
  shows "scanner_count xs \<le> n"
proof (cases "map co_observation_count (filter (\<lambda>x. co_source x = CS_SCANNER) xs)")
  case (Cons m ms)
  have "set (m # ms) = co_observation_count ` {x \<in> set xs. co_source x = CS_SCANNER}"
    unfolding Cons [symmetric] by simp
  then have "\<forall>i \<in> set (m # ms). i \<le> n" using assms(2) by auto
  then have "Max (set (m # ms)) \<le> n" by (subst Max_le_iff) auto
  then show ?thesis by (simp add: scanner_count_def Cons)
qed (use assms(1) in \<open>simp add: scanner_count_def\<close>)

lemma evaluate_counted:
  assumes "pool_counted ds p"
  shows "pool_counted ds (snd (pool_evaluate p t act))"
proof (cases "fst (pool_evaluate p t act)")
  case (Inl e)
  then show ?thesis using assms by (auto simp: pool_evaluate_def Let_def split: if_splits)
next
  case (Inr d)
  then obtain q where q: "pool_evaluate p t act = (Inr d, q)" by (cases "pool_evaluate p t act") auto
  let ?a = "normalize_symbols act"
  have "scanner_confirmed (cp_config p) ds d"
    unfolding scanner_confirmed_def
  proof (intro ballI impI)
    fix e assume e: "e \<in> set (pd_entries d)" "pe_admitted e" "pe_sources e = [CS_SCANNER]"
      "\<not> pe_active_episode e"
    let ?xs = "visible_of p ?a t (pe_symbol e)" and ?M = "observed_moments ds (pe_symbol e, CS_SCANNER)"
    have eq: "e = build_entry (cp_config p) (pe_symbol e) ?xs t ?a"
      using pool_evaluate_entry [OF q e(1)] by (simp add: entry_of_def)
    have "pe_sources e = sort_key candidate_source_value (remdups (map co_source ?xs))"
      by (subst eq) simp
    then have "set (pe_sources e) = co_source ` set ?xs" by simp
    then have src: "\<forall>x \<in> set ?xs. co_source x = CS_SCANNER" using e(3) by auto
    have "pe_admitted (build_entry (cp_config p) (pe_symbol e) ?xs t ?a)"
      "\<not> pe_active_episode (build_entry (cp_config p) (pe_symbol e) ?xs t ?a)"
      using e(2,4) eq by simp_all
    then have "po_scanner_min_observations (cp_config p) \<le> scanner_count ?xs"
      using src by (simp add: list_ex_iff PINNED_SOURCES_def)
    also have "scanner_count ?xs \<le> int (card ?M)"
    proof (rule scanner_count_le, simp, intro ballI impI)
      fix x assume x: "x \<in> set ?xs" and "co_source x = CS_SCANNER"
      then obtain k where k: "(k, x) \<in> set (cp_contributions p)"
        "cd_symbol (co_discovery x) = pe_symbol e" by (auto simp: visible_of_def)
      with assms have "counted ds (k, x)" by (auto simp: pool_counted_def)
      then have c: "k = (pe_symbol e, CS_SCANNER)"
        "co_observation_count x \<le> int (card {m \<in> observed_moments ds k. m \<le> instant (co_last_discovered_at x)})"
        using src x k(2) by (auto simp: counted_def discovery_key_def co_source_def)
      have "card {m \<in> observed_moments ds k. m \<le> instant (co_last_discovered_at x)} \<le> card ?M"
        unfolding c(1) by (intro card_mono) auto
      with c(2) show "co_observation_count x \<le> int (card ?M)" by linarith
    qed
    finally show "po_scanner_min_observations (cp_config p) \<le> int (card ?M)" .
  qed
  then show ?thesis
    using assms pool_evaluate_entries(2-4) [OF q] q by (auto simp: pool_counted_def)
qed

lemma pool_apply_counted:
  assumes "pool_counted ds p"
  shows "pool_counted (ds @ op_discoveries op) (snd (pool_apply p op))
    \<and> cp_config (snd (pool_apply p op)) = cp_config p"
proof -
  have conf: "cp_config (snd (pool_evaluate q t act)) = cp_config q" for q t act
    by (simp add: pool_evaluate_def Let_def)
  have mono: "pool_counted (ds @ es) p" for es
    using assms counted_mono [of ds "ds @ es"] scanner_confirmed_mono [of ds "ds @ es"]
    by (auto simp: pool_counted_def)
  show ?thesis
  proof (cases op)
    case (Pool_Ingest es t act)
    let ?q = "snd (ingest_all t (sort_key discovery_order es) p)"
    have "pool_counted (ds @ es) ?q" "cp_config ?q = cp_config p"
      using ingest_all_counted [of p "ds @ es" "sort_key discovery_order es" t] mono
      by (auto simp: pool_counted_def)
    then show ?thesis
      using Pool_Ingest mono evaluate_counted conf
      by (auto simp: pool_ingest_def split: prod.splits sum.splits)
  next
    case (Pool_Withdraw s src t act)
    have "pool_counted ds (p\<lparr>cp_contributions := dpop k (cp_contributions p)\<rparr>)" for k
      using assms by (auto simp: pool_counted_def AList.delete_eq)
    then show ?thesis
      using Pool_Withdraw assms by (simp add: pool_withdraw_def evaluate_counted conf)
  next
    case (Pool_Evaluate t act)
    then show ?thesis using assms by (simp add: evaluate_counted conf)
  qed
qed

lemma run_pool_counted:
  "pool_counted (concat (map op_discoveries ops)) (run_pool (new_pool c) ops)
   \<and> cp_config (run_pool (new_pool c) ops) = c"
proof (induction ops rule: rev_induct)
  case (snoc op ops)
  then show ?case using pool_apply_counted [of "concat (map op_discoveries ops)"] by simp
qed (simp add: pool_counted_def new_pool_def)

section \<open>Pinned candidates\<close>

text \<open>A contribution that never expires, such as that of a held position.\<close>

definition holds_pin :: "contribution_key \<Rightarrow> candidate_pool \<Rightarrow> bool" where
  "holds_pin k p \<longleftrightarrow>
     (case dget (cp_contributions p) k of None \<Rightarrow> False
      | Some x \<Rightarrow> discovery_key (co_discovery x) = k \<and> cd_expires_at (co_discovery x) = None)"

definition permanent_only :: "contribution_key \<Rightarrow> candidate_discovery list \<Rightarrow> bool" where
  "permanent_only k ds \<longleftrightarrow> list_all (\<lambda>d. discovery_key d = k \<longrightarrow> cd_expires_at d = None) ds"

fun keeps_pin :: "contribution_key \<Rightarrow> pool_op \<Rightarrow> bool" where
  "keeps_pin k (Pool_Ingest ds t act) = permanent_only k ds"
| "keeps_pin k (Pool_Withdraw s src t act) = ((py_upper (py_strip s), src) \<noteq> k)"
| "keeps_pin k (Pool_Evaluate t act) = True"

lemma holds_pinE:
  assumes "holds_pin k p"
  obtains x where "dget (cp_contributions p) k = Some x" and "discovery_key (co_discovery x) = k"
    and "cd_expires_at (co_discovery x) = None"
  using assms by (auto simp: holds_pin_def split: option.splits)

lemma map_of_filter_Some: "map_of l k = Some x \<Longrightarrow> P (k, x) \<Longrightarrow> map_of (filter P l) k = Some x"
  by (induction l) (auto split: if_splits)

lemma evaluate_contributions:
  "cp_contributions (snd (pool_evaluate p t act)) =
     (if dt_aware t then filter (\<lambda>kx. contribution_visible (cp_config p) (normalize_symbols act) t
        (snd kx)) (cp_contributions p) else cp_contributions p)"
  by (simp add: pool_evaluate_def Let_def)

lemma evaluate_keeps_pin:
  assumes "holds_pin k p"
  shows "holds_pin k (snd (pool_evaluate p t act))"
proof -
  obtain x where x: "dget (cp_contributions p) k = Some x" "discovery_key (co_discovery x) = k"
    "cd_expires_at (co_discovery x) = None" using assms by (rule holds_pinE)
  then have "dget (cp_contributions (snd (pool_evaluate p t act))) k = Some x"
    unfolding evaluate_contributions by (auto intro!: map_of_filter_Some simp: contribution_visible_def)
  with x(2,3) show ?thesis by (simp add: holds_pin_def)
qed

lemma ingest_all_keeps_pin:
  "holds_pin k p \<Longrightarrow> permanent_only k ds \<Longrightarrow> holds_pin k (snd (ingest_all t ds p))"
proof (induction t ds p rule: ingest_all.induct)
  case (2 t d ds p)
  have "holds_pin k (p\<lparr>cp_contributions :=
      dset (discovery_key d) (observe (cp_config p) pr d) (cp_contributions p)\<rparr>)" for pr
    using 2(2,3) by (auto simp: holds_pin_def permanent_only_def observe_def Let_def split: option.splits)
  then show ?case using 2 by (auto simp: Let_def permanent_only_def)
qed simp

lemma evaluate_lists_pinned:
  assumes "holds_pin k p" and "List.member PINNED_SOURCES (snd k)"
    and "pool_evaluate p t act = (Inr d, q)"
  shows "\<exists>e \<in> set (pd_entries d). pe_symbol e = fst k \<and> pe_protected e \<and> pe_admitted e"
proof -
  let ?a = "normalize_symbols act" and ?s = "fst k"
  obtain x where x: "dget (cp_contributions p) k = Some x" "discovery_key (co_discovery x) = k"
    "cd_expires_at (co_discovery x) = None" using assms(1) by (rule holds_pinE)
  have "x \<in> set (visible_of p ?a t ?s)"
    using x by (force simp: visible_of_def contribution_visible_def discovery_key_def dest: map_of_SomeD)
  moreover have "List.member PINNED_SOURCES (co_source x)"
    using x(2) assms(2) by (auto simp: discovery_key_def co_source_def)
  ultimately have "pe_pinned (entry_of p ?a t ?s)" "pe_admitted (entry_of p ?a t ?s)"
    "visible_of p ?a t ?s \<noteq> []"
    by (auto simp: entry_of_def list_ex_iff)
  moreover have "pe_symbol (entry_of p ?a t ?s) = ?s" by (simp add: entry_of_def)
  ultimately show ?thesis
    using pool_evaluate_lists [OF assms(3)] by (auto simp: pe_protected_def)
qed

lemma pool_apply_cases:
  assumes "holds_pin k p" and "keeps_pin k op"
  obtains e q where "pool_apply p op = (Inl e, q)" and "holds_pin k q"
  | p' t act where "pool_apply p op = pool_evaluate p' t act" and "holds_pin k p'"
proof (cases op)
  case (Pool_Ingest ds t act)
  have i: "holds_pin k (snd (ingest_all t (sort_key discovery_order ds) p))"
    using assms Pool_Ingest
    by (intro ingest_all_keeps_pin) (simp_all add: permanent_only_def list_all_iff)
  obtain r q where r: "ingest_all t (sort_key discovery_order ds) p = (r, q)" by fastforce
  show thesis
  proof (cases "dt_aware t")
    case True
    then show thesis
      using that i r Pool_Ingest by (cases r) (simp_all add: pool_ingest_def)
  qed (use that(1) assms(1) Pool_Ingest in \<open>simp add: pool_ingest_def\<close>)
next
  case (Pool_Withdraw s src t act)
  let ?p = "p\<lparr>cp_contributions := dpop (py_upper (py_strip s), src) (cp_contributions p)\<rparr>"
  have "holds_pin k ?p" using assms Pool_Withdraw by (auto simp: holds_pin_def)
  then show thesis
    using that assms(1) Pool_Withdraw by (cases "dt_aware t") (simp_all add: pool_withdraw_def)
next
  case (Pool_Evaluate t act)
  then show thesis using that(2) assms(1) by simp
qed

lemma pool_apply_keeps_pin: "holds_pin k p \<Longrightarrow> keeps_pin k op \<Longrightarrow> holds_pin k (snd (pool_apply p op))"
  by (erule (1) pool_apply_cases) (simp_all add: evaluate_keeps_pin)

lemma pool_apply_lists_pinned:
  assumes "holds_pin k p" and "keeps_pin k op" and "List.member PINNED_SOURCES (snd k)"
    and "pool_apply p op = (Inr d, q)"
  shows "\<exists>e \<in> set (pd_entries d). pe_symbol e = fst k \<and> pe_protected e \<and> pe_admitted e"
  using assms(1,2)
proof (cases rule: pool_apply_cases)
  case (2 p' t act)
  have "pool_evaluate p' t act = (Inr d, q)" using 2(1) assms(4) by simp
  from evaluate_lists_pinned [OF 2(2) assms(3) this] show ?thesis .
qed (use assms(4) in simp)

lemma pool_apply_distinct: "pool_apply p op = (Inr d, q) \<Longrightarrow> distinct (map pe_symbol (pd_entries d))"
  by (cases op) (auto simp: pool_ingest_def pool_withdraw_def split: if_splits prod.splits sum.splits
      dest: pool_evaluate_distinct)

lemma run_pool_pin:
  "holds_pin k p \<Longrightarrow> list_all (keeps_pin k) ops \<Longrightarrow> holds_pin k (run_pool p ops)"
  by (induction ops rule: rev_induct) (simp_all add: pool_apply_keeps_pin)

lemma observe_position_pins:
  "dget (cp_contributions p) (discovery_key d) = None \<Longrightarrow> cd_expires_at d = None
   \<Longrightarrow> instant (cd_discovered_at d) \<le> instant t
   \<Longrightarrow> holds_pin (discovery_key d) (snd (ingest_all t [d] p))"
  by (simp add: holds_pin_def observe_def stale_discovery_def)

section \<open>Properties\<close>

text \<open>
  C25. The scanner's hysteresis: whatever the pool has been through, a symbol that only the scanner
  reports, and that no episode is active for, is admitted only after the scanner reported it at as
  many distinct moments as the configuration requires.
\<close>

theorem scanner_candidate_needs_repeats:
  assumes "d \<in> set (cp_decisions (run_pool (new_pool c) ops))" and "e \<in> set (pd_entries d)"
    and "pe_admitted e" and "pe_sources e = [CS_SCANNER]" and "\<not> pe_active_episode e"
  shows "po_scanner_min_observations c \<le> int (card
     (observed_moments (concat (map op_discoveries ops)) (pe_symbol e, CS_SCANNER)))"
  using run_pool_counted [of ops c] assms by (auto simp: pool_counted_def scanner_confirmed_def)

text \<open>
  C32. A held position (or a manual pin) stays in the pool: once the pool holds a contribution of it
  that does not expire, every later decision lists the symbol as admitted and protected, until that
  contribution is withdrawn or replaced by one that expires.
\<close>

theorem pinned_candidate_stays:
  assumes "holds_pin (symbol, source) p" and "source \<in> {CS_POSITION, CS_MANUAL}"
    and "list_all (keeps_pin (symbol, source)) (ops @ [op])"
    and "pool_apply (run_pool p ops) op = (Inr d, q)"
  shows "\<exists>e \<in> set (pd_entries d). pe_symbol e = symbol \<and> pe_protected e \<and> pe_admitted e"
proof -
  have "List.member PINNED_SOURCES (snd (symbol, source))"
    using assms(2) by (auto simp: PINNED_SOURCES_def)
  from pool_apply_lists_pinned [OF run_pool_pin [OF assms(1)] _ this assms(4)] assms(3)
  show ?thesis by simp
qed

subsection \<open>Concrete runs\<close>

definition pool_clock :: "int \<Rightarrow> datetime" where
  "pool_clock s = \<lparr>instant = s * 1000000, utcoffset = Some 28800000000\<rparr>"

definition sample_discovery :: "candidate_source \<Rightarrow> int \<Rightarrow> int option \<Rightarrow> candidate_discovery" where
  "sample_discovery source s ttl = \<lparr>cd_symbol = ''2330'', cd_source = source, cd_rank_types = [],
     cd_best_rank = None, cd_discovered_at = pool_clock s,
     cd_expires_at = map_option (\<lambda>d. pool_clock (s + d)) ttl, cd_priority = 10,
     cd_contribution_ref = None, cd_evidence = []\<rparr>"

definition sample_pool_config :: pool_config where
  "sample_pool_config = \<lparr>po_version = ''pool-v1'', po_grace_period = 5000000,
     po_scanner_min_observations = 2\<rparr>"

definition sample_pool_ops :: "pool_op list" where
  "sample_pool_ops =
     [Pool_Ingest [sample_discovery CS_SCANNER 1 (Some 60)] (pool_clock 2) [],
      Pool_Ingest [sample_discovery CS_SCANNER 31 (Some 60)] (pool_clock 32) []]"

theorem scanner_candidate_needs_repeats_witness:
  "\<exists>d e. d \<in> set (cp_decisions (run_pool (new_pool sample_pool_config) sample_pool_ops))
     \<and> e \<in> set (pd_entries d) \<and> pe_admitted e \<and> pe_sources e = [CS_SCANNER] \<and> \<not> pe_active_episode e
     \<and> 2 \<le> int (card (observed_moments (concat (map op_discoveries sample_pool_ops))
         (pe_symbol e, CS_SCANNER)))"
proof -
  have "list_ex (\<lambda>d. list_ex (\<lambda>e. pe_admitted e \<and> pe_sources e = [CS_SCANNER] \<and> \<not> pe_active_episode e)
      (pd_entries d)) (cp_decisions (run_pool (new_pool sample_pool_config) sample_pool_ops))"
    by code_simp
  then obtain d e where de: "d \<in> set (cp_decisions (run_pool (new_pool sample_pool_config) sample_pool_ops))"
    "e \<in> set (pd_entries d)" "pe_admitted e" "pe_sources e = [CS_SCANNER]" "\<not> pe_active_episode e"
    by (auto simp: list_ex_iff)
  from scanner_candidate_needs_repeats [OF this] this show ?thesis
    by (force simp: sample_pool_config_def)
qed

definition sample_pinned_pool :: candidate_pool where
  "sample_pinned_pool = snd (pool_ingest (new_pool sample_pool_config)
     [sample_discovery CS_POSITION 1 None] (pool_clock 2) [])"

theorem pinned_candidate_stays_witness:
  "\<exists>d q. pool_apply (run_pool sample_pinned_pool [Pool_Evaluate (pool_clock 500) []])
       (Pool_Withdraw ''2330'' CS_SCANNER (pool_clock 900) []) = (Inr d, q)
     \<and> (\<exists>e \<in> set (pd_entries d). pe_symbol e = ''2330'' \<and> pe_protected e \<and> pe_admitted e)"
proof -
  have h: "holds_pin (''2330'', CS_POSITION) sample_pinned_pool"
    and k: "list_all (keeps_pin (''2330'', CS_POSITION)) ([Pool_Evaluate (pool_clock 500) []]
      @ [Pool_Withdraw ''2330'' CS_SCANNER (pool_clock 900) []])"
    by code_simp+
  obtain d q where dq: "pool_apply (run_pool sample_pinned_pool [Pool_Evaluate (pool_clock 500) []])
       (Pool_Withdraw ''2330'' CS_SCANNER (pool_clock 900) []) = (Inr d, q)"
    by (auto simp: pool_withdraw_def pool_evaluate_def Let_def pool_clock_def dt_aware_def)
  from pinned_candidate_stays [OF h _ k dq] dq show ?thesis by simp
qed

end
