(* ===== verification/Subscriptions.thy ===== *)
theory Subscriptions
  imports Candidate_Pool
begin

text \<open>
  The allocation of broker quote subscriptions (\<open>market_data/subscriptions.py\<close>): a policy over a
  reviewed account capacity, one record per symbol, the event log, and the operations that
  reconcile the desired universe and acknowledge or fail the requests made. An operation returns its
  result or exception and the manager it leaves; a loop that fails keeps the transitions made so far.
\<close>

section \<open>Policy and records\<close>

datatype quote_mode = QM_QUOTE | QM_TICK_BIDASK

fun quote_mode_value :: "quote_mode \<Rightarrow> string" where
  "quote_mode_value QM_QUOTE = ''QUOTE''"
| "quote_mode_value QM_TICK_BIDASK = ''TICK_BIDASK''"

record capacity_config =
  cc_account_subscription_limit :: int
  cc_reserved_headroom :: "int option"
  cc_mode :: "quote_mode option"

definition capacity_post_init :: "capacity_config \<Rightarrow> unit res" where
  "capacity_post_init c = require_all
     [(0 < cc_account_subscription_limit c, ''account_subscription_limit must be positive''),
      (case cc_reserved_headroom c of None \<Rightarrow> True
         | Some h \<Rightarrow> 0 \<le> h \<and> h < cc_account_subscription_limit c,
       ''reserved_headroom must fit within the account limit'')]"

definition subscriptions_per_symbol :: "capacity_config \<Rightarrow> int option" where
  "subscriptions_per_symbol c =
     map_option (\<lambda>m. case m of QM_QUOTE \<Rightarrow> 1 | QM_TICK_BIDASK \<Rightarrow> 2) (cc_mode c)"

definition capacity_max_symbols :: "capacity_config \<Rightarrow> int option" where
  "capacity_max_symbols c =
     (case (cc_reserved_headroom c, subscriptions_per_symbol c) of
        (Some h, Some n) \<Rightarrow> Some ((cc_account_subscription_limit c - h) div n)
      | _ \<Rightarrow> None)"

definition SUBSCRIPTION_CAPACITY_PHASE0 :: capacity_config where
  "SUBSCRIPTION_CAPACITY_PHASE0 = \<lparr>cc_account_subscription_limit = 200, cc_reserved_headroom = None,
     cc_mode = None\<rparr>"

record subscription_policy =
  sy_version :: string
  sy_capacity :: capacity_config
  sy_ack_timeout :: int
  sy_retry_backoff :: int
  sy_minimum_dwell :: int

definition subscription_policy_post_init :: "subscription_policy \<Rightarrow> unit res" where
  "subscription_policy_post_init p = require_all
     [(\<not> blank (sy_version p), ''Subscription policy version must not be empty''),
      (capacity_max_symbols (sy_capacity p) \<noteq> None,
       ''Subscription capacity requires reviewed headroom and mode''),
      (0 < sy_ack_timeout p, ''ack_timeout must be positive''),
      (0 \<le> sy_retry_backoff p, ''retry_backoff cannot be negative''),
      (0 \<le> sy_minimum_dwell p, ''minimum_dwell cannot be negative'')]"

text \<open>The properties that assert the value is there (it is, for a validated policy).\<close>

definition sy_max_symbols :: "subscription_policy \<Rightarrow> int" where
  "sy_max_symbols p = the (capacity_max_symbols (sy_capacity p))"

definition sy_mode :: "subscription_policy \<Rightarrow> quote_mode" where
  "sy_mode p = the (cc_mode (sy_capacity p))"

datatype subscription_state =
    SS_SUBSCRIBE_REQUESTED | SS_ACKED | SS_ACK_TIMEOUT | SS_SUBSCRIBE_FAILED
  | SS_UNSUBSCRIBE_REQUESTED | SS_UNSUBSCRIBE_FAILED | SS_UNSUBSCRIBED | SS_DISCONNECTED

datatype subscription_event_type =
    SE_SUBSCRIBE_REQUESTED | SE_SUBSCRIBE_ACKED | SE_SUBSCRIBE_ACK_TIMEOUT | SE_SUBSCRIBE_FAILED
  | SE_SUBSCRIBE_ROLLBACK_REQUESTED | SE_UNSUBSCRIBE_REQUESTED | SE_UNSUBSCRIBE_ACKED
  | SE_UNSUBSCRIBE_FAILED | SE_DISCONNECTED

datatype miss_reason =
    MR_NOT_DISCOVERED | MR_ADMISSION_PENDING | MR_CAPACITY_EVICTED | MR_SUBSCRIPTION_NOT_ACKED
  | MR_DATA_INCOMPLETE | MR_SIGNAL_FALSE

record subscription_record =
  sb_symbol :: string
  sb_mode :: quote_mode
  sb_state :: subscription_state
  sb_requested_at :: "datetime option"
  sb_acked_at :: "datetime option"
  sb_state_changed_at :: "datetime option"
  sb_failed_at :: "datetime option"
  sb_attempts :: int
  sb_reason :: "string option"

record subscription_event =
  sv_sequence :: int
  sv_occurred_at :: datetime
  sv_symbol :: string
  sv_event_type :: subscription_event_type
  sv_from_state :: "subscription_state option"
  sv_to_state :: subscription_state
  sv_reason :: string
  sv_mode :: quote_mode

record subscription_decision =
  sn_evaluated_at :: datetime
  sn_policy_version :: string
  sn_mode :: quote_mode
  sn_max_symbols :: int
  sn_desired_symbols :: "string list"
  sn_request_symbols :: "string list"
  sn_unsubscribe_symbols :: "string list"
  sn_retained_symbols :: "string list"
  sn_deferred_symbols :: "string list"
  sn_capacity_evicted_symbols :: "string list"
  sn_consuming_symbols :: "string list"
  sn_covered_symbols :: "string list"

definition subscription_decision_digest :: "(json \<Rightarrow> string) \<Rightarrow> subscription_decision \<Rightarrow> string" where
  "subscription_decision_digest sha d = (let strs = (\<lambda>xs. JList (map JStr xs)) in sha (JObj
     [(''evaluated_at'', JTime (sn_evaluated_at d)),
      (''policy_version'', JStr (sn_policy_version d)),
      (''mode'', JStr (quote_mode_value (sn_mode d))),
      (''max_symbols'', JInt (sn_max_symbols d)),
      (''desired_symbols'', strs (sn_desired_symbols d)),
      (''request_symbols'', strs (sn_request_symbols d)),
      (''unsubscribe_symbols'', strs (sn_unsubscribe_symbols d)),
      (''retained_symbols'', strs (sn_retained_symbols d)),
      (''deferred_symbols'', strs (sn_deferred_symbols d)),
      (''capacity_evicted_symbols'', strs (sn_capacity_evicted_symbols d)),
      (''consuming_symbols'', strs (sn_consuming_symbols d)),
      (''covered_symbols'', strs (sn_covered_symbols d))]))"

section \<open>The manager\<close>

record subscription_manager =
  sm_policy :: subscription_policy
  sm_records :: "(string, subscription_record) dict"
  sm_events :: "subscription_event list"
  sm_decisions :: "subscription_decision list"
  sm_sequence :: int

definition new_manager :: "subscription_policy \<Rightarrow> subscription_manager" where
  "new_manager p = \<lparr>sm_policy = p, sm_records = [], sm_events = [], sm_decisions = [], sm_sequence = 0\<rparr>"

definition consuming :: "subscription_state \<Rightarrow> bool" where
  "consuming st = List.member [SS_SUBSCRIBE_REQUESTED, SS_ACKED, SS_ACK_TIMEOUT,
     SS_UNSUBSCRIBE_REQUESTED, SS_UNSUBSCRIBE_FAILED] st"

definition symbols_in :: "(subscription_state \<Rightarrow> bool) \<Rightarrow> subscription_manager \<Rightarrow> string list" where
  "symbols_in P m = map fst (filter (\<lambda>kr. P (sb_state (snd kr))) (sm_records m))"

definition consuming_symbols :: "subscription_manager \<Rightarrow> string list" where
  "consuming_symbols m = symbols_in consuming m"

definition covered_symbols :: "subscription_manager \<Rightarrow> string list" where
  "covered_symbols m = symbols_in (\<lambda>st. st = SS_ACKED) m"

definition subscriptions_in_use :: "subscription_manager \<Rightarrow> int" where
  "subscriptions_in_use m =
     int (length (consuming_symbols m)) * the (subscriptions_per_symbol (sy_capacity (sm_policy m)))"

text \<open>\<open>_transition\<close>; the keyword \<open>changes\<close> are a function on the record.\<close>

definition transition ::
  "string \<Rightarrow> subscription_state \<Rightarrow> subscription_event_type \<Rightarrow> datetime \<Rightarrow> string
     \<Rightarrow> (subscription_record \<Rightarrow> subscription_record) \<Rightarrow> subscription_manager
     \<Rightarrow> unit res \<times> subscription_manager" where
  "transition symbol to_state event_type occurred_at reason changes m =
     (let previous = dget (sm_records m) symbol
      in if (case previous of None \<Rightarrow> False
             | Some r \<Rightarrow> (case sb_state_changed_at r of None \<Rightarrow> False
                          | Some t \<Rightarrow> instant occurred_at < instant t))
         then (Inl (ValueError ''subscription transition cannot move backward in time''), m)
         else
         let base = (case previous of Some r \<Rightarrow> r
                     | None \<Rightarrow> \<lparr>sb_symbol = symbol, sb_mode = sy_mode (sm_policy m),
                         sb_state = to_state, sb_requested_at = None, sb_acked_at = None,
                         sb_state_changed_at = None, sb_failed_at = None, sb_attempts = 0,
                         sb_reason = None\<rparr>);
             r' = changes (base\<lparr>sb_state := to_state, sb_state_changed_at := Some occurred_at,
                               sb_reason := Some reason\<rparr>)
         in (Inr (),
             m\<lparr>sm_records := dset symbol r' (sm_records m), sm_sequence := sm_sequence m + 1,
               sm_events := sm_events m @
                 [\<lparr>sv_sequence = sm_sequence m + 1, sv_occurred_at = occurred_at,
                   sv_symbol = symbol, sv_event_type = event_type,
                   sv_from_state = map_option sb_state previous, sv_to_state = to_state,
                   sv_reason = reason, sv_mode = sy_mode (sm_policy m)\<rparr>]\<rparr>))"

definition request_subscription ::
  "string \<Rightarrow> datetime \<Rightarrow> subscription_manager \<Rightarrow> unit res \<times> subscription_manager" where
  "request_subscription symbol occurred_at m =
     (let attempts = (case dget (sm_records m) symbol of None \<Rightarrow> 0 | Some r \<Rightarrow> sb_attempts r) + 1
      in transition symbol SS_SUBSCRIBE_REQUESTED SE_SUBSCRIBE_REQUESTED occurred_at
           ''selected_by_allocator''
           (\<lambda>r. r\<lparr>sb_requested_at := Some occurred_at, sb_attempts := attempts,
                  sb_failed_at := None, sb_acked_at := None\<rparr>) m)"

text \<open>The loops over symbols stop at the first exception.\<close>

fun for_each ::
  "('a \<Rightarrow> 's \<Rightarrow> unit res \<times> 's) \<Rightarrow> 'a list \<Rightarrow> 's \<Rightarrow> unit res \<times> 's" where
  "for_each f [] m = (Inr (), m)"
| "for_each f (x # xs) m =
     (case f x m of (Inl e, n) \<Rightarrow> (Inl e, n) | (Inr _, n) \<Rightarrow> for_each f xs n)"

definition ack_timed_out :: "subscription_policy \<Rightarrow> datetime \<Rightarrow> subscription_record \<Rightarrow> bool" where
  "ack_timed_out p t r \<longleftrightarrow> sb_state r = SS_SUBSCRIBE_REQUESTED
     \<and> (case sb_requested_at r of None \<Rightarrow> False
        | Some a \<Rightarrow> sy_ack_timeout p \<le> instant t - instant a)"

definition mark_ack_timeouts ::
  "datetime \<Rightarrow> subscription_manager \<Rightarrow> unit res \<times> subscription_manager" where
  "mark_ack_timeouts t m = for_each
     (\<lambda>kr n. if ack_timed_out (sm_policy n) t (snd kr)
             then transition (fst kr) SS_ACK_TIMEOUT SE_SUBSCRIBE_ACK_TIMEOUT t
               ''subscribe_ack_timeout'' (\<lambda>r. r\<lparr>sb_failed_at := Some t\<rparr>) n
             else (Inr (), n))
     (sort_key fst (sm_records m)) m"

definition within_minimum_dwell :: "subscription_manager \<Rightarrow> datetime \<Rightarrow> string \<Rightarrow> bool" where
  "within_minimum_dwell m t symbol =
     (case dget (sm_records m) symbol of None \<Rightarrow> False
      | Some r \<Rightarrow> consuming (sb_state r)
          \<and> (case sb_requested_at r of None \<Rightarrow> False
             | Some a \<Rightarrow> instant t - instant a < sy_minimum_dwell (sm_policy m)))"

definition retry_ready :: "subscription_policy \<Rightarrow> subscription_record option \<Rightarrow> datetime \<Rightarrow> bool" where
  "retry_ready p record t =
     (case record of None \<Rightarrow> True
      | Some r \<Rightarrow>
          List.member [SS_SUBSCRIBE_FAILED, SS_UNSUBSCRIBE_FAILED, SS_DISCONNECTED, SS_UNSUBSCRIBED]
            (sb_state r)
          \<and> (case sb_failed_at r of None \<Rightarrow> True
             | Some f \<Rightarrow> sy_retry_backoff p \<le> instant t - instant f))"

subsection \<open>Reconciliation\<close>

text \<open>\<open>{entry.symbol: entry for entry in entries if entry.admitted}\<close>.\<close>

definition admitted_entries :: "pool_entry list \<Rightarrow> (string, pool_entry) dict" where
  "admitted_entries es = fold (\<lambda>e. dset (pe_symbol e) e) (filter pe_admitted es) []"

definition protected_symbols ::
  "(string, pool_entry) dict \<Rightarrow> string list \<Rightarrow> subscription_manager \<Rightarrow> string list" where
  "protected_symbols admitted active m = remdups
     (map pe_symbol (filter pe_protected (map snd admitted))
      @ filter (\<lambda>s. dget admitted s \<noteq> None \<or> dget (sm_records m) s \<noteq> None) active)"

definition select_desired ::
  "(string, pool_entry) dict \<Rightarrow> string list \<Rightarrow> datetime \<Rightarrow> subscription_manager \<Rightarrow> string list" where
  "select_desired admitted protected t m =
     (let ordered = map pe_symbol (sort_key selection_key (map snd admitted));
          free = filter (\<lambda>s. \<not> List.member protected s) ordered;
          sticky = filter (within_minimum_dwell m t) free;
          remaining = filter (\<lambda>s. \<not> List.member sticky s) free
      in fromkeys (sort protected
           @ take (nat (sy_max_symbols (sm_policy m)) - length protected) (sticky @ remaining)))"

text \<open>\<open>sorted(self.consuming_symbols - desired_set)\<close>.\<close>

definition unwanted :: "string list \<Rightarrow> subscription_manager \<Rightarrow> string list" where
  "unwanted desired m = sort (filter (\<lambda>s. \<not> List.member desired s) (consuming_symbols m))"

fun unsubscribe_all ::
  "datetime \<Rightarrow> string list \<Rightarrow> subscription_manager \<Rightarrow> string list res \<times> subscription_manager" where
  "unsubscribe_all t [] m = (Inr [], m)"
| "unsubscribe_all t (s # ss) m =
     (case dget (sm_records m) s of
        None \<Rightarrow> (Inl (LookupFailure ''KeyError''), m)
      | Some r \<Rightarrow>
          if sb_state r = SS_UNSUBSCRIBE_REQUESTED
             \<or> (sb_state r = SS_UNSUBSCRIBE_FAILED \<and> \<not> retry_ready (sm_policy m) (Some r) t)
          then unsubscribe_all t ss m
          else
          case transition s SS_UNSUBSCRIBE_REQUESTED SE_UNSUBSCRIBE_REQUESTED t
                 ''not_in_desired_universe'' id m of
            (Inl e, n) \<Rightarrow> (Inl e, n)
          | (Inr _, n) \<Rightarrow>
              (case unsubscribe_all t ss n of
                 (Inl e, n') \<Rightarrow> (Inl e, n')
               | (Inr us, n') \<Rightarrow> (Inr (s # us), n')))"

text \<open>The requests made and the symbols deferred, with the slots left.\<close>

fun request_all ::
  "datetime \<Rightarrow> string list \<Rightarrow> int \<Rightarrow> subscription_manager
     \<Rightarrow> (string list \<times> string list) res \<times> subscription_manager" where
  "request_all t [] slots m = (Inr ([], []), m)"
| "request_all t (s # ss) slots m =
     (let record = dget (sm_records m) s
      in if (case record of None \<Rightarrow> False | Some r \<Rightarrow> consuming (sb_state r))
         then request_all t ss slots m
         else if \<not> retry_ready (sm_policy m) record t \<or> slots \<le> 0
         then (case request_all t ss slots m of
                 (Inl e, n) \<Rightarrow> (Inl e, n)
               | (Inr (req, deferred), n) \<Rightarrow> (Inr (req, s # deferred), n))
         else
         case request_subscription s t m of
           (Inl e, n) \<Rightarrow> (Inl e, n)
         | (Inr _, n) \<Rightarrow>
             (case request_all t ss (slots - 1) n of
                (Inl e, n') \<Rightarrow> (Inl e, n')
              | (Inr (req, deferred), n') \<Rightarrow> (Inr (s # req, deferred), n')))"

definition retained_state :: "subscription_state \<Rightarrow> bool" where
  "retained_state st = List.member [SS_SUBSCRIBE_REQUESTED, SS_ACKED, SS_ACK_TIMEOUT] st"

definition sub_not_aware :: pyerr where
  "sub_not_aware = ValueError ''subscription timestamps must be timezone-aware''"

definition reconcile ::
  "pool_entry list \<Rightarrow> datetime \<Rightarrow> string list \<Rightarrow> subscription_manager
     \<Rightarrow> subscription_decision res \<times> subscription_manager" where
  "reconcile entries t active_symbols m =
     (if \<not> dt_aware t then (Inl sub_not_aware, m)
      else
      case mark_ack_timeouts t m of (Inl e, n) \<Rightarrow> (Inl e, n) | (Inr _, m1) \<Rightarrow>
      let p = sm_policy m1;
          admitted = admitted_entries entries;
          protected = protected_symbols admitted (remdups (normalize_symbols active_symbols)) m1
      in if sy_max_symbols p < int (length protected)
         then (Inl (Raised ''ProtectedCapacityError'' ''protected symbols exceed capacity''), m1)
         else
         let desired = select_desired admitted protected t m1
         in case unsubscribe_all t (unwanted desired m1) m1 of
              (Inl e, n) \<Rightarrow> (Inl e, n)
            | (Inr unsubscribed, m2) \<Rightarrow>
              (case request_all t desired
                      (sy_max_symbols p - int (length (consuming_symbols m2))) m2 of
                 (Inl e, n) \<Rightarrow> (Inl e, n)
               | (Inr (requested, deferred), m3) \<Rightarrow>
                   if sy_max_symbols p < int (length (consuming_symbols m3))
                   then (Inl (AssertionFailure ''subscription capacity invariant violated''), m3)
                   else
                   let d = \<lparr>sn_evaluated_at = t, sn_policy_version = sy_version p,
                     sn_mode = sy_mode p, sn_max_symbols = sy_max_symbols p,
                     sn_desired_symbols = desired, sn_request_symbols = requested,
                     sn_unsubscribe_symbols = unsubscribed,
                     sn_retained_symbols = sort (filter (\<lambda>s. \<not> List.member requested s
                        \<and> List.member (symbols_in retained_state m3) s) desired),
                     sn_deferred_symbols = deferred,
                     sn_capacity_evicted_symbols =
                        sort (filter (\<lambda>s. \<not> List.member desired s) (map fst admitted)),
                     sn_consuming_symbols = sort (consuming_symbols m3),
                     sn_covered_symbols = sort (covered_symbols m3)\<rparr>
                   in (Inr d, m3\<lparr>sm_decisions := sm_decisions m3 @ [d]\<rparr>)))"

subsection \<open>Provider acknowledgements\<close>

definition normalize_symbol :: "string \<Rightarrow> string res" where
  "normalize_symbol symbol =
     (if py_upper (py_strip symbol) = []
      then Inl (ValueError ''subscription symbol must not be empty'')
      else Inr (py_upper (py_strip symbol)))"

text \<open>A transition of a symbol that must be in one of the given states.\<close>

definition transition_from ::
  "subscription_state list \<Rightarrow> string \<Rightarrow> string \<Rightarrow> subscription_state \<Rightarrow> subscription_event_type
     \<Rightarrow> datetime \<Rightarrow> string \<Rightarrow> (subscription_record \<Rightarrow> subscription_record)
     \<Rightarrow> subscription_manager \<Rightarrow> unit res \<times> subscription_manager" where
  "transition_from states msg symbol to_state event t reason changes m =
     (if \<not> dt_aware t then (Inl sub_not_aware, m)
      else
      case normalize_symbol symbol of Inl e \<Rightarrow> (Inl e, m)
      | Inr s \<Rightarrow>
          if (case dget (sm_records m) s of None \<Rightarrow> False | Some r \<Rightarrow> List.member states (sb_state r))
          then transition s to_state event t reason changes m
          else (Inl (ValueError (s @ msg)), m))"

definition ack_subscribe where
  "ack_subscribe symbol t = transition_from [SS_SUBSCRIBE_REQUESTED, SS_ACK_TIMEOUT]
     '' has no pending subscribe request'' symbol SS_ACKED SE_SUBSCRIBE_ACKED t ''provider_ack''
     (\<lambda>r. r\<lparr>sb_acked_at := Some t\<rparr>)"

definition fail_subscribe where
  "fail_subscribe symbol t reason = transition_from [SS_SUBSCRIBE_REQUESTED]
     '' has no pending subscribe request'' symbol SS_SUBSCRIBE_FAILED SE_SUBSCRIBE_FAILED t reason
     (\<lambda>r. r\<lparr>sb_failed_at := Some t\<rparr>)"

definition begin_subscribe_rollback where
  "begin_subscribe_rollback symbol t reason = transition_from
     [SS_SUBSCRIBE_REQUESTED, SS_ACK_TIMEOUT] '' has no subscribe to roll back'' symbol
     SS_UNSUBSCRIBE_REQUESTED SE_SUBSCRIBE_ROLLBACK_REQUESTED t reason id"

definition ack_unsubscribe where
  "ack_unsubscribe symbol t = transition_from [SS_UNSUBSCRIBE_REQUESTED, SS_UNSUBSCRIBE_FAILED]
     '' has no pending unsubscribe request'' symbol SS_UNSUBSCRIBED SE_UNSUBSCRIBE_ACKED t
     ''provider_ack'' id"

definition fail_unsubscribe where
  "fail_unsubscribe symbol t reason = transition_from [SS_UNSUBSCRIBE_REQUESTED]
     '' has no pending unsubscribe request'' symbol SS_UNSUBSCRIBE_FAILED SE_UNSUBSCRIBE_FAILED t
     reason (\<lambda>r. r\<lparr>sb_failed_at := Some t\<rparr>)"

definition mark_disconnected ::
  "datetime \<Rightarrow> subscription_manager \<Rightarrow> unit res \<times> subscription_manager" where
  "mark_disconnected t m =
     (if \<not> dt_aware t then (Inl sub_not_aware, m)
      else for_each (\<lambda>s. transition s SS_DISCONNECTED SE_DISCONNECTED t ''provider_disconnected'' id)
             (sort (consuming_symbols m)) m)"

definition classify_miss ::
  "subscription_manager \<Rightarrow> string \<Rightarrow> string list \<Rightarrow> string list \<Rightarrow> string list \<Rightarrow> bool \<Rightarrow> bool
     \<Rightarrow> miss_reason option res" where
  "classify_miss m symbol discovered admitted evicted data_complete signal_emitted =
     (case normalize_symbol symbol of Inl e \<Rightarrow> Inl e
      | Inr s \<Rightarrow> Inr
          (if \<not> List.member discovered s then Some MR_NOT_DISCOVERED
           else if \<not> List.member admitted s then Some MR_ADMISSION_PENDING
           else if List.member evicted s then Some MR_CAPACITY_EVICTED
           else if \<not> List.member (covered_symbols m) s then Some MR_SUBSCRIPTION_NOT_ACKED
           else if \<not> data_complete then Some MR_DATA_INCOMPLETE
           else if \<not> signal_emitted then Some MR_SIGNAL_FALSE
           else None))"

section \<open>The life cycle of a subscription\<close>

definition state_of :: "subscription_manager \<Rightarrow> string \<Rightarrow> subscription_state option" where
  "state_of m s = map_option sb_state (dget (sm_records m) s)"

text \<open>The abstract automaton: which event may take a symbol from which state to which.\<close>

fun lawful ::
  "subscription_state option \<Rightarrow> subscription_event_type \<Rightarrow> subscription_state \<Rightarrow> bool" where
  "lawful st SE_SUBSCRIBE_REQUESTED st' \<longleftrightarrow> st' = SS_SUBSCRIBE_REQUESTED
     \<and> List.member [None, Some SS_SUBSCRIBE_FAILED, Some SS_DISCONNECTED, Some SS_UNSUBSCRIBED] st"
| "lawful st SE_SUBSCRIBE_ACKED st' \<longleftrightarrow> st' = SS_ACKED
     \<and> List.member [Some SS_SUBSCRIBE_REQUESTED, Some SS_ACK_TIMEOUT] st"
| "lawful st SE_SUBSCRIBE_ACK_TIMEOUT st' \<longleftrightarrow>
     st' = SS_ACK_TIMEOUT \<and> st = Some SS_SUBSCRIBE_REQUESTED"
| "lawful st SE_SUBSCRIBE_FAILED st' \<longleftrightarrow>
     st' = SS_SUBSCRIBE_FAILED \<and> st = Some SS_SUBSCRIBE_REQUESTED"
| "lawful st SE_SUBSCRIBE_ROLLBACK_REQUESTED st' \<longleftrightarrow> st' = SS_UNSUBSCRIBE_REQUESTED
     \<and> List.member [Some SS_SUBSCRIBE_REQUESTED, Some SS_ACK_TIMEOUT] st"
| "lawful st SE_UNSUBSCRIBE_REQUESTED st' \<longleftrightarrow> st' = SS_UNSUBSCRIBE_REQUESTED
     \<and> List.member [Some SS_SUBSCRIBE_REQUESTED, Some SS_ACKED, Some SS_ACK_TIMEOUT,
         Some SS_UNSUBSCRIBE_FAILED] st"
| "lawful st SE_UNSUBSCRIBE_ACKED st' \<longleftrightarrow> st' = SS_UNSUBSCRIBED
     \<and> List.member [Some SS_UNSUBSCRIBE_REQUESTED, Some SS_UNSUBSCRIBE_FAILED] st"
| "lawful st SE_UNSUBSCRIBE_FAILED st' \<longleftrightarrow>
     st' = SS_UNSUBSCRIBE_FAILED \<and> st = Some SS_UNSUBSCRIBE_REQUESTED"
| "lawful st SE_DISCONNECTED st' \<longleftrightarrow>
     st' = SS_DISCONNECTED \<and> (case st of None \<Rightarrow> False | Some x \<Rightarrow> consuming x)"

text \<open>The states a log leads to, and the logs that are runs of the automaton.\<close>

definition log_states :: "subscription_event list \<Rightarrow> string \<Rightarrow> subscription_state option" where
  "log_states es = foldl (\<lambda>f e. f(sv_symbol e := Some (sv_to_state e))) (\<lambda>_. None) es"

lemma log_states_simps [simp]:
  "log_states [] = (\<lambda>_. None)"
  "log_states (es @ [e]) = (log_states es)(sv_symbol e := Some (sv_to_state e))"
  by (simp_all add: log_states_def)

inductive lawful_log :: "subscription_event list \<Rightarrow> bool" where
  lawful_empty: "lawful_log []"
| lawful_snoc: "\<lbrakk>lawful_log es; sv_sequence e = int (length es) + 1;
     sv_from_state e = log_states es (sv_symbol e);
     lawful (sv_from_state e) (sv_event_type e) (sv_to_state e)\<rbrakk> \<Longrightarrow> lawful_log (es @ [e])"

definition holding :: "subscription_manager \<Rightarrow> string set" where
  "holding m = {s. case state_of m s of None \<Rightarrow> False | Some st \<Rightarrow> consuming st}"

text \<open>
  One atomic effect of an operation: a lawful transition that takes a new slot only when one is free,
  or a recorded decision.
\<close>

inductive sub_atom :: "subscription_manager \<Rightarrow> subscription_manager \<Rightarrow> bool" where
  atom_transition: "\<lbrakk>transition s st ev t why f m = (Inr u, m'); \<And>r. sb_state (f r) = sb_state r;
     lawful (state_of m s) ev st;
     s \<notin> holding m \<Longrightarrow> consuming st \<Longrightarrow> int (card (holding m)) < sy_max_symbols (sm_policy m)\<rbrakk>
     \<Longrightarrow> sub_atom m m'"
| atom_decision: "sub_atom m (m\<lparr>sm_decisions := sm_decisions m @ [d]\<rparr>)"

definition sub_inv :: "subscription_policy \<Rightarrow> subscription_manager \<Rightarrow> bool" where
  "sub_inv p m \<longleftrightarrow> sm_policy m = p \<and> distinct (map fst (sm_records m))
     \<and> int (card (holding m)) \<le> sy_max_symbols p
     \<and> state_of m = log_states (sm_events m) \<and> lawful_log (sm_events m)
     \<and> sm_sequence m = int (length (sm_events m))"

lemma transition_error: "transition s st ev t why f m = (Inl e, m') \<Longrightarrow> m' = m"
  by (auto simp: transition_def Let_def split: if_splits)

lemma transition_effect:
  assumes "transition s st ev t why f m = (Inr u, m')" and "\<And>r. sb_state (f r) = sb_state r"
  shows "state_of m' = (state_of m)(s := Some st)" and "sm_policy m' = sm_policy m"
    and "distinct (map fst (sm_records m)) \<Longrightarrow> distinct (map fst (sm_records m'))"
    and "sm_sequence m' = sm_sequence m + 1" and "sm_decisions m' = sm_decisions m"
    and "\<exists>e. sm_events m' = sm_events m @ [e] \<and> sv_sequence e = sm_sequence m + 1 \<and> sv_symbol e = s
      \<and> sv_event_type e = ev \<and> sv_from_state e = state_of m s \<and> sv_to_state e = st"
    and "s' \<noteq> s \<Longrightarrow> dget (sm_records m') s' = dget (sm_records m) s'"
  using assms by (auto simp: transition_def Let_def state_of_def fun_eq_iff distinct_dset split: if_splits)

lemma holding_finite [simp]: "finite (holding m)"
proof (rule finite_subset)
  show "holding m \<subseteq> dom (dget (sm_records m))"
    by (auto simp: holding_def state_of_def split: option.splits)
qed (rule finite_dom_map_of)

lemma decision_states [simp]:
  "state_of (m\<lparr>sm_decisions := ds\<rparr>) = state_of m" "holding (m\<lparr>sm_decisions := ds\<rparr>) = holding m"
  by (simp_all add: state_of_def holding_def fun_eq_iff)

lemma consuming_set: "distinct (map fst (sm_records m)) \<Longrightarrow>
    set (symbols_in P m) = {s. \<exists>st. state_of m s = Some st \<and> P st}"
  by (force simp: symbols_in_def state_of_def)

lemma consuming_symbols_holding:
  assumes "distinct (map fst (sm_records m))"
  shows "set (consuming_symbols m) = holding m" and "length (consuming_symbols m) = card (holding m)"
proof -
  show s: "set (consuming_symbols m) = holding m"
    unfolding consuming_symbols_def consuming_set [OF assms]
    by (auto simp: holding_def split: option.splits)
  have "distinct (consuming_symbols m)"
    unfolding consuming_symbols_def symbols_in_def using assms by (rule distinct_map_filter)
  then show "length (consuming_symbols m) = card (holding m)"
    using s distinct_card by metis
qed

lemma holding_update:
  assumes "state_of m' = (state_of m)(s := Some st)"
  shows "holding m' = (if consuming st then insert s (holding m) else holding m - {s})"
  using assms by (auto simp: holding_def split: option.splits)

lemma sub_atom_inv:
  assumes "sub_atom m m'" and "sub_inv p m"
  shows "sub_inv p m'"
  using assms(1)
proof cases
  case (atom_transition s st ev t why f u)
  note eff = transition_effect [OF atom_transition(1,2)]
  obtain e where e: "sm_events m' = sm_events m @ [e]" "sv_sequence e = sm_sequence m + 1"
    "sv_symbol e = s" "sv_event_type e = ev" "sv_from_state e = state_of m s" "sv_to_state e = st"
    using eff(6) by blast
  have log: "lawful_log (sm_events m')"
    unfolding e(1) by (rule lawful_snoc)
      (use e assms(2) atom_transition(3) in \<open>simp_all add: sub_inv_def\<close>)
  have "int (card (holding m')) \<le> sy_max_symbols p"
  proof (cases "s \<in> holding m \<or> \<not> consuming st")
    case True
    then have "holding m' \<subseteq> holding m" using holding_update [OF eff(1)] by (auto split: if_splits)
    then have "card (holding m') \<le> card (holding m)" by (simp add: card_mono)
    then show ?thesis using assms(2) by (simp add: sub_inv_def)
  next
    case False
    then show ?thesis
      using atom_transition(4) assms(2) holding_update [OF eff(1)] by (simp add: sub_inv_def)
  qed
  then show ?thesis using assms(2) eff e log by (simp add: sub_inv_def)
next
  case (atom_decision d)
  then show ?thesis using assms(2) by (simp add: sub_inv_def)
qed

lemma sub_atoms_inv: "sub_atom\<^sup>*\<^sup>* m m' \<Longrightarrow> sub_inv p m \<Longrightarrow> sub_inv p m'"
  by (induction rule: rtranclp_induct) (auto intro: sub_atom_inv)

section \<open>The operations as sequences of atomic effects\<close>

lemma atom_of_transition:
  assumes "transition s st ev t why f m = (Inr u, m')" and "\<And>r. sb_state (f r) = sb_state r"
    and "lawful (state_of m s) ev st" and "s \<in> holding m \<or> \<not> consuming st"
  shows "sub_atom\<^sup>*\<^sup>* m m'"
  using atom_transition [OF assms(1-3)] assms(4) by blast

lemma held_state: "s \<in> holding m \<longleftrightarrow> (\<exists>st. state_of m s = Some st \<and> consuming st)"
  by (auto simp: holding_def split: option.splits)

lemma state_of_Some: "state_of m s = Some st \<longleftrightarrow> (\<exists>r. dget (sm_records m) s = Some r \<and> sb_state r = st)"
  by (auto simp: state_of_def)

text \<open>A loop of guarded transitions over distinct symbols.\<close>

lemma for_each_steps:
  assumes "for_each f xs m = (r, m')" and "Q xs m"
    and "\<And>x xs m u n. Q (x # xs) m \<Longrightarrow> f x m = (Inr u, n) \<Longrightarrow> R m n \<and> Q xs n"
    and "\<And>x m e n. f x m = (Inl e, n) \<Longrightarrow> n = m"
    and "\<And>m. R m m" and "\<And>m n k. R m n \<Longrightarrow> R n k \<Longrightarrow> R m k"
  shows "R m m'"
  using assms(1,2)
proof (induction xs arbitrary: m)
  case (Cons x xs)
  obtain q n where q: "f x m = (q, n)" by fastforce
  show ?case
  proof (cases q)
    case (Inl e)
    then show ?thesis using Cons.prems(1) q assms(4) [of x m e n] assms(5) by simp
  next
    case (Inr u)
    from assms(3) [OF Cons.prems(2)] q Inr have n: "R m n" "Q xs n" by auto
    have "R n m'" using Cons.IH [OF _ n(2)] Cons.prems(1) q Inr by simp
    with n(1) show ?thesis by (rule assms(6))
  qed
qed (simp add: assms(5))

definition keeps_quotes :: "subscription_manager \<Rightarrow> subscription_manager \<Rightarrow> bool" where
  "keeps_quotes m n \<longleftrightarrow> sub_atom\<^sup>*\<^sup>* m n
     \<and> (\<forall>s. state_of m s = Some SS_ACKED \<longrightarrow> state_of n s = Some SS_ACKED)"

lemma mark_ack_timeouts_atoms:
  assumes "mark_ack_timeouts t m = (r, m')" and "distinct (map fst (sm_records m))"
  shows "keeps_quotes m m'"
proof (rule for_each_steps [where R = keeps_quotes and Q = "\<lambda>krs n. distinct (map fst krs)
    \<and> (\<forall>kr \<in> set krs. dget (sm_records n) (fst kr) = Some (snd kr))"])
  show "distinct (map fst (sort_key fst (sm_records m)))
      \<and> (\<forall>kr \<in> set (sort_key fst (sm_records m)). dget (sm_records m) (fst kr) = Some (snd kr))"
    using assms(2) by (auto simp: distinct_map)
next
  fix kr krs n u n'
  assume q: "distinct (map fst (kr # krs))
      \<and> (\<forall>x \<in> set (kr # krs). dget (sm_records n) (fst x) = Some (snd x))"
    and f: "(if ack_timed_out (sm_policy n) t (snd kr)
       then transition (fst kr) SS_ACK_TIMEOUT SE_SUBSCRIBE_ACK_TIMEOUT t ''subscribe_ack_timeout''
         (\<lambda>r. r\<lparr>sb_failed_at := Some t\<rparr>) n
       else (Inr (), n)) = (Inr u, n')"
  show "keeps_quotes n n' \<and> distinct (map fst krs)
      \<and> (\<forall>x \<in> set krs. dget (sm_records n') (fst x) = Some (snd x))"
  proof (cases "ack_timed_out (sm_policy n) t (snd kr)")
    case True
    then have tr: "transition (fst kr) SS_ACK_TIMEOUT SE_SUBSCRIBE_ACK_TIMEOUT t ''subscribe_ack_timeout''
        (\<lambda>r. r\<lparr>sb_failed_at := Some t\<rparr>) n = (Inr u, n')" using f by simp
    have st: "state_of n (fst kr) = Some SS_SUBSCRIBE_REQUESTED"
      using q True by (simp add: state_of_def ack_timed_out_def)
    have "sub_atom\<^sup>*\<^sup>* n n'"
      by (rule atom_of_transition [OF tr]) (simp_all add: st held_state consuming_def)
    moreover have "state_of n' = (state_of n)(fst kr := Some SS_ACK_TIMEOUT)"
      by (rule transition_effect(1) [OF tr]) simp
    ultimately have "keeps_quotes n n'" using st by (simp add: keeps_quotes_def)
    moreover have "dget (sm_records n') (fst x) = Some (snd x)" if "x \<in> set krs" for x
    proof -
      have "fst x \<in> fst ` set krs" using that by simp
      moreover have "fst kr \<notin> fst ` set krs" using q by simp
      ultimately have "fst x \<noteq> fst kr" by metis
      then have "dget (sm_records n') (fst x) = dget (sm_records n) (fst x)"
        by (intro transition_effect(7) [OF tr]) simp
      then show ?thesis using q that by simp
    qed
    ultimately show ?thesis using q by simp
  qed (use q f in \<open>auto simp: keeps_quotes_def\<close>)
next
  show "for_each (\<lambda>kr n. if ack_timed_out (sm_policy n) t (snd kr)
      then transition (fst kr) SS_ACK_TIMEOUT SE_SUBSCRIBE_ACK_TIMEOUT t ''subscribe_ack_timeout''
        (\<lambda>r. r\<lparr>sb_failed_at := Some t\<rparr>) n
      else (Inr (), n)) (sort_key fst (sm_records m)) m = (r, m')"
    using assms(1) by (simp only: mark_ack_timeouts_def)
qed (auto simp: keeps_quotes_def dest: transition_error split: if_splits)

lemma mark_disconnected_atoms:
  assumes "mark_disconnected t m = (r, m')" and "distinct (map fst (sm_records m))"
  shows "sub_atom\<^sup>*\<^sup>* m m'"
proof (cases "dt_aware t")
  case True
  have f: "for_each (\<lambda>s. transition s SS_DISCONNECTED SE_DISCONNECTED t ''provider_disconnected'' id)
      (sort (consuming_symbols m)) m = (r, m')"
    using assms(1) True by (simp add: mark_disconnected_def)
  show ?thesis
  proof (rule for_each_steps [OF f, where R = "sub_atom\<^sup>*\<^sup>*" and Q = "\<lambda>ss n. distinct ss \<and> set ss \<subseteq> holding n"])
    show "distinct (sort (consuming_symbols m)) \<and> set (sort (consuming_symbols m)) \<subseteq> holding m"
      using consuming_symbols_holding [OF assms(2)]
      by (simp add: card_distinct)
    fix s ss n u n'
    assume q: "distinct (s # ss) \<and> set (s # ss) \<subseteq> holding n"
      and tr: "transition s SS_DISCONNECTED SE_DISCONNECTED t ''provider_disconnected'' id n = (Inr u, n')"
    have "sub_atom\<^sup>*\<^sup>* n n'"
      by (rule atom_of_transition [OF tr]) (use q in \<open>auto simp: held_state\<close>)
    moreover have "state_of n' = (state_of n)(s := Some SS_DISCONNECTED)"
      by (rule transition_effect(1) [OF tr]) simp
    then have "holding n - {s} \<subseteq> holding n'" by (auto simp: holding_update)
    ultimately show "sub_atom\<^sup>*\<^sup>* n n' \<and> distinct ss \<and> set ss \<subseteq> holding n'" using q by auto
  qed (auto dest: transition_error)
qed (use assms(1) in \<open>simp add: mark_disconnected_def\<close>)

lemma transition_from_atoms:
  assumes "transition_from states msg symbol st ev t why f m = (r, m')"
    and "\<And>x. sb_state (f x) = sb_state x"
    and "\<And>x. x \<in> set states \<Longrightarrow> lawful (Some x) ev st \<and> (consuming x \<or> \<not> consuming st)"
  shows "sub_atom\<^sup>*\<^sup>* m m'"
proof (cases r)
  case (Inl e)
  then have "m' = m"
    using assms(1) by (auto simp: transition_from_def dest: transition_error
        split: if_splits sum.splits option.splits)
  then show ?thesis by simp
next
  case (Inr u)
  then obtain s x where x: "transition s st ev t why f m = (Inr u, m')"
    "dget (sm_records m) s = Some x" "sb_state x \<in> set states"
    using assms(1) by (auto simp: transition_from_def split: if_splits sum.splits option.splits)
  then show ?thesis
    using assms(3) [OF x(3)]
    by (intro atom_of_transition [OF x(1) assms(2)]) (auto simp: state_of_def held_state)
qed

lemma acknowledgement_atoms:
  "ack_subscribe symbol t m = (r, m') \<Longrightarrow> sub_atom\<^sup>*\<^sup>* m m'"
  "fail_subscribe symbol t why m = (r, m') \<Longrightarrow> sub_atom\<^sup>*\<^sup>* m m'"
  "begin_subscribe_rollback symbol t why m = (r, m') \<Longrightarrow> sub_atom\<^sup>*\<^sup>* m m'"
  "ack_unsubscribe symbol t m = (r, m') \<Longrightarrow> sub_atom\<^sup>*\<^sup>* m m'"
  "fail_unsubscribe symbol t why m = (r, m') \<Longrightarrow> sub_atom\<^sup>*\<^sup>* m m'"
  unfolding ack_subscribe_def fail_subscribe_def begin_subscribe_rollback_def ack_unsubscribe_def
    fail_unsubscribe_def
  by (erule transition_from_atoms; auto simp: consuming_def)+

lemma unsubscribe_all_atoms:
  assumes "unsubscribe_all t ss m = (r, m')" and "distinct ss" and "set ss \<subseteq> holding m"
  shows "sub_atom\<^sup>*\<^sup>* m m'" and "\<And>s. s \<notin> set ss \<Longrightarrow> state_of m' s = state_of m s"
    and "\<And>us. r = Inr us \<Longrightarrow> set us \<subseteq> set ss"
proof -
  have "sub_atom\<^sup>*\<^sup>* m m' \<and> (\<forall>s. s \<notin> set ss \<longrightarrow> state_of m' s = state_of m s)
      \<and> (\<forall>us. r = Inr us \<longrightarrow> set us \<subseteq> set ss)"
    using assms
  proof (induction ss arbitrary: m r m')
    case (Cons s ss)
    obtain x where x: "dget (sm_records m) s = Some x" "consuming (sb_state x)"
      using Cons.prems(3) by (auto simp: held_state state_of_Some)
    show ?case
    proof (cases "sb_state x = SS_UNSUBSCRIBE_REQUESTED
        \<or> (sb_state x = SS_UNSUBSCRIBE_FAILED \<and> \<not> retry_ready (sm_policy m) (Some x) t)")
      case True
      then have "unsubscribe_all t ss m = (r, m')" using Cons.prems(1) x(1) by simp
      from Cons.IH [OF this] Cons.prems(2,3) show ?thesis by auto
    next
      case False
      obtain q n where tr: "transition s SS_UNSUBSCRIBE_REQUESTED SE_UNSUBSCRIBE_REQUESTED t
          ''not_in_desired_universe'' id m = (q, n)" by fastforce
      have step: "unsubscribe_all t (s # ss) m =
          (case q of Inl e \<Rightarrow> (Inl e, n) | Inr _ \<Rightarrow>
            (case unsubscribe_all t ss n of (Inl e, n') \<Rightarrow> (Inl e, n') | (Inr us, n') \<Rightarrow> (Inr (s # us), n')))"
        using x(1) False tr by (cases q) auto
      show ?thesis
      proof (cases q)
        case (Inl e)
        then have "m' = m" "r = Inl e"
          using Cons.prems(1) tr transition_error [of s] unfolding step by auto
        then show ?thesis by simp
      next
        case (Inr u)
        note tr = tr [unfolded Inr]
        have st: "state_of n = (state_of m)(s := Some SS_UNSUBSCRIBE_REQUESTED)"
          by (rule transition_effect(1) [OF tr]) simp
        have a: "sub_atom\<^sup>*\<^sup>* m n"
          by (rule atom_of_transition [OF tr])
            (use x False in \<open>auto simp: state_of_def held_state consuming_def\<close>)
        have "holding m \<subseteq> holding n" using holding_update [OF st] by (auto simp: consuming_def)
        then have h: "set ss \<subseteq> holding n" using Cons.prems(3) by auto
        obtain q' n' where q': "unsubscribe_all t ss n = (q', n')" by fastforce
        from Cons.IH [OF q' _ h] Cons.prems(2)
        have ih: "sub_atom\<^sup>*\<^sup>* n n'" "\<forall>s. s \<notin> set ss \<longrightarrow> state_of n' s = state_of n s"
          "\<forall>us. q' = Inr us \<longrightarrow> set us \<subseteq> set ss" by auto
        have r: "m' = n'" "\<And>us. r = Inr us \<Longrightarrow> \<exists>vs. q' = Inr vs \<and> us = s # vs"
          using Cons.prems(1) q' Inr unfolding step by (auto split: sum.splits)
        have "sub_atom\<^sup>*\<^sup>* m m'" using a ih(1) r(1) by simp
        moreover have "\<forall>s'. s' \<notin> set (s # ss) \<longrightarrow> state_of m' s' = state_of m s'"
          using ih(2) st r(1) by auto
        moreover have "\<forall>us. r = Inr us \<longrightarrow> set us \<subseteq> set (s # ss)"
          using ih(3) r(2) by fastforce
        ultimately show ?thesis by blast
      qed
    qed
  qed simp
  then show "sub_atom\<^sup>*\<^sup>* m m'" "\<And>s. s \<notin> set ss \<Longrightarrow> state_of m' s = state_of m s"
    "\<And>us. r = Inr us \<Longrightarrow> set us \<subseteq> set ss" by auto
qed

lemma request_all_atoms:
  assumes "request_all t ss slots m = (r, m')" and "distinct ss"
    and "slots = sy_max_symbols (sm_policy m) - int (card (holding m))"
  shows "sub_atom\<^sup>*\<^sup>* m m'" and "\<And>s. s \<in> holding m \<Longrightarrow> state_of m' s = state_of m s"
    and "\<And>req de. r = Inr (req, de) \<Longrightarrow> set ss \<subseteq> holding m' \<union> set de"
proof -
  have "sub_atom\<^sup>*\<^sup>* m m' \<and> (\<forall>s. s \<in> holding m \<longrightarrow> state_of m' s = state_of m s)
      \<and> (\<forall>req de. r = Inr (req, de) \<longrightarrow> set ss \<subseteq> holding m' \<union> set de)"
    using assms
  proof (induction ss arbitrary: m r m' slots)
    case (Cons s ss)
    let ?x = "dget (sm_records m) s"
    have kept: "s \<in> holding n'" if "s \<in> holding n" "\<forall>s. s \<in> holding n \<longrightarrow> state_of n' s = state_of n s" for n n'
      using that by (auto simp: held_state)
    have c: "(case ?x of None \<Rightarrow> False | Some r \<Rightarrow> consuming (sb_state r)) \<longleftrightarrow> s \<in> holding m"
      by (simp add: holding_def state_of_def split: option.splits)
    consider "s \<in> holding m" | "s \<notin> holding m" "\<not> retry_ready (sm_policy m) ?x t \<or> slots \<le> 0"
      | "s \<notin> holding m" "retry_ready (sm_policy m) ?x t" "0 < slots" by linarith
    then show ?case
    proof cases
      case 1
      then have q: "request_all t ss slots m = (r, m')" using Cons.prems(1) by (simp add: Let_def c)
      from Cons.IH [OF q _ Cons.prems(3)] Cons.prems(2) kept [OF 1] show ?thesis by fastforce
    next
      case 2
      obtain q n where q: "request_all t ss slots m = (q, n)" by fastforce
      have "m' = n" "\<And>req de. r = Inr (req, de) \<Longrightarrow> \<exists>de'. q = Inr (req, de') \<and> de = s # de'"
        using Cons.prems(1) 2 q by (auto simp: Let_def c split: sum.splits)
      with Cons.IH [OF q _ Cons.prems(3)] Cons.prems(2) show ?thesis by fastforce
    next
      case 3
      obtain q n where rq: "request_subscription s t m = (q, n)" by fastforce
      note tr = rq [unfolded request_subscription_def Let_def]
      have step: "request_all t (s # ss) slots m = (case q of Inl e \<Rightarrow> (Inl e, n) | Inr _ \<Rightarrow>
          (case request_all t ss (slots - 1) n of (Inl e, n') \<Rightarrow> (Inl e, n')
           | (Inr (req, de), n') \<Rightarrow> (Inr (s # req, de), n')))"
        using 3 rq by (cases q) (simp_all add: Let_def c)
      show ?thesis
      proof (cases q)
        case (Inl e)
        then have "m' = m" "r = Inl e"
          using Cons.prems(1) transition_error [OF tr [unfolded Inl]] unfolding step by auto
        then show ?thesis by simp
      next
        case (Inr u)
        note tr = tr [unfolded Inr]
        have st: "state_of n = (state_of m)(s := Some SS_SUBSCRIBE_REQUESTED)"
          and pol: "sm_policy n = sm_policy m"
          by (rule transition_effect(1,2) [OF tr], simp)+
        have law: "lawful (state_of m s) SE_SUBSCRIBE_REQUESTED SS_SUBSCRIBE_REQUESTED"
          using 3(1,2) by (auto simp: held_state state_of_def retry_ready_def consuming_def split: option.splits)
        have "sub_atom m n"
          by (rule atom_transition [OF tr _ law]) (use 3(3) Cons.prems(3) in simp_all)
        then have a: "sub_atom\<^sup>*\<^sup>* m n" by simp
        have h: "holding n = insert s (holding m)" using holding_update [OF st] by (simp add: consuming_def)
        have slots: "slots - 1 = sy_max_symbols (sm_policy n) - int (card (holding n))"
          using Cons.prems(3) 3(1) pol h by simp
        obtain q' n' where q': "request_all t ss (slots - 1) n = (q', n')" by fastforce
        from Cons.IH [OF q' _ slots] Cons.prems(2)
        have ih: "sub_atom\<^sup>*\<^sup>* n n'" "\<forall>s. s \<in> holding n \<longrightarrow> state_of n' s = state_of n s"
          "\<forall>req de. q' = Inr (req, de) \<longrightarrow> set ss \<subseteq> holding n' \<union> set de" by auto
        have r: "m' = n'" "\<And>req de. r = Inr (req, de) \<Longrightarrow> \<exists>req'. q' = Inr (req', de)"
          using Cons.prems(1) q' Inr unfolding step by (auto split: sum.splits)
        have "\<forall>s'. s' \<in> holding m \<longrightarrow> state_of m' s' = state_of m s'"
          using ih(2) h st 3(1) r(1) by auto
        moreover have "s \<in> holding m'" using kept [OF _ ih(2)] h r(1) by simp
        then have "\<forall>req de. r = Inr (req, de) \<longrightarrow> set (s # ss) \<subseteq> holding m' \<union> set de"
          using ih(3) r by fastforce
        ultimately show ?thesis using a ih(1) r(1) by simp
      qed
    qed
  qed simp
  then show "sub_atom\<^sup>*\<^sup>* m m'" "\<And>s. s \<in> holding m \<Longrightarrow> state_of m' s = state_of m s"
    "\<And>req de. r = Inr (req, de) \<Longrightarrow> set ss \<subseteq> holding m' \<union> set de" by auto
qed

text \<open>The four stages of a reconciliation, and where each can stop it.\<close>

definition protected_for ::
  "pool_entry list \<Rightarrow> string list \<Rightarrow> subscription_manager \<Rightarrow> string list" where
  "protected_for entries act m =
     protected_symbols (admitted_entries entries) (remdups (normalize_symbols act)) m"

lemma reconcile_cases:
  assumes "reconcile entries t act m = (r, m')"
  obtains (unaware) e where "r = Inl e" "m' = m" "e = sub_not_aware"
  | (timeouts) e where "r = Inl e" "mark_ack_timeouts t m = (Inl e, m')"
  | (capacity) e u where "r = Inl (Raised ''ProtectedCapacityError'' e)" "mark_ack_timeouts t m = (Inr u, m')"
      "sy_max_symbols (sm_policy m') < int (length (protected_for entries act m'))"
  | (unsubscribing) e u m1 des where "r = Inl e" "mark_ack_timeouts t m = (Inr u, m1)"
      "unsubscribe_all t (unwanted des m1) m1 = (Inl e, m')"
  | (requesting) e u m1 us m2 des where "r = Inl e" "mark_ack_timeouts t m = (Inr u, m1)"
      "unsubscribe_all t (unwanted des m1) m1 = (Inr us, m2)" "distinct des"
      "request_all t des (sy_max_symbols (sm_policy m1) - int (length (consuming_symbols m2))) m2 = (Inl e, m')"
  | (reconciled) u m1 us m2 req de m3 des where "mark_ack_timeouts t m = (Inr u, m1)"
      "unsubscribe_all t (unwanted des m1) m1 = (Inr us, m2)" "distinct des"
      "set (protected_for entries act m1) \<subseteq> set des"
      "request_all t des (sy_max_symbols (sm_policy m1) - int (length (consuming_symbols m2))) m2
         = (Inr (req, de), m3)"
      "if sy_max_symbols (sm_policy m1) < int (length (consuming_symbols m3))
       then r = Inl (AssertionFailure ''subscription capacity invariant violated'') \<and> m' = m3
       else \<exists>d. r = Inr d \<and> m' = m3\<lparr>sm_decisions := sm_decisions m3 @ [d]\<rparr>
         \<and> sn_desired_symbols d = des \<and> sn_unsubscribe_symbols d = us \<and> sn_deferred_symbols d = de"
proof -
  show thesis
  proof (cases "dt_aware t")
    case True
    obtain q m1 where q: "mark_ack_timeouts t m = (q, m1)" by fastforce
    show thesis
    proof (cases q)
      case (Inl e)
      then show thesis using assms True q timeouts [of e] by (simp add: reconcile_def)
    next
      case (Inr u)
      note q = q [unfolded Inr]
      let ?prot = "protected_for entries act m1"
      let ?des = "select_desired (admitted_entries entries) ?prot t m1"
      note unfold = reconcile_def Let_def protected_for_def [symmetric]
      show thesis
      proof (cases "sy_max_symbols (sm_policy m1) < int (length ?prot)")
        case True
        then show thesis
          using assms \<open>dt_aware t\<close> q capacity unfolding unfold by auto
      next
        case False
        note fits = False
        have des: "distinct ?des" "set ?prot \<subseteq> set ?des" by (auto simp: select_desired_def Let_def)
        obtain us m2 where u: "unsubscribe_all t (unwanted ?des m1) m1 = (us, m2)" by fastforce
        show thesis
        proof (cases us)
          case (Inl e)
          then show thesis
            using assms True q fits u unsubscribing [OF _ q, of e ?des]
            unfolding unfold by simp
        next
          case (Inr vs)
          note u = u [unfolded Inr]
          obtain rq m3 where rq: "request_all t ?des
              (sy_max_symbols (sm_policy m1) - int (length (consuming_symbols m2))) m2 = (rq, m3)"
            by fastforce
          show thesis
          proof (cases rq)
            case (Inl e)
            then show thesis
              using assms True q fits u rq requesting [OF _ q u des(1), of e]
              unfolding unfold by simp
          next
            case (Inr pr)
            obtain req de where pr: "pr = (req, de)" by fastforce
            note rq = rq [unfolded Inr pr]
            show thesis
              by (rule reconciled [OF q u des rq])
                (use assms True q fits u rq in \<open>auto simp: unfold split: if_splits\<close>)
          qed
        qed
      qed
    qed
  qed (use assms unaware in \<open>simp add: reconcile_def\<close>)
qed

lemma unwanted_facts:
  assumes "sub_inv p m"
  shows "distinct (unwanted des m)" and "set (unwanted des m) \<subseteq> holding m"
    and "set (unwanted des m) \<inter> set des = {}"
proof -
  have d: "distinct (map fst (sm_records m))" using assms by (simp add: sub_inv_def)
  show "distinct (unwanted des m)" "set (unwanted des m) \<subseteq> holding m"
    "set (unwanted des m) \<inter> set des = {}"
    using consuming_symbols_holding [OF d] by (auto simp: unwanted_def card_distinct)
qed

lemma free_slots:
  assumes "sub_inv p m"
  shows "int (length (consuming_symbols m)) = int (card (holding m))"
    and "int (length (consuming_symbols m)) \<le> sy_max_symbols p"
  using consuming_symbols_holding [of m] assms by (auto simp: sub_inv_def)

lemma timeouts_inv:
  assumes "mark_ack_timeouts t m = (r, m')" and "sub_inv p m"
  shows "sub_inv p m'" and "keeps_quotes m m'" and "sm_policy m' = p"
proof -
  show k: "keeps_quotes m m'"
    using mark_ack_timeouts_atoms [OF assms(1)] assms(2) by (simp add: sub_inv_def)
  then show "sub_inv p m'" using sub_atoms_inv assms(2) by (auto simp: keeps_quotes_def)
  then show "sm_policy m' = p" by (simp add: sub_inv_def)
qed

text \<open>The loops raise nothing but the errors of a transition or of a missing key.\<close>

definition assertion :: "pyerr \<Rightarrow> bool" where
  "assertion e = (case e of AssertionFailure msg \<Rightarrow> True | _ \<Rightarrow> False)"

lemma assertion_simps [simp]: "assertion (AssertionFailure msg)"
  "\<not> assertion (ValueError v)" "\<not> assertion (LookupFailure v)" "\<not> assertion (Raised k v)"
  by (simp_all add: assertion_def)

lemma transition_raises: "transition s st ev t why f m = (Inl e, n) \<Longrightarrow> \<not> assertion e"
  by (auto simp: transition_def Let_def split: if_splits)

lemma for_each_raises:
  assumes "\<And>x m e n. f x m = (Inl e, n) \<Longrightarrow> \<not> assertion e"
  shows "for_each f xs m = (Inl e, n) \<Longrightarrow> \<not> assertion e"
  by (induction xs arbitrary: m) (auto split: prod.splits sum.splits dest: assms)

lemma mark_ack_timeouts_raises: "mark_ack_timeouts t m = (Inl e, n) \<Longrightarrow> \<not> assertion e"
  unfolding mark_ack_timeouts_def
  by (erule for_each_raises [rotated]) (auto dest: transition_raises split: if_splits)

lemma unsubscribe_all_raises: "unsubscribe_all t ss m = (Inl e, n) \<Longrightarrow> \<not> assertion e"
proof (induction ss arbitrary: m)
  case (Cons s ss)
  then show ?case
    by (auto split: option.splits prod.splits sum.splits if_splits dest: transition_raises)
qed simp

lemma request_all_raises: "request_all t ss slots m = (Inl e, n) \<Longrightarrow> \<not> assertion e"
proof (induction ss arbitrary: slots m)
  case (Cons s ss)
  have "\<And>m e n. request_subscription s t m = (Inl e, n) \<Longrightarrow> \<not> assertion e"
    unfolding request_subscription_def Let_def by (rule transition_raises)
  with Cons show ?case
    by (auto simp: Let_def split: option.splits prod.splits sum.splits if_splits)
qed simp

text \<open>A reconciliation is a sequence of atomic effects, and its capacity assertion holds.\<close>

lemma stages_atoms:
  assumes "sub_inv p m" and "mark_ack_timeouts t m = (Inr u, m1)"
    and "unsubscribe_all t (unwanted des m1) m1 = (us, m2)"
  shows "sub_atom\<^sup>*\<^sup>* m m2" and "sub_inv p m2" and "sub_inv p m1"
    and "sy_max_symbols (sm_policy m1) - int (length (consuming_symbols m2))
      = sy_max_symbols (sm_policy m2) - int (card (holding m2))"
proof -
  note i = timeouts_inv [OF assms(2,1)]
  have a: "sub_atom\<^sup>*\<^sup>* m1 m2"
    using unsubscribe_all_atoms(1) [OF assms(3)] unwanted_facts [OF i(1)] by blast
  with i(2) show "sub_atom\<^sup>*\<^sup>* m m2" by (auto simp: keeps_quotes_def)
  show inv: "sub_inv p m2" using sub_atoms_inv [OF a i(1)] .
  show "sub_inv p m1" by (rule i(1))
  have "sm_policy m2 = p" using inv by (simp add: sub_inv_def)
  then show "sy_max_symbols (sm_policy m1) - int (length (consuming_symbols m2))
      = sy_max_symbols (sm_policy m2) - int (card (holding m2))"
    using free_slots(1) [OF inv] i(3) by simp
qed

lemma reconcile_atoms:
  assumes "reconcile entries t act m = (r, m')" and "sub_inv p m"
  shows "sub_atom\<^sup>*\<^sup>* m m' \<and> (\<forall>e. r = Inl e \<longrightarrow> \<not> assertion e)"
  using assms(1)
proof (cases rule: reconcile_cases)
  case (timeouts e)
  then show ?thesis
    using timeouts_inv(2) [OF timeouts(2) assms(2)] mark_ack_timeouts_raises
    by (auto simp: keeps_quotes_def)
next
  case (capacity e u)
  then show ?thesis
    using timeouts_inv(2) [OF capacity(2) assms(2)] by (auto simp: keeps_quotes_def)
next
  case (unsubscribing e u m1 des)
  then show ?thesis
    using stages_atoms(1) [OF assms(2) unsubscribing(2,3)] unsubscribe_all_raises by blast
next
  case (requesting e u m1 us m2 des)
  note st = stages_atoms [OF assms(2) requesting(2,3)]
  have "sub_atom\<^sup>*\<^sup>* m2 m'" by (rule request_all_atoms(1) [OF requesting(5,4) st(4)])
  then show ?thesis using st(1) requesting(1,5) request_all_raises by auto
next
  case (reconciled u m1 us m2 req de m3 des)
  note st = stages_atoms [OF assms(2) reconciled(1,2)]
  have a: "sub_atom\<^sup>*\<^sup>* m2 m3" by (rule request_all_atoms(1) [OF reconciled(5,3) st(4)])
  then have "sub_inv p m3" using st(2) by (rule sub_atoms_inv)
  from free_slots(2) [OF this] st(3)
  have fits: "\<not> sy_max_symbols (sm_policy m1) < int (length (consuming_symbols m3))"
    by (auto simp: sub_inv_def)
  then obtain d where "r = Inr d" "m' = m3\<lparr>sm_decisions := sm_decisions m3 @ [d]\<rparr>"
    using reconciled(6) by auto
  then show ?thesis using st(1) a atom_decision [of m3 d] by simp
qed (simp add: sub_not_aware_def)

text \<open>What a successful reconciliation does to a protected symbol.\<close>

lemma reconcile_protects:
  assumes "reconcile entries t act m = (Inr d, m')" and "sub_inv p m"
    and "\<And>m1. mark_ack_timeouts t m = (Inr (), m1) \<Longrightarrow> s \<in> set (protected_for entries act m1)"
  shows "s \<in> set (sn_desired_symbols d)" and "s \<notin> set (sn_unsubscribe_symbols d)"
    and "s \<in> holding m' \<or> s \<in> set (sn_deferred_symbols d)"
    and "state_of m s = Some SS_ACKED \<Longrightarrow> state_of m' s = Some SS_ACKED"
proof -
  from assms(1) have "s \<in> set (sn_desired_symbols d) \<and> s \<notin> set (sn_unsubscribe_symbols d)
    \<and> (s \<in> holding m' \<or> s \<in> set (sn_deferred_symbols d))
    \<and> (state_of m s = Some SS_ACKED \<longrightarrow> state_of m' s = Some SS_ACKED)"
  proof (cases rule: reconcile_cases)
    case (reconciled u m1 us m2 req de m3 des)
    note st = stages_atoms [OF assms(2) reconciled(1,2)]
    note un = unwanted_facts [OF st(3), of des]
    have s: "s \<in> set des" using assms(3) reconciled(1,4) by auto
    have d: "sn_desired_symbols d = des" "sn_unsubscribe_symbols d = us" "sn_deferred_symbols d = de"
      "m' = m3\<lparr>sm_decisions := sm_decisions m3 @ [d]\<rparr>"
      using reconciled(6) by (auto split: if_splits)
    have "set us \<subseteq> set (unwanted des m1)"
      using unsubscribe_all_atoms(3) [OF reconciled(2) un(1,2)] by simp
    then have 1: "s \<notin> set us" using un(3) s by auto
    have 2: "s \<in> holding m3 \<or> s \<in> set de"
      using request_all_atoms(3) [OF reconciled(5,3) st(4)] s by auto
    have "state_of m3 s = Some SS_ACKED" if "state_of m s = Some SS_ACKED"
    proof -
      have "state_of m1 s = Some SS_ACKED"
        using that timeouts_inv(2) [OF reconciled(1) assms(2)] by (simp add: keeps_quotes_def)
      moreover have "state_of m2 s = state_of m1 s"
        using unsubscribe_all_atoms(2) [OF reconciled(2) un(1,2)] un(3) s by auto
      ultimately show ?thesis
        using request_all_atoms(2) [OF reconciled(5,3) st(4), of s]
        by (simp add: held_state consuming_def)
    qed
    with s 1 2 d show ?thesis by simp
  qed simp_all
  then show "s \<in> set (sn_desired_symbols d)" "s \<notin> set (sn_unsubscribe_symbols d)"
    "s \<in> holding m' \<or> s \<in> set (sn_deferred_symbols d)"
    "state_of m s = Some SS_ACKED \<Longrightarrow> state_of m' s = Some SS_ACKED" by auto
qed

lemma dset_new: "k \<notin> fst ` set d \<Longrightarrow> dset k v d = d @ [(k, v)]"
  by (induction d) auto

lemma fold_dset_distinct:
  "distinct (map f fs) \<Longrightarrow> fold (\<lambda>e. dset (f e) e) fs [] = map (\<lambda>e. (f e, e)) fs"
  by (induction fs rule: rev_induct) (auto simp: dset_new image_image)

lemma admitted_entries_distinct:
  "distinct (map pe_symbol es) \<Longrightarrow>
     admitted_entries es = map (\<lambda>e. (pe_symbol e, e)) (filter pe_admitted es)"
  unfolding admitted_entries_def by (rule fold_dset_distinct) (rule distinct_map_filter)

lemma protected_for_entry:
  assumes "distinct (map pe_symbol es)" and "e \<in> set es" and "pe_admitted e" and "pe_protected e"
  shows "pe_symbol e \<in> set (protected_for es act m)"
  using assms(2-4)
  by (force simp: protected_for_def protected_symbols_def admitted_entries_distinct [OF assms(1)])

section \<open>Reachable managers\<close>

inductive sub_step :: "subscription_manager \<Rightarrow> subscription_manager \<Rightarrow> bool" where
  step_reconcile: "reconcile entries t act m = (r, m') \<Longrightarrow> sub_step m m'"
| step_ack_subscribe: "ack_subscribe symbol t m = (r', m') \<Longrightarrow> sub_step m m'"
| step_fail_subscribe: "fail_subscribe symbol t why m = (r', m') \<Longrightarrow> sub_step m m'"
| step_rollback: "begin_subscribe_rollback symbol t why m = (r', m') \<Longrightarrow> sub_step m m'"
| step_ack_unsubscribe: "ack_unsubscribe symbol t m = (r', m') \<Longrightarrow> sub_step m m'"
| step_fail_unsubscribe: "fail_unsubscribe symbol t why m = (r', m') \<Longrightarrow> sub_step m m'"
| step_disconnected: "mark_disconnected t m = (r', m') \<Longrightarrow> sub_step m m'"

definition valid_policy :: "subscription_policy \<Rightarrow> bool" where
  "valid_policy p \<longleftrightarrow>
     is_ok (subscription_policy_post_init p) \<and> is_ok (capacity_post_init (sy_capacity p))"

lemma valid_policy_capacity:
  assumes "valid_policy p"
  obtains h n where "cc_reserved_headroom (sy_capacity p) = Some h"
    and "subscriptions_per_symbol (sy_capacity p) = Some n" and "0 < n"
    and "h < cc_account_subscription_limit (sy_capacity p)"
    and "sy_max_symbols p = (cc_account_subscription_limit (sy_capacity p) - h) div n"
proof -
  from assms have "capacity_max_symbols (sy_capacity p) \<noteq> None"
    unfolding valid_policy_def is_ok_iff subscription_policy_post_init_def require_all_Inr by simp
  then obtain h n where hn: "cc_reserved_headroom (sy_capacity p) = Some h"
    "subscriptions_per_symbol (sy_capacity p) = Some n"
    by (auto simp: capacity_max_symbols_def split: option.splits)
  then obtain z where "n = (case z of QM_QUOTE \<Rightarrow> 1 | QM_TICK_BIDASK \<Rightarrow> 2)"
    by (auto simp: subscriptions_per_symbol_def)
  then have "0 < n" by (cases z) simp_all
  moreover have "h < cc_account_subscription_limit (sy_capacity p)"
    using assms hn(1) unfolding valid_policy_def is_ok_iff capacity_post_init_def require_all_Inr by simp
  ultimately show thesis
    using that hn by (simp add: sy_max_symbols_def capacity_max_symbols_def)
qed

lemma new_manager_inv:
  assumes "valid_policy p"
  shows "sub_inv p (new_manager p)"
proof -
  obtain h n where "0 < n" "h < cc_account_subscription_limit (sy_capacity p)"
    "sy_max_symbols p = (cc_account_subscription_limit (sy_capacity p) - h) div n"
    using assms by (rule valid_policy_capacity)
  then have "0 \<le> sy_max_symbols p" by (simp add: pos_imp_zdiv_nonneg_iff)
  moreover have "holding (new_manager p) = {}"
    by (auto simp: holding_def state_of_def new_manager_def split: option.splits)
  moreover have "state_of (new_manager p) = (\<lambda>_. None)"
    by (simp add: new_manager_def state_of_def fun_eq_iff)
  ultimately show ?thesis
    by (simp add: sub_inv_def lawful_empty) (simp add: new_manager_def lawful_empty)
qed

lemma sub_step_inv:
  assumes "sub_step m m'" and "sub_inv p m"
  shows "sub_inv p m'"
proof -
  have d: "distinct (map fst (sm_records m))" using assms(2) by (simp add: sub_inv_def)
  have "sub_atom\<^sup>*\<^sup>* m m'"
    using assms(1)
    by cases (auto dest: acknowledgement_atoms reconcile_atoms [OF _ assms(2)]
      mark_disconnected_atoms [OF _ d])
  then show ?thesis using assms(2) by (rule sub_atoms_inv)
qed

lemma reachable_inv: "sub_step\<^sup>*\<^sup>* (new_manager p) m \<Longrightarrow> valid_policy p \<Longrightarrow> sub_inv p m"
  by (induction rule: rtranclp_induct) (auto intro: new_manager_inv sub_step_inv)

section \<open>Properties\<close>

text \<open>
  C10. The account's subscription limit is never exceeded: in every reachable state, whatever the
  provider acknowledged, failed or left unanswered and in whatever order, the subscriptions that may
  be live at the broker leave the reviewed headroom free, and a reconciliation never runs into the
  capacity assertion of the code.
\<close>

theorem subscription_limit_respected:
  assumes "valid_policy p" and "sub_step\<^sup>*\<^sup>* (new_manager p) m"
  shows "subscriptions_in_use m + the (cc_reserved_headroom (sy_capacity p))
       \<le> cc_account_subscription_limit (sy_capacity p)
     \<and> fst (reconcile entries t act m) \<noteq> Inl (AssertionFailure msg)"
proof
  have inv: "sub_inv p m" using assms(2,1) by (rule reachable_inv)
  obtain h n where hn: "cc_reserved_headroom (sy_capacity p) = Some h"
    "subscriptions_per_symbol (sy_capacity p) = Some n" "0 < n"
    "sy_max_symbols p = (cc_account_subscription_limit (sy_capacity p) - h) div n"
    using assms(1) by (rule valid_policy_capacity)
  have "int (length (consuming_symbols m)) * n \<le> sy_max_symbols p * n"
    using free_slots(2) [OF inv] hn(3) by (simp add: mult_right_mono)
  also have "\<dots> \<le> cc_account_subscription_limit (sy_capacity p) - h"
    using hn(3,4) by (simp flip: minus_mod_eq_div_mult)
  finally show "subscriptions_in_use m + the (cc_reserved_headroom (sy_capacity p))
       \<le> cc_account_subscription_limit (sy_capacity p)"
    using inv hn by (simp add: subscriptions_in_use_def sub_inv_def)
  show "fst (reconcile entries t act m) \<noteq> Inl (AssertionFailure msg)"
    using reconcile_atoms [OF _ inv, of entries t act]
    by (metis assertion_simps(1) prod.collapse)
qed

text \<open>
  C24. The records refine the event log: in every reachable state the log is a run of the life-cycle
  automaton (numbered without gaps, each event leaving the state the previous events reached), and
  the state of every symbol is the one its log leads to.
\<close>

theorem subscription_log_is_lawful:
  assumes "valid_policy p" and "sub_step\<^sup>*\<^sup>* (new_manager p) m"
  shows "lawful_log (sm_events m) \<and> state_of m = log_states (sm_events m)"
  using reachable_inv [OF assms(2,1)] by (simp add: sub_inv_def)

text \<open>
  C9. From the pool to the broker, a held position keeps its quotes: when the pool holds a
  non-expiring contribution of the symbol, the universe reconciled from any later pool decision
  desires the symbol, does not unsubscribe it, keeps an acknowledged subscription acknowledged, and
  otherwise has a slot for it or defers it to a later reconciliation.
\<close>

theorem held_position_keeps_quotes:
  assumes "holds_pin (symbol, CS_POSITION) q" and "list_all (keeps_pin (symbol, CS_POSITION)) (ops @ [op])"
    and "pool_apply (run_pool q ops) op = (Inr d, q')"
    and "valid_policy p" and "sub_step\<^sup>*\<^sup>* (new_manager p) m"
    and "reconcile (pd_entries d) t act m = (Inr r, m')"
  shows "symbol \<in> set (sn_desired_symbols r) \<and> symbol \<notin> set (sn_unsubscribe_symbols r)
     \<and> (symbol \<in> set (consuming_symbols m') \<or> symbol \<in> set (sn_deferred_symbols r))
     \<and> (state_of m symbol = Some SS_ACKED \<longrightarrow> state_of m' symbol = Some SS_ACKED)"
proof -
  have "List.member PINNED_SOURCES (snd (symbol, CS_POSITION))" by (simp add: PINNED_SOURCES_def)
  from pool_apply_lists_pinned [OF run_pool_pin [OF assms(1)] _ this assms(3)] assms(2)
  obtain e where e: "e \<in> set (pd_entries d)" "pe_symbol e = symbol" "pe_protected e" "pe_admitted e"
    by auto
  have inv: "sub_inv p m" using assms(5,4) by (rule reachable_inv)
  have "sub_inv p m'"
    using sub_step_inv [OF step_reconcile [OF assms(6)] inv] .
  then have h: "set (consuming_symbols m') = holding m'"
    by (simp add: sub_inv_def consuming_symbols_holding)
  have "\<And>m1. symbol \<in> set (protected_for (pd_entries d) act m1)"
    using protected_for_entry [OF pool_apply_distinct [OF assms(3)] e(1,4,3)] e(2) by simp
  from reconcile_protects [OF assms(6) inv this] h show ?thesis by simp
qed

subsection \<open>A concrete session\<close>

definition sample_policy :: subscription_policy where
  "sample_policy = \<lparr>sy_version = ''subscriptions-v1'',
     sy_capacity = \<lparr>cc_account_subscription_limit = 10, cc_reserved_headroom = Some 2,
       cc_mode = Some QM_TICK_BIDASK\<rparr>,
     sy_ack_timeout = 5000000, sy_retry_backoff = 1000000, sy_minimum_dwell = 60000000\<rparr>"

definition sample_pool_op :: pool_op where
  "sample_pool_op = Pool_Evaluate (pool_clock 500) []"

definition sample_entries :: "pool_entry list" where
  "sample_entries =
     (case fst (pool_apply sample_pinned_pool sample_pool_op) of Inr d \<Rightarrow> pd_entries d | Inl _ \<Rightarrow> [])"

definition sample_requested :: subscription_manager where
  "sample_requested = snd (reconcile sample_entries (pool_clock 501) [] (new_manager sample_policy))"

definition sample_manager :: subscription_manager where
  "sample_manager = snd (ack_subscribe ''2330'' (pool_clock 502) sample_requested)"

lemma sample_policy_valid: "valid_policy sample_policy"
  by code_simp

lemma sample_reachable: "sub_step\<^sup>*\<^sup>* (new_manager sample_policy) sample_manager"
proof -
  have "sub_step (new_manager sample_policy) sample_requested"
    unfolding sample_requested_def by (rule step_reconcile) (rule surjective_pairing)
  moreover have "sub_step sample_requested sample_manager"
    unfolding sample_manager_def by (rule step_ack_subscribe) (rule surjective_pairing)
  ultimately show ?thesis by simp
qed

theorem subscription_limit_respected_witness:
  "subscriptions_in_use sample_manager + 2 \<le> 10
   \<and> fst (reconcile [] (pool_clock 600) [] sample_manager) \<noteq> Inl (AssertionFailure ''violated'')"
  using subscription_limit_respected [OF sample_policy_valid sample_reachable,
      of "[]" "pool_clock 600" "[]" "''violated''"]
  by (simp add: sample_policy_def)

theorem subscription_log_is_lawful_witness:
  "lawful_log (sm_events sample_manager) \<and> sm_events sample_manager \<noteq> []
   \<and> state_of sample_manager ''2330'' = Some SS_ACKED
   \<and> state_of sample_manager = log_states (sm_events sample_manager)"
proof -
  have "state_of sample_manager ''2330'' = Some SS_ACKED" "sm_events sample_manager \<noteq> []"
    by code_simp+
  with subscription_log_is_lawful [OF sample_policy_valid sample_reachable] show ?thesis by simp
qed

theorem held_position_keeps_quotes_witness:
  "\<exists>r m'. reconcile sample_entries (pool_clock 600) [] sample_manager = (Inr r, m')
     \<and> ''2330'' \<in> set (sn_desired_symbols r) \<and> state_of m' ''2330'' = Some SS_ACKED"
proof -
  have pin: "holds_pin (''2330'', CS_POSITION) sample_pinned_pool"
    "list_all (keeps_pin (''2330'', CS_POSITION)) ([] @ [sample_pool_op])"
    by code_simp+
  have "is_ok (fst (pool_apply (run_pool sample_pinned_pool []) sample_pool_op))" by code_simp
  then obtain d q where d: "pool_apply (run_pool sample_pinned_pool []) sample_pool_op = (Inr d, q)"
    by (cases "pool_apply (run_pool sample_pinned_pool []) sample_pool_op") (auto simp: is_ok_iff)
  then have e: "sample_entries = pd_entries d" by (simp add: sample_entries_def)
  have "is_ok (fst (reconcile sample_entries (pool_clock 600) [] sample_manager))" by code_simp
  then obtain r m' where r: "reconcile sample_entries (pool_clock 600) [] sample_manager = (Inr r, m')"
    by (cases "reconcile sample_entries (pool_clock 600) [] sample_manager") (auto simp: is_ok_iff)
  have "state_of sample_manager ''2330'' = Some SS_ACKED" by code_simp
  with held_position_keeps_quotes [OF pin d sample_policy_valid sample_reachable r [unfolded e]] r
  show ?thesis by simp
qed

end
