(* ===== verification/Local_Paper_Fills.thy ===== *)
theory Local_Paper_Fills
  imports Execution_Costs Exposure Journal
begin

text \<open>
  The fill records of Local Paper (\<open>trading/local_paper.py\<close>, first part): the fill value, its
  decoding from the four generations of journal records, and the evidence a v2, v3 or v4 record must
  carry. Everything a decoder rejects becomes a \<open>ProjectionRecoveryError\<close>.
\<close>

definition FILL_V1 :: string where "FILL_V1 = ''local_paper_fill.v1''"
definition FILL_V2 :: string where "FILL_V2 = ''local_paper_fill.v2''"
definition FILL_V3 :: string where "FILL_V3 = ''local_paper_fill.v3''"
definition FILL_V4 :: string where "FILL_V4 = ''local_paper_fill.v4''"

lemmas fill_kind_defs = FILL_V1_def FILL_V2_def FILL_V3_def FILL_V4_def

definition FILL_KINDS :: "string list" where
  "FILL_KINDS = [FILL_V1, FILL_V2, FILL_V3, FILL_V4]"

definition V4_FILL_REQUIRED_FIELDS :: "string list" where
  "V4_FILL_REQUIRED_FIELDS = [''order_id'', ''symbol'', ''name'', ''side'', ''quantity_shares'',
     ''fill_price'', ''fill_sequence'', ''owner_origin'', ''owner_strategy_id'',
     ''owner_strategy_version'', ''exposure_identity'', ''position_action'', ''target_exposure_id'',
     ''execution_reason_category'', ''execution_reason_code'', ''commission'', ''tax'',
     ''gross_amount'', ''net_cash_effect'', ''reference_price'', ''reference_source'',
     ''configured_slippage_bps'', ''realized_slippage_bps'', ''slippage_cost'',
     ''cumulative_order_gross'', ''cumulative_order_commission'', ''cumulative_order_tax'',
     ''fee_policy_version'', ''rounding_policy_version'', ''slippage_policy_version'',
     ''price_tick_policy_version'', ''settings_digest'', ''instrument_descriptor_snapshot'',
     ''instrument_descriptor_digest'', ''limit_price'', ''fill_source'', ''provider_identity'',
     ''execution_authority'']"

definition V4_FILL_ALLOWED_FIELDS :: "string list" where
  "V4_FILL_ALLOWED_FIELDS = V4_FILL_REQUIRED_FIELDS @ [''command_id'', ''command_idempotency_key'']"

section \<open>Errors\<close>

definition recovery_error :: "string \<Rightarrow> pyerr" where
  "recovery_error msg = Raised ''ProjectionRecoveryError'' msg"

text \<open>
  \<open>except (InvalidOperation, KeyError, TypeError, ValueError)\<close>; a \<open>ProjectionRecoveryError\<close> is a
  \<open>ValueError\<close>.
\<close>

definition caught :: "pyerr \<Rightarrow> bool" where
  "caught e = (case e of ValueError m \<Rightarrow> True | TypeError m \<Rightarrow> True | LookupFailure m \<Rightarrow> True
     | InvalidOperation \<Rightarrow> True | Raised k m \<Rightarrow> k = ''ProjectionRecoveryError'' | _ \<Rightarrow> False)"

definition recover :: "string \<Rightarrow> 'a res \<Rightarrow> 'a res" where
  "recover msg r = (case r of Inl e \<Rightarrow> if caught e then Inl (recovery_error msg) else Inl e | Inr x \<Rightarrow> Inr x)"

lemma recover_Inr [simp]: "recover msg r = Inr x \<longleftrightarrow> r = Inr x"
  by (simp add: recover_def split: sum.splits if_splits)

section \<open>The fill\<close>

record paper_fill =
  lf_order_id :: string
  lf_symbol :: string
  lf_name :: string
  lf_side :: execution_side
  lf_quantity_shares :: int
  lf_fill_price :: rat
  lf_commission :: rat
  lf_tax :: rat
  lf_gross_amount :: "rat option"
  lf_net_cash_effect :: "rat option"
  lf_owner_origin :: string
  lf_owner_strategy_id :: "string option"
  lf_owner_strategy_version :: "string option"

fun paper_side_value :: "execution_side \<Rightarrow> string" where
  "paper_side_value ES_BUY = ''BUY''"
| "paper_side_value ES_SELL = ''SELL''"

definition is_fin :: "py_decimal \<Rightarrow> bool" where
  "is_fin v = (case v of Fin x \<Rightarrow> True | _ \<Rightarrow> False)"

definition fin_value :: "py_decimal \<Rightarrow> rat" where
  "fin_value v = (case v of Fin x \<Rightarrow> x | _ \<Rightarrow> 0)"

text \<open>The constructor: \<open>raw\<close> holds the fields other than the amounts, which may not be finite.\<close>

definition make_paper_fill ::
  "paper_fill \<Rightarrow> py_decimal \<Rightarrow> py_decimal \<Rightarrow> py_decimal \<Rightarrow> py_decimal option \<Rightarrow> py_decimal option
     \<Rightarrow> paper_fill res" where
  "make_paper_fill raw price commission tax gross net =
     (case require_all
        [(\<not> blank (lf_order_id raw), ''order_id must not be empty''),
         (lf_symbol raw = py_upper (py_strip (lf_symbol raw)), ''symbol must be normalized''),
         (\<not> blank (lf_name raw), ''name must not be empty''),
         (0 < lf_quantity_shares raw, ''quantity_shares must be positive''),
         (is_fin price \<and> 0 < fin_value price, ''fill_price must be positive''),
         (is_fin commission \<and> 0 \<le> fin_value commission, ''commission must not be negative''),
         (is_fin tax \<and> 0 \<le> fin_value tax, ''tax must not be negative''),
         (case gross of None \<Rightarrow> True | Some g \<Rightarrow> is_fin g, ''gross_amount must be finite''),
         (case net of None \<Rightarrow> True | Some n \<Rightarrow> is_fin n, ''net_cash_effect must be finite'')] of
        Inl e \<Rightarrow> Inl e
      | Inr _ \<Rightarrow> Inr (raw\<lparr>lf_fill_price := fin_value price, lf_commission := fin_value commission,
          lf_tax := fin_value tax, lf_gross_amount := map_option fin_value gross,
          lf_net_cash_effect := map_option fin_value net\<rparr>))"

definition cash_effect :: "paper_fill \<Rightarrow> rat" where
  "cash_effect f =
     (case lf_net_cash_effect f of Some n \<Rightarrow> n
      | None \<Rightarrow>
          let gross = dec_mul (lf_fill_price f) (of_int (lf_quantity_shares f))
          in (case lf_side f of
                ES_BUY \<Rightarrow> - dec_add gross (lf_commission f)
              | ES_SELL \<Rightarrow> dec_sub (dec_sub gross (lf_commission f)) (lf_tax f)))"

section \<open>Decoding\<close>

definition optional_text :: "(string \<times> json) list \<Rightarrow> string \<Rightarrow> string option" where
  "optional_text p k = (case jfield_or p k JNull of JNull \<Rightarrow> None | v \<Rightarrow> Some (py_str v))"

definition field_text :: "(string \<times> json) list \<Rightarrow> string \<Rightarrow> string res" where
  "field_text p k = rbind (jfield p k) (\<lambda>v. Inr (py_str v))"

definition field_decimal :: "(string \<times> json) list \<Rightarrow> string \<Rightarrow> py_decimal res" where
  "field_decimal p k = rbind (jfield p k) json_decimal"

definition has_tax :: "string \<Rightarrow> bool" where
  "has_tax kind \<longleftrightarrow> List.member [FILL_V3, FILL_V4] kind"

definition has_amounts :: "string \<Rightarrow> bool" where
  "has_amounts kind \<longleftrightarrow> List.member [FILL_V2, FILL_V3, FILL_V4] kind"

definition gross_field :: "(string \<times> json) list \<Rightarrow> json" where
  "gross_field p = (if truthy (jfield_or p ''gross_amount'' JNull) then jfield_or p ''gross_amount'' JNull
     else jfield_or p ''gross_notional'' JNull)"

definition read_fill :: "string \<Rightarrow> (string \<times> json) list \<Rightarrow> paper_fill res" where
  "read_fill kind p =
     rbind (field_text p ''order_id'') (\<lambda>order.
     rbind (field_text p ''symbol'') (\<lambda>symbol.
     rbind (field_text p ''name'') (\<lambda>name.
     rbind (rbind (field_text p ''side'') (enum_of paper_side_value [ES_BUY, ES_SELL])) (\<lambda>side.
     rbind (rbind (jfield p ''quantity_shares'') json_int) (\<lambda>quantity.
     rbind (field_decimal p ''fill_price'') (\<lambda>price.
     rbind (json_decimal (jfield_or p ''commission'' (JStr ''0''))) (\<lambda>commission.
     rbind (if has_tax kind then field_decimal p ''tax'' else Inr (Fin 0)) (\<lambda>tax.
     rbind (if has_amounts kind then rbind (json_decimal (gross_field p)) (\<lambda>g. Inr (Some g))
            else Inr None) (\<lambda>gross.
     rbind (if has_amounts kind then rbind (field_decimal p ''net_cash_effect'') (\<lambda>n. Inr (Some n))
            else Inr None) (\<lambda>net.
       make_paper_fill \<lparr>lf_order_id = order, lf_symbol = symbol, lf_name = name, lf_side = side,
         lf_quantity_shares = quantity, lf_fill_price = 0, lf_commission = 0, lf_tax = 0,
         lf_gross_amount = None, lf_net_cash_effect = None,
         lf_owner_origin = py_str (jfield_or p ''owner_origin'' (JStr ''MANUAL_WEB'')),
         lf_owner_strategy_id = optional_text p ''owner_strategy_id'',
         lf_owner_strategy_version = optional_text p ''owner_strategy_version''\<rparr>
         price commission tax gross net))))))))))"

text \<open>\<open>expected_gross\<close>, and the net cash effect a fill must declare.\<close>

definition expected_gross :: "paper_fill \<Rightarrow> rat" where
  "expected_gross f = dec_mul (lf_fill_price f) (of_int (lf_quantity_shares f))"

definition expected_net :: "paper_fill \<Rightarrow> rat" where
  "expected_net f =
     (case lf_side f of
        ES_BUY \<Rightarrow> - dec_add (expected_gross f) (lf_commission f)
      | ES_SELL \<Rightarrow> dec_sub (dec_sub (expected_gross f) (lf_commission f)) (lf_tax f))"

definition below :: "py_decimal \<Rightarrow> rat \<Rightarrow> bool res" where
  "below v x = (case v of Fin y \<Rightarrow> Inr (y < x) | Infinite neg \<Rightarrow> Inr neg
     | NotANumber \<Rightarrow> Inl InvalidOperation)"

definition validate_v2_fill :: "(string \<times> json) list \<Rightarrow> paper_fill \<Rightarrow> unit res" where
  "validate_v2_fill p f =
     rbind (field_decimal p ''cumulative_order_commission'') (\<lambda>cumulative.
     rbind (field_text p ''settings_digest'') (\<lambda>digest.
     rbind (below cumulative (lf_commission f)) (\<lambda>short.
     let net = (case lf_side f of
                  ES_BUY \<Rightarrow> dec_sub (- expected_gross f) (lf_commission f)
                | ES_SELL \<Rightarrow> dec_sub (expected_gross f) (lf_commission f))
     in require_all
       [(lf_gross_amount f = Some (expected_gross f) \<and> lf_net_cash_effect f = Some net
         \<and> \<not> short \<and> length digest = 64, ''invalid local-paper v2 accounting evidence''),
        (hex_text (py_lower (py_strip digest)), ''invalid literal for int() with base 16'')])))"

definition validate_sha256 :: "string \<Rightarrow> string \<Rightarrow> string res" where
  "validate_sha256 v name =
     (let n = py_lower (py_strip v)
      in if length n \<noteq> 64 then Inl (ValueError (name @ '' must be SHA-256''))
         else if \<not> hex_text n then Inl (ValueError ''invalid literal for int() with base 16'')
         else Inr n)"

subsection \<open>The evidence of a v3 fill\<close>

definition V3_REQUIRED_FIELDS :: "string list" where
  "V3_REQUIRED_FIELDS = [''commission'', ''tax'', ''gross_amount'', ''net_cash_effect'',
     ''reference_price'', ''reference_source'', ''configured_slippage_bps'',
     ''realized_slippage_bps'', ''slippage_cost'', ''cumulative_order_gross'',
     ''cumulative_order_commission'', ''cumulative_order_tax'', ''fee_policy_version'',
     ''rounding_policy_version'', ''slippage_policy_version'', ''price_tick_policy_version'',
     ''settings_digest'', ''instrument_descriptor_snapshot'', ''instrument_descriptor_digest'',
     ''limit_price'', ''fill_source'', ''provider_identity'', ''execution_authority'',
     ''fill_sequence'']"

fun reference_source_value :: "reference_source \<Rightarrow> string" where
  "reference_source_value BEST_ASK = ''BEST_ASK''"
| "reference_source_value BEST_BID = ''BEST_BID''"
| "reference_source_value SNAPSHOT_COMPATIBILITY = ''SNAPSHOT_COMPATIBILITY''"

definition finite_field :: "(string \<times> json) list \<Rightarrow> string \<Rightarrow> rat res" where
  "finite_field p k = rbind (field_decimal p k) (\<lambda>v.
     if is_fin v then Inr (fin_value v)
     else Inl (ValueError ''local-paper v3 contains non-finite evidence''))"

text \<open>
  \<open>value == value.quantize(MONEY_QUANTUM, ROUND_DOWN)\<close>; beyond 28 digits \<open>quantize\<close> raises, which
  the caller treats as a mismatch.
\<close>

definition whole_twd :: "rat \<Rightarrow> bool" where
  "whole_twd v \<longleftrightarrow> quantize_down MONEY_QUANTUM v = v \<and> \<bar>v\<bar> < 10 ^ 28"

definition expected_tax :: "paper_fill \<Rightarrow> rat res" where
  "expected_tax f =
     (case lf_side f of ES_BUY \<Rightarrow> Inr 0 | ES_SELL \<Rightarrow> round_down_twd (dec_mul (expected_gross f) SELL_TAX_RATE))"

definition validate_v3_money ::
  "paper_fill \<Rightarrow> int \<Rightarrow> rat \<Rightarrow> rat \<Rightarrow> rat \<Rightarrow> unit res" where
  "validate_v3_money f sequence cum_commission cum_gross cum_tax =
     (let gross = expected_gross f; previous = dec_sub cum_gross gross
      in rbind (cumulative_commission_for (Finite cum_gross)) (\<lambda>expected_commission.
         rbind (cumulative_commission_for (Finite previous)) (\<lambda>previous_commission.
         require_all
           [(lf_gross_amount f = Some gross \<and> lf_net_cash_effect f = Some (expected_net f),
             ''invalid local-paper v3 monetary evidence''),
            (lf_side f = ES_SELL \<longrightarrow> 0 \<le> expected_net f, ''SELL net cash effect must not be negative''),
            (lf_commission f \<le> cum_commission \<and> lf_tax f \<le> cum_tax,
             ''invalid local-paper v3 cumulative accounting''),
            (0 \<le> previous \<and> cum_commission = expected_commission
             \<and> lf_commission f = dec_sub expected_commission previous_commission,
             ''invalid local-paper v3 commission evidence''),
            (sequence = 1 \<longrightarrow> cum_gross = gross \<and> cum_commission = lf_commission f \<and> cum_tax = lf_tax f,
             ''invalid first local-paper v3 cumulative evidence''),
            (list_all whole_twd [lf_commission f, lf_tax f, cum_commission, cum_tax],
             ''local-paper v3 costs must use whole-TWD rounding''),
            (lf_side f = ES_BUY \<longrightarrow> lf_tax f = 0, ''BUY tax must be zero''),
            (expected_tax f = Inr (lf_tax f), ''invalid local-paper v3 tax evidence'')])))"

definition validate_v3_slippage ::
  "paper_fill \<Rightarrow> rat \<Rightarrow> reference_source \<Rightarrow> rat \<Rightarrow> rat \<Rightarrow> rat \<Rightarrow> rat \<Rightarrow> unit res" where
  "validate_v3_slippage f reference source configured realized cost limit =
     (let price = lf_fill_price f
      in rbind (require_all
           [(0 < reference \<and> 0 \<le> configured \<and> configured \<le> 100, ''invalid local-paper v3 slippage inputs''),
            (is_valid_common_stock_tick (Finite price), ''fill price violates common-stock tick policy''),
            (is_valid_common_stock_tick (Finite reference),
             ''reference price violates common-stock tick policy''),
            (is_valid_common_stock_tick (Finite limit), ''limit price violates common-stock tick policy''),
            (case lf_side f of
               ES_BUY \<Rightarrow> reference \<le> price \<and> price \<le> limit
             | ES_SELL \<Rightarrow> price \<le> reference \<and> limit \<le> price, ''fill violates adverse price or limit''),
            (case lf_side f of
               ES_BUY \<Rightarrow> source = BEST_ASK \<or> source = SNAPSHOT_COMPATIBILITY
             | ES_SELL \<Rightarrow> source = BEST_BID \<or> source = SNAPSHOT_COMPATIBILITY,
             ''reference source is invalid'')]) (\<lambda>_.
         rbind (decide_fixed_adverse_slippage (lf_side f) (Finite reference) source
                  (Finite configured) (Finite limit)) (\<lambda>d.
         let gap = dec_abs (dec_sub price reference)
         in require_all
           [(sd_limit_satisfied d \<and> sd_adjusted_price d = price,
             ''invalid local-paper v3 adverse slippage evidence''),
            (cost = dec_mul gap (of_int (lf_quantity_shares f))
             \<and> realized = dec_mul (dec_div gap reference) 10000,
             ''invalid local-paper v3 slippage evidence'')])))"

definition product_class_value :: "product_class \<Rightarrow> string" where
  "product_class_value c = (case c of COMMON_STOCK \<Rightarrow> ''COMMON_STOCK''
     | UNSUPPORTED_CLASS \<Rightarrow> ''UNSUPPORTED'' | UNKNOWN_CLASS \<Rightarrow> ''UNKNOWN'')"

definition descriptor_fields :: "instrument_descriptor \<Rightarrow> (string \<times> json) list" where
  "descriptor_fields d =
     [(''schema_version'', JStr ''local-paper-instrument-descriptor-v1''),
      (''symbol'', JStr (id_symbol d)), (''exchange_raw'', JStr (id_exchange_raw d)),
      (''security_type_raw'', JStr (id_security_type_raw d)),
      (''product_category_raw'', JStr (id_product_category_raw d)),
      (''normalized_product_class'', JStr (product_class_value (id_product_class d))),
      (''source_identity'', JStr (id_source_identity d))]"

definition descriptor_digest :: "(json \<Rightarrow> string) \<Rightarrow> instrument_descriptor \<Rightarrow> string" where
  "descriptor_digest sha d = sha (JObj (descriptor_fields d))"

definition DESCRIPTOR_TEXTS :: "string list" where
  "DESCRIPTOR_TEXTS = [''symbol'', ''exchange_raw'', ''security_type_raw'', ''product_category_raw'',
     ''normalized_product_class'', ''source_identity'']"

definition validate_v3_descriptor ::
  "(json \<Rightarrow> string) \<Rightarrow> json \<Rightarrow> json \<Rightarrow> paper_fill \<Rightarrow> unit res" where
  "validate_v3_descriptor sha snapshot digest f =
     (case snapshot of JObj ms \<Rightarrow>
        if text_at ms ''schema_version'' \<noteq> Some ''local-paper-instrument-descriptor-v1''
        then Inl (ValueError ''instrument descriptor schema is invalid'')
        else if \<not> list_all (\<lambda>k. text_at ms k \<noteq> None) DESCRIPTOR_TEXTS
        then Inl (ValueError ''instrument descriptor fields must be strings'')
        else
        rbind (enum_of product_class_value [COMMON_STOCK, UNSUPPORTED_CLASS, UNKNOWN_CLASS]
                 (the (text_at ms ''normalized_product_class''))) (\<lambda>cls.
        rbind (make_descriptor (the (text_at ms ''symbol'')) (the (text_at ms ''exchange_raw''))
                 (the (text_at ms ''security_type_raw'')) (the (text_at ms ''product_category_raw''))
                 cls (the (text_at ms ''source_identity''))) (\<lambda>d.
        rbind (validate_sha256 (py_str digest) ''instrument_descriptor_digest'') (\<lambda>digest.
        require_all
          [(id_symbol d = lf_symbol f \<and> id_product_class d = COMMON_STOCK
            \<and> id_exchange_raw d \<in> {''TWSE'', ''TPEX'', ''TSE'', ''OTC''}
            \<and> descriptor_digest sha d = digest, ''instrument descriptor evidence is invalid'')])))
      | _ \<Rightarrow> Inl (ValueError ''instrument descriptor snapshot must be a mapping''))"

definition validate_v3_policy :: "(string \<times> json) list \<Rightarrow> unit res" where
  "validate_v3_policy p =
     rbind (field_text p ''fee_policy_version'') (\<lambda>fee.
     rbind (field_text p ''rounding_policy_version'') (\<lambda>rounding.
     rbind (field_text p ''slippage_policy_version'') (\<lambda>slippage.
     rbind (field_text p ''price_tick_policy_version'') (\<lambda>tick.
     rbind (rbind (field_text p ''settings_digest'') (\<lambda>d. validate_sha256 d ''settings_digest'')) (\<lambda>_.
     require_all
       [(fee = FEE_POLICY_VERSION, ''invalid local-paper v3 fee policy''),
        (rounding = ROUNDING_POLICY_VERSION, ''invalid local-paper v3 rounding policy''),
        (slippage = SLIPPAGE_POLICY_VERSION, ''invalid local-paper v3 slippage policy''),
        (tick = PRICE_TICK_POLICY_VERSION, ''invalid local-paper v3 tick policy''),
        (jfield_or p ''execution_authority'' JNull = JBool False,
         ''local-paper execution authority must be false''),
        (case text_at p ''fill_source'' of None \<Rightarrow> False | Some s \<Rightarrow> \<not> blank s,
         ''fill_source must not be empty''),
        (case text_at p ''provider_identity'' of None \<Rightarrow> False | Some s \<Rightarrow> \<not> blank s,
         ''provider_identity must not be empty'')])))))"

definition positive_sequence :: "json \<Rightarrow> int res" where
  "positive_sequence v = (case v of JInt i \<Rightarrow> if 0 < i then Inr i
       else Inl (ValueError ''fill_sequence must be positive'')
     | _ \<Rightarrow> Inl (ValueError ''fill_sequence must be positive''))"

definition validate_v3_fill ::
  "(json \<Rightarrow> string) \<Rightarrow> (string \<times> json) list \<Rightarrow> paper_fill \<Rightarrow> unit res" where
  "validate_v3_fill sha p f =
     (if \<not> list_all (\<lambda>k. map_of p k \<noteq> None) V3_REQUIRED_FIELDS
      then Inl (ValueError ''local-paper v3 evidence is incomplete'')
      else
      rbind (finite_field p ''cumulative_order_commission'') (\<lambda>cum_commission.
      rbind (finite_field p ''cumulative_order_gross'') (\<lambda>cum_gross.
      rbind (finite_field p ''cumulative_order_tax'') (\<lambda>cum_tax.
      rbind (finite_field p ''reference_price'') (\<lambda>reference.
      rbind (finite_field p ''configured_slippage_bps'') (\<lambda>configured.
      rbind (finite_field p ''realized_slippage_bps'') (\<lambda>realized.
      rbind (finite_field p ''slippage_cost'') (\<lambda>cost.
      rbind (finite_field p ''limit_price'') (\<lambda>limit.
      rbind (rbind (field_text p ''reference_source'')
        (enum_of reference_source_value [BEST_ASK, BEST_BID, SNAPSHOT_COMPATIBILITY])) (\<lambda>source.
      rbind (rbind (jfield p ''fill_sequence'') positive_sequence) (\<lambda>sequence.
      rbind (validate_v3_money f sequence cum_commission cum_gross cum_tax) (\<lambda>_.
      rbind (validate_v3_slippage f reference source configured realized cost limit) (\<lambda>_.
      rbind (validate_v3_policy p) (\<lambda>_.
      validate_v3_descriptor sha (jfield_or p ''instrument_descriptor_snapshot'' JNull)
        (jfield_or p ''instrument_descriptor_digest'' JNull) f))))))))))))))"

definition validate_fill ::
  "(json \<Rightarrow> string) \<Rightarrow> string \<Rightarrow> (string \<times> json) list \<Rightarrow> paper_fill \<Rightarrow> unit res" where
  "validate_fill sha kind p f =
     (if kind = FILL_V2 then validate_v2_fill p f
      else if has_tax kind then validate_v3_fill sha p f
      else Inr ())"

text \<open>\<open>LocalPaperFill.from_record\<close>.\<close>

definition fill_from_record :: "(json \<Rightarrow> string) \<Rightarrow> journal_record \<Rightarrow> paper_fill res" where
  "fill_from_record sha r =
     (if \<not> List.member FILL_KINDS (jr_kind r)
      then Inl (ValueError ''record is not a local-paper fill'')
      else recover (''invalid local-paper fill record '' @ jr_record_id r)
        (rbind (read_fill (jr_kind r) (jr_payload r)) (\<lambda>f.
         rbind (validate_fill sha (jr_kind r) (jr_payload r) f) (\<lambda>_. Inr f))))"

end
