(* ===== verification/Local_Paper_Exposures.thy ===== *)
theory Local_Paper_Exposures
  imports Local_Paper_Fills
begin

text \<open>
  The exposure ledger of Local Paper (\<open>trading/local_paper.py\<close>): the v4 fill that names the exposure
  it opens or closes, and the reducer whose accounting key is the exposure
  (\<open>LocalPaperExposureFill\<close>, \<open>LocalPaperExposureProjection\<close>). A reducer step returns its exception,
  if any, and the state it leaves; the code mutates in place, so a failed step may have changed some
  fields.
\<close>

definition V1_IMPORTED :: string where "V1_IMPORTED = ''local_paper_v1_imported.v1''"
definition V2_PROJECTION_NAME :: string where "V2_PROJECTION_NAME = ''local_paper.v2''"

section \<open>Exposure fills\<close>

record exposure_fill =
  xf_order_id :: string
  xf_symbol :: string
  xf_name :: string
  xf_side :: execution_side
  xf_quantity_shares :: int
  xf_fill_price :: rat
  xf_exposure :: exposure_identity
  xf_position_action :: position_action
  xf_target_exposure_id :: "string option"
  xf_reason_category :: execution_reason_category
  xf_reason_code :: string
  xf_commission :: rat
  xf_tax :: rat
  xf_net_cash_effect :: rat
  xf_owner_strategy_version :: "string option"

definition jtext :: "(string \<times> json) list \<Rightarrow> string \<Rightarrow> string res" where
  "jtext p k = rbind (jfield p k) (\<lambda>v. require_json_string v k)"

definition jtext_opt :: "(string \<times> json) list \<Rightarrow> string \<Rightarrow> string option res" where
  "jtext_opt p k = rbind (jfield p k) (\<lambda>v. require_optional_json_string v k)"

definition jinteger :: "(string \<times> json) list \<Rightarrow> string \<Rightarrow> int res" where
  "jinteger p k = rbind (jfield p k) (\<lambda>v. require_json_integer v k)"

definition payload_exposure :: "(string \<times> json) list \<Rightarrow> exposure_identity res" where
  "payload_exposure p = rbind (jfield p ''exposure_identity'') (\<lambda>v. case v of
       JObj ms \<Rightarrow> exposure_from_payload ms
     | _ \<Rightarrow> Inl (ValueError ''exposure_identity must be an object''))"

text \<open>The owner of the fill is the owner of the exposure.\<close>

definition check_owner ::
  "exposure_identity \<Rightarrow> string \<Rightarrow> string option \<Rightarrow> string option \<Rightarrow> unit res" where
  "check_owner x origin strategy version = require_all
     [(ei_owner_origin x = origin, ''exposure owner_origin mismatch''),
      (origin = ''STRATEGY_AUTOMATED'' \<longrightarrow> strategy = Some (ei_owner_id x),
       ''exposure owner_strategy_id mismatch''),
      (origin = ''STRATEGY_AUTOMATED'' \<longrightarrow> version \<noteq> None, ''strategy fill requires owner_strategy_version''),
      (origin \<noteq> ''STRATEGY_AUTOMATED'' \<longrightarrow> strategy = None \<and> version = None,
       ''manual fill cannot carry strategy identity'')]"

definition check_provenance :: "(string \<times> json) list \<Rightarrow> unit res" where
  "check_provenance p =
     rbind (jtext p ''fill_source'') (\<lambda>_. rbind (jtext p ''provider_identity'') (\<lambda>_.
     rbind (jfield p ''execution_authority'') (\<lambda>v. case v of JBool b \<Rightarrow> Inr ()
       | _ \<Rightarrow> Inl (ValueError ''execution_authority must be a boolean''))))"

text \<open>The optional command linkage: both fields or neither.\<close>

definition check_command_link :: "(string \<times> json) list \<Rightarrow> unit res" where
  "check_command_link p =
     (let a = map_of p ''command_id''; b = map_of p ''command_idempotency_key''
      in if a = None \<and> b = None then Inr ()
         else if a = None \<or> b = None
         then Inl (ValueError ''v4 fill command linkage fields are incomplete'')
         else rbind (jtext p ''command_id'') (\<lambda>_. rbind (jtext p ''command_idempotency_key'') (\<lambda>_. Inr ())))"

definition read_exposure_fill ::
  "(json \<Rightarrow> string) \<Rightarrow> journal_record \<Rightarrow> exposure_fill res" where
  "read_exposure_fill sha r = (let p = jr_payload r in
     rbind (require_json_fields p V4_FILL_REQUIRED_FIELDS V4_FILL_ALLOWED_FIELDS ''v4 fill'') (\<lambda>_.
     rbind (jinteger p ''quantity_shares'') (\<lambda>quantity.
     rbind (fill_from_record sha r) (\<lambda>money.
     rbind (payload_exposure p) (\<lambda>exposure.
     rbind (rbind (jfield p ''fill_sequence'') positive_sequence) (\<lambda>_.
     rbind (jtext p ''owner_origin'') (\<lambda>origin.
     rbind (jtext_opt p ''owner_strategy_id'') (\<lambda>strategy.
     rbind (jtext_opt p ''owner_strategy_version'') (\<lambda>version.
     rbind (check_owner exposure origin strategy version) (\<lambda>_.
     rbind (check_provenance p) (\<lambda>_.
     rbind (check_command_link p) (\<lambda>_.
     rbind (jtext p ''order_id'') (\<lambda>order.
     rbind (jtext p ''symbol'') (\<lambda>symbol.
     rbind (jtext p ''name'') (\<lambda>name.
     rbind (rbind (jtext p ''side'') (enum_of paper_side_value [ES_BUY, ES_SELL])) (\<lambda>side.
     rbind (rbind (jfield p ''fill_price'')
       (\<lambda>v. require_canonical_decimal_string v ''fill_price'' True False)) (\<lambda>price.
     rbind (rbind (jtext p ''position_action'')
       (enum_of position_action_value [OPEN_LONG, CLOSE_LONG])) (\<lambda>action.
     rbind (jtext_opt p ''target_exposure_id'') (\<lambda>target.
     rbind (rbind (jtext p ''execution_reason_category'')
       (enum_of reason_category_value [CATEGORY_STRATEGY, CATEGORY_OPERATIONAL_RISK])) (\<lambda>category.
     rbind (jtext p ''execution_reason_code'') (\<lambda>code.
       Inr \<lparr>xf_order_id = order, xf_symbol = symbol, xf_name = name, xf_side = side,
         xf_quantity_shares = quantity, xf_fill_price = price, xf_exposure = exposure,
         xf_position_action = action, xf_target_exposure_id = target,
         xf_reason_category = category, xf_reason_code = code,
         xf_commission = lf_commission money, xf_tax = lf_tax money,
         xf_net_cash_effect = cash_effect money, xf_owner_strategy_version = version\<rparr>)))))))))))))))))))))"

text \<open>A BUY opens and targets nothing; a SELL closes the exposure it names.\<close>

definition check_action :: "exposure_fill \<Rightarrow> (bool \<times> string) list" where
  "check_action f =
     (case xf_side f of
        ES_BUY \<Rightarrow> [(xf_position_action f = OPEN_LONG, ''BUY fill must OPEN_LONG''),
          (xf_target_exposure_id f = None, ''BUY fill cannot target exposure'')]
      | ES_SELL \<Rightarrow> [(xf_position_action f = CLOSE_LONG
            \<and> xf_target_exposure_id f = Some (ei_exposure_id (xf_exposure f)),
          ''SELL fill target exposure mismatch'')])"

fun require_recovery :: "(bool \<times> string) list \<Rightarrow> unit res" where
  "require_recovery [] = Inr ()"
| "require_recovery ((b, msg) # gs) = (if b then require_recovery gs else Inl (recovery_error msg))"

lemma require_recovery_Inr: "require_recovery gs = Inr u \<longleftrightarrow> list_all fst gs"
  by (induction gs rule: require_recovery.induct) auto

definition exposure_fill_from_record ::
  "(json \<Rightarrow> string) \<Rightarrow> journal_record \<Rightarrow> exposure_fill res" where
  "exposure_fill_from_record sha r =
     (if jr_kind r \<noteq> FILL_V4 then Inl (ValueError ''record is not a local-paper v4 fill'')
      else
      rbind (recover (''invalid local-paper v4 fill record '' @ jr_record_id r)
        (read_exposure_fill sha r)) (\<lambda>f.
      rbind (require_recovery
        ([(xf_symbol f = py_upper (py_strip (xf_symbol f)), ''v4 fill symbol is not normalized''),
         (0 < xf_quantity_shares f \<and> 0 < xf_fill_price f, ''v4 fill quantity or price is invalid''),
         (\<not> blank (xf_reason_code f), ''v4 fill reason code is empty''),
         (xf_reason_code f = py_upper (py_strip (xf_reason_code f)),
          ''v4 fill reason code is not normalized'')]
        @ check_action f)) (\<lambda>_. Inr f)))"

section \<open>The exposure ledger\<close>

record exposure_position =
  xp_exposure :: exposure_identity
  xp_symbol :: string
  xp_name :: string
  xp_quantity_shares :: int
  xp_average_price :: rat
  xp_commission_cost :: rat
  xp_owner_strategy_version :: "string option"

record exposure_ledger =
  el_starting_cash :: rat
  el_cash :: rat
  el_account_scope_id :: string
  el_policy_family_id :: string
  el_settings_digest :: "string option"
  el_positions :: "(string, exposure_position) dict"
  el_identities :: "(string, exposure_identity) dict"
  el_symbols :: "(string, string) dict"
  el_names :: "(string, string) dict"
  el_strategy_versions :: "(string, string option) dict"
  el_realized_pnl :: "(string, rat) dict"
  el_last_sequence :: int
  el_import_source_digest :: "string option"

definition new_exposure_ledger ::
  "rat \<Rightarrow> string \<Rightarrow> string \<Rightarrow> string option \<Rightarrow> exposure_ledger res" where
  "new_exposure_ledger cash account family settings =
     (if cash \<le> 0 then Inl (ValueError ''starting_cash must be positive'')
      else if blank account \<or> blank family
      then Inl (ValueError ''v2 projection identity must not be empty'')
      else
      rbind (case settings of None \<Rightarrow> Inr [] | Some d \<Rightarrow> validate_sha256 d ''settings_digest'') (\<lambda>_.
      Inr \<lparr>el_starting_cash = cash, el_cash = cash, el_account_scope_id = account,
        el_policy_family_id = family, el_settings_digest = settings, el_positions = [],
        el_identities = [], el_symbols = [], el_names = [], el_strategy_versions = [],
        el_realized_pnl = [], el_last_sequence = 0, el_import_source_digest = None\<rparr>))"

text \<open>\<open>positions\<close> and \<open>exposure_states\<close>, in their sorted order.\<close>

record exposure_state =
  xs_identity :: exposure_identity
  xs_symbol :: string
  xs_name :: string
  xs_quantity :: int
  xs_average_price :: rat
  xs_commission_cost :: rat
  xs_owner_origin :: string
  xs_owner_strategy_id :: "string option"
  xs_owner_strategy_version :: "string option"

definition el_sorted_positions :: "exposure_ledger \<Rightarrow> exposure_position list" where
  "el_sorted_positions l = sort_key xp_symbol
     (sort_key (\<lambda>x. ei_exposure_id (xp_exposure x)) (map snd (el_positions l)))"

definition state_of_exposure :: "exposure_ledger \<Rightarrow> string \<Rightarrow> exposure_identity \<Rightarrow> exposure_state" where
  "state_of_exposure l eid x =
     (let pos = dget (el_positions l) eid
      in \<lparr>xs_identity = x, xs_symbol = dget_or (el_symbols l) eid [], xs_name = dget_or (el_names l) eid [],
          xs_quantity = (case pos of None \<Rightarrow> 0 | Some y \<Rightarrow> xp_quantity_shares y),
          xs_average_price = (case pos of None \<Rightarrow> 0 | Some y \<Rightarrow> xp_average_price y),
          xs_commission_cost = (case pos of None \<Rightarrow> 0 | Some y \<Rightarrow> xp_commission_cost y),
          xs_owner_origin = ei_owner_origin x,
          xs_owner_strategy_id =
            (if ei_owner_origin x = ''STRATEGY_AUTOMATED'' then Some (ei_owner_id x) else None),
          xs_owner_strategy_version = dget_or (el_strategy_versions l) eid None\<rparr>)"

definition exposure_states :: "exposure_ledger \<Rightarrow> exposure_state list" where
  "exposure_states l = map (\<lambda>(eid, x). state_of_exposure l eid x) (sort_key fst (el_identities l))"

definition el_realized :: "exposure_ledger \<Rightarrow> string \<Rightarrow> rat" where
  "el_realized l eid = dget_or (el_realized_pnl l) eid 0"

definition aggregate_quantity :: "exposure_ledger \<Rightarrow> string \<Rightarrow> int" where
  "aggregate_quantity l symbol =
     sum_list (map xp_quantity_shares (filter (\<lambda>x. xp_symbol x = symbol) (map snd (el_positions l))))"

definition exposure_ledger_digest :: "(json \<Rightarrow> string) \<Rightarrow> exposure_ledger \<Rightarrow> string" where
  "exposure_ledger_digest sha l = sha (canonical_json (JObj
     ([(''projection_name'', JStr V2_PROJECTION_NAME), (''starting_cash'', JDec (el_starting_cash l)),
       (''cash'', JDec (el_cash l)), (''account_scope_id'', JStr (el_account_scope_id l)),
       (''policy_family_id'', JStr (el_policy_family_id l))]
      @ (case el_settings_digest l of None \<Rightarrow> [] | Some d \<Rightarrow> [(''settings_digest'', JStr d)])
      @ [(''last_sequence'', JInt (el_last_sequence l)),
         (''import_source_digest'', jopt JStr (el_import_source_digest l)),
         (''exposures'', JList (map (\<lambda>s. JObj
            [(''exposure_identity'', exposure_payload (xs_identity s)),
             (''symbol'', JStr (xs_symbol s)), (''name'', JStr (xs_name s)),
             (''owner_strategy_version'', jopt JStr (xs_owner_strategy_version s)),
             (''quantity_shares'', JInt (xs_quantity s)),
             (''average_price'', JDec (xs_average_price s)),
             (''commission_cost'', JDec (xs_commission_cost s)),
             (''realized_pnl'', JDec (el_realized l (ei_exposure_id (xs_identity s))))])
           (exposure_states l)))])))"

subsection \<open>Registering identities\<close>

definition register_identity ::
  "exposure_identity \<Rightarrow> string \<Rightarrow> string \<Rightarrow> string option \<Rightarrow> exposure_ledger \<Rightarrow> unit res \<times> exposure_ledger" where
  "register_identity x symbol name version l =
     (let eid = ei_exposure_id x
      in if ei_account_scope_id x \<noteq> el_account_scope_id l
         then (Inl (recovery_error ''exposure account scope mismatch''), l)
         else if ei_policy_family_id x \<noteq> el_policy_family_id l
         then (Inl (recovery_error ''exposure policy family mismatch''), l)
         else if \<not> List.member [None, Some x] (dget (el_identities l) eid)
         then (Inl (recovery_error ''exposure identity content mismatch''), l)
         else if \<not> List.member [None, Some symbol] (dget (el_symbols l) eid)
         then (Inl (recovery_error ''exposure symbol mismatch''), l)
         else
         let l1 = l\<lparr>el_identities := dset eid x (el_identities l),
                    el_symbols := dset eid symbol (el_symbols l)\<rparr>
         in if \<not> List.member [None, Some name] (dget (el_names l1) eid)
            then (Inl (recovery_error ''exposure name mismatch''), l1)
            else
            let l2 = l1\<lparr>el_names := dset eid name (el_names l1)\<rparr>;
                old = dget_or (el_strategy_versions l2) eid None
            in if old \<noteq> None \<and> version \<noteq> None \<and> old \<noteq> version
               then (Inl (recovery_error ''exposure strategy version mismatch''), l2)
               else (Inr (), l2\<lparr>el_strategy_versions :=
                       (if version \<noteq> None \<or> dget (el_strategy_versions l2) eid = None
                        then dset eid version (el_strategy_versions l2)
                        else el_strategy_versions l2)\<rparr>))"

subsection \<open>Booking a fill\<close>

text \<open>The position after buying, and what selling takes from it.\<close>

definition bought_position ::
  "exposure_fill \<Rightarrow> exposure_position option \<Rightarrow> exposure_position" where
  "bought_position f current =
     (case current of
        None \<Rightarrow> \<lparr>xp_exposure = xf_exposure f, xp_symbol = xf_symbol f, xp_name = xf_name f,
          xp_quantity_shares = xf_quantity_shares f, xp_average_price = xf_fill_price f,
          xp_commission_cost = xf_commission f,
          xp_owner_strategy_version = xf_owner_strategy_version f\<rparr>
      | Some x \<Rightarrow>
          let quantity = xp_quantity_shares x + xf_quantity_shares f;
              bought = dec_mul (of_int (xf_quantity_shares f)) (xf_fill_price f)
          in x\<lparr>xp_quantity_shares := quantity,
               xp_average_price := dec_div (dec_add (dec_mul (xp_average_price x)
                 (of_int (xp_quantity_shares x))) bought) (of_int quantity),
               xp_commission_cost := dec_add (xp_commission_cost x) (xf_commission f)\<rparr>)"

definition allocated_commission :: "rat \<Rightarrow> int \<Rightarrow> int \<Rightarrow> rat" where
  "allocated_commission cost sold held = dec_div (dec_mul cost (of_int sold)) (of_int held)"

text \<open>Realized profit of a sale: price difference, less both commissions and the tax.\<close>

definition realized_after ::
  "rat \<Rightarrow> rat \<Rightarrow> rat \<Rightarrow> int \<Rightarrow> rat \<Rightarrow> rat \<Rightarrow> rat \<Rightarrow> rat" where
  "realized_after previous price average quantity allocated commission tax =
     dec_sub (dec_sub (dec_sub (dec_add previous
       (dec_mul (dec_sub price average) (of_int quantity))) allocated) commission) tax"

definition book_exposure_fill ::
  "exposure_fill \<Rightarrow> exposure_ledger \<Rightarrow> unit res \<times> exposure_ledger" where
  "book_exposure_fill f l =
     (let eid = ei_exposure_id (xf_exposure f); current = dget (el_positions l) eid
      in case xf_side f of
           ES_BUY \<Rightarrow>
             if - xf_net_cash_effect f > el_cash l
             then (Inl (recovery_error ''Journal fill exceeds available cash''), l)
             else (Inr (), l\<lparr>el_positions := dset eid (bought_position f current) (el_positions l),
                            el_cash := dec_add (el_cash l) (xf_net_cash_effect f)\<rparr>)
         | ES_SELL \<Rightarrow>
             (case current of
                None \<Rightarrow> (Inl (recovery_error ''Journal sell fill exceeds target exposure''), l)
              | Some x \<Rightarrow>
                  if xp_quantity_shares x < xf_quantity_shares f
                  then (Inl (recovery_error ''Journal sell fill exceeds target exposure''), l)
                  else
                  let allocated = allocated_commission (xp_commission_cost x) (xf_quantity_shares f)
                                    (xp_quantity_shares x);
                      remaining = xp_quantity_shares x - xf_quantity_shares f
                  in (Inr (), l\<lparr>el_cash := dec_add (el_cash l) (xf_net_cash_effect f),
                        el_realized_pnl := dset eid (realized_after (el_realized l eid)
                          (xf_fill_price f) (xp_average_price x) (xf_quantity_shares f) allocated
                          (xf_commission f) (xf_tax f)) (el_realized_pnl l),
                        el_positions :=
                          (if remaining = 0 then dpop eid (el_positions l)
                           else dset eid (x\<lparr>xp_quantity_shares := remaining,
                             xp_commission_cost := dec_sub (xp_commission_cost x) allocated\<rparr>)
                             (el_positions l))\<rparr>)))"

definition apply_exposure_fill ::
  "exposure_fill \<Rightarrow> exposure_ledger \<Rightarrow> unit res \<times> exposure_ledger" where
  "apply_exposure_fill f l =
     (case register_identity (xf_exposure f) (xf_symbol f) (xf_name f) (xf_owner_strategy_version f) l of
        (Inl e, l1) \<Rightarrow> (Inl e, l1)
      | (Inr _, l1) \<Rightarrow> book_exposure_fill f l1)"

subsection \<open>Importing a v1 ledger\<close>

record legacy_exposure =
  im_exposure :: exposure_identity
  im_symbol :: string
  im_name :: string
  im_quantity :: int
  im_average_price :: py_decimal
  im_commission_cost :: py_decimal
  im_realized :: py_decimal

definition read_import_entry :: "json \<Rightarrow> legacy_exposure res" where
  "read_import_entry raw =
     (case raw of JObj ms \<Rightarrow> recover ''invalid imported exposure'' (
        rbind (rbind (jfield ms ''exposure_identity'') (\<lambda>v. case v of JObj xs \<Rightarrow> exposure_from_payload xs
          | _ \<Rightarrow> Inl (ValueError ''identity must be an object''))) (\<lambda>x.
        rbind (field_text ms ''symbol'') (\<lambda>symbol. rbind (field_text ms ''name'') (\<lambda>name.
        rbind (rbind (jfield ms ''quantity_shares'') json_int) (\<lambda>quantity.
        rbind (field_decimal ms ''average_price'') (\<lambda>average.
        rbind (json_decimal (jfield_or ms ''commission_cost'' (JStr ''0''))) (\<lambda>commission.
        rbind (field_decimal ms ''realized_pnl'') (\<lambda>realized.
          Inr \<lparr>im_exposure = x, im_symbol = symbol, im_name = name, im_quantity = quantity,
            im_average_price = average, im_commission_cost = commission, im_realized = realized\<rparr>))))))))
      | _ \<Rightarrow> Inl (recovery_error ''invalid imported exposure''))"

text \<open>
  The accounting check, outside the code's \<open>try\<close>: ordering a NaN raises \<open>InvalidOperation\<close> itself.
\<close>

definition check_import_entry :: "legacy_exposure \<Rightarrow> unit res" where
  "check_import_entry i =
     (let bad = recovery_error ''invalid imported exposure accounting''
      in if no_overnight_managed (im_exposure i)
         then Inl (recovery_error ''legacy import cannot create managed exposure'')
         else if im_quantity i < 0 then Inl bad
         else
         rbind (below (im_average_price i) 0) (\<lambda>negative. if negative then Inl bad
         else rbind (below (im_commission_cost i) 0) (\<lambda>negative. if negative then Inl bad
         else if is_fin (im_average_price i) \<and> is_fin (im_commission_cost i) \<and> is_fin (im_realized i)
         then Inr () else Inl bad)))"

definition import_entry :: "json \<Rightarrow> exposure_ledger \<Rightarrow> unit res \<times> exposure_ledger" where
  "import_entry raw l =
     (case rbind (read_import_entry raw) (\<lambda>i. rbind (check_import_entry i) (\<lambda>_. Inr i)) of
        Inl e \<Rightarrow> (Inl e, l)
      | Inr i \<Rightarrow>
        (case register_identity (im_exposure i) (im_symbol i) (im_name i) None l of
           (Inl e, l1) \<Rightarrow> (Inl e, l1)
         | (Inr _, l1) \<Rightarrow>
           let eid = ei_exposure_id (im_exposure i);
               l2 = l1\<lparr>el_realized_pnl := dset eid (fin_value (im_realized i)) (el_realized_pnl l1)\<rparr>
           in (Inr (), if 0 < im_quantity i
                then l2\<lparr>el_positions := dset eid \<lparr>xp_exposure = im_exposure i, xp_symbol = im_symbol i,
                       xp_name = im_name i, xp_quantity_shares = im_quantity i,
                       xp_average_price = fin_value (im_average_price i),
                       xp_commission_cost = fin_value (im_commission_cost i),
                       xp_owner_strategy_version = None\<rparr> (el_positions l2)\<rparr>
                else l2)))"

fun import_entries :: "json list \<Rightarrow> exposure_ledger \<Rightarrow> unit res \<times> exposure_ledger" where
  "import_entries [] l = (Inr (), l)"
| "import_entries (raw # raws) l =
     (case import_entry raw l of (Inl e, l1) \<Rightarrow> (Inl e, l1) | (Inr _, l1) \<Rightarrow> import_entries raws l1)"

definition read_manifest ::
  "(string \<times> json) list \<Rightarrow> exposure_ledger \<Rightarrow> (py_decimal \<times> string \<times> json list) res" where
  "read_manifest p l = recover ''invalid v1 import manifest'' (
     rbind (field_text p ''account_scope_id'') (\<lambda>account.
     rbind (require_recovery [(account = el_account_scope_id l, ''v1 import account scope mismatch'')]) (\<lambda>_.
     rbind (field_text p ''policy_family_id'') (\<lambda>family.
     rbind (require_recovery [(family = el_policy_family_id l, ''v1 import policy family mismatch'')]) (\<lambda>_.
     rbind (field_decimal p ''source_starting_cash'') (\<lambda>starting.
     rbind (require_recovery [(starting = Fin (el_starting_cash l), ''v1 import starting cash mismatch'')]) (\<lambda>_.
     rbind (field_decimal p ''source_cash'') (\<lambda>cash.
     rbind (field_text p ''source_digest'') (\<lambda>digest.
     rbind (jfield p ''exposures'') (\<lambda>exposures. case exposures of JList raws \<Rightarrow> Inr (cash, digest, raws)
       | _ \<Rightarrow> Inl (ValueError ''import exposures must be an array'')))))))))))"

definition apply_import ::
  "journal_record \<Rightarrow> exposure_ledger \<Rightarrow> unit res \<times> exposure_ledger" where
  "apply_import r l =
     (if el_import_source_digest l \<noteq> None \<or> el_identities l \<noteq> []
      then (Inl (recovery_error ''v1 import manifest may be applied only once''), l)
      else
      case read_manifest (jr_payload r) l of Inl e \<Rightarrow> (Inl e, l)
      | Inr (cash, digest, raws) \<Rightarrow>
        if length digest \<noteq> 64 then (Inl (recovery_error ''v1 import source digest is invalid''), l)
        else
        (case import_entries raws l of (Inl e, l1) \<Rightarrow> (Inl e, l1)
         | (Inr _, l1) \<Rightarrow>
           if \<not> is_fin cash \<or> fin_value cash < 0
           then (Inl (recovery_error ''invalid v1 import cash''), l1)
           else (Inr (), l1\<lparr>el_cash := fin_value cash, el_import_source_digest := Some digest\<rparr>)))"

subsection \<open>The reducer\<close>

definition ledger_apply ::
  "(json \<Rightarrow> string) \<Rightarrow> append_result \<Rightarrow> exposure_ledger \<Rightarrow> unit res \<times> exposure_ledger" where
  "ledger_apply sha x l =
     (if ja_sequence x \<le> el_last_sequence l
      then (Inl (recovery_error ''Journal sequence must be strictly increasing''), l)
      else
      let r = ja_record x;
          step = (if jr_kind r = V1_IMPORTED then apply_import r l
                  else if jr_kind r = FILL_V4
                  then (if el_settings_digest l = None
                        then (Inl (recovery_error ''local-paper v4 recovery requires session settings digest''), l)
                        else if text_at (jr_payload r) ''settings_digest'' \<noteq> el_settings_digest l
                        then (Inl (recovery_error ''Journal v4 fill settings digest conflicts with session''), l)
                        else (case exposure_fill_from_record sha r of Inl e \<Rightarrow> (Inl e, l)
                              | Inr f \<Rightarrow> apply_exposure_fill f l))
                  else (Inr (), l))
      in case step of (Inl e, l1) \<Rightarrow> (Inl e, l1)
         | (Inr _, l1) \<Rightarrow> (Inr (), l1\<lparr>el_last_sequence := ja_sequence x\<rparr>))"

end
