(* ===== verification/Local_Paper_Projection.thy ===== *)
theory Local_Paper_Projection
  imports Local_Paper_Exposures
begin

text \<open>
  The monetary projection of Local Paper (\<open>LocalPaperProjection\<close> in \<open>trading/local_paper.py\<close>):
  cash, positions by symbol, realized profit and the cumulative accounting of v3 orders, replayed
  from the journal; after a v1 import it is driven by an exposure ledger, whose positions it
  aggregates by symbol.
\<close>

record paper_position =
  lp_symbol :: string
  lp_name :: string
  lp_quantity_shares :: int
  lp_average_price :: rat
  lp_owner_origin :: string
  lp_commission_cost :: rat
  lp_owner_strategy_id :: "string option"
  lp_owner_strategy_version :: "string option"

record order_accounting =
  oa_sequence :: int
  oa_gross :: rat
  oa_commission :: rat
  oa_tax :: rat

record paper_projection =
  pp_starting_cash :: rat
  pp_settings_digest :: "string option"
  pp_cash :: rat
  pp_positions :: "(string, paper_position) dict"
  pp_realized_pnl :: "(string, rat) dict"
  pp_buy_notional :: "(int, rat) dict"
  pp_v3_accounting :: "(string, order_accounting) dict"
  pp_exposures :: "exposure_ledger option"
  pp_last_sequence :: int

definition new_projection :: "rat \<Rightarrow> string option \<Rightarrow> paper_projection res" where
  "new_projection cash settings =
     (if cash \<le> 0 then Inl (ValueError ''starting_cash must be positive'')
      else if (case settings of None \<Rightarrow> False
               | Some d \<Rightarrow> length d \<noteq> 64 \<or> \<not> hex_text (py_lower (py_strip d)))
      then Inl (ValueError ''settings_digest must be SHA-256'')
      else Inr \<lparr>pp_starting_cash = cash, pp_settings_digest = settings, pp_cash = cash,
        pp_positions = [], pp_realized_pnl = [], pp_buy_notional = [], pp_v3_accounting = [],
        pp_exposures = None, pp_last_sequence = 0\<rparr>)"

definition pp_realized :: "paper_projection \<Rightarrow> string \<Rightarrow> rat" where
  "pp_realized p symbol = dget_or (pp_realized_pnl p) symbol 0"

definition buy_notional_for_date :: "paper_projection \<Rightarrow> int \<Rightarrow> rat" where
  "buy_notional_for_date p day = dget_or (pp_buy_notional p) day 0"

definition pp_sorted_positions :: "paper_projection \<Rightarrow> paper_position list" where
  "pp_sorted_positions p = sort_key lp_symbol (map snd (pp_positions p))"

definition projection_digest :: "(json \<Rightarrow> string) \<Rightarrow> paper_projection \<Rightarrow> string" where
  "projection_digest sha p = sha (canonical_json (JObj
     ([(''starting_cash'', JDec (pp_starting_cash p))]
      @ (case pp_settings_digest p of None \<Rightarrow> [] | Some d \<Rightarrow> [(''settings_digest'', JStr d)])
      @ [(''cash'', JDec (pp_cash p)), (''last_sequence'', JInt (pp_last_sequence p)),
         (''positions'', JList (map (\<lambda>x. JObj
            ([(''symbol'', JStr (lp_symbol x)), (''name'', JStr (lp_name x)),
              (''quantity_shares'', JInt (lp_quantity_shares x)),
              (''average_price'', JDec (lp_average_price x))]
             @ (if lp_commission_cost x \<noteq> 0 then [(''commission_cost'', JDec (lp_commission_cost x))] else [])
             @ [(''owner_origin'', JStr (lp_owner_origin x)),
                (''owner_strategy_id'', jopt JStr (lp_owner_strategy_id x)),
                (''owner_strategy_version'', jopt JStr (lp_owner_strategy_version x))]))
           (pp_sorted_positions p))),
         (''realized_pnl'', JObj (map (\<lambda>(s, v). (s, JDec v)) (sort_key fst (pp_realized_pnl p))))])))"

section \<open>Fills of the first three generations\<close>

definition fill_value :: "paper_fill \<Rightarrow> rat" where
  "fill_value f =
     (case lf_gross_amount f of
        Some g \<Rightarrow> if g \<noteq> 0 then g else dec_mul (of_int (lf_quantity_shares f)) (lf_fill_price f)
      | None \<Rightarrow> dec_mul (of_int (lf_quantity_shares f)) (lf_fill_price f))"

definition add_buy_notional :: "datetime \<Rightarrow> rat \<Rightarrow> paper_projection \<Rightarrow> paper_projection" where
  "add_buy_notional t v p =
     p\<lparr>pp_buy_notional := dset (dt_date t) (dec_add (buy_notional_for_date p (dt_date t)) v)
         (pp_buy_notional p)\<rparr>"

definition opened_position :: "paper_fill \<Rightarrow> paper_position" where
  "opened_position f = \<lparr>lp_symbol = lf_symbol f, lp_name = lf_name f,
     lp_quantity_shares = lf_quantity_shares f, lp_average_price = lf_fill_price f,
     lp_owner_origin = lf_owner_origin f, lp_commission_cost = lf_commission f,
     lp_owner_strategy_id = lf_owner_strategy_id f,
     lp_owner_strategy_version = lf_owner_strategy_version f\<rparr>"

definition added_position :: "paper_fill \<Rightarrow> paper_position \<Rightarrow> paper_position" where
  "added_position f x =
     (let quantity = lp_quantity_shares x + lf_quantity_shares f
      in x\<lparr>lp_quantity_shares := quantity,
           lp_average_price := dec_div (dec_add (dec_mul (lp_average_price x)
             (of_int (lp_quantity_shares x))) (fill_value f)) (of_int quantity),
           lp_commission_cost := dec_add (lp_commission_cost x) (lf_commission f)\<rparr>)"

definition reduced_position :: "paper_fill \<Rightarrow> paper_position \<Rightarrow> paper_position" where
  "reduced_position f x =
     x\<lparr>lp_quantity_shares := lp_quantity_shares x - lf_quantity_shares f,
       lp_commission_cost := dec_sub (lp_commission_cost x)
         (allocated_commission (lp_commission_cost x) (lf_quantity_shares f) (lp_quantity_shares x))\<rparr>"

definition book_fill ::
  "paper_fill \<Rightarrow> datetime \<Rightarrow> paper_projection \<Rightarrow> unit res \<times> paper_projection" where
  "book_fill f t p =
     (let symbol = lf_symbol f; current = dget (pp_positions p) symbol;
          pay = p\<lparr>pp_cash := dec_add (pp_cash p) (cash_effect f)\<rparr>
      in case lf_side f of
           ES_BUY \<Rightarrow>
             if - cash_effect f > pp_cash p
             then (Inl (recovery_error ''Journal fill exceeds available cash''), p)
             else
             (case current of
                None \<Rightarrow> (Inr (), add_buy_notional t (fill_value f)
                  (pay\<lparr>pp_positions := dset symbol (opened_position f) (pp_positions p)\<rparr>))
              | Some x \<Rightarrow>
                  if lp_owner_origin x \<noteq> lf_owner_origin f
                     \<or> lp_owner_strategy_id x \<noteq> lf_owner_strategy_id f
                  then (Inl (recovery_error ''Journal fill ownership conflict''), p)
                  else (Inr (), add_buy_notional t (fill_value f)
                    (pay\<lparr>pp_positions := dset symbol (added_position f x) (pp_positions p)\<rparr>)))
         | ES_SELL \<Rightarrow>
             (case current of
                None \<Rightarrow> (Inl (recovery_error ''Journal sell fill exceeds held quantity''), p)
              | Some x \<Rightarrow>
                  if lp_quantity_shares x < lf_quantity_shares f
                  then (Inl (recovery_error ''Journal sell fill exceeds held quantity''), p)
                  else (Inr (), pay\<lparr>
                    pp_realized_pnl := dset symbol (realized_after (pp_realized p symbol)
                      (lf_fill_price f) (lp_average_price x) (lf_quantity_shares f)
                      (allocated_commission (lp_commission_cost x) (lf_quantity_shares f)
                        (lp_quantity_shares x)) (lf_commission f) (lf_tax f)) (pp_realized_pnl p),
                    pp_positions :=
                      (if lp_quantity_shares x = lf_quantity_shares f then dpop symbol (pp_positions p)
                       else dset symbol (reduced_position f x) (pp_positions p))\<rparr>)))"

section \<open>The accounting of an order across its v3 fills\<close>

definition no_accounting :: order_accounting where
  "no_accounting = \<lparr>oa_sequence = 0, oa_gross = 0, oa_commission = 0, oa_tax = 0\<rparr>"

definition next_accounting :: "order_accounting \<Rightarrow> paper_fill \<Rightarrow> order_accounting" where
  "next_accounting a f =
     \<lparr>oa_sequence = oa_sequence a + 1,
      oa_gross = dec_add (oa_gross a) (case lf_gross_amount f of None \<Rightarrow> 0 | Some g \<Rightarrow> g),
      oa_commission = dec_add (oa_commission a) (lf_commission f),
      oa_tax = dec_add (oa_tax a) (lf_tax f)\<rparr>"

definition validated_v3_order_accounting ::
  "paper_projection \<Rightarrow> journal_record \<Rightarrow> paper_fill \<Rightarrow> order_accounting res" where
  "validated_v3_order_accounting p r f =
     (let payload = jr_payload r;
          expected = next_accounting
            (dget_or (pp_v3_accounting p) (lf_order_id f) no_accounting) f
      in rbind (rbind (jfield payload ''fill_sequence'') json_int) (\<lambda>sequence.
         rbind (field_decimal payload ''cumulative_order_gross'') (\<lambda>gross.
         rbind (field_decimal payload ''cumulative_order_commission'') (\<lambda>commission.
         rbind (field_decimal payload ''cumulative_order_tax'') (\<lambda>tax.
         if sequence = oa_sequence expected \<and> gross = Fin (oa_gross expected)
            \<and> commission = Fin (oa_commission expected) \<and> tax = Fin (oa_tax expected)
         then Inr expected
         else Inl (recovery_error ''local-paper v3 cumulative order evidence is inconsistent''))))))"

section \<open>Aggregating the exposures by symbol\<close>

text \<open>
  The per-symbol dict of \<open>_v4_aggregate\<close>; \<open>aggregate_decimal a k\<close> is
  \<open>Decimal(str(state[k]))\<close> on it.
\<close>

record symbol_aggregate =
  ag_symbol :: string
  ag_name :: string
  ag_quantity :: int
  ag_basis :: rat
  ag_commission_cost :: rat
  ag_owners :: "exposure_state list"

definition aggregate_decimal :: "symbol_aggregate \<Rightarrow> string \<Rightarrow> rat res" where
  "aggregate_decimal a k =
     (if k = ''basis'' then Inr (ag_basis a)
      else if k = ''commission_cost'' then Inr (ag_commission_cost a)
      else if k = ''quantity'' then Inr (of_int (ag_quantity a))
      else if k = ''symbol'' \<or> k = ''name'' \<or> k = ''owners'' then Inl InvalidOperation
      else Inl (LookupFailure k))"

definition aggregate_state ::
  "exposure_state \<Rightarrow> (string, symbol_aggregate) dict \<Rightarrow> (string, symbol_aggregate) dict" where
  "aggregate_state s d =
     (if xs_quantity s \<le> 0 then d
      else
      let current = dget_or d (xs_symbol s) \<lparr>ag_symbol = xs_symbol s, ag_name = xs_name s,
            ag_quantity = 0, ag_basis = 0, ag_commission_cost = 0, ag_owners = []\<rparr>
      in dset (xs_symbol s) (current\<lparr>ag_quantity := ag_quantity current + xs_quantity s,
           ag_basis := dec_add (ag_basis current)
             (dec_mul (xs_average_price s) (of_int (xs_quantity s))),
           ag_commission_cost := dec_add (ag_commission_cost current) (xs_commission_cost s),
           ag_owners := ag_owners current @ [s]\<rparr>) d)"

definition v4_aggregate :: "exposure_ledger \<Rightarrow> (string, symbol_aggregate) dict" where
  "v4_aggregate l = fold aggregate_state (exposure_states l) []"

definition symbols_by_exposure :: "exposure_ledger \<Rightarrow> (string, string) dict" where
  "symbols_by_exposure l =
     map (\<lambda>s. (ei_exposure_id (xs_identity s), xs_symbol s)) (exposure_states l)"

fun realized_by_symbol ::
  "(string, string) dict \<Rightarrow> (string, rat) dict \<Rightarrow> (string, rat) dict \<Rightarrow> (string, rat) dict res" where
  "realized_by_symbol symbols [] acc = Inr acc"
| "realized_by_symbol symbols ((eid, v) # items) acc =
     (case dget symbols eid of
        None \<Rightarrow> Inl (LookupFailure eid)
      | Some s \<Rightarrow> realized_by_symbol symbols items (dset s (dec_add (dget_or acc s 0) v) acc))"

definition projected_position ::
  "string \<times> symbol_aggregate \<Rightarrow> (string \<times> int \<times> rat \<times> rat) res" where
  "projected_position x =
     rbind (aggregate_decimal (snd x) ''average_price'') (\<lambda>average.
     rbind (aggregate_decimal (snd x) ''commission_cost'') (\<lambda>commission.
       Inr (fst x, ag_quantity (snd x), average, commission)))"

definition require_v4_parity :: "exposure_ledger \<Rightarrow> paper_projection \<Rightarrow> unit res" where
  "require_v4_parity l p =
     rbind (rmap projected_position (v4_aggregate l)) (\<lambda>projected.
     let current = map (\<lambda>(s, x). (s, lp_quantity_shares x, lp_average_price x, lp_commission_cost x))
           (pp_positions p)
     in if set current \<noteq> set projected
        then Inl (recovery_error ''local-paper v1 import positions conflict with monetary projection'')
        else
        rbind (realized_by_symbol (symbols_by_exposure l) (el_realized_pnl l) []) (\<lambda>realized.
        if list_ex (\<lambda>s. dget_or realized s 0 \<noteq> pp_realized p s)
             (map fst realized @ map fst (pp_realized_pnl p))
        then Inl (recovery_error
          ''local-paper v1 import realized PnL conflicts with monetary projection'')
        else Inr ()))"

definition aggregated_position :: "symbol_aggregate \<Rightarrow> paper_position" where
  "aggregated_position a =
     (let first = hd (ag_owners a);
          same = list_all (\<lambda>s. xs_owner_origin s = xs_owner_origin first
            \<and> xs_owner_strategy_id s = xs_owner_strategy_id first
            \<and> xs_owner_strategy_version s = xs_owner_strategy_version first) (ag_owners a)
      in \<lparr>lp_symbol = ag_symbol a, lp_name = ag_name a, lp_quantity_shares = ag_quantity a,
          lp_average_price = dec_div (ag_basis a) (of_int (ag_quantity a)),
          lp_owner_origin = (if same then xs_owner_origin first else ''MIXED_EXPOSURE''),
          lp_commission_cost = ag_commission_cost a,
          lp_owner_strategy_id = (if same then xs_owner_strategy_id first else None),
          lp_owner_strategy_version = (if same then xs_owner_strategy_version first else None)\<rparr>)"

definition refresh_v4_aggregate ::
  "exposure_ledger \<Rightarrow> paper_projection \<Rightarrow> unit res \<times> paper_projection" where
  "refresh_v4_aggregate l p =
     (let p1 = p\<lparr>pp_positions := map (\<lambda>(s, a). (s, aggregated_position a)) (v4_aggregate l)\<rparr>
      in case realized_by_symbol (symbols_by_exposure l) (el_realized_pnl l) [] of
           Inl e \<Rightarrow> (Inl e, p1)
         | Inr realized \<Rightarrow> (Inr (), p1\<lparr>pp_realized_pnl := realized\<rparr>))"

section \<open>The reducer\<close>

definition activate_v4 ::
  "(json \<Rightarrow> string) \<Rightarrow> append_result \<Rightarrow> paper_projection \<Rightarrow> unit res \<times> paper_projection" where
  "activate_v4 sha x p =
     (if pp_exposures p \<noteq> None
      then (Inl (recovery_error ''local-paper v1 import is duplicated''), p)
      else
      case (text_at (jr_payload (ja_record x)) ''account_scope_id'',
            text_at (jr_payload (ja_record x)) ''policy_family_id'') of
        (Some account, Some family) \<Rightarrow>
          (case rbind (new_exposure_ledger (pp_starting_cash p) account family (pp_settings_digest p))
             (\<lambda>l. case ledger_apply sha x l of (Inl e, _) \<Rightarrow> Inl e | (Inr _, l1) \<Rightarrow>
                if el_cash l1 \<noteq> pp_cash p
                then Inl (recovery_error ''local-paper v1 import cash conflicts with monetary projection'')
                else rbind (require_v4_parity l1 p) (\<lambda>_. Inr l1)) of
             Inl e \<Rightarrow> (Inl e, p)
           | Inr l1 \<Rightarrow> (Inr (), p\<lparr>pp_exposures := Some l1\<rparr>))
      | _ \<Rightarrow> (Inl (recovery_error ''local-paper v1 import identity is invalid''), p))"

text \<open>
  The exposure ledger is changed in place, so it keeps the fill even where a later step raises.
\<close>

definition apply_v4_fill ::
  "(json \<Rightarrow> string) \<Rightarrow> append_result \<Rightarrow> paper_fill \<Rightarrow> datetime \<Rightarrow> paper_projection
     \<Rightarrow> unit res \<times> paper_projection" where
  "apply_v4_fill sha x f t p =
     (case pp_exposures p of
        None \<Rightarrow> (Inl (recovery_error ''local-paper v4 fill requires a prior identity import''), p)
      | Some l \<Rightarrow>
        (case ledger_apply sha x l of
           (Inl e, l1) \<Rightarrow> (Inl e, p\<lparr>pp_exposures := Some l1\<rparr>)
         | (Inr _, l1) \<Rightarrow>
           (case refresh_v4_aggregate l1 (p\<lparr>pp_exposures := Some l1, pp_cash := el_cash l1\<rparr>) of
              (Inl e, p1) \<Rightarrow> (Inl e, p1)
            | (Inr _, p1) \<Rightarrow>
                (Inr (), if lf_side f = ES_BUY then add_buy_notional t (fill_value f) p1 else p1))))"

definition check_settings :: "paper_projection \<Rightarrow> journal_record \<Rightarrow> unit res" where
  "check_settings p r = require_recovery
     [(has_tax (jr_kind r) \<longrightarrow> pp_settings_digest p \<noteq> None,
       ''local-paper v3 recovery requires session settings digest''),
      (pp_settings_digest p \<noteq> None \<longrightarrow> has_amounts (jr_kind r)
         \<and> text_at (jr_payload r) ''settings_digest'' = pp_settings_digest p,
       ''Journal fill settings digest conflicts with session'')]"

definition apply_fill_record ::
  "(json \<Rightarrow> string) \<Rightarrow> append_result \<Rightarrow> paper_projection \<Rightarrow> unit res \<times> paper_projection" where
  "apply_fill_record sha x p = (let r = ja_record x; t = jr_occurred_at r in
     case rbind (check_settings p r) (\<lambda>_. rbind (fill_from_record sha r) (\<lambda>f.
          rbind (if has_tax (jr_kind r) then rbind (validated_v3_order_accounting p r f) (\<lambda>a. Inr (Some a))
                 else Inr None) (\<lambda>accounting. Inr (f, accounting)))) of
       Inl e \<Rightarrow> (Inl e, p)
     | Inr (f, accounting) \<Rightarrow>
       (case (if jr_kind r = FILL_V4 then apply_v4_fill sha x f t p else book_fill f t p) of
          (Inl e, p1) \<Rightarrow> (Inl e, p1)
        | (Inr _, p1) \<Rightarrow>
            (Inr (), case accounting of None \<Rightarrow> p1
              | Some a \<Rightarrow> p1\<lparr>pp_v3_accounting := dset (lf_order_id f) a (pp_v3_accounting p1)\<rparr>)))"

definition paper_apply ::
  "(json \<Rightarrow> string) \<Rightarrow> append_result \<Rightarrow> paper_projection \<Rightarrow> unit res \<times> paper_projection" where
  "paper_apply sha x p =
     (if ja_sequence x \<le> pp_last_sequence p
      then (Inl (recovery_error ''Journal sequence must be strictly increasing''), p)
      else
      case (if jr_kind (ja_record x) = V1_IMPORTED then activate_v4 sha x p
            else if List.member FILL_KINDS (jr_kind (ja_record x)) then apply_fill_record sha x p
            else (Inr (), p)) of
        (Inl e, p1) \<Rightarrow> (Inl e, p1)
      | (Inr _, p1) \<Rightarrow> (Inr (), p1\<lparr>pp_last_sequence := ja_sequence x\<rparr>))"

fun paper_replay ::
  "(json \<Rightarrow> string) \<Rightarrow> append_result list \<Rightarrow> paper_projection \<Rightarrow> paper_projection res" where
  "paper_replay sha [] p = Inr p"
| "paper_replay sha (x # xs) p =
     (case paper_apply sha x p of (Inl e, _) \<Rightarrow> Inl e | (Inr _, p1) \<Rightarrow> paper_replay sha xs p1)"

end
