(* ===== verification/Local_Paper_Solvency.thy ===== *)
theory Local_Paper_Solvency
  imports Local_Paper_Projection
begin

text \<open>
  What the Local Paper reducers keep (\<open>trading/local_paper.py\<close>): cash is never negative and every
  position holds shares, through replays of v3 and v4 fills and imports; and where an exposure
  ledger drives the monetary projection, the positions by symbol are its exposures added up.
\<close>

section \<open>What a decoder has checked\<close>

lemma validated_tax_fill:
  assumes "fill_from_record sha r = Inr f" and "has_tax (jr_kind r)"
  shows "lf_net_cash_effect f = Some (expected_net f)"
    and "lf_side f = ES_SELL \<Longrightarrow> 0 \<le> expected_net f"
proof -
  have "jr_kind r \<noteq> FILL_V2" using assms(2) by (auto simp: has_tax_def fill_kind_defs)
  then have "validate_v3_fill sha (jr_payload r) f = Inr ()"
    using assms by (auto simp: fill_from_record_def rbind_Inr_iff validate_fill_def split: if_splits)
  then obtain sq cc cg ct where "validate_v3_money f sq cc cg ct = Inr ()"
    by (simp add: validate_v3_fill_def rbind_Inr_iff split: if_splits)
  then show "lf_net_cash_effect f = Some (expected_net f)"
    and "lf_side f = ES_SELL \<Longrightarrow> 0 \<le> expected_net f"
    by (auto simp: validate_v3_money_def Let_def rbind_Inr_iff simp del: require_all.simps)
qed

lemma read_fill_positive: "read_fill kind p = Inr f \<Longrightarrow> 0 < lf_quantity_shares f"
  by (auto simp: read_fill_def rbind_Inr_iff make_paper_fill_def case_res_Inr
      simp del: require_all.simps enum_of.simps)

lemma fill_positive: "fill_from_record sha r = Inr f \<Longrightarrow> 0 < lf_quantity_shares f"
  using read_fill_positive by (auto simp: fill_from_record_def rbind_Inr_iff split: if_splits)

lemma read_fill_side:
  "read_fill kind p = Inr f \<Longrightarrow>
     \<exists>v. map_of p ''side'' = Some v \<and> enum_of paper_side_value [ES_BUY, ES_SELL] (py_str v) = Inr (lf_side f)"
  by (auto simp: read_fill_def rbind_Inr_iff make_paper_fill_def field_text_def case_res_Inr
      simp del: require_all.simps enum_of.simps)

lemma fill_side:
  "fill_from_record sha r = Inr f \<Longrightarrow>
     \<exists>v. map_of (jr_payload r) ''side'' = Some v
       \<and> enum_of paper_side_value [ES_BUY, ES_SELL] (py_str v) = Inr (lf_side f)"
  using read_fill_side [of "jr_kind r" "jr_payload r" f]
  by (auto simp: fill_from_record_def rbind_Inr_iff simp del: enum_of.simps split: if_splits)

lemma jtext_py_str:
  assumes "jtext p k = Inr s"
  shows "\<exists>v. map_of p k = Some v \<and> py_str v = s"
proof -
  obtain v where v: "map_of p k = Some v" "require_json_string v k = Inr s"
    using assms by (auto simp: jtext_def rbind_Inr_iff)
  then have "text_of v = Some s"
    by (simp add: require_json_string_def split: option.splits if_splits)
  with v(1) show ?thesis by (simp add: py_str_def)
qed

lemma read_exposure_fill_parts:
  assumes "read_exposure_fill sha r = Inr f"
  shows "\<exists>m s. fill_from_record sha r = Inr m \<and> jtext (jr_payload r) ''side'' = Inr s
      \<and> enum_of paper_side_value [ES_BUY, ES_SELL] s = Inr (xf_side f)
      \<and> xf_net_cash_effect f = cash_effect m"
  using assms unfolding read_exposure_fill_def Let_def rbind_Inr_iff
  apply (elim exE conjE)
  apply (drule sum.inject(2) [THEN iffD1])+
  apply (rule exI, rule exI, intro conjI, assumption, assumption)
   apply hypsubst
   apply (simp only: exposure_fill.simps)
  apply hypsubst
  apply (simp only: exposure_fill.simps)
  done

lemma exposure_fill_checked:
  assumes "exposure_fill_from_record sha r = Inr f"
  shows "0 < xf_quantity_shares f" and "xf_side f = ES_SELL \<Longrightarrow> 0 \<le> xf_net_cash_effect f"
proof -
  have k: "jr_kind r = FILL_V4" and read: "read_exposure_fill sha r = Inr f"
    and q: "0 < xf_quantity_shares f"
    using assms by (auto simp: exposure_fill_from_record_def rbind_Inr_iff require_recovery_Inr
        split: if_splits)
  then show "0 < xf_quantity_shares f" by simp
  obtain m s where m: "fill_from_record sha r = Inr m" "jtext (jr_payload r) ''side'' = Inr s"
    "enum_of paper_side_value [ES_BUY, ES_SELL] s = Inr (xf_side f)"
    "xf_net_cash_effect f = cash_effect m"
    using read_exposure_fill_parts [OF read] by blast
  have side: "lf_side m = xf_side f"
    using fill_side [OF m(1)] jtext_py_str [OF m(2)] m(3) by auto
  have "has_tax (jr_kind r)" by (simp add: k has_tax_def)
  with m(1) have "lf_net_cash_effect m = Some (expected_net m)"
    "lf_side m = ES_SELL \<Longrightarrow> 0 \<le> expected_net m"
    using validated_tax_fill by blast+
  with side m(4) show "0 \<le> xf_net_cash_effect f" if "xf_side f = ES_SELL"
    using that by (simp add: cash_effect_def)
qed

section \<open>The exposure ledger\<close>

text \<open>
  Keys are the exposures' own identifiers, every exposure with a position or a result is
  registered with its symbol, every position holds shares, and cash is not negative.
\<close>

definition book_ok ::
  "(string, exposure_position) dict \<Rightarrow> (string, exposure_identity) dict \<Rightarrow> (string, string) dict
     \<Rightarrow> (string, rat) dict \<Rightarrow> bool" where
  "book_ok positions identities symbols realized \<longleftrightarrow>
     distinct (map fst positions) \<and> distinct (map fst identities)
     \<and> (\<forall>eid x. dget identities eid = Some x \<longrightarrow> ei_exposure_id x = eid)
     \<and> (\<forall>eid x. dget positions eid = Some x \<longrightarrow> 0 < xp_quantity_shares x
          \<and> dget identities eid \<noteq> None \<and> dget symbols eid = Some (xp_symbol x))
     \<and> (\<forall>eid v. dget realized eid = Some v \<longrightarrow> dget identities eid \<noteq> None)"

definition ledger_ok :: "exposure_ledger \<Rightarrow> bool" where
  "ledger_ok l \<longleftrightarrow> 0 \<le> el_cash l
     \<and> book_ok (el_positions l) (el_identities l) (el_symbols l) (el_realized_pnl l)"

lemma book_ok_position:
  "book_ok ps ids syms rl \<Longrightarrow> 0 < xp_quantity_shares x \<Longrightarrow> dget ids eid \<noteq> None \<Longrightarrow>
     dget syms eid = Some (xp_symbol x) \<Longrightarrow> book_ok (dset eid x ps) ids syms rl"
  by (auto simp: book_ok_def distinct_dset simp del: map_of_eq_Some_iff)

lemma book_ok_remove:
  assumes "book_ok ps ids syms rl"
  shows "book_ok (dpop eid ps) ids syms rl"
proof -
  note parts = assms [unfolded book_ok_def]
  have d: "distinct (map fst (dpop eid ps))"
    by (rule distinct_dpop) (rule parts [THEN conjunct1])
  have less: "dget (dpop eid ps) j = Some x \<Longrightarrow> dget ps j = Some x" for j x
    by (simp only: dget_dpop split: if_splits) simp
  have "\<forall>j x. dget (dpop eid ps) j = Some x \<longrightarrow> 0 < xp_quantity_shares x
      \<and> dget ids j \<noteq> None \<and> dget syms j = Some (xp_symbol x)"
    using parts less by meson
  with d parts show ?thesis unfolding book_ok_def by meson
qed

lemma book_ok_realized:
  "book_ok ps ids syms rl \<Longrightarrow> dget ids eid \<noteq> None \<Longrightarrow> book_ok ps ids syms (dset eid v rl)"
  by (auto simp: book_ok_def simp del: map_of_eq_Some_iff)

lemma book_ok_register:
  assumes "book_ok ps ids syms rl" and "dget ids (ei_exposure_id x) \<in> {None, Some x}"
    and "dget syms (ei_exposure_id x) \<in> {None, Some symbol}"
  shows "book_ok ps (dset (ei_exposure_id x) x ids) (dset (ei_exposure_id x) symbol syms) rl"
proof -
  let ?e = "ei_exposure_id x"
  note parts = assms(1) [unfolded book_ok_def]
  have d: "distinct (map fst (dset ?e x ids))"
    by (rule distinct_dset) (rule parts [THEN conjunct2, THEN conjunct1])
  have known: "dget ids j \<noteq> None \<Longrightarrow> dget (dset ?e x ids) j \<noteq> None" for j by simp
  have named: "dget syms j = Some s \<Longrightarrow> dget (dset ?e symbol syms) j = Some s" for j s
    using assms(3) by auto
  have "\<forall>j y. dget (dset ?e x ids) j = Some y \<longrightarrow> ei_exposure_id y = j"
    using parts by (simp del: map_of_eq_Some_iff)
  with d parts known named show ?thesis unfolding book_ok_def by meson
qed

lemma book_ok_position_known:
  "book_ok ps ids syms rl \<Longrightarrow> dget ps eid = Some x \<Longrightarrow>
     0 < xp_quantity_shares x \<and> dget ids eid \<noteq> None \<and> dget syms eid = Some (xp_symbol x)"
  unfolding book_ok_def by blast

lemma new_ledger_ok: "new_exposure_ledger c a f s = Inr l \<Longrightarrow> ledger_ok l"
  by (auto simp: new_exposure_ledger_def ledger_ok_def book_ok_def rbind_Inr_iff split: if_splits)

lemma register_identity_cases:
  assumes "register_identity x symbol name version l = (res, l1)"
  shows "(is_err res \<and> l1 = l)
    \<or> (dget (el_identities l) (ei_exposure_id x) \<in> {None, Some x}
       \<and> dget (el_symbols l) (ei_exposure_id x) \<in> {None, Some symbol}
       \<and> (\<exists>ns vs. l1 = l\<lparr>el_identities := dset (ei_exposure_id x) x (el_identities l),
            el_symbols := dset (ei_exposure_id x) symbol (el_symbols l), el_names := ns,
            el_strategy_versions := vs\<rparr>))"
proof -
  have keep: "\<exists>ns vs. l' = l'\<lparr>el_names := ns, el_strategy_versions := vs\<rparr>" for l'
    by (intro exI [of _ "el_names l'"] exI [of _ "el_strategy_versions l'"]) simp
  have keep_names: "\<exists>ns vs. l'\<lparr>el_names := n\<rparr> = l'\<lparr>el_names := ns, el_strategy_versions := vs\<rparr>" for l' n
    by (intro exI [of _ n] exI [of _ "el_strategy_versions l'"]) simp
  show ?thesis
    using assms unfolding register_identity_def Let_def
    by (auto split: if_splits intro: keep keep_names)
qed

lemma register_identity_ok:
  assumes "register_identity x symbol name version l = (res, l1)" and "ledger_ok l"
  shows "ledger_ok l1"
    and "\<not> is_err res \<Longrightarrow> dget (el_identities l1) (ei_exposure_id x) = Some x
      \<and> dget (el_symbols l1) (ei_exposure_id x) = Some symbol"
    and "el_positions l1 = el_positions l" and "el_cash l1 = el_cash l"
    and "el_realized_pnl l1 = el_realized_pnl l" and "el_last_sequence l1 = el_last_sequence l"
proof -
  note regs = register_identity_cases [OF assms(1)]
  show "ledger_ok l1" using regs assms(2) by (auto simp: ledger_ok_def intro!: book_ok_register)
  show "dget (el_identities l1) (ei_exposure_id x) = Some x
      \<and> dget (el_symbols l1) (ei_exposure_id x) = Some symbol" if "\<not> is_err res"
    using regs that by auto
  show "el_positions l1 = el_positions l" and "el_cash l1 = el_cash l"
    and "el_realized_pnl l1 = el_realized_pnl l" and "el_last_sequence l1 = el_last_sequence l"
    using regs by auto
qed

lemma book_exposure_fill_ok:
  assumes "book_exposure_fill f l = (res, l1)" and "ledger_ok l" and "0 < xf_quantity_shares f"
    and "xf_side f = ES_SELL \<Longrightarrow> 0 \<le> xf_net_cash_effect f"
    and "dget (el_identities l) (ei_exposure_id (xf_exposure f)) \<noteq> None"
    and "dget (el_symbols l) (ei_exposure_id (xf_exposure f)) = Some (xf_symbol f)"
  shows "ledger_ok l1"
proof -
  let ?eid = "ei_exposure_id (xf_exposure f)"
  have book: "book_ok (el_positions l) (el_identities l) (el_symbols l) (el_realized_pnl l)"
    and cash: "0 \<le> el_cash l" using assms(2) by (auto simp: ledger_ok_def)
  have known: "0 < xp_quantity_shares x" "xp_symbol x = xf_symbol f"
    if "dget (el_positions l) ?eid = Some x" for x
    using book_ok_position_known [OF book that] assms(6) by auto
  show ?thesis
  proof (cases "xf_side f")
    case ES_BUY
    have "0 \<le> dec_add (el_cash l) (xf_net_cash_effect f)" if "- xf_net_cash_effect f \<le> el_cash l"
      using that by (auto simp: dec_add_def intro!: round28_nonneg)
    moreover have "book_ok (dset ?eid (bought_position f (dget (el_positions l) ?eid)) (el_positions l))
        (el_identities l) (el_symbols l) (el_realized_pnl l)"
      using assms(3,5,6) known
      by (intro book_ok_position [OF book]) (auto simp: bought_position_def Let_def add_pos_pos split: option.split)
    ultimately show ?thesis using assms(1,2) ES_BUY
      by (auto simp: book_exposure_fill_def Let_def ledger_ok_def split: if_splits)
  next
    case ES_SELL
    then have paid: "0 \<le> dec_add (el_cash l) (xf_net_cash_effect f)"
      using assms(4) cash by (auto simp: dec_add_def intro!: round28_nonneg)
    note sold = book_ok_realized [OF _ assms(5)]
    have left: "book_ok (dset ?eid (x\<lparr>xp_quantity_shares := n, xp_commission_cost := c\<rparr>) (el_positions l))
        (el_identities l) (el_symbols l) (dset ?eid v (el_realized_pnl l))"
      if "dget (el_positions l) ?eid = Some x" "0 < n" for x n c v
      using that known assms(5,6) by (intro sold book_ok_position [OF book]) auto
    show ?thesis using assms(1,2) ES_SELL paid left sold [OF book_ok_remove [OF book]]
      by (auto simp: book_exposure_fill_def Let_def ledger_ok_def split: if_splits option.splits)
  qed
qed

lemma apply_exposure_fill_ok:
  assumes "apply_exposure_fill f l = (res, l1)" and "ledger_ok l"
    and "exposure_fill_from_record sha r = Inr f"
  shows "ledger_ok l1"
proof (cases "register_identity (xf_exposure f) (xf_symbol f) (xf_name f)
    (xf_owner_strategy_version f) l")
  case (Pair reg l0)
  note ok = register_identity_ok [OF Pair assms(2)]
  show ?thesis
  proof (cases reg)
    case (Inl e)
    then show ?thesis using assms(1) Pair ok(1) by (auto simp: apply_exposure_fill_def)
  next
    case (Inr u)
    then have book: "book_exposure_fill f l0 = (res, l1)"
      using assms(1) Pair by (simp add: apply_exposure_fill_def)
    show ?thesis
      by (rule book_exposure_fill_ok [OF book ok(1)])
        (use exposure_fill_checked [OF assms(3)] ok(2) Inr in auto)
  qed
qed

lemma import_entry_ok:
  assumes "import_entry raw l = (res, l1)" and "ledger_ok l"
  shows "ledger_ok l1 \<and> el_cash l1 = el_cash l"
proof (cases "rbind (read_import_entry raw) (\<lambda>i. rbind (check_import_entry i) (\<lambda>_. Inr i))")
  case (Inl e)
  then show ?thesis using assms by (auto simp: import_entry_def)
next
  case (Inr i)
  obtain reg l0 where reg: "register_identity (im_exposure i) (im_symbol i) (im_name i) None l = (reg, l0)"
    by fastforce
  note ok = register_identity_ok [OF reg assms(2)]
  show ?thesis
  proof (cases reg)
    case (Inl e)
    then show ?thesis using assms(1) Inr reg ok by (auto simp: import_entry_def)
  next
    case (Inr u)
    then show ?thesis using assms(1) \<open>rbind _ _ = Inr i\<close> reg ok(1,4) ok(2)
      by (auto simp: import_entry_def ledger_ok_def Let_def intro!: book_ok_realized book_ok_position
          split: if_splits)
  qed
qed

lemma import_entries_ok:
  "import_entries raws l = (res, l1) \<Longrightarrow> ledger_ok l \<Longrightarrow> ledger_ok l1 \<and> el_cash l1 = el_cash l"
proof (induction raws arbitrary: l)
  case (Cons raw raws)
  obtain r0 l0 where e: "import_entry raw l = (r0, l0)" by fastforce
  show ?case
    using Cons import_entry_ok [OF e] e by (cases r0) auto
qed auto

lemma apply_import_ok:
  assumes "apply_import r l = (res, l1)" and "ledger_ok l"
  shows "ledger_ok l1"
proof (cases "el_import_source_digest l \<noteq> None \<or> el_identities l \<noteq> []
    \<or> is_err (read_manifest (jr_payload r) l)")
  case True
  then show ?thesis using assms by (auto simp: apply_import_def is_err_def split: sum.splits if_splits)
next
  case False
  then obtain cash digest raws where m: "read_manifest (jr_payload r) l = Inr (cash, digest, raws)"
    by (cases "read_manifest (jr_payload r) l") auto
  obtain r0 l2 where e: "import_entries raws l = (r0, l2)" by fastforce
  have ok: "ledger_ok l2" using import_entries_ok [OF e assms(2)] by blast
  have funded: "ledger_ok (l2\<lparr>el_cash := fin_value cash, el_import_source_digest := d\<rparr>)"
    if "0 \<le> fin_value cash" for d
    using ok that by (simp add: ledger_ok_def)
  show ?thesis using assms ok funded False m e
    by (cases r0) (auto simp: apply_import_def not_less split: if_splits)
qed

lemma ledger_ok_sequence [simp]: "ledger_ok (l\<lparr>el_last_sequence := n\<rparr>) = ledger_ok l"
  by (simp add: ledger_ok_def)

lemma ledger_apply_ok:
  assumes "ledger_apply sha x l = (res, l1)" and "ledger_ok l"
  shows "ledger_ok l1"
proof (cases "jr_kind (ja_record x) = V1_IMPORTED")
  case True
  obtain r0 l2 where e: "apply_import (ja_record x) l = (r0, l2)" by fastforce
  show ?thesis using assms e apply_import_ok [OF e assms(2)] True
    by (cases r0) (auto simp: ledger_apply_def Let_def split: if_splits)
next
  case False
  show ?thesis
  proof (cases "exposure_fill_from_record sha (ja_record x)")
    case (Inl e)
    then show ?thesis using assms False by (auto simp: ledger_apply_def Let_def split: if_splits)
  next
    case (Inr f)
    obtain r0 l2 where e: "apply_exposure_fill f l = (r0, l2)" by fastforce
    show ?thesis using assms e apply_exposure_fill_ok [OF e assms(2) Inr] False Inr
      by (cases r0) (auto simp: ledger_apply_def Let_def split: if_splits)
  qed
qed

section \<open>Adding up the exposures of a symbol\<close>

definition aggregated_shares :: "(string, symbol_aggregate) dict \<Rightarrow> string \<Rightarrow> int" where
  "aggregated_shares d s = (case dget d s of None \<Rightarrow> 0 | Some a \<Rightarrow> ag_quantity a)"

definition aggregates_ok :: "(string, symbol_aggregate) dict \<Rightarrow> bool" where
  "aggregates_ok d \<longleftrightarrow> distinct (map fst d)
     \<and> (\<forall>s a. dget d s = Some a \<longrightarrow> 0 < ag_quantity a \<and> ag_symbol a = s)"

definition open_shares :: "string \<Rightarrow> exposure_state \<Rightarrow> int" where
  "open_shares s x = (if xs_symbol x = s \<and> 0 < xs_quantity x then xs_quantity x else 0)"

lemma aggregate_state_ok: "aggregates_ok d \<Longrightarrow> aggregates_ok (aggregate_state x d)"
  by (auto simp: aggregates_ok_def aggregate_state_def Let_def distinct_dset dget_or_def add_pos_pos
      simp del: map_of_eq_Some_iff split: option.splits)

lemma aggregate_state_shares:
  "aggregated_shares (aggregate_state x d) s = aggregated_shares d s + open_shares s x"
  by (simp add: aggregated_shares_def aggregate_state_def open_shares_def Let_def dget_or_def
      split: option.split)

lemma fold_aggregate_ok: "aggregates_ok d \<Longrightarrow> aggregates_ok (fold aggregate_state xs d)"
  by (induction xs arbitrary: d) (simp_all add: aggregate_state_ok)

lemma fold_aggregate_shares:
  "aggregated_shares (fold aggregate_state xs d) s
     = aggregated_shares d s + sum_list (map (open_shares s) xs)"
  by (induction xs arbitrary: d) (simp_all add: aggregate_state_shares)

lemma v4_aggregate_ok: "aggregates_ok (v4_aggregate l)"
  unfolding v4_aggregate_def by (rule fold_aggregate_ok) (simp add: aggregates_ok_def)

lemma dict_sum:
  "distinct (map fst d) \<Longrightarrow> sum_list (map (\<lambda>(k, v). h k v) d) = (\<Sum>k \<in> fst ` set d. h k (the (dget d k)))"
proof -
  assume d: "distinct (map fst d)"
  then have l: "distinct d" "inj_on fst (set d)" by (simp_all add: distinct_map)
  have "sum_list (map (\<lambda>(k, v). h k v) d) = (\<Sum>x \<in> set d. h (fst x) (the (dget d (fst x))))"
    unfolding sum_list_distinct_conv_sum_set [OF l(1)]
    by (rule sum.cong) (use d in auto)
  also have "\<dots> = (\<Sum>k \<in> fst ` set d. h k (the (dget d k)))"
    by (rule sum.reindex [OF l(2), unfolded o_def, symmetric])
  finally show ?thesis .
qed

text \<open>The shares of a symbol among the exposures are those of its positions.\<close>

definition symbol_shares :: "exposure_ledger \<Rightarrow> string \<Rightarrow> string \<Rightarrow> int" where
  "symbol_shares l s eid = (case dget (el_positions l) eid of None \<Rightarrow> 0
     | Some x \<Rightarrow> if xp_symbol x = s then xp_quantity_shares x else 0)"

lemma state_shares:
  assumes "book_ok (el_positions l) ids (el_symbols l) rl"
  shows "open_shares s (state_of_exposure l eid x) = symbol_shares l s eid"
  using book_ok_position_known [OF assms, of eid]
  by (cases "dget (el_positions l) eid")
    (auto simp: open_shares_def state_of_exposure_def symbol_shares_def Let_def dget_or_def)

lemma states_shares:
  assumes "book_ok (el_positions l) (el_identities l) (el_symbols l) rl"
  shows "sum_list (map (open_shares s) (exposure_states l)) = aggregate_quantity l s"
proof -
  note parts = assms [unfolded book_ok_def]
  have d: "distinct (map fst (el_positions l))" "distinct (map fst (el_identities l))"
    using parts by simp_all
  have keys: "fst ` set (el_positions l) \<subseteq> fst ` set (el_identities l)"
    using parts by (metis dom_map_of_conv_image_fst domIff subsetI option.exhaust)
  have out: "symbol_shares l s k = 0" if "k \<notin> fst ` set (el_positions l)" for k
    using that by (simp add: symbol_shares_def dom_map_of_conv_image_fst [symmetric] domIff)
  have "sum_list (map (open_shares s) (exposure_states l))
      = sum_list (map (\<lambda>(k, v). symbol_shares l s k) (sort_key fst (el_identities l)))"
    by (simp add: exposure_states_def o_def split_def state_shares [OF assms])
  also have "\<dots> = (\<Sum>x \<in> set (el_identities l). symbol_shares l s (fst x))"
    using d(2) by (subst sum_list_distinct_conv_sum_set) (auto simp: distinct_map split_def)
  also have "\<dots> = (\<Sum>k \<in> fst ` set (el_identities l). symbol_shares l s k)"
    using d(2) by (subst sum.reindex) (auto simp: distinct_map)
  also have "\<dots> = (\<Sum>k \<in> fst ` set (el_positions l). symbol_shares l s k)"
    by (rule sum.mono_neutral_right) (use keys out in auto)
  also have "\<dots> = (\<Sum>k \<in> fst ` set (el_positions l).
      if xp_symbol (the (dget (el_positions l) k)) = s
      then xp_quantity_shares (the (dget (el_positions l) k)) else 0)"
    using d(1) by (intro sum.cong) (auto simp: symbol_shares_def)
  also have "\<dots> = sum_list (map (\<lambda>(k, x). if xp_symbol x = s then xp_quantity_shares x else 0)
      (el_positions l))"
    by (rule dict_sum [OF d(1), symmetric])
  also have "\<dots> = aggregate_quantity l s"
    by (simp add: aggregate_quantity_def sum_list_map_filter' o_def split_def)
  finally show ?thesis .
qed

lemma v4_aggregate_shares:
  "ledger_ok l \<Longrightarrow> aggregated_shares (v4_aggregate l) s = aggregate_quantity l s"
  unfolding v4_aggregate_def fold_aggregate_shares
  using states_shares [of l "el_realized_pnl l" s]
  by (simp add: aggregated_shares_def ledger_ok_def)

section \<open>The monetary projection\<close>

definition LEGACY_FILLS :: "string list" where
  "LEGACY_FILLS = [FILL_V1, FILL_V2]"

definition held_shares :: "paper_projection \<Rightarrow> string \<Rightarrow> int" where
  "held_shares p s = (case dget (pp_positions p) s of None \<Rightarrow> 0 | Some x \<Rightarrow> lp_quantity_shares x)"

definition solvent :: "paper_projection \<Rightarrow> bool" where
  "solvent p \<longleftrightarrow> 0 \<le> pp_cash p
     \<and> (\<forall>s x. dget (pp_positions p) s = Some x \<longrightarrow> 0 < lp_quantity_shares x \<and> lp_symbol x = s)
     \<and> (\<forall>l. pp_exposures p = Some l \<longrightarrow> ledger_ok l)"

definition coherent :: "paper_projection \<Rightarrow> bool" where
  "coherent p \<longleftrightarrow> (\<forall>l. pp_exposures p = Some l \<longrightarrow>
     ledger_ok l \<and> pp_cash p = el_cash l \<and> (\<forall>s. held_shares p s = aggregate_quantity l s))"

lemma solvent_frame [simp]:
  "solvent (add_buy_notional t v p) = solvent p" "coherent (add_buy_notional t v p) = coherent p"
  "solvent (p\<lparr>pp_v3_accounting := a\<rparr>) = solvent p" "coherent (p\<lparr>pp_v3_accounting := a\<rparr>) = coherent p"
  "solvent (p\<lparr>pp_last_sequence := n\<rparr>) = solvent p" "coherent (p\<lparr>pp_last_sequence := n\<rparr>) = coherent p"
  by (simp_all add: solvent_def coherent_def add_buy_notional_def held_shares_def)

lemma book_fill_solvent:
  assumes "book_fill f t p = (Inr u, p1)" and "solvent p" and "0 < lf_quantity_shares f"
    and "lf_side f = ES_SELL \<Longrightarrow> 0 \<le> cash_effect f"
  shows "solvent p1"
proof -
  have cash: "0 \<le> pp_cash p" and held: "\<And>s x. dget (pp_positions p) s = Some x \<Longrightarrow>
      0 < lp_quantity_shares x \<and> lp_symbol x = s"
    using assms(2) by (auto simp: solvent_def)
  have paid: "0 \<le> dec_add (pp_cash p) (cash_effect f)" if "- cash_effect f \<le> pp_cash p"
    using that by (auto simp: dec_add_def intro!: round28_nonneg)
  show ?thesis
  proof (cases "lf_side f")
    case ES_BUY
    then show ?thesis using assms(1,2) paid held assms(3)
      by (auto simp: book_fill_def Let_def solvent_def add_buy_notional_def opened_position_def
          added_position_def add_pos_pos simp del: map_of_eq_Some_iff split: if_splits option.splits)
  next
    case ES_SELL
    then have "- cash_effect f \<le> pp_cash p" using assms(4) cash by simp
    with ES_SELL show ?thesis using assms(1,2) paid held
      by (auto simp: book_fill_def Let_def solvent_def reduced_position_def
          simp del: map_of_eq_Some_iff split: if_splits option.splits)
  qed
qed

lemma v4_positions:
  "dget (map (\<lambda>(s, a). (s, aggregated_position a)) d) s = map_option aggregated_position (dget d s)"
  by (induction d) auto

lemma aggregated_position_simps [simp]:
  "lp_quantity_shares (aggregated_position a) = ag_quantity a"
  "lp_symbol (aggregated_position a) = ag_symbol a"
  by (simp_all add: aggregated_position_def Let_def)

lemma refresh_ok:
  assumes "refresh_v4_aggregate l p = (Inr u, p1)" and "ledger_ok l" and "pp_cash p = el_cash l"
    and "pp_exposures p = Some l"
  shows "solvent p1 \<and> coherent p1"
proof -
  obtain rl where p1: "p1 = p\<lparr>pp_positions := map (\<lambda>(s, a). (s, aggregated_position a)) (v4_aggregate l),
      pp_realized_pnl := rl\<rparr>"
    using assms(1) by (auto simp: refresh_v4_aggregate_def Let_def split: sum.splits)
  have held: "held_shares p1 s = aggregate_quantity l s" for s
    using v4_aggregate_shares [OF assms(2), of s]
    by (simp add: p1 held_shares_def v4_positions aggregated_shares_def split: option.splits)
  have "solvent p1"
    using v4_aggregate_ok [of l] assms
    by (auto simp: solvent_def p1 v4_positions aggregates_ok_def ledger_ok_def
        simp del: map_of_eq_Some_iff)
  moreover have "coherent p1"
    using held assms by (simp add: coherent_def p1)
  ultimately show ?thesis by blast
qed

lemma apply_v4_fill_ok:
  assumes "apply_v4_fill sha x f t p = (Inr u, p1)"
    and "\<And>l. pp_exposures p = Some l \<Longrightarrow> ledger_ok l"
  shows "solvent p1 \<and> coherent p1"
proof -
  obtain l where l: "pp_exposures p = Some l"
    using assms(1) by (auto simp: apply_v4_fill_def split: option.splits)
  obtain r1 l1 where e: "ledger_apply sha x l = (r1, l1)" by fastforce
  let ?p = "p\<lparr>pp_exposures := Some l1, pp_cash := el_cash l1\<rparr>"
  obtain r2 p2 where r: "refresh_v4_aggregate l1 ?p = (r2, p2)" by fastforce
  have ok: "ledger_ok l1" by (rule ledger_apply_ok [OF e assms(2) [OF l]])
  have r2: "r2 = Inr u" and p1: "p1 = (if lf_side f = ES_BUY then add_buy_notional t (fill_value f) p2 else p2)"
    using assms(1) l e r by (auto simp: apply_v4_fill_def split: sum.splits)
  have "solvent p2 \<and> coherent p2"
    by (rule refresh_ok [OF r [unfolded r2] ok]) simp_all
  then show ?thesis by (simp add: p1)
qed

text \<open>An import is accepted only where no exposure holds shares.\<close>

lemma parity_flat:
  assumes "require_v4_parity l p = Inr u"
  shows "v4_aggregate l = []" and "pp_positions p = []"
proof -
  have "rmap projected_position d \<noteq> Inr ys" if "d \<noteq> []" for d ys
    using that by (cases d) (auto simp: projected_position_def aggregate_decimal_def)
  then show flat: "v4_aggregate l = []"
    using assms unfolding require_v4_parity_def rbind_Inr_iff by blast
  then show "pp_positions p = []"
    using assms by (auto simp: require_v4_parity_def Let_def split: if_splits)
qed

lemma activate_v4_ok:
  assumes "activate_v4 sha x p = (Inr u, p1)"
  shows "\<exists>l. p1 = p\<lparr>pp_exposures := Some l\<rparr> \<and> ledger_ok l \<and> el_cash l = pp_cash p
    \<and> v4_aggregate l = [] \<and> pp_positions p = []"
proof -
  let ?check = "\<lambda>l. case ledger_apply sha x l of (Inl e, _) \<Rightarrow> Inl e | (Inr _, l1) \<Rightarrow>
      if el_cash l1 \<noteq> pp_cash p
      then Inl (recovery_error ''local-paper v1 import cash conflicts with monetary projection'')
      else rbind (require_v4_parity l1 p) (\<lambda>_. Inr l1)"
  obtain a f l1 where
    "rbind (new_exposure_ledger (pp_starting_cash p) a f (pp_settings_digest p)) ?check = Inr l1"
    and p1: "p1 = p\<lparr>pp_exposures := Some l1\<rparr>"
    using assms unfolding activate_v4_def by (simp split: if_splits option.splits sum.splits)
  then obtain l0 where n: "new_exposure_ledger (pp_starting_cash p) a f (pp_settings_digest p) = Inr l0"
    and l0: "?check l0 = Inr l1" by (auto simp only: rbind_Inr_iff)
  obtain r1 l2 where "ledger_apply sha x l0 = (r1, l2)" by fastforce
  with l0 have e: "ledger_apply sha x l0 = (r1, l1)" and c: "el_cash l1 = pp_cash p"
    and parity: "require_v4_parity l1 p = Inr ()"
    by (auto simp: rbind_Inr_iff split: sum.splits if_splits)
  have "ledger_ok l1" by (rule ledger_apply_ok [OF e new_ledger_ok [OF n]])
  with c p1 parity_flat [OF parity] show ?thesis by blast
qed

lemma activate_v4_keeps:
  assumes "activate_v4 sha x p = (Inr u, p1)"
  shows "solvent p \<Longrightarrow> solvent p1" and "coherent p1"
proof -
  obtain l where l: "p1 = p\<lparr>pp_exposures := Some l\<rparr>" "ledger_ok l" "el_cash l = pp_cash p"
    "v4_aggregate l = []" "pp_positions p = []"
    using activate_v4_ok [OF assms] by blast
  have "aggregate_quantity l s = 0" for s
    using v4_aggregate_shares [OF l(2), of s] l(4) by (simp add: aggregated_shares_def)
  with l show "coherent p1" by (simp add: coherent_def held_shares_def)
  show "solvent p1" if "solvent p" using that l by (simp add: solvent_def)
qed

section \<open>One record, and a replay\<close>

lemma tax_fill_cash:
  assumes "fill_from_record sha r = Inr f" and "has_tax (jr_kind r)"
  shows "lf_side f = ES_SELL \<Longrightarrow> 0 \<le> cash_effect f"
  using validated_tax_fill [OF assms] by (simp add: cash_effect_def)

lemma apply_fill_record_parts:
  assumes "apply_fill_record sha x p = (Inr u, p1)"
  shows "\<exists>f p2. fill_from_record sha (ja_record x) = Inr f
    \<and> (if jr_kind (ja_record x) = FILL_V4 then apply_v4_fill sha x f (jr_occurred_at (ja_record x)) p
       else book_fill f (jr_occurred_at (ja_record x)) p) = (Inr (), p2)
    \<and> (p1 = p2 \<or> (\<exists>a. p1 = p2\<lparr>pp_v3_accounting := a\<rparr>))"
proof -
  let ?r = "ja_record x"
  let ?read = "rbind (check_settings p ?r) (\<lambda>_. rbind (fill_from_record sha ?r) (\<lambda>f.
      rbind (if has_tax (jr_kind ?r) then rbind (validated_v3_order_accounting p ?r f) (\<lambda>a. Inr (Some a))
             else Inr None) (\<lambda>accounting. Inr (f, accounting))))"
  obtain f accounting where read: "?read = Inr (f, accounting)"
    using assms unfolding apply_fill_record_def Let_def by (cases ?read) auto
  then have f: "fill_from_record sha ?r = Inr f" by (auto simp only: rbind_Inr_iff)
  let ?step = "if jr_kind ?r = FILL_V4 then apply_v4_fill sha x f (jr_occurred_at ?r) p
      else book_fill f (jr_occurred_at ?r) p"
  obtain r2 p2 where step: "?step = (r2, p2)" by fastforce
  with assms have "r2 = Inr ()" "p1 = (case accounting of None \<Rightarrow> p2
      | Some a \<Rightarrow> p2\<lparr>pp_v3_accounting := dset (lf_order_id f) a (pp_v3_accounting p2)\<rparr>)"
    unfolding apply_fill_record_def Let_def read by (simp_all split: sum.splits)
  then show ?thesis using f step by (cases accounting) auto
qed

lemma apply_fill_record_solvent:
  assumes "apply_fill_record sha x p = (Inr u, p1)" and "solvent p"
    and "has_tax (jr_kind (ja_record x))"
  shows "solvent p1"
proof -
  let ?k = "jr_kind (ja_record x)"
  obtain f p2 where f: "fill_from_record sha (ja_record x) = Inr f"
    and step: "(if ?k = FILL_V4 then apply_v4_fill sha x f (jr_occurred_at (ja_record x)) p
       else book_fill f (jr_occurred_at (ja_record x)) p) = (Inr (), p2)"
    and p1: "p1 = p2 \<or> (\<exists>a. p1 = p2\<lparr>pp_v3_accounting := a\<rparr>)"
    using apply_fill_record_parts [OF assms(1)] by blast
  have "solvent p2"
  proof (cases "?k = FILL_V4")
    case True
    with step assms(2) show ?thesis by (auto simp: solvent_def dest!: apply_v4_fill_ok)
  next
    case False
    with step have "book_fill f (jr_occurred_at (ja_record x)) p = (Inr (), p2)" by simp
    then show ?thesis
      by (rule book_fill_solvent [OF _ assms(2) fill_positive [OF f] tax_fill_cash [OF f assms(3)]])
  qed
  then show ?thesis using p1 by auto
qed

lemma apply_fill_record_coherent:
  assumes "apply_fill_record sha x p = (Inr u, p1)" and "coherent p"
    and "pp_exposures p \<noteq> None \<Longrightarrow> jr_kind (ja_record x) = FILL_V4"
  shows "coherent p1 \<and> (pp_exposures p = None \<longrightarrow> pp_exposures p1 = None)"
proof -
  let ?k = "jr_kind (ja_record x)"
  obtain f p2 where f: "fill_from_record sha (ja_record x) = Inr f"
    and step: "(if ?k = FILL_V4 then apply_v4_fill sha x f (jr_occurred_at (ja_record x)) p
       else book_fill f (jr_occurred_at (ja_record x)) p) = (Inr (), p2)"
    and p1: "p1 = p2 \<or> (\<exists>a. p1 = p2\<lparr>pp_v3_accounting := a\<rparr>)"
    using apply_fill_record_parts [OF assms(1)] by blast
  have "coherent p2 \<and> (pp_exposures p = None \<longrightarrow> pp_exposures p2 = None)"
  proof (cases "?k = FILL_V4")
    case True
    then have v4: "apply_v4_fill sha x f (jr_occurred_at (ja_record x)) p = (Inr (), p2)"
      using step by simp
    then have "pp_exposures p \<noteq> None" by (auto simp: apply_v4_fill_def split: option.splits)
    moreover have "ledger_ok l" if "pp_exposures p = Some l" for l
      using assms(2) that by (simp add: coherent_def)
    ultimately show ?thesis using apply_v4_fill_ok [OF v4] by auto
  next
    case False
    then have none: "pp_exposures p = None" using assms(3) by blast
    then have "pp_exposures p2 = None" using step False
      by (auto simp: book_fill_def Let_def add_buy_notional_def split: execution_side.splits
          if_splits option.splits)
    with none show ?thesis by (simp add: coherent_def)
  qed
  then show ?thesis using p1 by auto
qed

lemma paper_apply_cases:
  assumes "paper_apply sha x p = (Inr u, p1)"
  shows "\<exists>p2. p1 = p2\<lparr>pp_last_sequence := ja_sequence x\<rparr>
    \<and> (if jr_kind (ja_record x) = V1_IMPORTED then activate_v4 sha x p
       else if List.member FILL_KINDS (jr_kind (ja_record x)) then apply_fill_record sha x p
       else (Inr (), p)) = (Inr (), p2)"
  using assms unfolding paper_apply_def by (simp split: if_splits sum.splits prod.splits)

lemma paper_apply_solvent:
  assumes "paper_apply sha x p = (Inr u, p1)" and "solvent p"
    and "\<not> List.member LEGACY_FILLS (jr_kind (ja_record x))"
  shows "solvent p1"
proof -
  have "has_tax (jr_kind (ja_record x))" if "List.member FILL_KINDS (jr_kind (ja_record x))"
    using that assms(3) by (auto simp: has_tax_def FILL_KINDS_def LEGACY_FILLS_def)
  then show ?thesis
    using paper_apply_cases [OF assms(1)] assms(2) apply_fill_record_solvent activate_v4_keeps(1)
    by (fastforce split: if_splits)
qed

lemma paper_apply_coherent:
  assumes "paper_apply sha x p = (Inr u, p1)" and "coherent p"
    and "pp_exposures p \<noteq> None \<Longrightarrow> \<not> List.member (FILL_V3 # LEGACY_FILLS) (jr_kind (ja_record x))"
  shows "coherent p1 \<and> (jr_kind (ja_record x) \<noteq> V1_IMPORTED \<and> pp_exposures p = None \<longrightarrow> pp_exposures p1 = None)"
proof -
  have v4: "jr_kind (ja_record x) = FILL_V4"
    if "List.member FILL_KINDS (jr_kind (ja_record x))" "pp_exposures p \<noteq> None"
    using that assms(3) by (auto simp: FILL_KINDS_def LEGACY_FILLS_def)
  obtain p2 where p1: "p1 = p2\<lparr>pp_last_sequence := ja_sequence x\<rparr>"
    and step: "(if jr_kind (ja_record x) = V1_IMPORTED then activate_v4 sha x p
       else if List.member FILL_KINDS (jr_kind (ja_record x)) then apply_fill_record sha x p
       else (Inr (), p)) = (Inr (), p2)"
    using paper_apply_cases [OF assms(1)] by blast
  consider "jr_kind (ja_record x) = V1_IMPORTED"
    | "jr_kind (ja_record x) \<noteq> V1_IMPORTED" "List.member FILL_KINDS (jr_kind (ja_record x))"
    | "jr_kind (ja_record x) \<noteq> V1_IMPORTED" "\<not> List.member FILL_KINDS (jr_kind (ja_record x))" by blast
  then show ?thesis
  proof cases
    case 1
    then show ?thesis using step p1 activate_v4_keeps(2) by fastforce
  next
    case 2
    then have "apply_fill_record sha x p = (Inr (), p2)" using step by simp
    from apply_fill_record_coherent [OF this assms(2)] v4 2 p1 show ?thesis by simp
  next
    case 3
    then show ?thesis using step p1 assms(2) by simp
  qed
qed

text \<open>After an import only v4 fills follow: what the recorder of an imported session writes.\<close>

fun exposure_fills_after_import :: "append_result list \<Rightarrow> bool" where
  "exposure_fills_after_import [] = True"
| "exposure_fills_after_import (x # xs) =
     ((jr_kind (ja_record x) = V1_IMPORTED \<longrightarrow>
         list_all (\<lambda>y. \<not> List.member (FILL_V3 # LEGACY_FILLS) (jr_kind (ja_record y))) xs)
      \<and> exposure_fills_after_import xs)"

lemma replay_solvent:
  "paper_replay sha xs p = Inr q \<Longrightarrow> solvent p \<Longrightarrow>
     list_all (\<lambda>x. \<not> List.member LEGACY_FILLS (jr_kind (ja_record x))) xs \<Longrightarrow> solvent q"
proof (induction xs arbitrary: p)
  case (Cons x xs)
  obtain r1 p1 where e: "paper_apply sha x p = (r1, p1)" by fastforce
  then obtain u where "r1 = Inr u" "paper_replay sha xs p1 = Inr q"
    using Cons.prems(1) by (cases r1) auto
  then show ?case
    using Cons.IH paper_apply_solvent [of sha x p u p1] Cons.prems(2,3) e by simp
qed simp

lemma replay_coherent:
  "paper_replay sha xs p = Inr q \<Longrightarrow> coherent p \<Longrightarrow> exposure_fills_after_import xs \<Longrightarrow>
     (pp_exposures p \<noteq> None \<Longrightarrow>
        list_all (\<lambda>x. \<not> List.member (FILL_V3 # LEGACY_FILLS) (jr_kind (ja_record x))) xs) \<Longrightarrow> coherent q"
proof (induction xs arbitrary: p)
  case (Cons x xs)
  obtain r1 p1 where e: "paper_apply sha x p = (r1, p1)" by fastforce
  then obtain u where u: "r1 = Inr u" "paper_replay sha xs p1 = Inr q"
    using Cons.prems(1) by (cases r1) auto
  have p1: "coherent p1 \<and> (jr_kind (ja_record x) \<noteq> V1_IMPORTED \<and> pp_exposures p = None \<longrightarrow> pp_exposures p1 = None)"
    by (rule paper_apply_coherent [OF e [unfolded u(1)] Cons.prems(2)]) (use Cons.prems(4) in auto)
  have rest: "list_all (\<lambda>x. \<not> List.member (FILL_V3 # LEGACY_FILLS) (jr_kind (ja_record x))) xs"
    if "pp_exposures p1 \<noteq> None"
  proof (cases "pp_exposures p")
    case None
    with p1 that have "jr_kind (ja_record x) = V1_IMPORTED" by blast
    then show ?thesis using Cons.prems(3) by simp
  next
    case (Some l)
    then show ?thesis using Cons.prems(4) by simp
  qed
  show ?case
    by (rule Cons.IH [OF u(2)]) (use p1 Cons.prems(3) rest in auto)
qed simp

lemma new_projection_ok:
  "new_projection c s = Inr p \<Longrightarrow> solvent p \<and> coherent p \<and> pp_exposures p = None"
  by (auto simp: new_projection_def solvent_def coherent_def split: if_splits)

section \<open>Properties\<close>

text \<open>
  C4. However a session without v1 and v2 fills is replayed, cash never goes negative and every
  position holds shares under its own symbol. (A v1 or v2 sale may cost more than it earns: its
  net cash effect is not checked.)
\<close>

theorem projection_stays_solvent:
  assumes "new_projection cash settings = Inr p0" and "paper_replay sha xs p0 = Inr p"
    and "list_all (\<lambda>x. \<not> List.member LEGACY_FILLS (jr_kind (ja_record x))) xs"
  shows "0 \<le> pp_cash p
    \<and> (\<forall>s x. dget (pp_positions p) s = Some x \<longrightarrow> 0 < lp_quantity_shares x \<and> lp_symbol x = s)"
  using replay_solvent [OF assms(2) conjunct1 [OF new_projection_ok [OF assms(1)]] assms(3)]
  unfolding solvent_def by blast

text \<open>
  C5. In a replay where every fill after the import is a v4 fill, the monetary projection is the
  exposure ledger added up: the same cash, and for every symbol as many shares as the exposures of
  that symbol hold. The reducer does not enforce that order - \<open>v3_fill_after_import\<close> below replays a
  v3 fill after an import, and the two ledgers part - it is what the recorder of an imported
  session writes, and the runtime compares both ledgers after a recovery.
\<close>

theorem positions_are_the_exposures:
  assumes "new_projection cash settings = Inr p0" and "paper_replay sha xs p0 = Inr p"
    and "exposure_fills_after_import xs" and "pp_exposures p = Some l"
  shows "pp_cash p = el_cash l \<and> (\<forall>s. held_shares p s = aggregate_quantity l s)"
proof -
  have "coherent p"
    by (rule replay_coherent [OF assms(2) _ assms(3)]) (use new_projection_ok [OF assms(1)] in simp_all)
  then show ?thesis using assms(4) unfolding coherent_def by blast
qed

section \<open>A session with an import and a v4 fill\<close>

definition paper_sha :: "json \<Rightarrow> string" where
  "paper_sha v = replicate 64 CHR ''a''"

definition paper_time :: datetime where
  "paper_time = \<lparr>instant = 1787022000000000, utcoffset = Some 28800000000\<rparr>"

definition paper_record :: "string \<Rightarrow> string \<Rightarrow> (string \<times> json) list \<Rightarrow> journal_record" where
  "paper_record rid kind payload = \<lparr>jr_record_id = rid, jr_session_id = ''s'', jr_kind = kind,
     jr_occurred_at = paper_time, jr_payload = payload, jr_idempotency_scope = None,
     jr_idempotency_key = None, jr_schema_version = JOURNAL_SCHEMA_VERSION\<rparr>"

definition paper_descriptor :: instrument_descriptor where
  "paper_descriptor = \<lparr>id_symbol = ''2330'', id_exchange_raw = ''TSE'', id_security_type_raw = ''STK'',
     id_product_category_raw = ''00'', id_product_class = COMMON_STOCK, id_source_identity = ''src''\<rparr>"

text \<open>A buy of 1000 shares at 100.5, the tick the 10 basis points of slippage over 100 round up to.\<close>

definition paper_fill_fields :: "(string \<times> json) list" where
  "paper_fill_fields =
     [(''order_id'', JStr ''o1''), (''symbol'', JStr ''2330''), (''name'', JStr ''TSMC''),
      (''side'', JStr ''BUY''), (''quantity_shares'', JInt 1000), (''fill_price'', JDec (201 / 2)),
      (''fill_sequence'', JInt 1), (''commission'', JDec 143), (''tax'', JDec 0),
      (''gross_amount'', JDec 100500), (''net_cash_effect'', JDec (- 100643)),
      (''reference_price'', JDec 100), (''reference_source'', JStr ''BEST_ASK''),
      (''configured_slippage_bps'', JDec 10), (''realized_slippage_bps'', JDec 50),
      (''slippage_cost'', JDec 500), (''cumulative_order_gross'', JDec 100500),
      (''cumulative_order_commission'', JDec 143), (''cumulative_order_tax'', JDec 0),
      (''fee_policy_version'', JStr FEE_POLICY_VERSION),
      (''rounding_policy_version'', JStr ROUNDING_POLICY_VERSION),
      (''slippage_policy_version'', JStr SLIPPAGE_POLICY_VERSION),
      (''price_tick_policy_version'', JStr PRICE_TICK_POLICY_VERSION),
      (''settings_digest'', JStr (replicate 64 CHR ''b'')),
      (''instrument_descriptor_snapshot'', JObj (descriptor_fields paper_descriptor)),
      (''instrument_descriptor_digest'', JStr (replicate 64 CHR ''a'')),
      (''limit_price'', JDec 101), (''fill_source'', JStr ''quote''),
      (''provider_identity'', JStr ''p''), (''execution_authority'', JBool False),
      (''owner_origin'', JStr ''MANUAL_WEB''), (''owner_strategy_id'', JNull),
      (''owner_strategy_version'', JNull)]"

definition paper_start :: "paper_projection res" where
  "paper_start = new_projection 1000000 (Some (replicate 64 CHR ''b''))"

definition paper_exposure :: exposure_identity where
  "paper_exposure = \<lparr>ei_exposure_id = ''e1'', ei_account_scope_id = ''acct'',
     ei_policy_family_id = ''fam'', ei_owner_origin = ''MANUAL_WEB'', ei_owner_id = ''web'',
     ei_holding_horizon = INTRADAY, ei_entry_session_date = Some 20683,
     ei_entry_policy_version = ''v1'', ei_entry_policy_digest = replicate 64 CHR ''c'',
     ei_identity_schema_version = EXPOSURE_IDENTITY_VERSION\<rparr>"

definition paper_v4_fields :: "(string \<times> json) list" where
  "paper_v4_fields = paper_fill_fields @
     [(''exposure_identity'', exposure_payload paper_exposure),
      (''position_action'', JStr ''OPEN_LONG''), (''target_exposure_id'', JNull),
      (''execution_reason_category'', JStr ''STRATEGY''),
      (''execution_reason_code'', JStr ''ENTRY'')]"

definition paper_v4 :: append_result where
  "paper_v4 = \<lparr>ja_record = paper_record ''f1'' FILL_V4 paper_v4_fields, ja_sequence = 2,
     ja_idempotent = False\<rparr>"

definition paper_import :: append_result where
  "paper_import = \<lparr>ja_record = paper_record ''i'' V1_IMPORTED
     [(''account_scope_id'', JStr ''acct''), (''policy_family_id'', JStr ''fam''),
      (''source_starting_cash'', JDec 1000000), (''source_cash'', JDec 1000000),
      (''source_digest'', JStr (replicate 64 CHR ''d'')), (''exposures'', JList [])],
     ja_sequence = 1, ja_idempotent = False\<rparr>"

lemma paper_run:
  "rbind paper_start (\<lambda>p0. rbind (paper_replay paper_sha [paper_import, paper_v4] p0)
     (\<lambda>p. Inr (pp_cash p, held_shares p ''2330'', case pp_exposures p of None \<Rightarrow> False | Some l \<Rightarrow> True))) = Inr (899357, 1000, True)"
  by code_simp

lemma paper_run_ends:
  "\<exists>p0 p. new_projection 1000000 (Some (replicate 64 CHR ''b'')) = Inr p0
     \<and> paper_replay paper_sha [paper_import, paper_v4] p0 = Inr p \<and> pp_cash p = 899357
     \<and> held_shares p ''2330'' = 1000 \<and> pp_exposures p \<noteq> None"
  using paper_run unfolding paper_start_def rbind_Inr_iff by (auto split: option.splits)

lemma paper_run_kinds:
  "list_all (\<lambda>x. \<not> List.member LEGACY_FILLS (jr_kind (ja_record x))) [paper_import, paper_v4]"
  "exposure_fills_after_import [paper_import, paper_v4]"
  by code_simp+

text \<open>The same fill recorded as v3: accepted after the import, and unknown to the exposure ledger.\<close>

definition paper_v3 :: append_result where
  "paper_v3 = \<lparr>ja_record = paper_record ''f1'' FILL_V3 paper_fill_fields, ja_sequence = 2,
     ja_idempotent = False\<rparr>"

lemma v3_fill_after_import:
  "rbind paper_start (\<lambda>p0. rbind (paper_replay paper_sha [paper_import, paper_v3] p0)
     (\<lambda>p. Inr (pp_cash p, held_shares p ''2330'', case pp_exposures p of None \<Rightarrow> (0, 0)
        | Some l \<Rightarrow> (el_cash l, aggregate_quantity l ''2330''))))
   = Inr (899357, 1000, 1000000, 0)"
  by code_simp

theorem projection_stays_solvent_witness:
  "\<exists>p0 p. new_projection 1000000 (Some (replicate 64 CHR ''b'')) = Inr p0
     \<and> paper_replay paper_sha [paper_import, paper_v4] p0 = Inr p \<and> 0 \<le> pp_cash p
     \<and> held_shares p ''2330'' = 1000"
proof -
  obtain p0 p where r: "new_projection 1000000 (Some (replicate 64 CHR ''b'')) = Inr p0"
    "paper_replay paper_sha [paper_import, paper_v4] p0 = Inr p" "held_shares p ''2330'' = 1000"
    using paper_run_ends by blast
  with projection_stays_solvent [OF r(1,2) paper_run_kinds(1)] show ?thesis by blast
qed

theorem positions_are_the_exposures_witness:
  "\<exists>p0 p l. new_projection 1000000 (Some (replicate 64 CHR ''b'')) = Inr p0
     \<and> paper_replay paper_sha [paper_import, paper_v4] p0 = Inr p \<and> pp_exposures p = Some l
     \<and> el_cash l = 899357 \<and> aggregate_quantity l ''2330'' = 1000"
proof -
  obtain p0 p where r: "new_projection 1000000 (Some (replicate 64 CHR ''b'')) = Inr p0"
    "paper_replay paper_sha [paper_import, paper_v4] p0 = Inr p" "pp_cash p = 899357"
    "held_shares p ''2330'' = 1000" "pp_exposures p \<noteq> None"
    using paper_run_ends by blast
  then obtain l where l: "pp_exposures p = Some l" by blast
  have "pp_cash p = el_cash l" "\<forall>s. held_shares p s = aggregate_quantity l s"
    using positions_are_the_exposures [OF r(1,2) paper_run_kinds(2) l] by simp_all
  with r l show ?thesis by metis
qed

end
