(* ===== verification/Local_Paper_Recovery.thy ===== *)
theory Local_Paper_Recovery
  imports Local_Paper_Solvency
begin

text \<open>
  Recovery of Local Paper from its journal (\<open>trading/local_paper.py\<close>): the import manifest built
  from a v1 projection, the replay of a session against its checkpoint, the writing of the
  checkpoint, and the daily baseline. The repository is reached through the operations of the
  locale \<open>checkpoint_repository\<close>, which extends the journal's contract with checkpoints.
\<close>

definition LOCAL_PAPER_PROJECTION_NAME :: string where
  "LOCAL_PAPER_PROJECTION_NAME = ''local_paper.v1''"

definition DAILY_BASELINE_KIND :: string where
  "DAILY_BASELINE_KIND = ''local_paper_daily_baseline.v1''"

definition SESSION_ARCHIVE_KIND :: string where
  "SESSION_ARCHIVE_KIND = ''local_paper_session_archive.v1''"

definition CHECKPOINT_MUTATION_KINDS :: "string list" where
  "CHECKPOINT_MUTATION_KINDS = [FILL_V1, FILL_V2, FILL_V3, FILL_V4, ''local_paper_order_state.v1'',
     ''local_paper_cancel_command.v1'', DAILY_BASELINE_KIND]"

section \<open>The import manifest of a v1 projection\<close>

text \<open>\<open>{position.symbol: position for position in source_projection.positions}\<close>: the last one wins.\<close>

definition active_position :: "paper_projection \<Rightarrow> string \<Rightarrow> paper_position option" where
  "active_position p symbol =
     dget (map (\<lambda>x. (lp_symbol x, x)) (rev (pp_sorted_positions p))) symbol"

definition manifest_symbols :: "paper_projection \<Rightarrow> string list" where
  "manifest_symbols p =
     sort (remdups (map lp_symbol (pp_sorted_positions p) @ map fst (pp_realized_pnl p)))"

definition manifest_identity ::
  "(json \<Rightarrow> string) \<Rightarrow> string \<Rightarrow> string \<Rightarrow> string \<Rightarrow> paper_projection \<Rightarrow> string
     \<Rightarrow> exposure_identity res" where
  "manifest_identity sha account family session p symbol =
     (let pos = active_position p symbol;
          origin = (case pos of None \<Rightarrow> ''MANUAL_WEB'' | Some x \<Rightarrow> lp_owner_origin x);
          owner = (case pos of None \<Rightarrow> ''manual-web''
                   | Some x \<Rightarrow> (case lp_owner_strategy_id x of None \<Rightarrow> ''manual-web'' | Some s \<Rightarrow> s))
      in build_legacy_exposure_identity sha account family session symbol origin owner)"

definition manifest_entry ::
  "(json \<Rightarrow> string) \<Rightarrow> string \<Rightarrow> string \<Rightarrow> string \<Rightarrow> paper_projection \<Rightarrow> string \<Rightarrow> json res" where
  "manifest_entry sha account family session p symbol =
     rbind (manifest_identity sha account family session p symbol) (\<lambda>e.
       let pos = active_position p symbol
       in Inr (JObj
           [(''exposure_identity'', exposure_payload e), (''symbol'', JStr symbol),
            (''name'', JStr (case pos of None \<Rightarrow> symbol | Some x \<Rightarrow> lp_name x)),
            (''quantity_shares'', JInt (case pos of None \<Rightarrow> 0 | Some x \<Rightarrow> lp_quantity_shares x)),
            (''average_price'', JDec (case pos of None \<Rightarrow> 0 | Some x \<Rightarrow> lp_average_price x)),
            (''commission_cost'', JDec (case pos of None \<Rightarrow> 0 | Some x \<Rightarrow> lp_commission_cost x)),
            (''realized_pnl'', JDec (pp_realized p symbol))]))"

definition build_import_record ::
  "(json \<Rightarrow> string) \<Rightarrow> paper_projection \<Rightarrow> string \<Rightarrow> string \<Rightarrow> string \<Rightarrow> string \<Rightarrow> datetime
     \<Rightarrow> journal_record res" where
  "build_import_record sha p source target account family t =
     rbind (rmap (manifest_entry sha account family source p) (manifest_symbols p)) (\<lambda>exposures.
     mk_journal_record
       \<lparr>jr_record_id = ''local-paper-v1-imported:'' @ source, jr_session_id = target,
        jr_kind = V1_IMPORTED, jr_occurred_at = t,
        jr_payload =
          [(''source_session_id'', JStr source),
           (''source_terminal_sequence'', JInt (pp_last_sequence p)),
           (''source_digest'', JStr (projection_digest sha p)),
           (''source_starting_cash'', JDec (pp_starting_cash p)),
           (''source_cash'', JDec (pp_cash p)), (''account_scope_id'', JStr account),
           (''policy_family_id'', JStr family), (''exposures'', JList exposures)],
        jr_idempotency_scope = Some (target @ '':v1-import-manifest''),
        jr_idempotency_key = Some source, jr_schema_version = JOURNAL_SCHEMA_VERSION\<rparr>)"

section \<open>Baselines and archives\<close>

definition positive_finite :: "py_decimal \<Rightarrow> string \<Rightarrow> unit res" where
  "positive_finite v msg =
     (case v of Fin x \<Rightarrow> if x \<le> 0 then Inl (ValueError msg) else Inr ()
      | Infinite neg \<Rightarrow> Inl (ValueError msg) | NotANumber \<Rightarrow> Inl InvalidOperation)"

definition daily_baseline_record ::
  "string \<Rightarrow> int \<Rightarrow> py_decimal \<Rightarrow> py_decimal \<Rightarrow> datetime \<Rightarrow> journal_record res" where
  "daily_baseline_record session day equity realized t =
     rbind (positive_finite equity ''opening_equity must be a positive finite value'') (\<lambda>_.
     if \<not> is_fin realized then Inl (ValueError ''opening_realized_pnl must be finite'')
     else mk_journal_record
       \<lparr>jr_record_id = ''local-paper-daily-baseline:'' @ date_iso day, jr_session_id = session,
        jr_kind = DAILY_BASELINE_KIND, jr_occurred_at = t,
        jr_payload = [(''trading_date'', JDate day), (''opening_equity'', JDec (fin_value equity)),
          (''opening_realized_pnl'', JDec (fin_value realized)),
          (''includes_unrealized_pnl'', JBool True)],
        jr_idempotency_scope = Some (session @ '':local-paper-daily-baseline''),
        jr_idempotency_key = Some (date_iso day), jr_schema_version = JOURNAL_SCHEMA_VERSION\<rparr>)"

definition session_archive_record ::
  "string \<Rightarrow> string \<Rightarrow> string \<Rightarrow> int \<Rightarrow> int \<Rightarrow> datetime \<Rightarrow> journal_record res" where
  "session_archive_record session replacement digest orders positions t =
     (let r = py_strip replacement; d = py_lower (py_strip digest)
      in rbind (require_all
           [(r \<noteq> [], ''replacement_session_id must not be empty''),
            (0 \<le> orders \<and> 0 \<le> positions, ''archive counts must not be negative''),
            (length d = 64 \<and> hex_text d, ''replacement_settings_digest must be SHA-256'')]) (\<lambda>_.
         mk_journal_record
           \<lparr>jr_record_id = ''local-paper-session-archive:'' @ r, jr_session_id = session,
            jr_kind = SESSION_ARCHIVE_KIND, jr_occurred_at = t,
            jr_payload = [(''status'', JStr ''ARCHIVED''), (''replacement_session_id'', JStr r),
              (''replacement_settings_digest'', JStr d), (''active_order_count'', JInt orders),
              (''position_count'', JInt positions)],
            jr_idempotency_scope = Some (session @ '':local-paper-session-archive''),
            jr_idempotency_key = Some r, jr_schema_version = JOURNAL_SCHEMA_VERSION\<rparr>))"

text \<open>
  Reading a baseline back. The \<open>try\<close> covers the conversions only: ordering a NaN opening equity
  raises \<open>InvalidOperation\<close> itself.
\<close>

definition read_baseline :: "(string \<times> json) list \<Rightarrow> unit res" where
  "read_baseline p =
     rbind (recover ''daily baseline record is invalid''
       (rbind (rbind (field_text p ''trading_date'') (\<lambda>s. case parse_date s of
           None \<Rightarrow> Inl (ValueError ''Invalid isoformat string'') | Some d \<Rightarrow> Inr d)) (\<lambda>_.
        rbind (field_decimal p ''opening_equity'') (\<lambda>equity.
        rbind (field_decimal p ''opening_realized_pnl'') (\<lambda>realized. Inr (equity, realized))))))
     (\<lambda>(equity, realized).
       case positive_finite equity [] of
         Inl (ValueError m) \<Rightarrow> Inl (recovery_error ''daily baseline opening equity is invalid'')
       | Inl e \<Rightarrow> Inl e
       | Inr _ \<Rightarrow> require_recovery
           [(is_fin realized, ''daily baseline realized PnL is invalid''),
            (jfield_or p ''includes_unrealized_pnl'' JNull = JBool True,
             ''daily baseline PnL policy is not frozen'')])"

fun latest_baseline ::
  "append_result list \<Rightarrow> (string \<times> json) list option \<Rightarrow> (string \<times> json) list option res" where
  "latest_baseline [] latest = Inr latest"
| "latest_baseline (x # xs) latest =
     (if jr_kind (ja_record x) \<noteq> DAILY_BASELINE_KIND then latest_baseline xs latest
      else (case read_baseline (jr_payload (ja_record x)) of Inl e \<Rightarrow> Inl e
            | Inr _ \<Rightarrow> latest_baseline xs (Some (jr_payload (ja_record x)))))"

definition latest_daily_baseline ::
  "'j journal_ops \<Rightarrow> 'j \<Rightarrow> string \<Rightarrow> (string \<times> json) list option res" where
  "latest_daily_baseline ops j session =
     rbind (jo_records ops j session) (\<lambda>xs. latest_baseline xs None)"

section \<open>Replaying against a checkpoint\<close>

record 'j checkpoint_ops =
  co_save :: "'j \<Rightarrow> projection_checkpoint \<Rightarrow> unit res \<times> 'j"
  co_latest :: "'j \<Rightarrow> string \<Rightarrow> string \<Rightarrow> projection_checkpoint option res"

text \<open>The loop of a replay: the projection, the digest at the checkpoint, an uncovered mutation.\<close>

fun rebuild_loop ::
  "(json \<Rightarrow> string) \<Rightarrow> projection_checkpoint option \<Rightarrow> append_result list
     \<Rightarrow> paper_projection \<times> string option \<times> bool \<Rightarrow> (paper_projection \<times> string option \<times> bool) res" where
  "rebuild_loop sha c [] st = Inr st"
| "rebuild_loop sha c (x # xs) (p, digest, uncovered) =
     (case paper_apply sha x p of (Inl e, _) \<Rightarrow> Inl e
      | (Inr _, p1) \<Rightarrow> rebuild_loop sha c xs
          (case c of None \<Rightarrow> (p1, digest, uncovered)
           | Some cp \<Rightarrow>
               if ja_sequence x = pc_journal_sequence cp then (p1, Some (projection_digest sha p1), uncovered)
               else if ja_sequence x > pc_journal_sequence cp
                 \<and> List.member CHECKPOINT_MUTATION_KINDS (jr_kind (ja_record x))
               then (p1, digest, True) else (p1, digest, uncovered)))"

definition check_checkpoint ::
  "bool \<Rightarrow> projection_checkpoint option \<Rightarrow> string option \<Rightarrow> bool \<Rightarrow> unit res" where
  "check_checkpoint required c digest uncovered =
     (case c of None \<Rightarrow> Inr ()
      | Some cp \<Rightarrow> require_recovery
          [(digest \<noteq> None, ''checkpoint sequence is absent from Journal''),
           (digest = Some (pc_digest cp), ''local-paper checkpoint digest mismatch''),
           (\<not> (required \<and> uncovered), ''local-paper checkpoint does not cover Journal tail'')])"

definition rebuild_projection ::
  "(json \<Rightarrow> string) \<Rightarrow> 'j journal_ops \<Rightarrow> 'j checkpoint_ops \<Rightarrow> 'j \<Rightarrow> string \<Rightarrow> rat \<Rightarrow> string option \<Rightarrow> bool
     \<Rightarrow> paper_projection res" where
  "rebuild_projection sha ops cops j session cash settings required =
     rbind (co_latest cops j session LOCAL_PAPER_PROJECTION_NAME) (\<lambda>c.
     if required \<and> c = None
     then Inl (recovery_error ''local-paper recovery requires a checkpoint'')
     else
     rbind (new_projection cash settings) (\<lambda>p0.
     let digest = (case c of None \<Rightarrow> None
           | Some cp \<Rightarrow> if pc_journal_sequence cp = 0 then Some (projection_digest sha p0) else None)
     in rbind (jo_records ops j session) (\<lambda>xs.
        rbind (rebuild_loop sha c xs (p0, digest, False)) (\<lambda>(p, d, uncovered).
        rbind (check_checkpoint required c d uncovered) (\<lambda>_. Inr p)))))"

definition resolve_settings ::
  "'j journal_ops \<Rightarrow> 'j \<Rightarrow> string \<Rightarrow> string option \<Rightarrow> string option res" where
  "resolve_settings ops j session settings =
     (case settings of Some d \<Rightarrow> Inr (Some d)
      | None \<Rightarrow> rbind (jo_session ops j session) (\<lambda>s. Inr (case s of
          None \<Rightarrow> None
        | Some x \<Rightarrow>
            if jfield_or (js_metadata x) ''settings_schema'' JNull = JNull then None
            else let v = jfield_or (js_metadata x) ''settings_digest'' JNull
                 in Some (if truthy v then py_str v else []))))"

definition paper_checkpoint :: "(json \<Rightarrow> string) \<Rightarrow> string \<Rightarrow> paper_projection \<Rightarrow> projection_checkpoint" where
  "paper_checkpoint sha session p = \<lparr>pc_session_id = session,
     pc_projection_name = LOCAL_PAPER_PROJECTION_NAME, pc_journal_sequence = pp_last_sequence p,
     pc_digest = projection_digest sha p, pc_schema_version = JOURNAL_SCHEMA_VERSION\<rparr>"

definition write_checkpoint ::
  "(json \<Rightarrow> string) \<Rightarrow> 'j journal_ops \<Rightarrow> 'j checkpoint_ops \<Rightarrow> 'j \<Rightarrow> string \<Rightarrow> rat \<Rightarrow> string option
     \<Rightarrow> paper_projection res \<times> 'j" where
  "write_checkpoint sha ops cops j session cash settings =
     (case rbind (resolve_settings ops j session settings) (\<lambda>resolved.
          rbind (rebuild_projection sha ops cops j session cash resolved False) (\<lambda>p.
          rbind (checkpoint_post_init (paper_checkpoint sha session p)) (\<lambda>_. Inr p))) of
        Inl e \<Rightarrow> (Inl e, j)
      | Inr p \<Rightarrow> (case co_save cops j (paper_checkpoint sha session p) of
          (Inl e, j1) \<Rightarrow> (Inl e, j1) | (Inr _, j1) \<Rightarrow> (Inr p, j1)))"

section \<open>The contract of a repository with checkpoints\<close>

text \<open>
  Beyond the journal's laws: a checkpoint is read back as saved, saving one that advances (or
  repeats) changes nothing else, and one that would move backward is refused.
\<close>

locale checkpoint_repository = journal_repository ops fp inv view started
  for ops :: "'j journal_ops" and fp :: "journal_record \<Rightarrow> string" and inv :: "'j \<Rightarrow> bool"
    and view :: "'j \<Rightarrow> string \<Rightarrow> append_result list"
    and started :: "'j \<Rightarrow> string \<Rightarrow> journal_session option" +
  fixes cops :: "'j checkpoint_ops"
    and saved :: "'j \<Rightarrow> string \<times> string \<Rightarrow> projection_checkpoint option"
  assumes latest_returns: "inv j \<Longrightarrow> co_latest cops j s n = Inr (saved j (s, n))"
    and save_advances: "inv j \<Longrightarrow>
      (\<And>old. saved j (pc_session_id c, pc_projection_name c) = Some old \<Longrightarrow>
         pc_journal_sequence old < pc_journal_sequence c \<or> old = c) \<Longrightarrow>
      \<exists>j'. co_save cops j c = (Inr (), j') \<and> inv j'
        \<and> saved j' = (saved j)((pc_session_id c, pc_projection_name c) := Some c)
        \<and> view j' = view j \<and> started j' = started j"
    and save_refuses: "inv j \<Longrightarrow> saved j (pc_session_id c, pc_projection_name c) = Some old \<Longrightarrow>
      pc_journal_sequence c \<le> pc_journal_sequence old \<Longrightarrow> c \<noteq> old \<Longrightarrow>
      \<exists>e. co_save cops j c = (Inl e, j)"

lemma paper_apply_sequence: "paper_apply sha x p = (Inr u, p1) \<Longrightarrow> pp_last_sequence p1 = ja_sequence x"
  using paper_apply_cases by fastforce

lemma rebuild_loop_step:
  assumes "rebuild_loop sha c (x # xs) (p0, d, u) = Inr (p, d', u')"
  shows "\<exists>p1 d1 u1. paper_apply sha x p0 = (Inr (), p1) \<and> rebuild_loop sha c xs (p1, d1, u1) = Inr (p, d', u')"
proof -
  obtain r1 p1 where e: "paper_apply sha x p0 = (r1, p1)" by fastforce
  then show ?thesis using assms by (cases r1) (auto split: option.splits if_splits)
qed

lemma rebuild_loop_last:
  "rebuild_loop sha c xs (p0, d, u) = Inr (p, d', u') \<Longrightarrow>
     pp_last_sequence p = last (pp_last_sequence p0 # map ja_sequence xs)"
proof (induction xs arbitrary: p0 d u)
  case (Cons x xs)
  obtain p1 d1 u1 where a: "paper_apply sha x p0 = (Inr (), p1)"
    and r: "rebuild_loop sha c xs (p1, d1, u1) = Inr (p, d', u')"
    using rebuild_loop_step [OF Cons.prems] by blast
  show ?case using Cons.IH [OF r] paper_apply_sequence [OF a] by simp
qed simp

text \<open>Replaying to a checkpoint at the last record finds its digest and nothing uncovered.\<close>

lemma rebuild_loop_covered:
  "rebuild_loop sha c xs (p0, d, u) = Inr (p, d', u') \<Longrightarrow>
     sorted_wrt (<) (pp_last_sequence p0 # map ja_sequence xs) \<Longrightarrow>
     pc_journal_sequence cp = pp_last_sequence p \<Longrightarrow>
     rebuild_loop sha (Some cp) xs (p0, d0, False)
       = Inr (p, if xs = [] then d0 else Some (projection_digest sha p), False)"
proof (induction xs arbitrary: p0 d u)
  case (Cons x xs)
  obtain p1 d1 u1 where a: "paper_apply sha x p0 = (Inr (), p1)"
    and r: "rebuild_loop sha c xs (p1, d1, u1) = Inr (p, d', u')"
    using rebuild_loop_step [OF Cons.prems(1)] by blast
  have s: "pp_last_sequence p1 = ja_sequence x" by (rule paper_apply_sequence [OF a])
  have sorted: "sorted_wrt (<) (pp_last_sequence p1 # map ja_sequence xs)"
    using Cons.prems(2) s by simp
  note IH = Cons.IH [OF r sorted Cons.prems(3)]
  show ?case
  proof (cases "xs = []")
    case True
    then have "p = p1" using r by simp
    then show ?thesis using a s True Cons.prems(3) by simp
  next
    case False
    have "pp_last_sequence p = ja_sequence (last xs)"
      using rebuild_loop_last [OF r] False by (simp add: last_map)
    moreover have "ja_sequence x < ja_sequence (last xs)"
      using Cons.prems(2) False by simp
    ultimately show ?thesis using a IH False Cons.prems(3) by simp
  qed
qed simp

context checkpoint_repository
begin

lemma saved_what_was_written:
  assumes "inv j" and "co_save cops j c = (Inr u, j')"
  shows "inv j' \<and> saved j' (pc_session_id c, pc_projection_name c) = Some c \<and> view j' = view j
    \<and> started j' = started j"
proof -
  let ?key = "(pc_session_id c, pc_projection_name c)"
  have "pc_journal_sequence old < pc_journal_sequence c \<or> old = c" if "saved j ?key = Some old" for old
    using save_refuses [OF assms(1) that] assms(2) by fastforce
  then obtain j1 where "co_save cops j c = (Inr (), j1)" "inv j1"
    "saved j1 = (saved j)(?key := Some c)" "view j1 = view j" "started j1 = started j"
    using save_advances [OF assms(1), of c] by blast
  with assms(2) show ?thesis by simp
qed

lemma rebuild_parts:
  assumes "inv j" and "rebuild_projection sha ops cops j session cash settings required = Inr p"
  shows "\<exists>p0 c d d' u. new_projection cash settings = Inr p0
    \<and> rebuild_loop sha c (view j session) (p0, d, False) = Inr (p, d', u)"
  using assms unfolding rebuild_projection_def Let_def
  by (auto simp: latest_returns records_return rbind_Inr_iff split: if_splits) blast+

lemma write_then_rebuild:
  assumes "inv j" and "resolve_settings ops j session settings = Inr resolved"
    and "write_checkpoint sha ops cops j session cash settings = (Inr p, j')"
  shows "rebuild_projection sha ops cops j' session cash resolved True = Inr p"
proof -
  let ?c = "paper_checkpoint sha session p"
  have built: "rebuild_projection sha ops cops j session cash resolved False = Inr p"
    and save: "co_save cops j ?c = (Inr (), j')"
    using assms(2,3) unfolding write_checkpoint_def
    by (auto simp: rbind_Inr_iff split: sum.splits prod.splits)
  obtain p0 c d d' u where p0: "new_projection cash resolved = Inr p0"
    and loop: "rebuild_loop sha c (view j session) (p0, d, False) = Inr (p, d', u)"
    using rebuild_parts [OF assms(1) built] by blast
  have j': "inv j'" "saved j' (session, LOCAL_PAPER_PROJECTION_NAME) = Some ?c" "view j' = view j"
    using saved_what_was_written [OF assms(1) save] by (simp_all add: paper_checkpoint_def)
  have zero: "pp_last_sequence p0 = 0"
    using p0 by (auto simp: new_projection_def split: if_splits)
  have cover: "rebuild_loop sha (Some ?c) (view j session) (p0, d0, False)
      = Inr (p, if view j session = [] then d0 else Some (projection_digest sha p), False)" for d0
    by (rule rebuild_loop_covered [OF loop])
      (use increasing [OF assms(1), of session] in \<open>simp_all add: zero paper_checkpoint_def\<close>)
  have empty: "p = p0" if "view j session = []" using loop that by simp
  show ?thesis
    unfolding rebuild_projection_def
    by (simp add: latest_returns [OF j'(1)] records_return [OF j'(1)] j'(2,3) p0 cover)
      (auto simp: check_checkpoint_def paper_checkpoint_def empty zero)
qed

end

section \<open>The in-memory repository\<close>

definition mem_checkpoint_ops :: "memory_journal checkpoint_ops" where
  "mem_checkpoint_ops = \<lparr>co_save = mem_save_checkpoint,
     co_latest = (\<lambda>j s n. Inr (mem_latest_checkpoint j s n))\<rparr>"

definition mem_saved :: "memory_journal \<Rightarrow> string \<times> string \<Rightarrow> projection_checkpoint option" where
  "mem_saved j k = dget (mj_checkpoints j) k"

lemma checkpoint_frame:
  "mem_inv (j\<lparr>mj_checkpoints := d\<rparr>) = mem_inv j" "mem_view (j\<lparr>mj_checkpoints := d\<rparr>) = mem_view j"
  "mem_session (j\<lparr>mj_checkpoints := d\<rparr>) = mem_session j"
  by (auto simp: mem_inv_def mem_view_def mem_session_def fun_eq_iff)

interpretation mem_checkpoints: checkpoint_repository "mem_ops sha" "jr_fingerprint sha" mem_inv
    mem_view mem_session mem_checkpoint_ops mem_saved
proof
  fix j s n
  assume "mem_inv j"
  show "co_latest mem_checkpoint_ops j s n = Inr (mem_saved j (s, n))"
    by (simp add: mem_checkpoint_ops_def mem_latest_checkpoint_def mem_saved_def)
next
  fix j c
  assume j: "mem_inv j" and step: "\<And>old. mem_saved j (pc_session_id c, pc_projection_name c) = Some old \<Longrightarrow>
      pc_journal_sequence old < pc_journal_sequence c \<or> old = c"
  let ?key = "(pc_session_id c, pc_projection_name c)"
  have keep: "mem_saved (j\<lparr>mj_checkpoints := dset ?key c (mj_checkpoints j)\<rparr>) = (mem_saved j)(?key := Some c)"
    by (simp add: mem_saved_def fun_eq_iff)
  show "\<exists>j'. co_save mem_checkpoint_ops j c = (Inr (), j') \<and> mem_inv j'
      \<and> mem_saved j' = (mem_saved j)(?key := Some c) \<and> mem_view j' = mem_view j
      \<and> mem_session j' = mem_session j"
  proof (cases "mem_saved j ?key = Some c")
    case True
    then have "co_save mem_checkpoint_ops j c = (Inr (), j)"
      by (simp add: mem_checkpoint_ops_def mem_save_checkpoint_def Let_def mem_saved_def)
    moreover have "mem_saved j = (mem_saved j)(?key := Some c)" using True by (simp add: fun_upd_idem)
    ultimately show ?thesis using j by auto
  next
    case False
    then have "co_save mem_checkpoint_ops j c = (Inr (), j\<lparr>mj_checkpoints := dset ?key c (mj_checkpoints j)\<rparr>)"
      using step by (auto simp: mem_checkpoint_ops_def mem_save_checkpoint_def Let_def mem_saved_def
          split: option.splits)
    then show ?thesis using j keep by (auto simp: checkpoint_frame)
  qed
next
  fix j c old
  assume "mem_inv j" and "mem_saved j (pc_session_id c, pc_projection_name c) = Some old"
    and "pc_journal_sequence c \<le> pc_journal_sequence old" and "c \<noteq> old"
  then show "\<exists>e. co_save mem_checkpoint_ops j c = (Inl e, j)"
    by (simp add: mem_checkpoint_ops_def mem_save_checkpoint_def Let_def mem_saved_def)
qed

section \<open>Properties\<close>

section \<open>The import of a book that holds positions\<close>

text \<open>Reading back what \<open>JournalRecord\<close> froze: canonical form keeps every field.\<close>

lemma map_of_filter: "map_of ms k = map_option snd (List.find (\<lambda>m. fst m = k) ms)"
  by (induction ms) auto

lemma find_filter: "List.find P xs = (case filter P xs of [] \<Rightarrow> None | x # _ \<Rightarrow> Some x)"
  by (induction xs) auto

lemma map_of_sort_key: "map_of (sort_key fst ms) k = map_of ms k"
  by (simp add: map_of_filter find_filter sort_key_stable)

lemma map_of_canonical: "map_of (canonical_members ms) k = map_option canonical_json (map_of ms k)"
  unfolding canonical_members_def map_of_sort_key by (induction ms) auto

lemma canonical_JObj: "canonical_json (JObj ms) = JObj (canonical_members ms)"
  by (simp add: canonical_members_def)

lemma list_all_canonical: "list_all (\<lambda>m. P (fst m)) (canonical_members ms) = list_all (\<lambda>m. P (fst m)) ms"
  by (simp add: canonical_members_def list_all_iff)

lemma canonical_jopt_date [simp]: "canonical_json (jopt JDate d) = jopt JDate d"
  by (cases d) (simp_all add: jopt_def)

lemma exposure_canonical_roundtrip:
  assumes "exposure_post_init x = Inr ()"
  shows "exposure_from_payload (canonical_members (exposure_fields x)) = Inr x"
proof -
  have keys: "list_all (\<lambda>m. List.member EXPOSURE_FIELDS (fst m)) (canonical_members (exposure_fields x))"
    unfolding list_all_canonical by (simp add: exposure_fields_def exposure_payload_def EXPOSURE_FIELDS_def)
  then have known: "\<not> \<not> list_all (\<lambda>m. List.member EXPOSURE_FIELDS (fst m))
      (canonical_members (exposure_fields x))" by simp
  show ?thesis
    unfolding exposure_from_payload_def if_not_P [OF known] using assms
    by (cases x) (simp add: map_of_canonical text_at_def text_of_def mk_exposure_def
        exposure_fields_def exposure_payload_def EXPOSURE_FIELDS_def)
qed

lemma exposure_payload_fields: "exposure_payload x = JObj (exposure_fields x)"
  by (simp add: exposure_payload_def exposure_fields_def)

lemma legacy_identity_Inr:
  assumes "build_legacy_exposure_identity sha a f ses sy og ow = Inr x"
  shows "exposure_post_init x = Inr ()" and "ei_account_scope_id x = a" and "ei_policy_family_id x = f"
    and "ei_holding_horizon x = UNCLASSIFIED_LEGACY"
  using assms
  by (auto simp: build_legacy_exposure_identity_def mk_exposure_def Let_def res_simps)

lemma manifest_identity_Inr:
  assumes "manifest_identity sha a f ses p s = Inr x"
  shows "exposure_post_init x = Inr ()" and "ei_account_scope_id x = a" and "ei_policy_family_id x = f"
    and "ei_holding_horizon x = UNCLASSIFIED_LEGACY"
  by (rule legacy_identity_Inr [OF assms [unfolded manifest_identity_def Let_def]])+

text \<open>What the reducer reads back from the entry of a symbol.\<close>

definition legacy_of :: "paper_projection \<Rightarrow> string \<Rightarrow> exposure_identity \<Rightarrow> legacy_exposure" where
  "legacy_of p s e = (let pos = active_position p s in
     \<lparr>im_exposure = e, im_symbol = s, im_name = (case pos of None \<Rightarrow> s | Some x \<Rightarrow> lp_name x),
      im_quantity = (case pos of None \<Rightarrow> 0 | Some x \<Rightarrow> lp_quantity_shares x),
      im_average_price = Fin (case pos of None \<Rightarrow> 0 | Some x \<Rightarrow> lp_average_price x),
      im_commission_cost = Fin (case pos of None \<Rightarrow> 0 | Some x \<Rightarrow> lp_commission_cost x),
      im_realized = Fin (pp_realized p s)\<rparr>)"

lemma manifest_entry_reads:
  assumes "manifest_entry sha a f ses p s = Inr j" and "manifest_identity sha a f ses p s = Inr e"
  shows "read_import_entry (canonical_json j) = Inr (legacy_of p s e)"
proof -
  have r: "exposure_from_payload (canonical_members (exposure_fields e)) = Inr e"
    by (rule exposure_canonical_roundtrip [OF manifest_identity_Inr(1) [OF assms(2)]])
  have j: "j = JObj
       [(''exposure_identity'', JObj (exposure_fields e)), (''symbol'', JStr s),
        (''name'', JStr (im_name (legacy_of p s e))),
        (''quantity_shares'', JInt (im_quantity (legacy_of p s e))),
        (''average_price'', JDec (fin_value (im_average_price (legacy_of p s e)))),
        (''commission_cost'', JDec (fin_value (im_commission_cost (legacy_of p s e)))),
        (''realized_pnl'', JDec (pp_realized p s))]"
    using assms by (simp add: manifest_entry_def Let_def legacy_of_def exposure_payload_fields fin_value_def)
  show ?thesis unfolding j canonical_JObj read_import_entry_def json.case recover_Inr
    by (simp add: map_of_canonical jfield_def jfield_or_def field_text_def field_decimal_def
        canonical_JObj r py_str_def text_of_def json_int_def json_decimal_def
        legacy_of_def Let_def fin_value_def del: canonical_json.simps(1))
qed

text \<open>Positions as fills leave them: shares held, no negative price and no negative cost.\<close>

definition importable :: "paper_projection \<Rightarrow> bool" where
  "importable p \<longleftrightarrow> (\<forall>x \<in> snd ` set (pp_positions p).
     0 < lp_quantity_shares x \<and> 0 \<le> lp_average_price x \<and> 0 \<le> lp_commission_cost x)"

lemma active_position_Some:
  assumes "active_position p s = Some x"
  shows "x \<in> snd ` set (pp_positions p)" and "lp_symbol x = s"
proof -
  have "(s, x) \<in> set (map (\<lambda>x. (lp_symbol x, x)) (rev (pp_sorted_positions p)))"
    using assms unfolding active_position_def by (rule map_of_SomeD)
  then show "x \<in> snd ` set (pp_positions p)" and "lp_symbol x = s"
    by (auto simp: pp_sorted_positions_def)
qed

lemma active_position_held:
  "x \<in> snd ` set (pp_positions p) \<Longrightarrow> active_position p (lp_symbol x) \<noteq> None"
  unfolding active_position_def map_of_eq_None_iff by (auto simp: pp_sorted_positions_def image_image)

lemma legacy_quantity: "importable p \<Longrightarrow> active_position p s \<noteq> None \<Longrightarrow> 0 < im_quantity (legacy_of p s e)"
  using active_position_Some(1) [of p s] by (auto simp: legacy_of_def Let_def importable_def)

lemma legacy_checks:
  assumes "importable p" and "ei_holding_horizon e = UNCLASSIFIED_LEGACY"
  shows "check_import_entry (legacy_of p s e) = Inr ()"
proof (cases "active_position p s")
  case None
  then show ?thesis using assms(2)
    by (simp add: check_import_entry_def legacy_of_def no_overnight_managed_def below_def is_fin_def Let_def)
next
  case (Some x)
  then have "0 < lp_quantity_shares x" "0 \<le> lp_average_price x" "0 \<le> lp_commission_cost x"
    using assms(1) active_position_Some(1) [OF Some] by (auto simp: importable_def)
  then show ?thesis using assms(2) Some
    by (simp add: check_import_entry_def legacy_of_def no_overnight_managed_def below_def is_fin_def
        Let_def not_less)
qed

text \<open>The names an imported exposure must not meet: it is registered for the first time.\<close>

definition fresh :: "exposure_ledger \<Rightarrow> string \<Rightarrow> bool" where
  "fresh l k \<longleftrightarrow> dget (el_identities l) k = None \<and> dget (el_symbols l) k = None
     \<and> dget (el_names l) k = None \<and> dget (el_strategy_versions l) k = None"

lemma import_entry_step:
  assumes "read_import_entry raw = Inr i" and "check_import_entry i = Inr ()"
    and "ei_account_scope_id (im_exposure i) = el_account_scope_id l"
    and "ei_policy_family_id (im_exposure i) = el_policy_family_id l"
    and "fresh l (ei_exposure_id (im_exposure i))"
  shows "\<exists>l1. import_entry raw l = (Inr (), l1)
    \<and> el_account_scope_id l1 = el_account_scope_id l \<and> el_policy_family_id l1 = el_policy_family_id l
    \<and> (\<forall>k. k \<noteq> ei_exposure_id (im_exposure i) \<longrightarrow> fresh l1 k = fresh l k)
    \<and> (el_positions l1 = [] \<longleftrightarrow> el_positions l = [] \<and> im_quantity i \<le> 0)"
proof -
  have ne: "dset k v d \<noteq> []" for k v and d :: "(string, exposure_position) dict"
    by (cases d) auto
  show ?thesis
    using assms
    by (simp add: import_entry_def register_identity_def fresh_def dget_or_def ne Let_def)
qed

lemma import_manifest:
  assumes "rmap (manifest_entry sha a f ses p) ss = Inr js"
    and "rmap (manifest_identity sha a f ses p) ss = Inr es"
    and "importable p" and "distinct (map ei_exposure_id es)"
    and "\<forall>e \<in> set es. fresh l (ei_exposure_id e)"
    and "el_account_scope_id l = a" and "el_policy_family_id l = f"
  shows "\<exists>l1. import_entries (map canonical_json js) l = (Inr (), l1)
    \<and> (el_positions l \<noteq> [] \<or> (\<exists>s \<in> set ss. active_position p s \<noteq> None) \<longrightarrow> el_positions l1 \<noteq> [])"
  using assms
proof (induction ss arbitrary: js es l)
  case (Cons s ss)
  obtain j js' where j: "manifest_entry sha a f ses p s = Inr j"
    "rmap (manifest_entry sha a f ses p) ss = Inr js'" "js = j # js'"
    using Cons.prems(1) by (auto split: sum.splits)
  obtain e es' where e: "manifest_identity sha a f ses p s = Inr e"
    "rmap (manifest_identity sha a f ses p) ss = Inr es'" "es = e # es'"
    using Cons.prems(2) by (auto split: sum.splits)
  let ?i = "legacy_of p s e"
  have i: "im_exposure ?i = e" by (simp add: legacy_of_def Let_def)
  note ids = manifest_identity_Inr [OF e(1)]
  obtain l1 where l1: "import_entry (canonical_json j) l = (Inr (), l1)"
    "el_account_scope_id l1 = a" "el_policy_family_id l1 = f"
    "\<forall>k. k \<noteq> ei_exposure_id e \<longrightarrow> fresh l1 k = fresh l k"
    "el_positions l1 = [] \<longleftrightarrow> el_positions l = [] \<and> im_quantity ?i \<le> 0"
    using import_entry_step [OF manifest_entry_reads [OF j(1) e(1)]
        legacy_checks [OF Cons.prems(3) ids(4)], of l] Cons.prems(5-7) ids e(3)
    by (auto simp: i)
  have "\<forall>e' \<in> set es'. fresh l1 (ei_exposure_id e')"
    using Cons.prems(4,5) l1(4) unfolding e(3) by (auto simp: image_iff)
  from Cons.IH [OF j(2) e(2) Cons.prems(3) _ this l1(2,3)] Cons.prems(4)
  obtain l2 where "import_entries (map canonical_json js') l1 = (Inr (), l2)"
    "el_positions l1 \<noteq> [] \<or> (\<exists>s \<in> set ss. active_position p s \<noteq> None) \<longrightarrow> el_positions l2 \<noteq> []"
    unfolding e(3) by auto
  moreover have "el_positions l1 \<noteq> []" if "el_positions l \<noteq> [] \<or> active_position p s \<noteq> None"
    using that l1(5) legacy_quantity [OF Cons.prems(3), of s e] by auto
  ultimately show ?case using l1(1) j(3) by auto
qed auto

lemma mk_journal_record_payload:
  "mk_journal_record r = Inr r' \<Longrightarrow> r' = r\<lparr>jr_payload := canonical_members (jr_payload r)\<rparr>"
  by (auto simp: mk_journal_record_def split: sum.splits if_splits)

lemma import_record_applies:
  assumes "build_import_record sha p source target account family t = Inr r"
    and "rmap (manifest_identity sha account family source p) (manifest_symbols p) = Inr es"
    and "distinct (map ei_exposure_id es)" and "importable p" and "0 \<le> pp_cash p"
    and "new_exposure_ledger (pp_starting_cash p) account family settings = Inr l"
    and "length (projection_digest sha p) = 64" and "pp_positions p \<noteq> []"
  shows "\<exists>l1. apply_import r l = (Inr (), l1) \<and> ledger_ok l1 \<and> el_cash l1 = pp_cash p
    \<and> el_positions l1 \<noteq> []"
proof -
  obtain js where js: "rmap (manifest_entry sha account family source p) (manifest_symbols p) = Inr js"
    and payload: "jr_payload r = canonical_members
          [(''source_session_id'', JStr source),
           (''source_terminal_sequence'', JInt (pp_last_sequence p)),
           (''source_digest'', JStr (projection_digest sha p)),
           (''source_starting_cash'', JDec (pp_starting_cash p)),
           (''source_cash'', JDec (pp_cash p)), (''account_scope_id'', JStr account),
           (''policy_family_id'', JStr family), (''exposures'', JList js)]"
    using assms(1) by (auto simp: build_import_record_def rbind_Inr_iff dest!: mk_journal_record_payload)
  have l: "el_starting_cash l = pp_starting_cash p" "el_account_scope_id l = account"
    "el_policy_family_id l = family" "el_identities l = []" "el_import_source_digest l = None"
    "fresh l k" for k
    using assms(6) by (auto simp: new_exposure_ledger_def rbind_Inr_iff fresh_def split: if_splits)
  have m: "read_manifest (jr_payload r) l
      = Inr (Fin (pp_cash p), projection_digest sha p, map canonical_json js)"
    unfolding payload read_manifest_def recover_Inr
    by (simp add: field_text_def field_decimal_def jfield_def map_of_canonical py_str_def text_of_def
        json_decimal_def l)
  obtain x where x: "x \<in> snd ` set (pp_positions p)" using assms(8) by (cases "pp_positions p") auto
  then have "lp_symbol x \<in> set (manifest_symbols p)"
    by (auto simp: manifest_symbols_def pp_sorted_positions_def)
  then have held: "\<exists>s \<in> set (manifest_symbols p). active_position p s \<noteq> None"
    using active_position_held [OF x] by blast
  obtain l1 where l1: "import_entries (map canonical_json js) l = (Inr (), l1)" "el_positions l1 \<noteq> []"
    using import_manifest [OF js assms(2,4,3) _ l(2,3)] l(6) held by blast
  have "ledger_ok l1" using import_entries_ok [OF l1(1) new_ledger_ok [OF assms(6)]] by blast
  then show ?thesis using l1 m l(4,5) assms(5,7)
    by (simp add: apply_import_def is_fin_def fin_value_def ledger_ok_def)
qed

lemma held_exposure_aggregates:
  assumes "ledger_ok l" and "el_positions l \<noteq> []"
  shows "v4_aggregate l \<noteq> []"
proof
  assume flat: "v4_aggregate l = []"
  obtain eid x where x: "(eid, x) \<in> set (el_positions l)"
    using assms(2) by (cases "el_positions l") auto
  have "distinct (map fst (el_positions l))" using assms(1) by (simp add: ledger_ok_def book_ok_def)
  then have pos: "0 < xp_quantity_shares y" if "(k, y) \<in> set (el_positions l)" for k y
    using that assms(1) unfolding ledger_ok_def book_ok_def by (metis map_of_is_SomeI)
  let ?held = "filter (\<lambda>y. xp_symbol y = xp_symbol x) (map snd (el_positions l))"
  have "\<forall>y \<in> set ?held. 0 \<le> xp_quantity_shares y" using pos by (force simp: less_imp_le)
  moreover have "x \<in> set ?held" using x by force
  ultimately have "xp_quantity_shares x \<le> aggregate_quantity l (xp_symbol x)"
    unfolding aggregate_quantity_def by (intro member_le_sum_list) auto
  moreover have "aggregate_quantity l (xp_symbol x) = 0"
    using v4_aggregate_shares [OF assms(1), of "xp_symbol x"] flat by (simp add: aggregated_shares_def)
  ultimately show False using pos [OF x] by simp
qed

lemma parity_needs_average_price:
  "v4_aggregate l \<noteq> [] \<Longrightarrow> require_v4_parity l p = Inl (LookupFailure ''average_price'')"
  by (cases "v4_aggregate l")
    (simp_all add: require_v4_parity_def projected_position_def aggregate_decimal_def)

text \<open>More generally, no import record at all is accepted while the projection holds a position.\<close>

lemma import_needs_a_flat_book:
  assumes "jr_kind (ja_record x) = V1_IMPORTED" and "pp_positions p \<noteq> []"
  shows "\<exists>e. paper_apply sha x p = (Inl e, p)"
proof -
  obtain r p1 where a: "activate_v4 sha x p = (r, p1)" by fastforce
  have "is_err r"
  proof (cases r)
    case (Inr u)
    then show ?thesis using activate_v4_ok [of sha x p u p1] a assms(2) by blast
  qed simp
  moreover have "p1 = p" if "r = Inl e" for e
    using a that by (auto simp: activate_v4_def split: if_splits option.splits sum.splits)
  ultimately show ?thesis using a assms(1) by (cases r) (auto simp: paper_apply_def)
qed

text \<open>
  C13. A session whose checkpoint has just been written recovers: replaying it from its journal
  with the checkpoint required gives the projection the checkpoint was taken of.
\<close>

theorem checkpointed_session_recovers:
  assumes "mem_inv j" and "resolve_settings (mem_ops sha) j session settings = Inr resolved"
    and "write_checkpoint sha (mem_ops sha) mem_checkpoint_ops j session cash settings = (Inr p, j')"
  shows "rebuild_projection sha (mem_ops sha) mem_checkpoint_ops j' session cash resolved True = Inr p"
  by (rule mem_checkpoints.write_then_rebuild [OF assms])

text \<open>
  C19. Importing a book that holds positions fails. At its upgrade the runtime freezes the v1
  projection it recovered into an import record, appends it to the same session and replays that
  session. Whenever a position is open the replay of that record raises \<open>KeyError('average_price')\<close>
  and leaves the projection as it was: the ledger accepts the record and its cash agrees, but the
  parity check that follows reads a field the aggregate it checks never carries. The hypotheses are
  those of a sound book - shares held, no negative price, cost or cash, a starting cash and a
  settings digest the ledger's constructor takes - of a digest of 64 characters, and of imported
  exposures whose digests do not collide. (The upgrade is meant to import the positions, so this is
  a defect of the code, listed as such.)
\<close>

theorem import_of_held_book_fails:
  assumes "build_import_record sha p source target account family t = Inr r"
    and "ja_record x = r" and "0 \<le> pp_last_sequence p" and "pp_last_sequence p < ja_sequence x"
    and "pp_exposures p = None" and "pp_positions p \<noteq> []"
    and "importable p" and "0 \<le> pp_cash p"
    and "rmap (manifest_identity sha account family source p) (manifest_symbols p) = Inr es"
    and "distinct (map ei_exposure_id es)" and "length (projection_digest sha p) = 64"
    and "new_exposure_ledger (pp_starting_cash p) account family (pp_settings_digest p) = Inr l"
  shows "paper_apply sha x p = (Inl (LookupFailure ''average_price''), p)"
proof -
  obtain l1 where l1: "apply_import r l = (Inr (), l1)" "ledger_ok l1" "el_cash l1 = pp_cash p"
    "el_positions l1 \<noteq> []"
    using import_record_applies [OF assms(1,9,10,7,8,12,11,6)] by blast
  have seq: "el_last_sequence l = 0"
    using assms(12) by (auto simp: new_exposure_ledger_def rbind_Inr_iff split: if_splits)
  have r: "jr_kind r = V1_IMPORTED" "text_at (jr_payload r) ''account_scope_id'' = Some account"
    "text_at (jr_payload r) ''policy_family_id'' = Some family"
    using assms(1) by (auto simp: build_import_record_def rbind_Inr_iff text_at_def map_of_canonical
        text_of_def dest!: mk_journal_record_payload)
  let ?l = "l1\<lparr>el_last_sequence := ja_sequence x\<rparr>"
  have "ledger_apply sha x l = (Inr (), ?l)"
    using assms(2,3,4) seq l1(1) r(1) by (simp add: ledger_apply_def Let_def)
  moreover have "require_v4_parity ?l p = Inl (LookupFailure ''average_price'')"
    by (intro parity_needs_average_price held_exposure_aggregates) (use l1 in simp_all)
  ultimately have "activate_v4 sha x p = (Inl (LookupFailure ''average_price''), p)"
    using assms(2,5,12) r l1(3) by (simp add: activate_v4_def)
  then show ?thesis using assms(2,4) r(1) by (simp add: paper_apply_def)
qed


section \<open>Examples\<close>

definition held_position :: paper_position where
  "held_position = \<lparr>lp_symbol = ''2330'', lp_name = ''TSMC'', lp_quantity_shares = 1000,
     lp_average_price = 100, lp_owner_origin = ''MANUAL_WEB'', lp_commission_cost = 142,
     lp_owner_strategy_id = None, lp_owner_strategy_version = None\<rparr>"

definition held_book :: paper_projection where
  "held_book = \<lparr>pp_starting_cash = 1000000, pp_settings_digest = None, pp_cash = 899858,
     pp_positions = [(''2330'', held_position)], pp_realized_pnl = [], pp_buy_notional = [],
     pp_v3_accounting = [], pp_exposures = None, pp_last_sequence = 1\<rparr>"

definition held_import :: "append_result res" where
  "held_import = rbind (build_import_record paper_sha held_book ''s'' ''s'' ''acct'' ''fam'' paper_time)
     (\<lambda>r. Inr \<lparr>ja_record = r, ja_sequence = 2, ja_idempotent = False\<rparr>)"

lemma held_import_ok:
  "rbind held_import (\<lambda>x. Inr ()) = Inr ()"
  "rbind (rmap (manifest_identity paper_sha ''acct'' ''fam'' ''s'' held_book) (manifest_symbols held_book))
     (\<lambda>es. Inr (distinct (map ei_exposure_id es))) = Inr True"
  "rbind (new_exposure_ledger (pp_starting_cash held_book) ''acct'' ''fam'' (pp_settings_digest held_book))
     (\<lambda>l. Inr ()) = Inr ()"
  by code_simp+

theorem import_of_held_book_fails_witness:
  "\<exists>x. held_import = Inr x
     \<and> paper_apply paper_sha x held_book = (Inl (LookupFailure ''average_price''), held_book)"
proof -
  obtain r where r: "build_import_record paper_sha held_book ''s'' ''s'' ''acct'' ''fam'' paper_time = Inr r"
    using held_import_ok(1) unfolding held_import_def rbind_Inr_iff by blast
  obtain es where es: "rmap (manifest_identity paper_sha ''acct'' ''fam'' ''s'' held_book)
      (manifest_symbols held_book) = Inr es" "distinct (map ei_exposure_id es)"
    using held_import_ok(2) unfolding rbind_Inr_iff by auto
  obtain l where l: "new_exposure_ledger (pp_starting_cash held_book) ''acct'' ''fam''
      (pp_settings_digest held_book) = Inr l"
    using held_import_ok(3) unfolding rbind_Inr_iff by blast
  have "length (projection_digest paper_sha held_book) = 64"
    by (simp add: projection_digest_def paper_sha_def)
  from import_of_held_book_fails [OF r _ _ _ _ _ _ _ es this l,
      of "\<lparr>ja_record = r, ja_sequence = 2, ja_idempotent = False\<rparr>"] r
  show ?thesis
    by (simp add: held_import_def held_book_def held_position_def importable_def)
qed

definition v1_fill :: "string \<Rightarrow> string \<Rightarrow> rat \<Rightarrow> journal_record" where
  "v1_fill rid side price = paper_record rid FILL_V1
     [(''fill_price'', JDec price), (''name'', JStr ''TSMC''), (''order_id'', JStr rid),
      (''quantity_shares'', JInt 100), (''side'', JStr side), (''symbol'', JStr ''2330'')]"

definition paper_journal :: memory_journal where
  "paper_journal = snd (mem_append paper_sha (snd (mem_append paper_sha (snd (mem_start_session empty_journal
     \<lparr>js_session_id = ''s'', js_started_at = paper_time, js_mode = ''LOCAL_PAPER'',
      js_metadata = [(''starting_cash'', JStr ''10000'')], js_schema_version = JOURNAL_SCHEMA_VERSION\<rparr>))
     (v1_fill ''buy-1'' ''BUY'' 10))) (v1_fill ''sell-1'' ''SELL'' 12))"

lemma paper_journal_inv: "mem_inv paper_journal"
  unfolding paper_journal_def by (intro mem_append_inv mem_start_inv [THEN conjunct1] mem_inv_empty)

definition paper_written :: "paper_projection res \<times> memory_journal" where
  "paper_written = write_checkpoint paper_sha (mem_ops paper_sha) mem_checkpoint_ops paper_journal ''s'' 10000 None"

lemma paper_written_ok:
  "rbind (fst paper_written) (\<lambda>p. Inr (pp_cash p, pp_realized p ''2330'', pp_last_sequence p))
     = Inr (10200, 200, 2)"
  "resolve_settings (mem_ops paper_sha) paper_journal ''s'' None = Inr None"
  by code_simp+

theorem checkpointed_session_recovers_witness:
  "\<exists>p. fst paper_written = Inr p
     \<and> rebuild_projection paper_sha (mem_ops paper_sha) mem_checkpoint_ops (snd paper_written) ''s''
         10000 None True = Inr p \<and> pp_cash p = 10200"
proof -
  obtain p where p: "fst paper_written = Inr p" "pp_cash p = 10200"
    using paper_written_ok(1) unfolding rbind_Inr_iff by auto
  then have "write_checkpoint paper_sha (mem_ops paper_sha) mem_checkpoint_ops paper_journal ''s'' 10000 None
      = (Inr p, snd paper_written)"
    by (simp add: paper_written_def prod_eq_iff)
  from checkpointed_session_recovers [OF paper_journal_inv paper_written_ok(2) this] p show ?thesis
    by blast
qed

end
