(* ===== verification/No_Overnight.thy ===== *)
theory No_Overnight
  imports Exposure "HOL-Library.Product_Lexorder"
begin

text \<open>
  The no-overnight policy and its transition planner: the typed configuration of
  \<open>config/no_overnight.py\<close> and the states, evidence and pure planning of
  \<open>trading/no_overnight.py\<close>. A time zone is a parameter: the rules \<open>ZoneInfo\<close> reads from
  the time-zone database give the offset of an instant and that of a wall-clock time.
\<close>

section \<open>Time zones\<close>

text \<open>
  \<open>zr_offset\<close> is the offset at an instant and \<open>zr_local_offset\<close> that of a wall-clock time
  (microseconds since 1970-01-01T00:00 local, \<open>fold = 0\<close>). A name with no rules raises
  \<open>ZoneInfoNotFoundError\<close>.
\<close>

record zone_rules =
  zr_offset :: "int \<Rightarrow> int"
  zr_local_offset :: "int \<Rightarrow> int"

type_synonym zones = "string \<Rightarrow> zone_rules option"

definition zone_info :: "zones \<Rightarrow> string \<Rightarrow> zone_rules res" where
  "zone_info zones name =
     (case zones name of None \<Rightarrow> Inl (Raised ''ZoneInfoNotFoundError'' name) | Some z \<Rightarrow> Inr z)"

text \<open>\<open>t.astimezone(zone)\<close> of an aware time, and \<open>datetime.combine(day, time, zone)\<close>.\<close>

definition astimezone :: "zone_rules \<Rightarrow> datetime \<Rightarrow> datetime" where
  "astimezone z t = \<lparr>instant = instant t, utcoffset = Some (zr_offset z (instant t))\<rparr>"

definition combine :: "zone_rules \<Rightarrow> int \<Rightarrow> int \<Rightarrow> datetime" where
  "combine z day us =
     (let wall = day * day_us + us; off = zr_local_offset z wall
      in \<lparr>instant = wall - off, utcoffset = Some off\<rparr>)"

text \<open>\<open>datetime.time\<close>: microseconds of the day, whether it carries a \<open>tzinfo\<close>, and its fold.\<close>

record wall_time =
  wt_us :: int
  wt_aware :: bool
  wt_fold :: bool

section \<open>Policy configuration\<close>

definition NO_OVERNIGHT_POLICY_SCHEMA_VERSION :: string where
  "NO_OVERNIGHT_POLICY_SCHEMA_VERSION = ''no_overnight_policy_config_v1''"
definition NO_OVERNIGHT_POLICY_VALIDATION_VERSION :: string where
  "NO_OVERNIGHT_POLICY_VALIDATION_VERSION = ''ordered_session_cutoffs_v1''"
definition NO_OVERNIGHT_DEPLOYMENT_MANIFEST_VERSION :: string where
  "NO_OVERNIGHT_DEPLOYMENT_MANIFEST_VERSION = ''no_overnight_deployment_manifest_v1''"

datatype no_overnight_mode = DISABLED | OBSERVE_ONLY | ENFORCING
datatype hosting_mode = SINGLE_HOST_SINGLE_WORKER
datatype guard_kind = POSTGRES_ADVISORY_LOCK

primrec mode_value :: "no_overnight_mode \<Rightarrow> string" where
  "mode_value DISABLED = ''DISABLED''"
| "mode_value OBSERVE_ONLY = ''OBSERVE_ONLY''"
| "mode_value ENFORCING = ''ENFORCING''"

primrec hosting_value :: "hosting_mode \<Rightarrow> string" where
  "hosting_value SINGLE_HOST_SINGLE_WORKER = ''SINGLE_HOST_SINGLE_WORKER''"

primrec guard_kind_value :: "guard_kind \<Rightarrow> string" where
  "guard_kind_value POSTGRES_ADVISORY_LOCK = ''POSTGRES_ADVISORY_LOCK''"

text \<open>\<open>_require_text\<close>: the stripped value, which must not be empty.\<close>

definition stripped_text :: "string \<Rightarrow> string \<Rightarrow> string res" where
  "stripped_text v field =
     (let n = py_strip v in if n = [] then Inl (ValueError (field @ '' must not be empty'')) else Inr n)"

record deployment_manifest =
  dm_source :: string
  dm_process_count :: int
  dm_workers_per_process :: int
  dm_hosting_mode :: hosting_mode
  dm_schema_version :: string

definition make_deployment_manifest :: "deployment_manifest \<Rightarrow> deployment_manifest res" where
  "make_deployment_manifest m =
     rbind (stripped_text (dm_source m) ''source'') (\<lambda>src.
     rbind (require_all [
       (dm_schema_version m = NO_OVERNIGHT_DEPLOYMENT_MANIFEST_VERSION,
        ''deployment manifest schema is unsupported''),
       (dm_hosting_mode m = SINGLE_HOST_SINGLE_WORKER, ''deployment hosting mode is unsupported''),
       (dm_process_count m = 1 \<and> dm_workers_per_process m = 1,
        ''ENFORCING requires exactly one process and one worker'')]) (\<lambda>_.
     Inr (m\<lparr>dm_source := src\<rparr>)))"

definition manifest_digest :: "(json \<Rightarrow> string) \<Rightarrow> deployment_manifest \<Rightarrow> string" where
  "manifest_digest sha m = sha (JObj
     [(''schema_version'', JStr (dm_schema_version m)), (''source'', JStr (dm_source m)),
      (''process_count'', JInt (dm_process_count m)),
      (''workers_per_process'', JInt (dm_workers_per_process m)),
      (''hosting_mode'', JStr (hosting_value (dm_hosting_mode m)))])"

record no_overnight_policy =
  np_mode :: no_overnight_mode
  np_account_scope_id :: string
  np_policy_family_id :: string
  np_policy_version :: string
  np_timezone :: string
  np_market_open :: "wall_time option"
  np_no_new_entry_at :: "wall_time option"
  np_cancel_entry_at :: "wall_time option"
  np_flatten_at :: "wall_time option"
  np_aggressive_exit_at :: "wall_time option"
  np_final_reconciliation_at :: "wall_time option"
  np_reviewed_session_close :: "wall_time option"
  np_max_exit_attempts :: "int option"
  np_retry_cooldown_seconds :: "int option"
  np_executable_book_policy_id :: "string option"
  np_controller_hosting_mode :: hosting_mode
  np_controller_guard_kind :: guard_kind
  np_schema_version :: string
  np_validation_algorithm_version :: string

text \<open>The first loop of \<open>__post_init__\<close> normalizes the identities.\<close>

definition normalize_policy :: "no_overnight_policy \<Rightarrow> no_overnight_policy res" where
  "normalize_policy p =
     rbind (stripped_text (np_account_scope_id p) ''account_scope_id'') (\<lambda>account.
     rbind (stripped_text (np_policy_family_id p) ''policy_family_id'') (\<lambda>family.
     rbind (stripped_text (np_policy_version p) ''policy_version'') (\<lambda>version.
     rbind (stripped_text (np_timezone p) ''timezone'') (\<lambda>tz.
     rbind (stripped_text (np_schema_version p) ''schema_version'') (\<lambda>schema.
     rbind (stripped_text (np_validation_algorithm_version p) ''validation_algorithm_version'') (\<lambda>algorithm.
     Inr (p\<lparr>np_account_scope_id := account, np_policy_family_id := family,
       np_policy_version := version, np_timezone := tz, np_schema_version := schema,
       np_validation_algorithm_version := algorithm\<rparr>)))))))"

definition session_cutoffs :: "no_overnight_policy \<Rightarrow> (string \<times> wall_time option) list" where
  "session_cutoffs p =
     [(''market_open'', np_market_open p), (''no_new_entry_at'', np_no_new_entry_at p),
      (''cancel_entry_at'', np_cancel_entry_at p), (''flatten_at'', np_flatten_at p),
      (''aggressive_exit_at'', np_aggressive_exit_at p),
      (''final_reconciliation_at'', np_final_reconciliation_at p),
      (''reviewed_session_close'', np_reviewed_session_close p)]"

fun local_cutoffs :: "(string \<times> wall_time option) list \<Rightarrow> unit res" where
  "local_cutoffs [] = Inr ()"
| "local_cutoffs ((field, None) # rest) = local_cutoffs rest"
| "local_cutoffs ((field, Some t) # rest) =
     (if wt_aware t then Inl (ValueError (field @ '' must be a local wall-clock time''))
      else if wt_fold t then Inl (ValueError (field @ '' fold is unsupported''))
      else local_cutoffs rest)"

definition positive_setting :: "int option \<Rightarrow> bool" where
  "positive_setting v = (case v of None \<Rightarrow> False | Some n \<Rightarrow> 0 < n)"

text \<open>The checks of a policy that is not \<open>DISABLED\<close>.\<close>

definition enabled_policy :: "no_overnight_policy \<Rightarrow> no_overnight_policy res" where
  "enabled_policy p =
     (let cuts = map snd (session_cutoffs p); us = map (\<lambda>t. wt_us (the t)) cuts
      in rbind (require_all [
           (\<not> List.member cuts None, ''OBSERVE_ONLY/ENFORCING require every session cutoff''),
           (sort us = us \<and> distinct us, ''no-overnight session cutoffs must be strictly ordered''),
           (positive_setting (np_max_exit_attempts p), ''max_exit_attempts must be a positive integer''),
           (positive_setting (np_retry_cooldown_seconds p),
            ''retry_cooldown_seconds must be a positive integer''),
           (np_executable_book_policy_id p \<noteq> None, ''executable_book_policy_id is required'')]) (\<lambda>_.
         rbind (stripped_text (the (np_executable_book_policy_id p)) ''executable_book_policy_id'') (\<lambda>book.
         Inr (p\<lparr>np_executable_book_policy_id := Some book\<rparr>))))"

definition make_no_overnight_policy :: "zones \<Rightarrow> no_overnight_policy \<Rightarrow> no_overnight_policy res" where
  "make_no_overnight_policy zones raw =
     rbind (normalize_policy raw) (\<lambda>p.
     rbind (require_all [
       (np_schema_version p = NO_OVERNIGHT_POLICY_SCHEMA_VERSION, ''schema_version is unsupported''),
       (np_validation_algorithm_version p = NO_OVERNIGHT_POLICY_VALIDATION_VERSION,
        ''validation_algorithm_version is unsupported''),
       (zones (np_timezone p) \<noteq> None, ''timezone must be a recognized IANA timezone'')]) (\<lambda>_.
     rbind (local_cutoffs (session_cutoffs p)) (\<lambda>_.
     if np_mode p = DISABLED then Inr p else enabled_policy p)))"

definition disabled_policy :: "zones \<Rightarrow> string \<Rightarrow> string \<Rightarrow> string \<Rightarrow> string \<Rightarrow> no_overnight_policy res" where
  "disabled_policy zones account family version tz =
     make_no_overnight_policy zones
       \<lparr>np_mode = DISABLED, np_account_scope_id = account, np_policy_family_id = family,
        np_policy_version = version, np_timezone = tz, np_market_open = None,
        np_no_new_entry_at = None, np_cancel_entry_at = None, np_flatten_at = None,
        np_aggressive_exit_at = None, np_final_reconciliation_at = None,
        np_reviewed_session_close = None, np_max_exit_attempts = None,
        np_retry_cooldown_seconds = None, np_executable_book_policy_id = None,
        np_controller_hosting_mode = SINGLE_HOST_SINGLE_WORKER,
        np_controller_guard_kind = POSTGRES_ADVISORY_LOCK,
        np_schema_version = NO_OVERNIGHT_POLICY_SCHEMA_VERSION,
        np_validation_algorithm_version = NO_OVERNIGHT_POLICY_VALIDATION_VERSION\<rparr>"

text \<open>\<open>value.isoformat(timespec="microseconds")\<close> of a local time.\<close>

definition time_payload :: "wall_time option \<Rightarrow> json" where
  "time_payload v = (case v of None \<Rightarrow> JNull
     | Some t \<Rightarrow> (let us = wt_us t; s = us div 1000000
         in JStr (show_padded 2 (s div 3600) @ '':'' @ show_padded 2 (s div 60 mod 60) @ '':''
                  @ show_padded 2 (s mod 60) @ ''.'' @ show_padded 6 (us mod 1000000))))"

definition policy_canonical_payload :: "no_overnight_policy \<Rightarrow> json" where
  "policy_canonical_payload p = JObj
     [(''schema_version'', JStr (np_schema_version p)),
      (''validation_algorithm_version'', JStr (np_validation_algorithm_version p)),
      (''mode'', JStr (mode_value (np_mode p))),
      (''account_scope_id'', JStr (np_account_scope_id p)),
      (''policy_family_id'', JStr (np_policy_family_id p)),
      (''policy_version'', JStr (np_policy_version p)),
      (''timezone'', JStr (np_timezone p)),
      (''market_open'', time_payload (np_market_open p)),
      (''no_new_entry_at'', time_payload (np_no_new_entry_at p)),
      (''cancel_entry_at'', time_payload (np_cancel_entry_at p)),
      (''flatten_at'', time_payload (np_flatten_at p)),
      (''aggressive_exit_at'', time_payload (np_aggressive_exit_at p)),
      (''final_reconciliation_at'', time_payload (np_final_reconciliation_at p)),
      (''reviewed_session_close'', time_payload (np_reviewed_session_close p)),
      (''max_exit_attempts'', jopt JInt (np_max_exit_attempts p)),
      (''retry_cooldown_seconds'', jopt JInt (np_retry_cooldown_seconds p)),
      (''executable_book_policy_id'', jopt JStr (np_executable_book_policy_id p)),
      (''controller_hosting_mode'', JStr (hosting_value (np_controller_hosting_mode p))),
      (''controller_guard_kind'', JStr (guard_kind_value (np_controller_guard_kind p)))]"

definition no_overnight_policy_digest :: "(json \<Rightarrow> string) \<Rightarrow> no_overnight_policy \<Rightarrow> string" where
  "no_overnight_policy_digest sha p = sha (policy_canonical_payload p)"


section \<open>States and evidence\<close>

datatype no_overnight_state =
    NORMAL | NO_NEW_ENTRY | CANCEL_ENTRY | FLATTENING | AGGRESSIVE_EXIT | FINAL_RECONCILIATION
  | CONFIRMED_FLAT | OVERNIGHT_BREACH

datatype would_action = WOULD_BLOCK_ENTRY | WOULD_CANCEL_ENTRY | WOULD_EXIT | WOULD_RECONCILE
datatype flat_proof = NEVER_EXPOSED | FILL_DERIVED_CLOSE
datatype reconciliation_status = REC_MATCH | REC_REQUIRED | REC_UNKNOWN

primrec state_value :: "no_overnight_state \<Rightarrow> string" where
  "state_value NORMAL = ''NORMAL''"
| "state_value NO_NEW_ENTRY = ''NO_NEW_ENTRY''"
| "state_value CANCEL_ENTRY = ''CANCEL_ENTRY''"
| "state_value FLATTENING = ''FLATTENING''"
| "state_value AGGRESSIVE_EXIT = ''AGGRESSIVE_EXIT''"
| "state_value FINAL_RECONCILIATION = ''FINAL_RECONCILIATION''"
| "state_value CONFIRMED_FLAT = ''CONFIRMED_FLAT''"
| "state_value OVERNIGHT_BREACH = ''OVERNIGHT_BREACH''"

primrec would_action_value :: "would_action \<Rightarrow> string" where
  "would_action_value WOULD_BLOCK_ENTRY = ''WOULD_BLOCK_ENTRY''"
| "would_action_value WOULD_CANCEL_ENTRY = ''WOULD_CANCEL_ENTRY''"
| "would_action_value WOULD_EXIT = ''WOULD_EXIT''"
| "would_action_value WOULD_RECONCILE = ''WOULD_RECONCILE''"

primrec flat_proof_value :: "flat_proof \<Rightarrow> string" where
  "flat_proof_value NEVER_EXPOSED = ''NEVER_EXPOSED''"
| "flat_proof_value FILL_DERIVED_CLOSE = ''FILL_DERIVED_CLOSE''"

primrec reconciliation_value :: "reconciliation_status \<Rightarrow> string" where
  "reconciliation_value REC_MATCH = ''MATCH''"
| "reconciliation_value REC_REQUIRED = ''RECONCILIATION_REQUIRED''"
| "reconciliation_value REC_UNKNOWN = ''UNKNOWN''"

primrec state_rank :: "no_overnight_state \<Rightarrow> nat" where
  "state_rank NORMAL = 0"
| "state_rank NO_NEW_ENTRY = 1"
| "state_rank CANCEL_ENTRY = 2"
| "state_rank FLATTENING = 3"
| "state_rank AGGRESSIVE_EXIT = 4"
| "state_rank FINAL_RECONCILIATION = 5"
| "state_rank CONFIRMED_FLAT = 6"
| "state_rank OVERNIGHT_BREACH = 6"

definition require_sha256_text :: "string \<Rightarrow> string \<Rightarrow> string res" where
  "require_sha256_text v field =
     rbind (stripped_text v field) (\<lambda>n.
     if is_sha256 n then Inr n
     else Inl (ValueError (field @ '' must be a lowercase SHA-256 digest'')))"

text \<open>The reviewed session window of the exchange calendar.\<close>

record session_window =
  sw_session_date :: int
  sw_timezone :: string
  sw_opens_at :: datetime
  sw_closes_at :: datetime
  sw_calendar_schema_version :: string
  sw_calendar_digest :: string

definition session_window_post_init :: "zones \<Rightarrow> session_window \<Rightarrow> unit res" where
  "session_window_post_init zones w =
     rbind (require_all [
       (dt_aware (sw_opens_at w), ''opens_at must be timezone-aware''),
       (dt_aware (sw_closes_at w), ''closes_at must be timezone-aware''),
       (instant (sw_opens_at w) < instant (sw_closes_at w), ''reviewed session window is invalid'')]) (\<lambda>_.
     rbind (zone_info zones (sw_timezone w)) (\<lambda>z.
     require_all [
       (dt_date (astimezone z (sw_opens_at w)) = sw_session_date w, ''reviewed session open date mismatch''),
       (dt_date (astimezone z (sw_closes_at w)) = sw_session_date w, ''reviewed session close date mismatch''),
       (\<not> blank (sw_calendar_schema_version w), ''calendar_schema_version must not be empty''),
       (\<not> blank (sw_calendar_digest w), ''calendar_digest must not be empty'')]))"

record exposure_quantity =
  eq_exposure_id :: string
  eq_quantity :: int

definition make_exposure_quantity :: "exposure_quantity \<Rightarrow> exposure_quantity res" where
  "make_exposure_quantity q =
     rbind (stripped_text (eq_exposure_id q) ''exposure_id'') (\<lambda>n.
     if eq_quantity q < 0 then Inl (ValueError ''quantity must be a non-negative integer'')
     else Inr (q\<lparr>eq_exposure_id := n\<rparr>))"

definition exposure_quantity_payload :: "exposure_quantity \<Rightarrow> json" where
  "exposure_quantity_payload q =
     JObj [(''exposure_id'', JStr (eq_exposure_id q)), (''quantity'', JInt (eq_quantity q))]"

record managed_exposure =
  me_exposure_id :: string
  me_current_quantity :: int
  me_max_quantity_during_session :: int
  me_open_fill_quantity :: int
  me_close_fill_quantity :: int

definition make_managed_exposure :: "managed_exposure \<Rightarrow> managed_exposure res" where
  "make_managed_exposure m =
     rbind (stripped_text (me_exposure_id m) ''exposure_id'') (\<lambda>n.
     rbind (require_all [
       (0 \<le> me_current_quantity m, ''current_quantity must be a non-negative integer''),
       (0 \<le> me_max_quantity_during_session m,
        ''max_quantity_during_session must be a non-negative integer''),
       (0 \<le> me_open_fill_quantity m,
        ''authoritative_open_fill_quantity must be a non-negative integer''),
       (0 \<le> me_close_fill_quantity m,
        ''authoritative_close_fill_quantity must be a non-negative integer''),
       (me_current_quantity m \<le> me_max_quantity_during_session m,
        ''current quantity exceeds session maximum''),
       (me_close_fill_quantity m \<le> me_open_fill_quantity m,
        ''close fill quantity exceeds open fill quantity''),
       (me_open_fill_quantity m - me_close_fill_quantity m = me_current_quantity m,
        ''managed quantity is not fill-derived'')]) (\<lambda>_.
     Inr (m\<lparr>me_exposure_id := n\<rparr>)))"

definition managed_exposure_payload :: "managed_exposure \<Rightarrow> json" where
  "managed_exposure_payload m = JObj
     [(''exposure_id'', JStr (me_exposure_id m)),
      (''current_quantity'', JInt (me_current_quantity m)),
      (''max_quantity_during_session'', JInt (me_max_quantity_during_session m)),
      (''authoritative_open_fill_quantity'', JInt (me_open_fill_quantity m)),
      (''authoritative_close_fill_quantity'', JInt (me_close_fill_quantity m))]"

text \<open>The field order of the two ordered dataclasses.\<close>

definition quantity_key :: "exposure_quantity \<Rightarrow> string \<times> int" where
  "quantity_key q = (eq_exposure_id q, eq_quantity q)"

definition managed_key :: "managed_exposure \<Rightarrow> string \<times> int \<times> int \<times> int \<times> int" where
  "managed_key m = (me_exposure_id m, me_current_quantity m, me_max_quantity_during_session m,
     me_open_fill_quantity m, me_close_fill_quantity m)"

record no_overnight_evidence =
  ne_session_date :: int
  ne_managed_exposures :: "managed_exposure list"
  ne_pending_entry_quantity :: "exposure_quantity list"
  ne_pending_exit_quantity :: "exposure_quantity list"
  ne_unresolved_execution_ids :: "string list"
  ne_reconciliation_status :: reconciliation_status
  ne_reconciliation_digest :: string
  ne_last_fill_sequence :: int
  ne_last_execution_fact_sequence :: int
  ne_covers_through_sequence :: int
  ne_snapshot_sequence :: int
  ne_source_as_of :: datetime
  ne_received_at :: datetime

definition make_evidence :: "no_overnight_evidence \<Rightarrow> no_overnight_evidence res" where
  "make_evidence raw =
     (let ids = sort (ne_unresolved_execution_ids raw)
      in rbind (require_all [
           (\<not> list_ex blank ids, ''unresolved execution identity must not be empty''),
           (0 \<le> ne_last_fill_sequence raw,
            ''last_fill_journal_sequence must be a non-negative integer''),
           (0 \<le> ne_last_execution_fact_sequence raw,
            ''last_execution_fact_journal_sequence must be a non-negative integer''),
           (0 \<le> ne_covers_through_sequence raw,
            ''snapshot_covers_through_journal_sequence must be a non-negative integer''),
           (0 \<le> ne_snapshot_sequence raw,
            ''snapshot_journal_sequence must be a non-negative integer''),
           (ne_last_fill_sequence raw \<le> ne_last_execution_fact_sequence raw,
            ''last fill sequence exceeds last execution fact''),
           (dt_aware (ne_source_as_of raw), ''snapshot_source_as_of must be timezone-aware''),
           (dt_aware (ne_received_at raw), ''snapshot_received_at must be timezone-aware'')]) (\<lambda>_.
         rbind (require_sha256_text (ne_reconciliation_digest raw) ''reconciliation_digest'') (\<lambda>digest.
         Inr (raw\<lparr>ne_managed_exposures := sort_key managed_key (ne_managed_exposures raw),
           ne_pending_entry_quantity := sort_key quantity_key (ne_pending_entry_quantity raw),
           ne_pending_exit_quantity := sort_key quantity_key (ne_pending_exit_quantity raw),
           ne_unresolved_execution_ids := ids, ne_reconciliation_digest := digest\<rparr>))))"

definition evidence_payload :: "no_overnight_evidence \<Rightarrow> json" where
  "evidence_payload e = JObj
     [(''session_date'', JDate (ne_session_date e)),
      (''managed_exposures'', JList (map managed_exposure_payload (ne_managed_exposures e))),
      (''pending_entry_quantity'', JList (map exposure_quantity_payload (ne_pending_entry_quantity e))),
      (''pending_exit_quantity'', JList (map exposure_quantity_payload (ne_pending_exit_quantity e))),
      (''unresolved_execution_ids'', JList (map JStr (ne_unresolved_execution_ids e))),
      (''reconciliation_status'', JStr (reconciliation_value (ne_reconciliation_status e))),
      (''reconciliation_digest'', JStr (ne_reconciliation_digest e)),
      (''last_fill_journal_sequence'', JInt (ne_last_fill_sequence e)),
      (''last_execution_fact_journal_sequence'', JInt (ne_last_execution_fact_sequence e)),
      (''snapshot_covers_through_journal_sequence'', JInt (ne_covers_through_sequence e)),
      (''snapshot_journal_sequence'', JInt (ne_snapshot_sequence e)),
      (''snapshot_source_as_of'', JTime (ne_source_as_of e)),
      (''snapshot_received_at'', JTime (ne_received_at e))]"

text \<open>
  The strict proof that nothing stays open: no managed or pending quantity, nothing unresolved, a
  matching reconciliation and a snapshot that covers every execution fact. Then the managed
  exposures either never traded, or all traded and were closed by their fills.
\<close>

definition open_work :: "no_overnight_evidence \<Rightarrow> bool" where
  "open_work e \<longleftrightarrow>
     list_ex (\<lambda>m. me_current_quantity m \<noteq> 0) (ne_managed_exposures e)
     \<or> list_ex (\<lambda>q. eq_quantity q \<noteq> 0) (ne_pending_entry_quantity e)
     \<or> list_ex (\<lambda>q. eq_quantity q \<noteq> 0) (ne_pending_exit_quantity e)
     \<or> ne_unresolved_execution_ids e \<noteq> []
     \<or> ne_reconciliation_status e \<noteq> REC_MATCH
     \<or> ne_covers_through_sequence e < ne_last_execution_fact_sequence e"

definition never_traded :: "managed_exposure \<Rightarrow> bool" where
  "never_traded m \<longleftrightarrow> me_max_quantity_during_session m = 0 \<and> me_open_fill_quantity m = 0
     \<and> me_close_fill_quantity m = 0"

definition closed_by_fills :: "managed_exposure \<Rightarrow> bool" where
  "closed_by_fills m \<longleftrightarrow> me_current_quantity m = 0 \<and> 0 < me_max_quantity_during_session m
     \<and> me_open_fill_quantity m = me_close_fill_quantity m"

definition strict_flat_proof :: "no_overnight_evidence \<Rightarrow> flat_proof option" where
  "strict_flat_proof e =
     (if open_work e then None
      else if ne_managed_exposures e = [] \<or> list_all never_traded (ne_managed_exposures e)
      then Some NEVER_EXPOSED
      else if list_all closed_by_fills (ne_managed_exposures e) then Some FILL_DERIVED_CLOSE
      else None)"


section \<open>Transition planning\<close>

text \<open>
  \<open>NoOvernightPlanningError\<close> refuses a plan. A cutoff that is absent raises \<open>TypeError\<close> when it
  is compared, which a policy that is not \<open>DISABLED\<close> never does.
\<close>

definition planning_error :: "string \<Rightarrow> pyerr" where
  "planning_error m = Raised ''NoOvernightPlanningError'' m"

definition cutoff :: "wall_time option \<Rightarrow> int res" where
  "cutoff t = (case t of None \<Rightarrow> Inl (TypeError ''cutoff is not a time'') | Some w \<Rightarrow> Inr (wt_us w))"

text \<open>The first cutoff the wall-clock time is before names the phase.\<close>

fun phase_before ::
  "int \<Rightarrow> (wall_time option \<times> no_overnight_state) list \<Rightarrow> no_overnight_state option res" where
  "phase_before wall [] = Inr None"
| "phase_before wall ((t, s) # rest) =
     rbind (cutoff t) (\<lambda>c. if wall < c then Inr (Some s) else phase_before wall rest)"

definition phase_state ::
  "no_overnight_policy \<Rightarrow> datetime \<Rightarrow> no_overnight_evidence
     \<Rightarrow> (no_overnight_state \<times> flat_proof option) res" where
  "phase_state p now e =
     rbind (phase_before (wall_clock now)
       [(np_no_new_entry_at p, NORMAL), (np_cancel_entry_at p, NO_NEW_ENTRY),
        (np_flatten_at p, CANCEL_ENTRY), (np_aggressive_exit_at p, FLATTENING),
        (np_final_reconciliation_at p, AGGRESSIVE_EXIT),
        (np_reviewed_session_close p, FINAL_RECONCILIATION)]) (\<lambda>found.
     case found of Some s \<Rightarrow> Inr (s, None)
     | None \<Rightarrow> (let proof = strict_flat_proof e
               in Inr (if proof \<noteq> None then CONFIRMED_FLAT else OVERNIGHT_BREACH, proof)))"

definition expected_would_actions :: "no_overnight_state \<Rightarrow> would_action list" where
  "expected_would_actions s =
     (if s = NORMAL then []
      else if s = NO_NEW_ENTRY then [WOULD_BLOCK_ENTRY]
      else if s = CANCEL_ENTRY then [WOULD_BLOCK_ENTRY, WOULD_CANCEL_ENTRY]
      else if List.member [FLATTENING, AGGRESSIVE_EXIT] s then [WOULD_BLOCK_ENTRY, WOULD_EXIT]
      else [WOULD_BLOCK_ENTRY, WOULD_RECONCILE])"

record no_overnight_plan =
  pl_previous_state :: no_overnight_state
  pl_state :: no_overnight_state
  pl_revision :: int
  pl_planned_at :: datetime
  pl_would_actions :: "would_action list"
  pl_flat_proof_mode :: "string option"
  pl_input_digest :: string
  pl_digest :: string

definition canonical_transition_digest ::
  "(json \<Rightarrow> string) \<Rightarrow> no_overnight_state \<Rightarrow> no_overnight_state \<Rightarrow> int \<Rightarrow> datetime
     \<Rightarrow> would_action list \<Rightarrow> string option \<Rightarrow> string \<Rightarrow> string" where
  "canonical_transition_digest sha previous new revision planned_at acts proof_mode input = sha (JObj
     [(''previous_state'', JStr (state_value previous)), (''state'', JStr (state_value new)),
      (''revision'', JInt revision), (''planned_at'', JTime planned_at),
      (''would_actions'', JList (map (\<lambda>a. JStr (would_action_value a)) acts)),
      (''flat_proof_mode'', jopt JStr proof_mode), (''planner_input_digest'', JStr input)])"

text \<open>The guards of \<open>plan_no_overnight_transition\<close>, in the order of the code.\<close>

definition plan_clock_checks ::
  "zones \<Rightarrow> no_overnight_policy \<Rightarrow> session_window \<Rightarrow> datetime \<Rightarrow> int \<Rightarrow> zone_rules res" where
  "plan_clock_checks zones p w now revision =
     rbind (require (np_mode p \<noteq> DISABLED) (planning_error ''disabled policy has no transition plan'')) (\<lambda>_.
     rbind (require (dt_aware now) (ValueError ''now must be timezone-aware'')) (\<lambda>_.
     rbind (require (0 \<le> revision) (planning_error ''current revision is invalid'')) (\<lambda>_.
     rbind (require (sw_timezone w = np_timezone p)
              (planning_error ''calendar timezone differs from policy timezone'')) (\<lambda>_.
     rbind (zone_info zones (np_timezone p)) (\<lambda>z.
     rbind (require (local_us (astimezone z now) = local_us now)
              (planning_error ''server clock timezone must equal policy timezone'')) (\<lambda>_.
     Inr z))))))"

definition plan_session_checks ::
  "zone_rules \<Rightarrow> no_overnight_policy \<Rightarrow> session_window \<Rightarrow> datetime \<Rightarrow> no_overnight_evidence
     \<Rightarrow> unit res" where
  "plan_session_checks z p w now e =
     rbind (require (dt_date now = sw_session_date w \<and> ne_session_date e = sw_session_date w)
              (planning_error ''session identity mismatch'')) (\<lambda>_.
     rbind (require (instant (sw_opens_at w) \<le> instant now)
              (planning_error ''server clock is before reviewed session open'')) (\<lambda>_.
     rbind (cutoff (np_market_open p)) (\<lambda>open_us.
     rbind (cutoff (np_reviewed_session_close p)) (\<lambda>close_us.
     rbind (require (instant (sw_opens_at w) = instant (combine z (sw_session_date w) open_us)
                     \<and> instant (sw_closes_at w) = instant (combine z (sw_session_date w) close_us))
              (planning_error ''reviewed session bounds differ from policy'')) (\<lambda>_.
     rbind (require (instant (ne_source_as_of e) \<le> instant (ne_received_at e))
              (planning_error ''snapshot source time is after receipt'')) (\<lambda>_.
     rbind (require (instant (ne_received_at e) \<le> instant now)
              (planning_error ''snapshot receipt is in the future'')) (\<lambda>_.
     require (ne_last_execution_fact_sequence e \<le> ne_covers_through_sequence e)
       (planning_error ''snapshot fence is behind execution facts''))))))))"

text \<open>The state the planner settles on: never backward, and a breach is kept.\<close>

definition target_state ::
  "no_overnight_policy \<Rightarrow> datetime \<Rightarrow> no_overnight_state \<Rightarrow> no_overnight_evidence
     \<Rightarrow> (no_overnight_state \<times> flat_proof option) res" where
  "target_state p now current e =
     rbind (phase_state p now e) (\<lambda>(target, proof).
     if state_rank target < state_rank current
     then Inl (planning_error ''state transition cannot move backward'')
     else let (target, proof) = (if current = OVERNIGHT_BREACH then (current, None) else (target, proof));
              target = (if current = CONFIRMED_FLAT \<and> target = OVERNIGHT_BREACH
                        then OVERNIGHT_BREACH else target)
          in Inr (target, proof))"

definition planner_input ::
  "(json \<Rightarrow> string) \<Rightarrow> no_overnight_policy \<Rightarrow> session_window \<Rightarrow> datetime \<Rightarrow> no_overnight_state
     \<Rightarrow> int \<Rightarrow> no_overnight_evidence \<Rightarrow> bool \<Rightarrow> json" where
  "planner_input sha p w now current revision e superseded = JObj
     [(''config'', policy_canonical_payload p),
      (''policy_digest'', JStr (no_overnight_policy_digest sha p)),
      (''window'', JObj
        [(''session_date'', JDate (sw_session_date w)), (''timezone'', JStr (sw_timezone w)),
         (''opens_at'', JTime (sw_opens_at w)), (''closes_at'', JTime (sw_closes_at w)),
         (''calendar_schema_version'', JStr (sw_calendar_schema_version w)),
         (''calendar_digest'', JStr (sw_calendar_digest w))]),
      (''now'', JTime now), (''current_state'', JStr (state_value current)),
      (''current_revision'', JInt revision), (''result_superseded'', JBool superseded),
      (''evidence'', evidence_payload e)]"

definition planned ::
  "(json \<Rightarrow> string) \<Rightarrow> no_overnight_state \<Rightarrow> no_overnight_state \<Rightarrow> int \<Rightarrow> datetime
     \<Rightarrow> flat_proof option \<Rightarrow> string \<Rightarrow> no_overnight_plan" where
  "planned sha current target revision now proof input =
     (let acts = expected_would_actions target; mode = map_option flat_proof_value proof
      in \<lparr>pl_previous_state = current, pl_state = target, pl_revision = revision,
          pl_planned_at = now, pl_would_actions = acts, pl_flat_proof_mode = mode,
          pl_input_digest = input,
          pl_digest = canonical_transition_digest sha current target revision now acts mode input\<rparr>)"

definition plan_no_overnight_transition ::
  "zones \<Rightarrow> (json \<Rightarrow> string) \<Rightarrow> no_overnight_policy \<Rightarrow> session_window \<Rightarrow> datetime
     \<Rightarrow> no_overnight_state \<Rightarrow> int \<Rightarrow> no_overnight_evidence \<Rightarrow> bool \<Rightarrow> no_overnight_plan res" where
  "plan_no_overnight_transition zones sha p w now current revision e superseded =
     rbind (plan_clock_checks zones p w now revision) (\<lambda>z.
     rbind (plan_session_checks z p w now e) (\<lambda>_.
     rbind (target_state p now current e) (\<lambda>(target, proof).
     Inr (planned sha current target
            (revision + (if target \<noteq> current \<or> superseded then 1 else 0)) now proof
            (sha (planner_input sha p w now current revision e superseded))))))"


section \<open>Ordered cutoffs\<close>

definition cutoff_us :: "no_overnight_policy \<Rightarrow> int list" where
  "cutoff_us p = map (\<lambda>c. wt_us (the (snd c))) (session_cutoffs p)"

definition ordered_policy :: "no_overnight_policy \<Rightarrow> bool" where
  "ordered_policy p \<longleftrightarrow>
     list_all (\<lambda>c. snd c \<noteq> None) (session_cutoffs p) \<and> sorted_wrt (<) (cutoff_us p)"

lemma sort_distinct_iff: "sort us = us \<and> distinct us \<longleftrightarrow> sorted_wrt (<) (us :: int list)"
proof -
  have "sort us = us \<longleftrightarrow> sorted us" by (metis sorted_sort sorted_sort_id)
  then show ?thesis by (auto simp: strict_sorted_iff)
qed

lemma policy_enabled:
  "make_no_overnight_policy zones raw = Inr p \<Longrightarrow> np_mode p \<noteq> DISABLED \<Longrightarrow>
     \<exists>q. enabled_policy q = Inr p"
  by (auto simp: make_no_overnight_policy_def rbind_Inr_iff split: if_splits)

lemma valid_policy_ordered:
  assumes "make_no_overnight_policy zones raw = Inr p" and "np_mode p \<noteq> DISABLED"
  shows "ordered_policy p"
proof -
  obtain q where "enabled_policy q = Inr p" using policy_enabled [OF assms] by blast
  then obtain book where p: "p = q\<lparr>np_executable_book_policy_id := book\<rparr>"
    and cuts: "\<not> List.member (map snd (session_cutoffs q)) None"
    and us: "sort (cutoff_us q) = cutoff_us q \<and> distinct (cutoff_us q)"
    by (auto simp: enabled_policy_def Let_def rbind_Inr_iff cutoff_us_def comp_def
        simp del: require_all.simps)
  have "session_cutoffs p = session_cutoffs q" unfolding p by (simp add: session_cutoffs_def)
  moreover have "list_all (\<lambda>c. snd c \<noteq> None) (session_cutoffs q)"
    using cuts unfolding list_all_iff by force
  ultimately show ?thesis
    using us unfolding sort_distinct_iff ordered_policy_def cutoff_us_def by simp
qed

lemma valid_policy_zone:
  assumes "make_no_overnight_policy zones raw = Inr p"
  shows "\<exists>z. zones (np_timezone p) = Some z"
proof -
  obtain q where q: "zones (np_timezone q) \<noteq> None"
    and "(if np_mode q = DISABLED then Inr q else enabled_policy q) = Inr p"
    using assms by (auto simp: make_no_overnight_policy_def rbind_Inr_iff simp del: require_all.simps)
  then have "np_timezone p = np_timezone q"
    by (auto simp: enabled_policy_def Let_def rbind_Inr_iff simp del: require_all.simps
        split: if_splits)
  with q show ?thesis by auto
qed

text \<open>The rank of the phase is the number of cutoffs the wall clock has reached.\<close>

definition phase_rank :: "no_overnight_policy \<Rightarrow> int \<Rightarrow> nat" where
  "phase_rank p wall = length (filter (\<lambda>c. c \<le> wall) (tl (cutoff_us p)))"

lemma phase_rank_mono: "a \<le> b \<Longrightarrow> phase_rank p a \<le> phase_rank p b"
proof -
  assume "a \<le> b"
  then have "filter (\<lambda>c. c \<le> a) us = filter (\<lambda>c. c \<le> a) (filter (\<lambda>c. c \<le> b) us)" for us
    by (induction us) auto
  then show ?thesis unfolding phase_rank_def by (metis length_filter_le)
qed

lemma phase_state_ok:
  assumes "ordered_policy p"
  obtains s proof_mode where "phase_state p now e = Inr (s, proof_mode)"
    and "state_rank s = phase_rank p (wall_clock now)"
    and "s = CONFIRMED_FLAT \<longleftrightarrow> proof_mode \<noteq> None"
    and "s = CONFIRMED_FLAT \<Longrightarrow> proof_mode = strict_flat_proof e"
    and "s = OVERNIGHT_BREACH \<Longrightarrow> strict_flat_proof e = None"
proof -
  from assms obtain t0 t1 t2 t3 t4 t5 t6 where t:
    "np_market_open p = Some t0" "np_no_new_entry_at p = Some t1" "np_cancel_entry_at p = Some t2"
    "np_flatten_at p = Some t3" "np_aggressive_exit_at p = Some t4"
    "np_final_reconciliation_at p = Some t5" "np_reviewed_session_close p = Some t6"
    by (auto simp: ordered_policy_def session_cutoffs_def)
  then have us: "tl (cutoff_us p) = map wt_us [t1, t2, t3, t4, t5, t6]"
    by (simp add: cutoff_us_def session_cutoffs_def)
  have "sorted_wrt (<) (tl (cutoff_us p))"
    using assms by (cases "cutoff_us p") (auto simp: ordered_policy_def)
  with us have less: "wt_us t1 < wt_us t2" "wt_us t2 < wt_us t3" "wt_us t3 < wt_us t4"
    "wt_us t4 < wt_us t5" "wt_us t5 < wt_us t6" by simp_all
  have rank: "phase_rank p w = (if w < wt_us t1 then 0 else if w < wt_us t2 then 1
      else if w < wt_us t3 then 2 else if w < wt_us t4 then 3 else if w < wt_us t5 then 4
      else if w < wt_us t6 then 5 else 6)" for w
    using less by (simp add: phase_rank_def us)
  show thesis
    by (rule that [of "fst (projr (phase_state p now e))" "snd (projr (phase_state p now e))"])
      (simp_all add: phase_state_def t cutoff_def Let_def rank split: if_splits option.splits)
qed


section \<open>The plans of a session\<close>

lemma target_state_ok:
  assumes "ordered_policy p" and rank: "state_rank current \<le> phase_rank p (wall_clock now)"
  obtains t proof_mode where "target_state p now current e = Inr (t, proof_mode)"
    and "state_rank t = phase_rank p (wall_clock now)"
    and "current = OVERNIGHT_BREACH \<Longrightarrow> t = OVERNIGHT_BREACH"
    and "t = CONFIRMED_FLAT \<longleftrightarrow> proof_mode \<noteq> None"
    and "t = CONFIRMED_FLAT \<Longrightarrow> proof_mode = strict_flat_proof e"
    and "t = OVERNIGHT_BREACH \<Longrightarrow> current \<noteq> OVERNIGHT_BREACH \<Longrightarrow> strict_flat_proof e = None"
proof -
  obtain s m where s: "phase_state p now e = Inr (s, m)" "state_rank s = phase_rank p (wall_clock now)"
    "s = CONFIRMED_FLAT \<longleftrightarrow> m \<noteq> None" "s = CONFIRMED_FLAT \<Longrightarrow> m = strict_flat_proof e"
    "s = OVERNIGHT_BREACH \<Longrightarrow> strict_flat_proof e = None"
    using phase_state_ok [OF assms(1)] by metis
  show thesis
  proof (cases "current = OVERNIGHT_BREACH")
    case True
    have "state_rank s \<le> 6" by (cases s) simp_all
    with True rank s(2) have "phase_rank p (wall_clock now) = 6" by simp
    with True s(1,2) show thesis by (intro that [of OVERNIGHT_BREACH None]) (simp_all add: target_state_def)
  next
    case False
    with rank s show thesis by (intro that [of s m]) (auto simp: target_state_def Let_def)
  qed
qed

text \<open>
  \<open>run_once\<close> of the controller plans from the projected state and revision, and a plan with a
  newer revision is journalled, so the next plan starts from it.
\<close>

type_synonym plan_input = "datetime \<times> no_overnight_evidence \<times> bool"

fun plan_run ::
  "zones \<Rightarrow> (json \<Rightarrow> string) \<Rightarrow> no_overnight_policy \<Rightarrow> session_window \<Rightarrow> no_overnight_state \<Rightarrow> int
     \<Rightarrow> plan_input list \<Rightarrow> no_overnight_plan list res" where
  "plan_run zones sha p w current revision [] = Inr []"
| "plan_run zones sha p w current revision ((now, e, superseded) # rest) =
     rbind (plan_no_overnight_transition zones sha p w now current revision e superseded) (\<lambda>pl.
     rbind (plan_run zones sha p w (pl_state pl) (pl_revision pl) rest) (\<lambda>pls. Inr (pl # pls)))"

text \<open>A later plan never moves back, keeps a breach, and bumps the revision with the state.\<close>

definition advances ::
  "no_overnight_state \<Rightarrow> int \<Rightarrow> no_overnight_state \<Rightarrow> int \<Rightarrow> bool" where
  "advances s r s' r' \<longleftrightarrow> state_rank s \<le> state_rank s' \<and> r \<le> r' \<and> (s \<noteq> s' \<longrightarrow> r < r')
     \<and> (s = OVERNIGHT_BREACH \<longrightarrow> s' = OVERNIGHT_BREACH)"

definition plan_advances :: "no_overnight_plan \<Rightarrow> no_overnight_plan \<Rightarrow> bool" where
  "plan_advances a b \<longleftrightarrow> advances (pl_state a) (pl_revision a) (pl_state b) (pl_revision b)"

text \<open>A plan is in the phase of its clock, and a terminal state rests on the evidence.\<close>

fun plan_justified :: "no_overnight_policy \<Rightarrow> plan_input \<Rightarrow> no_overnight_plan \<Rightarrow> bool" where
  "plan_justified p (now, e, superseded) pl \<longleftrightarrow>
     pl_planned_at pl = now \<and> state_rank (pl_state pl) = phase_rank p (wall_clock now)
     \<and> pl_would_actions pl = expected_would_actions (pl_state pl)
     \<and> (pl_state pl = CONFIRMED_FLAT \<longrightarrow> strict_flat_proof e \<noteq> None
          \<and> pl_flat_proof_mode pl = map_option flat_proof_value (strict_flat_proof e))
     \<and> (pl_state pl = OVERNIGHT_BREACH \<longrightarrow>
          strict_flat_proof e = None \<or> pl_previous_state pl = OVERNIGHT_BREACH)"

definition input_accepted ::
  "zones \<Rightarrow> no_overnight_policy \<Rightarrow> session_window \<Rightarrow> plan_input \<Rightarrow> bool" where
  "input_accepted zones p w i \<longleftrightarrow>
     (case plan_clock_checks zones p w (fst i) 0 of Inl _ \<Rightarrow> False
      | Inr z \<Rightarrow> is_ok (plan_session_checks z p w (fst i) (fst (snd i))))"

lemma clock_checks_revision:
  "0 \<le> r \<Longrightarrow> plan_clock_checks zones p w now r = plan_clock_checks zones p w now 0"
  by (simp add: plan_clock_checks_def rbind_require)

lemma plan_ok:
  assumes "ordered_policy p" and accepted: "input_accepted zones p w (now, e, superseded)"
    and "state_rank current \<le> phase_rank p (wall_clock now)" and "0 \<le> r"
  obtains pl where "plan_no_overnight_transition zones sha p w now current r e superseded = Inr pl"
    and "plan_justified p (now, e, superseded) pl"
    and "advances current r (pl_state pl) (pl_revision pl)"
proof -
  obtain t m where t: "target_state p now current e = Inr (t, m)"
    "state_rank t = phase_rank p (wall_clock now)"
    "current = OVERNIGHT_BREACH \<Longrightarrow> t = OVERNIGHT_BREACH" "t = CONFIRMED_FLAT \<longleftrightarrow> m \<noteq> None"
    "t = CONFIRMED_FLAT \<Longrightarrow> m = strict_flat_proof e"
    "t = OVERNIGHT_BREACH \<Longrightarrow> current \<noteq> OVERNIGHT_BREACH \<Longrightarrow> strict_flat_proof e = None"
    using target_state_ok [OF assms(1,3)] by metis
  obtain z where z: "plan_clock_checks zones p w now 0 = Inr z"
    "plan_session_checks z p w now e = Inr ()"
    using accepted by (auto simp: input_accepted_def is_ok_iff split: sum.splits)
  let ?r' = "r + (if t \<noteq> current \<or> superseded then 1 else 0)"
  let ?pl = "planned sha current t ?r' now m (sha (planner_input sha p w now current r e superseded))"
  have "plan_no_overnight_transition zones sha p w now current r e superseded = Inr ?pl"
    using z t(1) clock_checks_revision [OF assms(4)] by (simp add: plan_no_overnight_transition_def)
  moreover have "plan_justified p (now, e, superseded) ?pl"
    using t by (simp add: planned_def Let_def) metis
  moreover have "advances current r (pl_state ?pl) (pl_revision ?pl)"
    using t(2,3) assms(3) by (simp add: planned_def Let_def advances_def)
  ultimately show thesis by (rule that)
qed

lemma advances_trans:
  "advances s r s' r' \<Longrightarrow> advances s' r' s'' r'' \<Longrightarrow> advances s r s'' r''"
  by (auto simp: advances_def)

lemma plan_run_ok:
  assumes "ordered_policy p" and "list_all (input_accepted zones p w) inputs"
    and "sorted_wrt (\<lambda>a b. wall_clock (fst a) \<le> wall_clock (fst b)) inputs"
    and "\<forall>i \<in> set inputs. state_rank s \<le> phase_rank p (wall_clock (fst i))" and "0 \<le> r"
  shows "\<exists>plans. plan_run zones sha p w s r inputs = Inr plans \<and> list_all2 (plan_justified p) inputs plans
      \<and> sorted_wrt plan_advances plans \<and> list_all (\<lambda>b. advances s r (pl_state b) (pl_revision b)) plans"
  using assms(2-)
proof (induction inputs arbitrary: s r)
  case (Cons i inputs)
  obtain now e superseded where i: "i = (now, e, superseded)" by (cases i)
  obtain pl where pl: "plan_no_overnight_transition zones sha p w now s r e superseded = Inr pl"
    "plan_justified p i pl" "advances s r (pl_state pl) (pl_revision pl)"
    using plan_ok [OF assms(1), of zones w now e superseded s r] Cons.prems i by auto
  have "state_rank (pl_state pl) = phase_rank p (wall_clock now)" using pl(2) i by simp
  then have "\<forall>j \<in> set inputs. state_rank (pl_state pl) \<le> phase_rank p (wall_clock (fst j))"
    using Cons.prems(2) i by (auto intro: phase_rank_mono)
  moreover have "0 \<le> pl_revision pl" using pl(3) Cons.prems(4) by (simp add: advances_def)
  ultimately obtain plans where plans: "plan_run zones sha p w (pl_state pl) (pl_revision pl) inputs = Inr plans"
    "list_all2 (plan_justified p) inputs plans" "sorted_wrt plan_advances plans"
    "list_all (\<lambda>b. advances (pl_state pl) (pl_revision pl) (pl_state b) (pl_revision b)) plans"
    using Cons.IH [of "pl_state pl" "pl_revision pl"] Cons.prems by auto
  have "list_all (\<lambda>b. advances s r (pl_state b) (pl_revision b)) plans"
    using plans(4) pl(3) by (auto simp: list_all_iff intro: advances_trans)
  moreover have "sorted_wrt plan_advances (pl # plans)"
    using plans(3,4) by (simp add: plan_advances_def [of pl] list_all_iff)
  ultimately show ?case
    using plans(1,2) pl unfolding i by (intro exI [of _ "pl # plans"]) simp
qed simp

text \<open>
  C7. Over a session the planner is total and only moves forward. Take a policy the constructor
  accepts, and the inputs of successive controller runs, each with a clock in the policy's time
  zone and evidence of the session that passes the planner's own checks, in the order of the wall
  clock. Starting from \<open>NORMAL\<close>, every run gets a plan: its state is the phase of its clock; the
  states never move backward, a changed state has a higher revision, and an overnight breach is
  never released. \<open>CONFIRMED_FLAT\<close> is planned only with a strict flat proof of the run's own
  evidence, whose kind the plan records, and a breach only where that proof is missing or a breach
  was already there.
\<close>

theorem session_plans_only_advance:
  assumes "make_no_overnight_policy zones raw = Inr p" and "np_mode p \<noteq> DISABLED"
    and "list_all (input_accepted zones p w) inputs"
    and "sorted_wrt (\<lambda>a b. wall_clock (fst a) \<le> wall_clock (fst b)) inputs"
  shows "\<exists>plans. plan_run zones sha p w NORMAL 0 inputs = Inr plans
      \<and> list_all2 (plan_justified p) inputs plans \<and> sorted_wrt plan_advances plans"
  using plan_run_ok [OF valid_policy_ordered [OF assms(1,2)] assms(3,4), of NORMAL 0] by auto


section \<open>A session in Taipei\<close>

definition taipei_zones :: zones where
  "taipei_zones name =
     (if name = ''Asia/Taipei''
      then Some \<lparr>zr_offset = (\<lambda>_. 28800000000), zr_local_offset = (\<lambda>_. 28800000000)\<rparr> else None)"

definition minute_cutoff :: "int \<Rightarrow> int \<Rightarrow> wall_time option" where
  "minute_cutoff h m = Some \<lparr>wt_us = (h * 60 + m) * 60000000, wt_aware = False, wt_fold = False\<rparr>"

definition example_no_overnight_policy :: no_overnight_policy where
  "example_no_overnight_policy =
     \<lparr>np_mode = ENFORCING, np_account_scope_id = ''acct'', np_policy_family_id = ''family'',
      np_policy_version = ''v1'', np_timezone = ''Asia/Taipei'', np_market_open = minute_cutoff 9 0,
      np_no_new_entry_at = minute_cutoff 13 0, np_cancel_entry_at = minute_cutoff 13 10,
      np_flatten_at = minute_cutoff 13 15, np_aggressive_exit_at = minute_cutoff 13 20,
      np_final_reconciliation_at = minute_cutoff 13 25,
      np_reviewed_session_close = minute_cutoff 13 30, np_max_exit_attempts = Some 3,
      np_retry_cooldown_seconds = Some 5, np_executable_book_policy_id = Some ''book'',
      np_controller_hosting_mode = SINGLE_HOST_SINGLE_WORKER,
      np_controller_guard_kind = POSTGRES_ADVISORY_LOCK,
      np_schema_version = NO_OVERNIGHT_POLICY_SCHEMA_VERSION,
      np_validation_algorithm_version = NO_OVERNIGHT_POLICY_VALIDATION_VERSION\<rparr>"

text \<open>A wall-clock time of 2025-07-01, which is day 20270.\<close>

definition taipei_at :: "int \<Rightarrow> int \<Rightarrow> datetime" where
  "taipei_at h m = \<lparr>instant = 20270 * day_us + (h * 60 + m) * 60000000 - 28800000000,
                   utcoffset = Some 28800000000\<rparr>"

definition taipei_window :: session_window where
  "taipei_window = \<lparr>sw_session_date = 20270, sw_timezone = ''Asia/Taipei'',
     sw_opens_at = taipei_at 9 0, sw_closes_at = taipei_at 13 30,
     sw_calendar_schema_version = ''cal-v1'', sw_calendar_digest = ''digest''\<rparr>"

definition example_evidence :: "managed_exposure list \<Rightarrow> datetime \<Rightarrow> no_overnight_evidence" where
  "example_evidence ms now = \<lparr>ne_session_date = 20270, ne_managed_exposures = ms,
     ne_pending_entry_quantity = [], ne_pending_exit_quantity = [], ne_unresolved_execution_ids = [],
     ne_reconciliation_status = REC_MATCH, ne_reconciliation_digest = replicate 64 CHR ''a'',
     ne_last_fill_sequence = 4, ne_last_execution_fact_sequence = 5, ne_covers_through_sequence = 5,
     ne_snapshot_sequence = 0, ne_source_as_of = now, ne_received_at = now\<rparr>"

definition example_managed :: "string \<Rightarrow> int \<Rightarrow> int \<Rightarrow> int \<Rightarrow> managed_exposure" where
  "example_managed x bought sold most = \<lparr>me_exposure_id = x, me_current_quantity = bought - sold,
     me_max_quantity_during_session = most, me_open_fill_quantity = bought,
     me_close_fill_quantity = sold\<rparr>"

definition example_plan_inputs :: "plan_input list" where
  "example_plan_inputs =
     [(taipei_at 13 5, example_evidence [example_managed ''x'' 1000 0 1000] (taipei_at 13 5), False),
      (taipei_at 13 31, example_evidence [example_managed ''x'' 1000 1000 1000] (taipei_at 13 31), False)]"

lemma example_policy_accepted:
  "make_no_overnight_policy taipei_zones example_no_overnight_policy = Inr example_no_overnight_policy"
  by code_simp

theorem session_plans_only_advance_witness:
  "\<exists>plans. plan_run taipei_zones (\<lambda>_. ''d'') example_no_overnight_policy taipei_window NORMAL 0
       example_plan_inputs = Inr plans
     \<and> list_all2 (plan_justified example_no_overnight_policy) example_plan_inputs plans
     \<and> sorted_wrt plan_advances plans"
  by (rule session_plans_only_advance [OF example_policy_accepted]) code_simp+

lemma example_session_states:
  "map_sum id (map pl_state) (plan_run taipei_zones (\<lambda>_. ''d'') example_no_overnight_policy
     taipei_window NORMAL 0 example_plan_inputs) = Inr [NO_NEW_ENTRY, CONFIRMED_FLAT]"
  by code_simp

text \<open>
  A flat book can still be planned as a breach: one exposure opened and closed by its fills beside
  one whose order never filled is neither never exposed nor closed by fills throughout.
\<close>

lemma mixed_book_has_no_proof:
  assumes "m \<in> set (ne_managed_exposures e)" "never_traded m"
    and "n \<in> set (ne_managed_exposures e)" "\<not> never_traded n"
  shows "strict_flat_proof e = None"
proof -
  have "\<not> closed_by_fills m" using assms(2) by (simp add: never_traded_def closed_by_fills_def)
  with assms show ?thesis by (auto simp: strict_flat_proof_def list_all_iff)
qed

lemma mixed_flat_book_is_a_breach:
  "map_sum id (map pl_state) (plan_run taipei_zones (\<lambda>_. ''d'') example_no_overnight_policy
     taipei_window NORMAL 0
     [(taipei_at 13 31, example_evidence [example_managed ''x'' 1000 1000 1000,
         example_managed ''y'' 0 0 0] (taipei_at 13 31), False)]) = Inr [OVERNIGHT_BREACH]"
  by code_simp

end
