(* ===== verification/No_Overnight_Admission.thy ===== *)
theory No_Overnight_Admission
  imports No_Overnight Risk_Gate
begin

text \<open>
  The no-overnight admission of order commands (\<open>trading/no_overnight_admission.py\<close>): the
  snapshot of server-owned facts with its revision fence, the decision and its payload, and the
  pure evaluation that blocks exposure-increasing commands.
\<close>

section \<open>Statuses and reasons\<close>

definition EXECUTION_ADMISSION_SCHEMA_VERSION :: string where
  "EXECUTION_ADMISSION_SCHEMA_VERSION = ''no_overnight_execution_admission_v2''"

datatype admission_status = ADM_APPROVED | ADM_BLOCKED | ADM_RECOVERY_REQUIRED

datatype admission_reason =
    AR_CUTOFF | AR_OPEN_BREACH | AR_RECOVERY_REQUIRED | AR_UNCLASSIFIED_CONFLICT | AR_SESSION_CLOSED
  | AR_INSTRUMENT_NOT_TRADABLE | AR_BOOK_UNAVAILABLE | AR_EXIT_DEADLINE | AR_GUARD_UNHEALTHY
  | AR_STATE_REVISION_CHANGED | AR_IDENTITY_CONFLICT

primrec admission_status_value :: "admission_status \<Rightarrow> string" where
  "admission_status_value ADM_APPROVED = ''APPROVED''"
| "admission_status_value ADM_BLOCKED = ''BLOCKED''"
| "admission_status_value ADM_RECOVERY_REQUIRED = ''RECOVERY_REQUIRED''"

primrec admission_reason_value :: "admission_reason \<Rightarrow> string" where
  "admission_reason_value AR_CUTOFF = ''NO_OVERNIGHT_CUTOFF''"
| "admission_reason_value AR_OPEN_BREACH = ''NO_OVERNIGHT_OPEN_BREACH''"
| "admission_reason_value AR_RECOVERY_REQUIRED = ''NO_OVERNIGHT_RECOVERY_REQUIRED''"
| "admission_reason_value AR_UNCLASSIFIED_CONFLICT = ''NO_OVERNIGHT_UNCLASSIFIED_CONFLICT''"
| "admission_reason_value AR_SESSION_CLOSED = ''NO_OVERNIGHT_SESSION_CLOSED''"
| "admission_reason_value AR_INSTRUMENT_NOT_TRADABLE = ''NO_OVERNIGHT_INSTRUMENT_NOT_TRADABLE''"
| "admission_reason_value AR_BOOK_UNAVAILABLE = ''NO_OVERNIGHT_BOOK_UNAVAILABLE''"
| "admission_reason_value AR_EXIT_DEADLINE = ''NO_OVERNIGHT_EXIT_DEADLINE''"
| "admission_reason_value AR_GUARD_UNHEALTHY = ''NO_OVERNIGHT_GUARD_UNHEALTHY''"
| "admission_reason_value AR_STATE_REVISION_CHANGED = ''NO_OVERNIGHT_STATE_REVISION_CHANGED''"
| "admission_reason_value AR_IDENTITY_CONFLICT = ''NO_OVERNIGHT_IDENTITY_CONFLICT''"

definition CUTOFF_STATES :: "no_overnight_state list" where
  "CUTOFF_STATES = [NO_NEW_ENTRY, CANCEL_ENTRY, FLATTENING, AGGRESSIVE_EXIT, FINAL_RECONCILIATION,
     CONFIRMED_FLAT, OVERNIGHT_BREACH]"

definition RECOVERY_REASONS :: "admission_reason list" where
  "RECOVERY_REASONS =
     [AR_RECOVERY_REQUIRED, AR_GUARD_UNHEALTHY, AR_STATE_REVISION_CHANGED, AR_IDENTITY_CONFLICT]"

section \<open>The admission snapshot\<close>

record admission_snapshot =
  as_evaluated_at :: datetime
  as_session_date :: int
  as_state :: no_overnight_state
  as_state_revision :: int
  as_policy_digest :: string
  as_calendar_digest :: string
  as_session_open :: bool
  as_instrument_tradable :: bool
  as_executable_book_ready :: bool
  as_guard_owned :: bool
  as_guard_healthy :: bool
  as_recovery_required :: bool
  as_breach_latched :: bool
  as_breach_session_date :: "int option"
  as_breach_revision :: int

definition admission_snapshot_post_init :: "admission_snapshot \<Rightarrow> unit res" where
  "admission_snapshot_post_init s = require_all [
     (dt_aware (as_evaluated_at s), ''evaluated_at must be timezone-aware''),
     (0 \<le> as_state_revision s, ''state_revision must be a non-negative integer''),
     (0 \<le> as_breach_revision s, ''breach_revision must be a non-negative integer''),
     (as_breach_latched s \<longrightarrow> as_breach_session_date s \<noteq> None \<and> 0 < as_breach_revision s,
      ''latched breach requires its session and revision''),
     (as_breach_latched s \<or> as_breach_session_date s = None \<and> as_breach_revision s = 0,
      ''unlatched breach cannot carry a breach fence''),
     (case as_breach_session_date s of None \<Rightarrow> True | Some d \<Rightarrow> d \<le> as_session_date s,
      ''breach_session_date cannot be in the future''),
     (is_sha256 (as_policy_digest s), ''policy_digest must be a lowercase SHA-256 digest''),
     (\<not> blank (as_calendar_digest s), ''calendar_digest must not be empty'')]"

text \<open>The revision fence covers the durable state, not the market or book facts.\<close>

definition admission_revision :: "(json \<Rightarrow> string) \<Rightarrow> admission_snapshot \<Rightarrow> string" where
  "admission_revision sha s = sha (JObj
     [(''schema_version'', JStr EXECUTION_ADMISSION_SCHEMA_VERSION),
      (''session_date'', JDate (as_session_date s)), (''state'', JStr (state_value (as_state s))),
      (''state_revision'', JInt (as_state_revision s)),
      (''policy_digest'', JStr (as_policy_digest s)),
      (''calendar_digest'', JStr (as_calendar_digest s)),
      (''breach_latched'', JBool (as_breach_latched s)),
      (''breach_session_date'', jopt JDate (as_breach_session_date s)),
      (''breach_revision'', JInt (as_breach_revision s))])"

definition snapshot_payload :: "(json \<Rightarrow> string) \<Rightarrow> admission_snapshot \<Rightarrow> (string \<times> json) list" where
  "snapshot_payload sha s =
     [(''evaluated_at'', JTime (as_evaluated_at s)), (''session_date'', JDate (as_session_date s)),
      (''state'', JStr (state_value (as_state s))), (''state_revision'', JInt (as_state_revision s)),
      (''policy_digest'', JStr (as_policy_digest s)),
      (''calendar_digest'', JStr (as_calendar_digest s)),
      (''session_open'', JBool (as_session_open s)),
      (''instrument_tradable'', JBool (as_instrument_tradable s)),
      (''executable_book_ready'', JBool (as_executable_book_ready s)),
      (''guard_owned'', JBool (as_guard_owned s)), (''guard_healthy'', JBool (as_guard_healthy s)),
      (''recovery_required'', JBool (as_recovery_required s)),
      (''breach_latched'', JBool (as_breach_latched s)),
      (''breach_session_date'', jopt JDate (as_breach_session_date s)),
      (''breach_revision'', JInt (as_breach_revision s)),
      (''admission_revision'', JStr (admission_revision sha s))]"

section \<open>Decisions\<close>

record admission_decision =
  ad_status :: admission_status
  ad_reasons :: "admission_reason list"
  ad_admission_revision :: string
  ad_snapshot :: admission_snapshot
  ad_final_check :: bool

definition admission_decision_post_init ::
  "(json \<Rightarrow> string) \<Rightarrow> admission_decision \<Rightarrow> unit res" where
  "admission_decision_post_init sha d = require_all [
     (is_sha256 (ad_admission_revision d), ''admission_revision must be a lowercase SHA-256 digest''),
     (ad_admission_revision d = admission_revision sha (ad_snapshot d),
      ''admission revision does not match snapshot''),
     (ad_status d = ADM_APPROVED \<longrightarrow> ad_reasons d = [], ''approved admission must not have reasons''),
     (ad_status d = ADM_APPROVED \<or> ad_reasons d \<noteq> [], ''non-approved admission requires reasons''),
     (distinct (ad_reasons d), ''admission reasons must not contain duplicates'')]"

definition make_admission_decision ::
  "(json \<Rightarrow> string) \<Rightarrow> admission_status \<Rightarrow> admission_reason list \<Rightarrow> admission_snapshot \<Rightarrow> bool
     \<Rightarrow> admission_decision res" where
  "make_admission_decision sha status reasons s final =
     (let d = \<lparr>ad_status = status, ad_reasons = reasons,
               ad_admission_revision = admission_revision sha s, ad_snapshot = s,
               ad_final_check = final\<rparr>
      in rbind (admission_decision_post_init sha d) (\<lambda>_. Inr d))"

definition decision_payload :: "(json \<Rightarrow> string) \<Rightarrow> admission_decision \<Rightarrow> (string \<times> json) list" where
  "decision_payload sha d =
     [(''schema_version'', JStr EXECUTION_ADMISSION_SCHEMA_VERSION),
      (''status'', JStr (admission_status_value (ad_status d))),
      (''reasons'', JList (map (\<lambda>r. JStr (admission_reason_value r)) (ad_reasons d))),
      (''admission_revision'', JStr (ad_admission_revision d)),
      (''final_check'', JBool (ad_final_check d)),
      (''snapshot'', JObj (snapshot_payload sha (ad_snapshot d)))]"

text \<open>\<open>tuple(dict.fromkeys(reasons))\<close>: the first occurrence of each reason.\<close>

fun reason_keys :: "'a list \<Rightarrow> 'a list" where
  "reason_keys [] = []"
| "reason_keys (x # xs) = x # filter (\<lambda>y. y \<noteq> x) (reason_keys xs)"

definition recovery_status :: "admission_reason list \<Rightarrow> admission_status" where
  "recovery_status reasons =
     (if list_ex (List.member RECOVERY_REASONS) reasons then ADM_RECOVERY_REQUIRED else ADM_BLOCKED)"

section \<open>Evaluation\<close>

definition expected_differs :: "(json \<Rightarrow> string) \<Rightarrow> admission_snapshot \<Rightarrow> string option \<Rightarrow> bool" where
  "expected_differs sha s expected =
     (case expected of None \<Rightarrow> False | Some r \<Rightarrow> r \<noteq> admission_revision sha s)"

text \<open>Outside \<open>ENFORCING\<close> only recovery and an open breach stop a BUY.\<close>

definition unenforced_reasons ::
  "(json \<Rightarrow> string) \<Rightarrow> admission_snapshot \<Rightarrow> string option \<Rightarrow> admission_reason list" where
  "unenforced_reasons sha s expected =
     (if expected_differs sha s expected then [AR_STATE_REVISION_CHANGED] else [])
     @ (if as_recovery_required s then [AR_RECOVERY_REQUIRED] else [])
     @ (if as_breach_latched s then [AR_OPEN_BREACH] else [])"

text \<open>The identity, recovery, guard and market reasons.\<close>

definition identity_reasons ::
  "(json \<Rightarrow> string) \<Rightarrow> zone_rules \<Rightarrow> order_command \<Rightarrow> no_overnight_policy \<Rightarrow> admission_snapshot
     \<Rightarrow> admission_reason list" where
  "identity_reasons sha z c p s =
     (if dt_date (astimezone z (oc_requested_at c)) \<noteq> as_session_date s
         \<or> dt_date (astimezone z (as_evaluated_at s)) \<noteq> as_session_date s
      then [AR_IDENTITY_CONFLICT] else [])
     @ (case oc_exposure c of None \<Rightarrow> [AR_IDENTITY_CONFLICT]
        | Some x \<Rightarrow> if ei_account_scope_id x \<noteq> np_account_scope_id p
                      \<or> ei_policy_family_id x \<noteq> np_policy_family_id p
                   then [AR_IDENTITY_CONFLICT] else [])
     @ (if as_policy_digest s \<noteq> no_overnight_policy_digest sha p then [AR_IDENTITY_CONFLICT] else [])
     @ (case oc_exposure c of None \<Rightarrow> []
        | Some x \<Rightarrow> if oc_side c = BUY \<and> ei_holding_horizon x \<noteq> UNCLASSIFIED_LEGACY
                      \<and> ei_entry_session_date x \<noteq> Some (as_session_date s)
                   then [AR_IDENTITY_CONFLICT] else [])"

definition availability_reasons :: "bool \<Rightarrow> admission_snapshot \<Rightarrow> admission_reason list" where
  "availability_reasons increasing s =
     (if increasing \<and> as_recovery_required s then [AR_RECOVERY_REQUIRED] else [])
     @ (if increasing \<and> (\<not> as_guard_owned s \<or> \<not> as_guard_healthy s) then [AR_GUARD_UNHEALTHY] else [])
     @ (if \<not> as_session_open s then [AR_SESSION_CLOSED] else [])
     @ (if \<not> as_instrument_tradable s then [AR_INSTRUMENT_NOT_TRADABLE] else [])
     @ (if \<not> as_executable_book_ready s then [AR_BOOK_UNAVAILABLE] else [])"

text \<open>
  The wall clocks of the request and of the evaluation, in the policy's zone, against a cutoff.
  \<open>or\<close> stops at the first true operand, but both compare with the same cutoff.
\<close>

definition reached ::
  "zone_rules \<Rightarrow> order_command \<Rightarrow> admission_snapshot \<Rightarrow> wall_time option \<Rightarrow> bool res" where
  "reached z c s t =
     rbind (cutoff t) (\<lambda>us.
     Inr (us \<le> wall_clock (astimezone z (oc_requested_at c))
          \<or> us \<le> wall_clock (astimezone z (as_evaluated_at s))))"

definition exit_reasons ::
  "zone_rules \<Rightarrow> order_command \<Rightarrow> no_overnight_policy \<Rightarrow> admission_snapshot
     \<Rightarrow> admission_reason list res" where
  "exit_reasons z c p s =
     (if oc_side c \<noteq> BUY \<and> oc_execution_reason_code c = Some ''NO_OVERNIGHT_EXIT''
      then rbind (reached z c s (np_final_reconciliation_at p)) (\<lambda>late.
           Inr (if late then [AR_EXIT_DEADLINE] else []))
      else Inr [])"

definition entry_reasons ::
  "zone_rules \<Rightarrow> order_command \<Rightarrow> no_overnight_policy \<Rightarrow> admission_snapshot
     \<Rightarrow> admission_reason list res" where
  "entry_reasons z c p s =
     (if oc_side c \<noteq> BUY then Inr []
      else let breach = (if as_breach_latched s \<or> as_state s = OVERNIGHT_BREACH
                         then [AR_OPEN_BREACH] else [])
           in case oc_exposure c of None \<Rightarrow> Inr breach
              | Some x \<Rightarrow>
                let unclassified = (if ei_holding_horizon x = UNCLASSIFIED_LEGACY
                                    then [AR_UNCLASSIFIED_CONFLICT] else [])
                in if no_overnight_managed x
                   then rbind (reached z c s (np_no_new_entry_at p)) (\<lambda>late.
                        Inr (breach @ unclassified
                             @ (if late \<or> List.member CUTOFF_STATES (as_state s) then [AR_CUTOFF] else [])))
                   else Inr (breach @ unclassified))"

definition enforced_reasons ::
  "(json \<Rightarrow> string) \<Rightarrow> zone_rules \<Rightarrow> order_command \<Rightarrow> no_overnight_policy \<Rightarrow> admission_snapshot
     \<Rightarrow> admission_reason list res" where
  "enforced_reasons sha z c p s =
     rbind (exit_reasons z c p s) (\<lambda>exits.
     rbind (entry_reasons z c p s) (\<lambda>entries.
     Inr (reason_keys (identity_reasons sha z c p s @ availability_reasons (oc_side c = BUY) s
                    @ exits @ entries))))"

definition admission_arguments :: "string option \<Rightarrow> bool \<Rightarrow> unit res" where
  "admission_arguments expected final =
     (case expected of
        None \<Rightarrow> if final then Inl (ValueError ''final admission requires expected_revision'') else Inr ()
      | Some r \<Rightarrow> if is_sha256 r then Inr ()
                 else Inl (ValueError ''expected_revision must be a lowercase SHA-256 digest''))"

definition evaluate_execution_admission ::
  "zones \<Rightarrow> (json \<Rightarrow> string) \<Rightarrow> order_command \<Rightarrow> no_overnight_policy \<Rightarrow> admission_snapshot
     \<Rightarrow> string option \<Rightarrow> bool \<Rightarrow> admission_decision res" where
  "evaluate_execution_admission zones sha c p s expected final =
     rbind (admission_arguments expected final) (\<lambda>_.
     if np_mode p \<noteq> ENFORCING
     then (let reasons = (if oc_side c \<noteq> BUY then [] else unenforced_reasons sha s expected)
           in make_admission_decision sha
                (if reasons = [] then ADM_APPROVED else recovery_status reasons) reasons s final)
     else if oc_side c = BUY \<and> expected_differs sha s expected
     then make_admission_decision sha ADM_RECOVERY_REQUIRED [AR_STATE_REVISION_CHANGED] s final
     else rbind (zone_info zones (np_timezone p)) (\<lambda>z.
          rbind (enforced_reasons sha z c p s) (\<lambda>reasons.
          make_admission_decision sha
            (if reasons = [] then ADM_APPROVED else recovery_status reasons) reasons s final)))"


section \<open>Reading payloads back\<close>

definition SNAPSHOT_STRINGS :: "string list" where
  "SNAPSHOT_STRINGS = [''evaluated_at'', ''session_date'', ''state'', ''policy_digest'',
     ''calendar_digest'', ''admission_revision'']"

definition SNAPSHOT_BOOLS :: "string list" where
  "SNAPSHOT_BOOLS = [''session_open'', ''instrument_tradable'', ''executable_book_ready'',
     ''guard_owned'', ''guard_healthy'', ''recovery_required'', ''breach_latched'']"

definition SNAPSHOT_INTS :: "string list" where
  "SNAPSHOT_INTS = [''state_revision'', ''breach_revision'']"

definition SNAPSHOT_FIELDS :: "string list" where
  "SNAPSHOT_FIELDS =
     SNAPSHOT_STRINGS @ SNAPSHOT_BOOLS @ SNAPSHOT_INTS @ [''breach_session_date'']"

definition exactly_fields :: "(string \<times> json) list \<Rightarrow> string list \<Rightarrow> bool" where
  "exactly_fields ms ks \<longleftrightarrow>
     list_all (\<lambda>m. List.member ks (fst m)) ms \<and> list_all (\<lambda>k. map_of ms k \<noteq> None) ks"

definition bool_at :: "(string \<times> json) list \<Rightarrow> string \<Rightarrow> bool option" where
  "bool_at ms k = (case map_of ms k of Some (JBool b) \<Rightarrow> Some b | _ \<Rightarrow> None)"

definition int_at :: "(string \<times> json) list \<Rightarrow> string \<Rightarrow> int option" where
  "int_at ms k = (case map_of ms k of Some (JInt i) \<Rightarrow> Some i | _ \<Rightarrow> None)"

definition STATES :: "no_overnight_state list" where
  "STATES = NORMAL # CUTOFF_STATES"

text \<open>
  \<open>datetime.fromisoformat\<close> of a value: what \<open>isoformat\<close> printed is read back; the reader of any
  other text is the parameter \<open>read_time\<close>.
\<close>

definition time_of_json :: "(string \<Rightarrow> datetime option) \<Rightarrow> json \<Rightarrow> datetime res" where
  "time_of_json read_time v =
     (let bad = Inl (ValueError ''Invalid isoformat string'')
      in case v of JTime t \<Rightarrow> Inr t
         | _ \<Rightarrow> (case text_of v of None \<Rightarrow> bad
                | Some s \<Rightarrow> (case read_time s of None \<Rightarrow> bad | Some t \<Rightarrow> Inr t)))"

definition date_of_json :: "json \<Rightarrow> int res" where
  "date_of_json v =
     (let bad = Inl (ValueError ''Invalid isoformat string'')
      in case v of JDate d \<Rightarrow> Inr d
         | _ \<Rightarrow> (case text_of v of None \<Rightarrow> bad
                | Some s \<Rightarrow> (case parse_date s of None \<Rightarrow> bad | Some d \<Rightarrow> Inr d)))"

definition snapshot_type_checks :: "(string \<times> json) list \<Rightarrow> unit res" where
  "snapshot_type_checks ms = require_all [
     (exactly_fields ms SNAPSHOT_FIELDS, ''execution admission snapshot fields are invalid''),
     (list_all (\<lambda>k. text_at ms k \<noteq> None) SNAPSHOT_STRINGS,
      ''execution admission snapshot string field is invalid''),
     (map_of ms ''breach_session_date'' = Some JNull \<or> text_at ms ''breach_session_date'' \<noteq> None,
      ''execution admission breach session is invalid''),
     (list_all (\<lambda>k. bool_at ms k \<noteq> None) SNAPSHOT_BOOLS,
      ''execution admission snapshot boolean field is invalid''),
     (list_all (\<lambda>k. int_at ms k \<noteq> None) SNAPSHOT_INTS,
      ''execution admission snapshot revision is invalid'')]"

definition snapshot_from_payload ::
  "(string \<Rightarrow> datetime option) \<Rightarrow> (json \<Rightarrow> string) \<Rightarrow> (string \<times> json) list
     \<Rightarrow> admission_snapshot res" where
  "snapshot_from_payload read_time sha ms =
     rbind (snapshot_type_checks ms) (\<lambda>_.
     rbind (time_of_json read_time (the (map_of ms ''evaluated_at''))) (\<lambda>evaluated.
     rbind (date_of_json (the (map_of ms ''session_date''))) (\<lambda>session.
     rbind (enum_of state_value STATES (the (text_at ms ''state''))) (\<lambda>state.
     rbind (optional_date (the (map_of ms ''breach_session_date''))) (\<lambda>breach_date.
     let flag = (\<lambda>k. the (bool_at ms k));
         s = \<lparr>as_evaluated_at = evaluated, as_session_date = session, as_state = state,
           as_state_revision = the (int_at ms ''state_revision''),
           as_policy_digest = the (text_at ms ''policy_digest''),
           as_calendar_digest = the (text_at ms ''calendar_digest''),
           as_session_open = flag ''session_open'',
           as_instrument_tradable = flag ''instrument_tradable'',
           as_executable_book_ready = flag ''executable_book_ready'',
           as_guard_owned = flag ''guard_owned'', as_guard_healthy = flag ''guard_healthy'',
           as_recovery_required = flag ''recovery_required'',
           as_breach_latched = flag ''breach_latched'', as_breach_session_date = breach_date,
           as_breach_revision = the (int_at ms ''breach_revision'')\<rparr>
     in rbind (admission_snapshot_post_init s) (\<lambda>_.
        if text_at ms ''admission_revision'' = Some (admission_revision sha s) then Inr s
        else Inl (ValueError ''execution admission snapshot revision conflicts'')))))))"

definition DECISION_FIELDS :: "string list" where
  "DECISION_FIELDS = [''schema_version'', ''status'', ''reasons'', ''admission_revision'',
     ''final_check'', ''snapshot'']"

definition ADMISSION_STATUSES :: "admission_status list" where
  "ADMISSION_STATUSES = [ADM_APPROVED, ADM_BLOCKED, ADM_RECOVERY_REQUIRED]"

definition ADMISSION_REASONS :: "admission_reason list" where
  "ADMISSION_REASONS = [AR_CUTOFF, AR_OPEN_BREACH, AR_RECOVERY_REQUIRED, AR_UNCLASSIFIED_CONFLICT,
     AR_SESSION_CLOSED, AR_INSTRUMENT_NOT_TRADABLE, AR_BOOK_UNAVAILABLE, AR_EXIT_DEADLINE,
     AR_GUARD_UNHEALTHY, AR_STATE_REVISION_CHANGED, AR_IDENTITY_CONFLICT]"

definition reasons_at :: "(string \<times> json) list \<Rightarrow> string list option" where
  "reasons_at ms =
     (case map_of ms ''reasons'' of
        Some (JList vs) \<Rightarrow> if list_all (\<lambda>v. text_of v \<noteq> None) vs then Some (map (the \<circ> text_of) vs)
                           else None
      | _ \<Rightarrow> None)"

definition object_at :: "(string \<times> json) list \<Rightarrow> string \<Rightarrow> (string \<times> json) list option" where
  "object_at ms k = (case map_of ms k of Some (JObj fs) \<Rightarrow> Some fs | _ \<Rightarrow> None)"

definition decision_type_checks :: "(string \<times> json) list \<Rightarrow> unit res" where
  "decision_type_checks ms = require_all [
     (exactly_fields ms DECISION_FIELDS, ''execution admission decision fields are invalid''),
     (text_at ms ''schema_version'' = Some EXECUTION_ADMISSION_SCHEMA_VERSION,
      ''execution admission schema is unsupported''),
     (text_at ms ''status'' \<noteq> None, ''execution admission status is invalid''),
     (reasons_at ms \<noteq> None, ''execution admission reasons are invalid''),
     (text_at ms ''admission_revision'' \<noteq> None, ''execution admission revision is invalid''),
     (bool_at ms ''final_check'' \<noteq> None, ''execution admission final_check is invalid''),
     (object_at ms ''snapshot'' \<noteq> None, ''execution admission snapshot is invalid'')]"

definition decision_from_payload ::
  "(string \<Rightarrow> datetime option) \<Rightarrow> (json \<Rightarrow> string) \<Rightarrow> (string \<times> json) list
     \<Rightarrow> admission_decision res" where
  "decision_from_payload read_time sha ms =
     rbind (decision_type_checks ms) (\<lambda>_.
     rbind (enum_of admission_status_value ADMISSION_STATUSES (the (text_at ms ''status''))) (\<lambda>status.
     rbind (rmap (enum_of admission_reason_value ADMISSION_REASONS) (the (reasons_at ms))) (\<lambda>reasons.
     rbind (snapshot_from_payload read_time sha (the (object_at ms ''snapshot''))) (\<lambda>s.
     let d = \<lparr>ad_status = status, ad_reasons = reasons,
              ad_admission_revision = the (text_at ms ''admission_revision''), ad_snapshot = s,
              ad_final_check = the (bool_at ms ''final_check'')\<rparr>
     in rbind (admission_decision_post_init sha d) (\<lambda>_. Inr d)))))"

section \<open>Payload round trips\<close>

lemma state_of_value [simp]: "enum_of state_value STATES (state_value s) = Inr s"
  by (cases s) (simp_all add: STATES_def CUTOFF_STATES_def)

lemma status_of_value [simp]:
  "enum_of admission_status_value ADMISSION_STATUSES (admission_status_value s) = Inr s"
  by (cases s) (simp_all add: ADMISSION_STATUSES_def)

lemma reason_of_value [simp]:
  "enum_of admission_reason_value ADMISSION_REASONS (admission_reason_value r) = Inr r"
  by (cases r) (simp_all add: ADMISSION_REASONS_def)

lemmas payload_reads = text_at_def bool_at_def int_at_def text_of_def exactly_fields_def
  SNAPSHOT_FIELDS_def SNAPSHOT_STRINGS_def SNAPSHOT_BOOLS_def SNAPSHOT_INTS_def

lemma snapshot_payload_types: "snapshot_type_checks (snapshot_payload sha s) = Inr ()"
  by (simp add: snapshot_type_checks_def snapshot_payload_def payload_reads jopt_def
      split: option.splits)

lemma snapshot_payload_roundtrip:
  assumes "admission_snapshot_post_init s = Inr ()"
  shows "snapshot_from_payload read_time sha (snapshot_payload sha s) = Inr s"
  using assms unfolding snapshot_from_payload_def snapshot_payload_types rbind.simps
  by (cases s) (simp add: snapshot_payload_def text_at_def bool_at_def int_at_def text_of_def
      time_of_json_def date_of_json_def Let_def)

lemma reasons_of_values [simp]:
  "rmap (enum_of admission_reason_value ADMISSION_REASONS) (map admission_reason_value rs) = Inr rs"
  by (induction rs) simp_all

lemma decision_payload_roundtrip:
  assumes "admission_decision_post_init sha d = Inr ()"
    and "admission_snapshot_post_init (ad_snapshot d) = Inr ()"
  shows "decision_from_payload read_time sha (decision_payload sha d) = Inr d"
proof -
  let ?ms = "decision_payload sha d"
  have reads: "text_at ?ms ''status'' = Some (admission_status_value (ad_status d))"
    "reasons_at ?ms = Some (map admission_reason_value (ad_reasons d))"
    "text_at ?ms ''admission_revision'' = Some (ad_admission_revision d)"
    "bool_at ?ms ''final_check'' = Some (ad_final_check d)"
    "object_at ?ms ''snapshot'' = Some (snapshot_payload sha (ad_snapshot d))"
    "text_at ?ms ''schema_version'' = Some EXECUTION_ADMISSION_SCHEMA_VERSION"
    "exactly_fields ?ms DECISION_FIELDS"
    by (simp_all add: decision_payload_def text_at_def bool_at_def reasons_at_def object_at_def
        text_of_def exactly_fields_def DECISION_FIELDS_def list_all_iff)
  have types: "decision_type_checks ?ms = Inr ()" by (simp add: decision_type_checks_def reads)
  have same: "\<lparr>ad_status = ad_status d, ad_reasons = ad_reasons d,
      ad_admission_revision = ad_admission_revision d, ad_snapshot = ad_snapshot d,
      ad_final_check = ad_final_check d\<rparr> = d" by (cases d) simp
  show ?thesis using assms
    by (simp add: decision_from_payload_def types reads snapshot_payload_roundtrip Let_def same)
qed

section \<open>What admission guarantees\<close>

lemma reason_keys_set [simp]: "set (reason_keys xs) = set xs"
  by (induction xs) auto

lemma reason_keys_distinct [simp]: "distinct (reason_keys xs)"
  by (induction xs) auto

lemma reason_keys_Nil [simp]: "reason_keys xs = [] \<longleftrightarrow> xs = []"
  by (cases xs) simp_all

lemma recovery_status_not_approved [simp]: "recovery_status rs \<noteq> ADM_APPROVED"
  by (simp add: recovery_status_def)

lemma make_decision_ok:
  assumes "is_sha256 (admission_revision sha s)" and "distinct reasons"
    and "status = ADM_APPROVED \<longleftrightarrow> reasons = []"
  shows "\<exists>d. make_admission_decision sha status reasons s final = Inr d
     \<and> ad_status d = status \<and> ad_reasons d = reasons"
  using assms
  by (simp add: make_admission_decision_def admission_decision_post_init_def Let_def)

text \<open>
  When a BUY of the account's policy may go out: a current fence, a sound session and controller,
  the market and book ready, the command's exposure entered in this session; and for a managed
  exposure the state is still \<open>NORMAL\<close> and both clocks are before the no-new-entry cutoff.
\<close>

definition managed_entry_open ::
  "zone_rules \<Rightarrow> order_command \<Rightarrow> no_overnight_policy \<Rightarrow> admission_snapshot \<Rightarrow> bool" where
  "managed_entry_open z c p s \<longleftrightarrow>
     (let latest = wt_us (the (np_no_new_entry_at p))
      in as_state s = NORMAL \<and> wall_clock (astimezone z (oc_requested_at c)) < latest
         \<and> wall_clock (astimezone z (as_evaluated_at s)) < latest)"

definition entry_exposure_ok ::
  "zone_rules \<Rightarrow> order_command \<Rightarrow> no_overnight_policy \<Rightarrow> admission_snapshot \<Rightarrow> bool" where
  "entry_exposure_ok z c p s \<longleftrightarrow>
     (case oc_exposure c of None \<Rightarrow> False
      | Some x \<Rightarrow> ei_account_scope_id x = np_account_scope_id p
          \<and> ei_policy_family_id x = np_policy_family_id p
          \<and> ei_holding_horizon x \<noteq> UNCLASSIFIED_LEGACY
          \<and> ei_entry_session_date x = Some (as_session_date s)
          \<and> (no_overnight_managed x \<longrightarrow> managed_entry_open z c p s))"

definition entry_admissible ::
  "(json \<Rightarrow> string) \<Rightarrow> zone_rules \<Rightarrow> order_command \<Rightarrow> no_overnight_policy \<Rightarrow> admission_snapshot
     \<Rightarrow> string option \<Rightarrow> bool" where
  "entry_admissible sha z c p s expected \<longleftrightarrow>
     \<not> expected_differs sha s expected
     \<and> dt_date (astimezone z (oc_requested_at c)) = as_session_date s
     \<and> dt_date (astimezone z (as_evaluated_at s)) = as_session_date s
     \<and> as_policy_digest s = no_overnight_policy_digest sha p
     \<and> \<not> as_recovery_required s \<and> as_guard_owned s \<and> as_guard_healthy s
     \<and> as_session_open s \<and> as_instrument_tradable s \<and> as_executable_book_ready s
     \<and> \<not> as_breach_latched s \<and> as_state s \<noteq> OVERNIGHT_BREACH
     \<and> entry_exposure_ok z c p s"

lemma cutoff_state_iff: "st \<in> set CUTOFF_STATES \<longleftrightarrow> st \<noteq> NORMAL"
  by (cases st) (simp_all add: CUTOFF_STATES_def)

lemma identity_reasons_Nil:
  "oc_side c = BUY \<Longrightarrow> identity_reasons sha z c p s = [] \<longleftrightarrow>
     dt_date (astimezone z (oc_requested_at c)) = as_session_date s
     \<and> dt_date (astimezone z (as_evaluated_at s)) = as_session_date s
     \<and> as_policy_digest s = no_overnight_policy_digest sha p
     \<and> (case oc_exposure c of None \<Rightarrow> False
        | Some x \<Rightarrow> ei_account_scope_id x = np_account_scope_id p
            \<and> ei_policy_family_id x = np_policy_family_id p
            \<and> (ei_holding_horizon x \<noteq> UNCLASSIFIED_LEGACY \<longrightarrow>
                 ei_entry_session_date x = Some (as_session_date s)))"
  by (auto simp: identity_reasons_def split: option.splits)

lemma availability_reasons_Nil:
  "availability_reasons True s = [] \<longleftrightarrow> \<not> as_recovery_required s \<and> as_guard_owned s
     \<and> as_guard_healthy s \<and> as_session_open s \<and> as_instrument_tradable s \<and> as_executable_book_ready s"
  by (auto simp: availability_reasons_def)

lemma entry_reasons_Nil:
  assumes "oc_side c = BUY" and "np_no_new_entry_at p = Some t"
  shows "\<exists>rs. entry_reasons z c p s = Inr rs
     \<and> (rs = [] \<longleftrightarrow> \<not> as_breach_latched s \<and> as_state s \<noteq> OVERNIGHT_BREACH
         \<and> (case oc_exposure c of None \<Rightarrow> True
            | Some x \<Rightarrow> ei_holding_horizon x \<noteq> UNCLASSIFIED_LEGACY
                \<and> (no_overnight_managed x \<longrightarrow> managed_entry_open z c p s)))"
  using assms
  by (cases "oc_exposure c")
    (auto simp: entry_reasons_def reached_def cutoff_def cutoff_state_iff managed_entry_open_def Let_def)

lemma enforced_buy_reasons:
  assumes "oc_side c = BUY" and "np_no_new_entry_at p = Some t"
  shows "\<exists>rs. enforced_reasons sha z c p s = Inr rs \<and> distinct rs
     \<and> (\<not> expected_differs sha s expected \<and> rs = [] \<longleftrightarrow> entry_admissible sha z c p s expected)"
proof -
  obtain rs where rs: "entry_reasons z c p s = Inr rs"
    "rs = [] \<longleftrightarrow> \<not> as_breach_latched s \<and> as_state s \<noteq> OVERNIGHT_BREACH
       \<and> (case oc_exposure c of None \<Rightarrow> True
          | Some x \<Rightarrow> ei_holding_horizon x \<noteq> UNCLASSIFIED_LEGACY
              \<and> (no_overnight_managed x \<longrightarrow> managed_entry_open z c p s))"
    using entry_reasons_Nil [OF assms] by blast
  let ?all = "identity_reasons sha z c p s @ availability_reasons True s @ rs"
  have "enforced_reasons sha z c p s = Inr (reason_keys ?all)"
    using assms(1) rs(1) by (simp add: enforced_reasons_def exit_reasons_def)
  moreover have "\<not> expected_differs sha s expected \<and> ?all = [] \<longleftrightarrow> entry_admissible sha z c p s expected"
    unfolding append_is_Nil_conv identity_reasons_Nil [OF assms(1)] availability_reasons_Nil rs(2)
      entry_admissible_def entry_exposure_ok_def
    by (cases "oc_exposure c") auto
  ultimately show ?thesis
    by (intro exI [of _ "reason_keys ?all"] conjI) (simp_all only: reason_keys_distinct reason_keys_Nil)
qed

text \<open>
  C8. Under an enforcing policy the admission of a BUY is total and exact: for a policy the
  constructor accepts and digests that are SHA-256 hex, every evaluation with valid arguments
  returns a decision, and the decision approves the command if and only if the entry is
  admissible: the expected revision still is the snapshot's, request and evaluation fall on the
  session, the policy, account and exposure identities match, no recovery is required, the
  controller guard is owned and healthy, the session, instrument and book are ready, no overnight
  breach is latched or current, and a managed intraday exposure is requested and evaluated before
  the no-new-entry cutoff while the state is still \<open>NORMAL\<close>.
\<close>

theorem entry_admission_exact:
  assumes "make_no_overnight_policy zones raw = Inr p" and "np_mode p = ENFORCING"
    and "oc_side c = BUY" and "admission_arguments expected final = Inr ()"
    and "\<And>j. is_sha256 (sha j)"
  shows "\<exists>z d. zones (np_timezone p) = Some z
     \<and> evaluate_execution_admission zones sha c p s expected final = Inr d
     \<and> (ad_status d = ADM_APPROVED \<longleftrightarrow> entry_admissible sha z c p s expected)"
proof -
  have "ordered_policy p" using assms(1,2) by (intro valid_policy_ordered) simp_all
  then obtain t where t: "np_no_new_entry_at p = Some t"
    by (auto simp: ordered_policy_def session_cutoffs_def)
  obtain z where z: "zones (np_timezone p) = Some z" using valid_policy_zone [OF assms(1)] by blast
  obtain rs where rs: "enforced_reasons sha z c p s = Inr rs" "distinct rs"
    "\<not> expected_differs sha s expected \<and> rs = [] \<longleftrightarrow> entry_admissible sha z c p s expected"
    using enforced_buy_reasons [OF assms(3) t] by blast
  have sha: "is_sha256 (admission_revision sha s)" by (simp add: admission_revision_def assms(5))
  show ?thesis
  proof (cases "expected_differs sha s expected")
    case True
    with rs(3) make_decision_ok [OF sha, of "[AR_STATE_REVISION_CHANGED]" ADM_RECOVERY_REQUIRED final]
    show ?thesis using assms(2-4) z by (auto simp: evaluate_execution_admission_def)
  next
    case False
    let ?status = "if rs = [] then ADM_APPROVED else recovery_status rs"
    have "?status = ADM_APPROVED \<longleftrightarrow> rs = []" by simp
    then obtain d where "make_admission_decision sha ?status rs s final = Inr d" "ad_status d = ?status"
      using make_decision_ok [OF sha rs(2)] by blast
    with False rs assms(2-4) z show ?thesis
      by (auto simp: evaluate_execution_admission_def zone_info_def)
  qed
qed


text \<open>A command that only reduces exposure is never held back by recovery, guard or breach.\<close>

lemma exits_not_held_back:
  assumes "oc_side c \<noteq> BUY" and "enforced_reasons sha z c p s = Inr rs"
  shows "set rs \<subseteq> {AR_IDENTITY_CONFLICT, AR_SESSION_CLOSED, AR_INSTRUMENT_NOT_TRADABLE,
           AR_BOOK_UNAVAILABLE, AR_EXIT_DEADLINE}"
proof -
  have "set (identity_reasons sha z c p s) \<subseteq> {AR_IDENTITY_CONFLICT}"
    by (auto simp: identity_reasons_def split: option.splits)
  moreover have "set (availability_reasons False s)
      \<subseteq> {AR_SESSION_CLOSED, AR_INSTRUMENT_NOT_TRADABLE, AR_BOOK_UNAVAILABLE}"
    by (auto simp: availability_reasons_def)
  moreover have "exit_reasons z c p s = Inr es \<Longrightarrow> set es \<subseteq> {AR_EXIT_DEADLINE}" for es
    by (auto simp: exit_reasons_def rbind_Inr_iff split: if_splits)
  ultimately show ?thesis
    using assms by (auto simp: enforced_reasons_def entry_reasons_def rbind_Inr_iff)
qed

text \<open>Once the planner has passed the no-new-entry cutoff, its state blocks managed entries.\<close>

lemma planned_cutoff_blocks_entry:
  assumes "ordered_policy p" and "plan_justified p (now, e, superseded) pl"
    and "wt_us (the (np_no_new_entry_at p)) \<le> wall_clock now" and "as_state s = pl_state pl"
    and "oc_exposure c = Some x" and "no_overnight_managed x"
  shows "\<not> entry_admissible sha z c p s expected"
proof -
  have "tl (cutoff_us p) = wt_us (the (np_no_new_entry_at p)) # tl (tl (cutoff_us p))"
    by (simp add: cutoff_us_def session_cutoffs_def)
  then have "0 < phase_rank p (wall_clock now)"
    using assms(3) unfolding phase_rank_def by (metis filter.simps(2) length_greater_0_conv list.discI)
  then have "pl_state pl \<noteq> NORMAL" using assms(2) by auto
  with assms(4-6) show ?thesis
    by (simp add: entry_admissible_def entry_exposure_ok_def managed_entry_open_def Let_def)
qed

section \<open>An admitted entry\<close>

definition admission_digest :: string where
  "admission_digest = replicate 64 CHR ''a''"

definition intraday_exposure :: exposure_identity where
  "intraday_exposure = \<lparr>ei_exposure_id = ''x'', ei_account_scope_id = ''acct'',
     ei_policy_family_id = ''family'', ei_owner_origin = ''MANUAL_WEB'', ei_owner_id = ''me'',
     ei_holding_horizon = INTRADAY, ei_entry_session_date = Some 20270,
     ei_entry_policy_version = ''v1'', ei_entry_policy_digest = admission_digest,
     ei_identity_schema_version = EXPOSURE_IDENTITY_VERSION\<rparr>"

definition intraday_entry :: "datetime \<Rightarrow> order_command" where
  "intraday_entry t = (example_command BUY 1000)\<lparr>oc_requested_at := t, oc_exposure := Some intraday_exposure,
     oc_position_action := Some OPEN_LONG\<rparr>"

definition calm_snapshot :: "datetime \<Rightarrow> admission_snapshot" where
  "calm_snapshot t = \<lparr>as_evaluated_at = t, as_session_date = 20270, as_state = NORMAL,
     as_state_revision = 0, as_policy_digest = admission_digest, as_calendar_digest = ''digest'',
     as_session_open = True, as_instrument_tradable = True, as_executable_book_ready = True,
     as_guard_owned = True, as_guard_healthy = True, as_recovery_required = False,
     as_breach_latched = False, as_breach_session_date = None, as_breach_revision = 0\<rparr>"

lemma admission_digest_sha: "is_sha256 admission_digest"
  by code_simp

theorem entry_admission_exact_witness:
  "\<exists>d. evaluate_execution_admission taipei_zones (\<lambda>_. admission_digest) (intraday_entry (taipei_at 10 0))
        example_no_overnight_policy (calm_snapshot (taipei_at 10 1)) (Some admission_digest) True = Inr d
     \<and> ad_status d = ADM_APPROVED"
proof -
  have "np_mode example_no_overnight_policy = ENFORCING" by code_simp
  moreover have "oc_side (intraday_entry (taipei_at 10 0)) = BUY" by code_simp
  moreover have "admission_arguments (Some admission_digest) True = Inr ()" by code_simp
  ultimately obtain z d where "taipei_zones (np_timezone example_no_overnight_policy) = Some z"
    "evaluate_execution_admission taipei_zones (\<lambda>_. admission_digest) (intraday_entry (taipei_at 10 0))
       example_no_overnight_policy (calm_snapshot (taipei_at 10 1)) (Some admission_digest) True = Inr d"
    "ad_status d = ADM_APPROVED \<longleftrightarrow> entry_admissible (\<lambda>_. admission_digest) z
       (intraday_entry (taipei_at 10 0)) example_no_overnight_policy (calm_snapshot (taipei_at 10 1))
       (Some admission_digest)"
    using entry_admission_exact [OF example_policy_accepted _ _ _ admission_digest_sha] by blast
  moreover have "entry_admissible (\<lambda>_. admission_digest) (the (taipei_zones ''Asia/Taipei''))
       (intraday_entry (taipei_at 10 0)) example_no_overnight_policy (calm_snapshot (taipei_at 10 1))
       (Some admission_digest)" by code_simp
  moreover have "np_timezone example_no_overnight_policy = ''Asia/Taipei''" by code_simp
  ultimately show ?thesis by (intro exI [of _ d]) simp
qed

end
