(* ===== verification/Spec2Isabelle.thy ===== *)
theory Spec2Isabelle
  imports Execution_Costs Exit_Recommendation Risk_Gate Kill_Switch Momentum_Runs Momentum_Signals Subscriptions Local_Paper_Recovery No_Overnight_Admission
begin

text \<open>
  A verification library for the decision core of a Taiwan intraday trader (Python sources
  under \<open>src/\<close>). The program ranks candidates and subscribes to their quotes, watches five-second
  feature snapshots, tracks momentum episodes, sends simulated orders through a risk gate and a
  no-overnight admission into a local paper broker, monitors the thesis of every open trade,
  recommends exits, plans the book flat before the close, and records every decision in an
  append-only journal from which the process recovers after a restart.

  \<^bold>\<open>Foundations.\<close>
  \<^item> \<open>Prelude\<close>: exceptions as values (\<open>pyerr\<close>, \<open>'a res = pyerr + 'a\<close>; a \<open>raise\<close> is \<open>Inl\<close>), Python's
    \<open>Decimal\<close> at its default context (28 significant digits, half-even: \<open>round28\<close>, with the
    monotonicity and error lemmas every price argument rests on), aware and naive times, ASCII
    strings, JSON values, dictionaries as association lists in insertion order.
  \<^item> \<open>Calendar\<close>: dates, \<open>isoformat\<close>, \<open>date.fromisoformat\<close>, wall clocks and padded numbers.
  \<^item> \<open>Canonical_Values\<close>: \<open>trading/canonical_values.py\<close> and the conversions \<open>str\<close>, \<open>int\<close>, \<open>Decimal\<close>
    the readers of payloads use; a finite decimal is read back from its canonical text.
  \<^item> \<open>Exposure\<close>: \<open>trading/exposure.py\<close> - exposure identities, their codec and builders.
  \<^item> \<open>Journal\<close>: \<open>trading/journal.py\<close> - sessions, records, checkpoints, the in-memory repository, and
    the locale \<open>journal_repository\<close>: the operations a client calls and the laws they obey. The
    in-memory repository is its interpretation \<open>mem\<close>.

  \<^bold>\<open>From candidates to signals.\<close>
  \<^item> \<open>Candidate_Pool\<close>: \<open>candidate/models.py\<close>, \<open>sources.py\<close>, \<open>pool.py\<close>, \<open>market_data/scanner.py\<close> - the
    discoveries of each source and the pool that merges, expires and ranks them.
  \<^item> \<open>Subscriptions\<close>: \<open>market_data/subscriptions.py\<close>, \<open>config/momentum.py\<close> - the quote subscription
    manager as a state with a request and acknowledgement step relation \<open>sub_step\<close>.
  \<^item> \<open>Signal_Models\<close>: \<open>signals/models.py\<close>, \<open>features/models.py\<close> and the entry-policy contracts.
  \<^item> \<open>Momentum_Signals\<close>: \<open>signals/evidence.py\<close>, \<open>opening_momentum.py\<close>, \<open>momentum.py\<close> - scored
    evidence, the opening and limit-up families and the router between them.
  \<^item> \<open>Momentum\<close>, \<open>Momentum_Runs\<close>: \<open>signals/momentum_state.py\<close> - the episode state machine and its
    behaviour over any sequence of evaluations.

  \<^bold>\<open>From order to book.\<close>
  \<^item> \<open>Execution_Costs\<close>: \<open>simulation/execution_costs.py\<close> - tick bands, slippage, commission, tax and
    fill accounting.
  \<^item> \<open>Risk_Gate\<close>: \<open>trading/risk.py\<close> - commands, policy, snapshot, the order gate and the exit
    eligibility gate.
  \<^item> \<open>No_Overnight\<close>: \<open>config/no_overnight.py\<close>, \<open>trading/no_overnight.py\<close> - the policy with its ordered
    session cutoffs, the evidence, the strict flat proof, the transition planner, and \<open>plan_run\<close>,
    the controller's successive plans of a session.
  \<^item> \<open>No_Overnight_Admission\<close>: \<open>trading/no_overnight_admission.py\<close> - the admission snapshot with its
    revision fence, the decision, its payload, and the evaluation of a command.
  \<^item> \<open>Kill_Switch\<close>: \<open>trading/kill_switch.py\<close>, \<open>simulation/kill_switch.py\<close> - a durable control state
    over any journal; client of the locale, with the step relation \<open>ks_step\<close>: requests, restarts
    and the journal commands of other components.
  \<^item> \<open>Local_Paper_Fills\<close>, \<open>Local_Paper_Exposures\<close>, \<open>Local_Paper_Projection\<close>: \<open>trading/local_paper.py\<close> -
    decoding and validating v1 to v4 fill records, the exposure ledger and the monetary projection
    as reducers over journal records. \<open>Local_Paper_Solvency\<close> holds their invariants;
    \<open>Local_Paper_Recovery\<close> the import manifest, baselines, archive, replay and checkpoints, with the
    locale \<open>checkpoint_repository\<close> (an extension of \<open>journal_repository\<close>) interpreted by the
    in-memory repository as \<open>mem_checkpoints\<close>.

  \<^bold>\<open>From trade to exit.\<close>
  \<^item> \<open>Trade_Management\<close>: \<open>trading/trade_management.py\<close> - theses, conditions, evaluations, trades and
    exit plans with their constructors' validation.
  \<^item> \<open>Thesis_Monitor\<close>: \<open>trading/thesis_monitor.py\<close> - the evaluation of a thesis on market data.
  \<^item> \<open>Exit_Recommendation\<close>: \<open>trading/exit_recommendation.py\<close> - the recommendation engine above it.

  \<^bold>\<open>Correspondence.\<close> A class becomes a record with a two-letter field prefix; its \<open>__post_init__\<close>
  becomes \<open><class>_post_init\<close>, which returns the first error the constructor would raise, or
  \<open>make_<class>\<close> where the constructor also normalizes; a factory or method becomes one function
  that returns the new value, or the error, and the updated state. Enum values keep the names of
  the source. Digests are computed by a parameter \<open>sha :: json \<Rightarrow> string\<close>, which stands for SHA-256
  over the canonical JSON text; where an argument needs more of it than that it is a function, the
  theorem says so (64 hexadecimal characters). \<open>JDec\<close>, \<open>JDate\<close> and \<open>JTime\<close> stand for the text a
  decimal, date or time is written as, so a reader gets that text from them; the trailing zeros a
  Decimal may carry are not observed. Clocks, time-zone rules and databases are parameters too.
  Strings are ASCII. A method guarded by a lock is one step. Code equations beside a definition
  (\<open>round28_code\<close>, \<open>space_bits\<close>, \<open>lower_bits\<close>) only speed up evaluation.

  \<^bold>\<open>What the lemmas show.\<close> Candidates and quotes: a pinned candidate stays, the account's
  subscription limit is respected and a held position keeps its quotes in every reachable state.
  Signals: a trigger needs the session, its regime and its score; acceleration is confirmed as the
  configured set says. Momentum: episodes only advance, identifiers are never reused, cooldowns hold, and a sound
  snapshot always gets a signal and an update. Execution costs: rounding up is the least valid tick
  that covers the price, slippage never improves a price, a fill's cash, commission and tax add up
  as the context rounds them.
  Risk gate: an approved buy can always be paid, approval is antitone in quantity, the sell gate and
  the exit gate agree. No-overnight: the planner is total over a session, only moves forward and
  proves every confirmed-flat state; admission approves exactly the admissible entries. Local
  Paper: replay keeps cash non-negative and positions positive, the monetary positions are the
  exposures added up as long as only v4 fills follow the import, a checkpoint recovers what was
  written, and the import of a book that holds positions fails (a defect of the code). Thesis monitor
  and exit engine: validated inputs always give a valid evaluation, an INVALID verdict rests on complete data,
  recommendations only grow. Journal: append-only history, idempotent retries, all-or-none opening.
  Kill switch: the state is the replay of its journal in every reachable state, only a reset
  against the current revision releases it, and a restart keeps it.

  \<^bold>\<open>Bounds.\<close> Prices up to \<open>10^11\<close> (a limit up to \<open>10^12\<close>), quantities up to \<open>10^9\<close>, earlier fills of
  an order up to \<open>10^21\<close> and raw prices of at most 27 digits appear where a theorem needs that the
  28 digits of the context do not round. The definitions round every sum, product and quotient, and
  \<open>quantize\<close> raises where its result has more than 28 digits; what \<open>%\<close> and \<open>to_integral_value\<close> raise
  for prices of more than \<open>10^26\<close> TWD is not modelled. Every recursion is structural or over the
  size of a JSON value, so no fuel is used.

  \<^bold>\<open>Not modelled.\<close> The dashboard and its HTTP server, market-data providers, PostgreSQL
  repositories (their contract is the locale), the threaded simulation service, the no-overnight
  controller with its journal projection and breach lifecycle, order-state outcome records,
  backtests and calibration, the binary-float rules and feature calculators, scripts. Text normalisation is that of ASCII strings; Python's type checks
  (\<open>isinstance\<close>) are discharged by the types of the model, except where a Decimal may be a NaN or an
  infinity (\<open>dec_input\<close>, \<open>py_decimal\<close>) or a payload is read. Messages built from an inner error are
  abbreviated (\<open>recover\<close>).
\<close>

section \<open>From snapshot to episode\<close>

text \<open>
  What the feature pipeline guarantees of the next snapshot of a session: its day and price, its
  time order, lock evidence not older than the current lock, and a cooldown that ends before
  midnight.
\<close>

definition sound_snapshot ::
  "momentum_machine \<Rightarrow> feature_snapshot \<Rightarrow> lock_observation option \<Rightarrow> bool" where
  "sound_snapshot m s ob \<longleftrightarrow> evaluable s
     \<and> dt_date (fs_as_of s) = mm_session_date m \<and> fv_status (fs_price s) = FS_VALID
     \<and> (\<forall>x. ob = Some x \<longrightarrow> instant (lo_observed_at x) \<le> instant (fs_as_of s))
     \<and> (\<exists>price. decimal_value (fs_price s) = Some price \<and> 0 < price)
     \<and> (fv_status (fs_previous_intraday_high s) = FS_VALID \<longrightarrow>
          (\<exists>high. decimal_value (fs_previous_intraday_high s) = Some high \<and> 0 < high))
     \<and> usable_lock (mm_session_date m)
          (case mm_active m (fs_symbol s) of None \<Rightarrow> None | Some e \<Rightarrow> me_limit_locked_at e) ob
     \<and> (\<forall>t. mm_last_as_of m (fs_symbol s) = Some t \<longrightarrow> instant t \<le> instant (fs_as_of s))
     \<and> 0 \<le> smc_cooldown (mm_config m)
     \<and> dt_date (dt_plus (fs_as_of s) (smc_cooldown (mm_config m))) = mm_session_date m"

lemma sound_snapshot_input:
  assumes "sound_snapshot m s ob" and "signal_for s g" and "\<forall>j. \<not> blank (sha j)"
  shows "sound_input sha m s g ob"
proof -
  have g: "sr_symbol g = fs_symbol s" "sr_as_of g = fs_as_of s" "\<not> blank (sr_config_version g)"
    using assms(2) by (simp_all add: signal_for_def signal_post_init_iff)
  have s: "\<not> blank (fs_symbol s)" "dt_aware (fs_as_of s)"
    using assms(1) evaluable_fields by (auto simp: sound_snapshot_def)
  show ?thesis
    using assms(1,3) g s
    by (auto simp: sound_snapshot_def sound_input_def validate_input_Inr usable_signal_def
        signal_digest_def usable_lock_def)
qed

text \<open>
  C16. The signal pipeline never stops on well-formed data, with configurations that weigh each rule
  once and never negatively: whatever the machine has evaluated
  before, the engine returns a signal for the next sound snapshot, and the state machine returns
  an update for it.
\<close>

theorem momentum_pipeline_returns:
  assumes "weights_ok (op_weights oc) OPENING_RULES" and "weights_ok (lu_weights lc) LIMIT_UP_RULES"
    and "\<not> blank (fc_version (op_family oc))" and "\<not> blank (fc_version (lu_family lc))"
    and "\<forall>j. \<not> blank (sha j)"
    and "sound_snapshot (run_machine sha (new_machine day c p) xs) s ob"
  shows "\<exists>g u n. signal_engine_evaluate oc lc s = Inr g
     \<and> momentum_evaluate sha (run_machine sha (new_machine day c p) xs) s g ob = (Inr u, n)"
proof -
  have "evaluable s" using assms(6) by (simp add: sound_snapshot_def)
  then obtain g where g: "signal_engine_evaluate oc lc s = Inr g" "signal_for s g"
    using signal_engine_returns_for [OF assms(1-4)] by blast
  have "sound_input sha (run_machine sha (new_machine day c p) xs) s g ob"
    by (rule sound_snapshot_input [OF assms(6) g(2) assms(5)])
  from momentum_evaluate_total [OF run_machine_new run_machine_timed
      [OF new_machine_wf new_machine_timed] this] g(1)
  show ?thesis by blast
qed

lemma sample_sound:
  "sound_snapshot (new_machine 20270 MOMENTUM_STATE_HYPOTHESIS_V0 LIMIT_LOCK_HYPOTHESIS_V0)
     (Signal_Models.example_snapshot 700 101 (1 / 50)) None"
proof -
  have "dt_date (example_clock 700) = 20270" "dt_date (dt_plus (example_clock 700) 120000000) = 20270"
    by code_simp+
  then show ?thesis
    using sample_evaluable
    by (simp add: sound_snapshot_def new_machine_def usable_lock_def MOMENTUM_STATE_HYPOTHESIS_V0_def)
qed

theorem momentum_pipeline_returns_witness:
  "\<exists>g u n. signal_engine_evaluate OPENING_MOMENTUM_HYPOTHESIS_V0 LIMIT_UP_MOMENTUM_HYPOTHESIS_V0
       (Signal_Models.example_snapshot 700 101 (1 / 50)) = Inr g
     \<and> momentum_evaluate (\<lambda>_. ''digest'') (new_machine 20270 MOMENTUM_STATE_HYPOTHESIS_V0
         LIMIT_LOCK_HYPOTHESIS_V0) (Signal_Models.example_snapshot 700 101 (1 / 50)) g None = (Inr u, n)"
proof -
  have "\<forall>j :: json. \<not> blank ((\<lambda>_. ''digest'') j)" by (simp add: blank_iff py_space_def)
  from momentum_pipeline_returns [OF shipped_weights this, where xs = "[]"] sample_sound
  show ?thesis by simp
qed

end
